(* ===== verification/Prelude.thy ===== *)
theory Prelude
  imports Main "HOL-Library.Word"
begin

text \<open>
  Shared ground of the development: the names of the machine integers of the C code,
  the named collections of rules the component theories feed and use, and generic lemmas on
  words, lists and little-endian bytes that no component owns.

  \<^item> \<open>u8\<close>, \<open>u16\<close>, \<open>u32\<close>, \<open>u64\<close> are \<^verbatim>\<open>uint8_t\<close> .. \<^verbatim>\<open>uint64_t\<close>; a C \<^verbatim>\<open>int\<close> is \<open>int\<close> where the
    code keeps it far from its bounds, and \<open>32 word\<close> read with \<open>sint\<close> where it does not.
  \<^item> \<open>bytes\<close> is a byte buffer; an index past its end is an error of the code, so every
    model that reads through a caller-supplied index checks it (\<open>rd8\<close>).
\<close>

unbundle bit_operations_syntax

section \<open>Machine integers and buffers\<close>

type_synonym u8 = "8 word"
type_synonym u16 = "16 word"
type_synonym u32 = "32 word"
type_synonym u64 = "64 word"
type_synonym bytes = "u8 list"

text \<open>
  Undefined behaviour of the C code that the models make visible as an error value instead of
  choosing an outcome for it: a null dereference, an access outside an object, an access to a
  freed object, a mutex locked twice by its holder, a read of a variable that was never written; and a failed
  \<^verbatim>\<open>assert\<close>, which ends the program.
\<close>

datatype c_error = NullDeref | OutOfBounds | UseAfterFree | Deadlock | Uninitialised | AssertFailed

type_synonym ptr = nat

abbreviation (input) NULL :: ptr where "NULL \<equiv> 0"

named_theorems wire \<open>layout of the packed structures: length, read after write, frame\<close>
named_theorems model_defs \<open>definitions a component's proofs unfold together\<close>

section \<open>Error numbers\<close>

definition EIO :: int where "EIO = 5"
definition EFAULT :: int where "EFAULT = 14"
definition EINVAL :: int where "EINVAL = 22"
definition ENOMEM :: int where "ENOMEM = 12"
definition EAGAIN :: int where "EAGAIN = 11"
definition ENODEV :: int where "ENODEV = 19"
definition ENOENT :: int where "ENOENT = 2"
definition EINTR :: int where "EINTR = 4"
definition EACCES :: int where "EACCES = 13"
definition EBUSY :: int where "EBUSY = 16"
definition ERESTARTSYS :: int where "ERESTARTSYS = 512"

lemmas errno_defs =
  EIO_def EFAULT_def EINVAL_def ENOMEM_def EAGAIN_def ENODEV_def
  ENOENT_def EINTR_def EACCES_def EBUSY_def ERESTARTSYS_def

section \<open>What the DRM core exchanges with its drivers\<close>

datatype drm_connector_status = connector_status_connected | connector_status_disconnected | connector_status_unknown

datatype drm_mode_status = MODE_OK | MODE_BAD

text \<open>
  The kernel's display mode, as far as both drivers read it: \<open>vrefresh\<close> is what
  \<^verbatim>\<open>drm_mode_vrefresh\<close> computes for it.
\<close>

record drm_display_mode =
  hdisplay :: u16
  vdisplay :: u16
  vrefresh :: int

section \<open>Sequencing of fallible code\<close>

definition ebind :: "'e + 'a \<Rightarrow> ('a \<Rightarrow> 'e + 'b) \<Rightarrow> 'e + 'b" where
  "ebind m f = (case m of Inl e \<Rightarrow> Inl e | Inr x \<Rightarrow> f x)"

lemma ebind_simps [simp]: "ebind (Inl e) f = Inl e" "ebind (Inr x) f = f x"
  by (simp_all add: ebind_def)

lemma ebind_cong [fundef_cong]:
  "m = m' \<Longrightarrow> (\<And>x. m' = Inr x \<Longrightarrow> f x = g x) \<Longrightarrow> ebind m f = ebind m' g"
  by (auto simp: ebind_def split: sum.splits)

lemma ebind_eq_Inr: "ebind m f = Inr y \<longleftrightarrow> (\<exists>x. m = Inr x \<and> f x = Inr y)"
  by (auto simp: ebind_def split: sum.splits)

lemma ebind_eq_Inl: "ebind m f = Inl e \<longleftrightarrow> m = Inl e \<or> (\<exists>x. m = Inr x \<and> f x = Inl e)"
  by (auto simp: ebind_def split: sum.splits)

text \<open>A read of the byte at index \<open>k\<close>.\<close>

definition rd8 :: "bytes \<Rightarrow> nat \<Rightarrow> c_error + u8" where
  "rd8 b k = (if k < length b then Inr (b ! k) else Inl OutOfBounds)"

lemma rd8_ok [simp]: "k < length b \<Longrightarrow> rd8 b k = Inr (b ! k)"
  by (simp add: rd8_def)

section \<open>Words\<close>

lemma word_div_unat: "unat (a div b :: 'a::len word) = unat a div unat b"
  by (simp add: unat_div)

lemma unat_add_no_wrap:
  "unat (a :: 'a::len word) + unat b < 2 ^ LENGTH('a) \<Longrightarrow> unat (a + b) = unat a + unat b"
  by (simp add: unat_word_ariths)

lemma unat_mult_no_wrap:
  "unat (a :: 'a::len word) * unat b < 2 ^ LENGTH('a) \<Longrightarrow> unat (a * b) = unat a * unat b"
  by (simp add: unat_word_ariths)

lemma unat_sub_no_wrap:
  "(b :: 'a::len word) \<le> a \<Longrightarrow> unat (a - b) = unat a - unat b"
  by (rule unat_sub)

lemma unat_lt_2_32: "unat (w :: u32) < 4294967296"
  using unsigned_less [of w] by simp

lemma unat_lt_2_16: "unat (w :: u16) < 65536"
  using unsigned_less [of w] by simp

lemma unat_lt_2_8: "unat (w :: u8) < 256"
  using unsigned_less [of w] by simp

lemma unat_ucast_up:
  assumes "LENGTH('a) \<le> LENGTH('b)"
  shows "unat (ucast (w :: 'a::len word) :: 'b::len word) = unat w"
proof -
  have "unat w < 2 ^ LENGTH('a)" by simp
  also have "\<dots> \<le> 2 ^ LENGTH('b)" using assms by (simp add: power_increasing)
  finally show ?thesis by (simp add: unsigned_ucast_eq take_bit_nat_eq_self_iff)
qed

lemma and_ff: "(v :: 'a::len word) AND 255 = take_bit 8 v"
  by (simp add: take_bit_eq_mask mask_eq_exp_minus_1)

lemma bit_low_byte: "bit (ucast ((v :: 'a::len word) AND 255) :: u8) i \<longleftrightarrow> i < 8 \<and> bit v i"
  by (auto simp: and_ff bit_simps dest: bit_imp_le_length)

lemma add_min_diff_le: "(a::nat) \<le> p \<Longrightarrow> a + min m (p - a) \<le> p"
  by simp

section \<open>Ceiling division\<close>

lemma ceil_div_pos: "0 < (m::nat) \<Longrightarrow> 0 < n \<Longrightarrow> 0 < (n + m - 1) div m"
  by (simp add: div_greater_zero_iff)

lemma ceil_div_mult_ge:
  assumes "0 < (m::nat)" shows "n \<le> (n + m - 1) div m * m"
proof -
  have "(n + m - 1) mod m < m" using assms by simp
  moreover have "(n + m - 1) div m * m + (n + m - 1) mod m = n + m - 1" by simp
  ultimately show ?thesis using assms by linarith
qed

lemma ceil_div_pred_mult_less:
  assumes "0 < (m::nat)" "0 < n" shows "((n + m - 1) div m - 1) * m < n"
proof -
  have "(n + m - 1) div m * m \<le> n + m - 1" by simp
  moreover have "((n + m - 1) div m - 1) * m = (n + m - 1) div m * m - m"
    by (simp add: diff_mult_distrib)
  ultimately show ?thesis using assms by linarith
qed

lemma less_ceil_div_iff:
  assumes "0 < (m::nat)" shows "i < (n + m - 1) div m \<longleftrightarrow> i * m < n"
proof
  assume i: "i < (n + m - 1) div m"
  then have "0 < n"
    using assms by (cases n) auto
  have "i * m \<le> ((n + m - 1) div m - 1) * m"
    using i by (intro mult_le_mono1) simp
  also have "\<dots> < n" by (rule ceil_div_pred_mult_less) fact+
  finally show "i * m < n" .
next
  assume "i * m < n"
  also have "n \<le> (n + m - 1) div m * m" by (rule ceil_div_mult_ge) fact
  finally show "i < (n + m - 1) div m" using assms by simp
qed

end
