(* ===== verification/WireBytes.thy ===== *)
theory WireBytes
  imports Prelude
begin

text \<open>
  Little-endian fields of packed byte buffers: \<^verbatim>\<open>write_le16\<close>, \<^verbatim>\<open>write_le32\<close> and \<^verbatim>\<open>read_le32\<close> of
  \<^verbatim>\<open>mac/t6proto/src/t6proto.c\<close>. The same layout is what the packed structures of the Linux
  driver and of the vendor daemon have in memory on the little-endian hosts they run on, so
  the other components write their headers with these functions too.

  A C pointer \<^verbatim>\<open>out + k\<close> is the pair of the buffer and \<open>k\<close>; a write returns the new buffer.
  The locale \<open>field_codec\<close> is the contract of one field kind (read after write, frame,
  length); \<open>two_fields\<close> adds that disjoint fields do not disturb each other. Both are
  interpreted for bytes, 16-bit and 32-bit fields.
\<close>

section \<open>Writers and readers\<close>

definition write_u8 :: "bytes \<Rightarrow> nat \<Rightarrow> u8 \<Rightarrow> bytes" where
  "write_u8 out k v = out[k := v]"

definition read_u8 :: "bytes \<Rightarrow> nat \<Rightarrow> u8" where
  "read_u8 b k = b ! k"

definition write_le16 :: "bytes \<Rightarrow> nat \<Rightarrow> u16 \<Rightarrow> bytes" where
  "write_le16 out k v =
     out[k := ucast (v AND 0xff),
         k + 1 := ucast (drop_bit 8 v AND 0xff)]"

definition write_le32 :: "bytes \<Rightarrow> nat \<Rightarrow> u32 \<Rightarrow> bytes" where
  "write_le32 out k v =
     out[k := ucast (v AND 0xff),
         k + 1 := ucast (drop_bit 8 v AND 0xff),
         k + 2 := ucast (drop_bit 16 v AND 0xff),
         k + 3 := ucast (drop_bit 24 v AND 0xff)]"

definition read_le32 :: "bytes \<Rightarrow> nat \<Rightarrow> u32" where
  "read_le32 b k =
     ucast (b ! k) OR push_bit 8 (ucast (b ! (k + 1))) OR
     push_bit 16 (ucast (b ! (k + 2))) OR push_bit 24 (ucast (b ! (k + 3)))"

definition read_le16 :: "bytes \<Rightarrow> nat \<Rightarrow> u16" where
  "read_le16 b k = ucast (b ! k) OR push_bit 8 (ucast (b ! (k + 1)))"

text \<open>\<^verbatim>\<open>memcpy(out + k, src, length src)\<close>.\<close>

definition write_bytes :: "bytes \<Rightarrow> nat \<Rightarrow> bytes \<Rightarrow> bytes" where
  "write_bytes out k src = take k out @ src @ drop (k + length src) out"

section \<open>The contract of a field\<close>

locale field_codec =
  fixes width :: nat
    and wr :: "bytes \<Rightarrow> nat \<Rightarrow> 'v \<Rightarrow> bytes"
    and rd :: "bytes \<Rightarrow> nat \<Rightarrow> 'v"
  assumes rd_wr: "k + width \<le> length b \<Longrightarrow> rd (wr b k v) k = v"
    and length_wr: "length (wr b k v) = length b"
    and wr_frame: "i < k \<or> k + width \<le> i \<Longrightarrow> wr b k v ! i = b ! i"
    and rd_cong: "(\<And>i. k \<le> i \<Longrightarrow> i < k + width \<Longrightarrow> b ! i = b' ! i) \<Longrightarrow> rd b k = rd b' k"
begin

lemma rd_wr_other:
  assumes "k + width \<le> j \<or> j + width \<le> k"
  shows "rd (wr b j v) k = rd b k"
  using assms by (intro rd_cong wr_frame) auto

lemma rd_append:
  assumes "k + width \<le> length b"
  shows "rd (b @ c) k = rd b k"
  using assms by (intro rd_cong) (simp add: nth_append)

lemma rd_append_right: "rd (b @ c) (length b + k) = rd (replicate (length b) 0 @ c) (length b + k)"
  by (intro rd_cong) (simp add: nth_append)

end

locale two_fields = a: field_codec wa wra rda + b: field_codec wb wrb rdb
  for wa :: nat and wra :: "bytes \<Rightarrow> nat \<Rightarrow> 'v \<Rightarrow> bytes" and rda :: "bytes \<Rightarrow> nat \<Rightarrow> 'v"
    and wb :: nat and wrb :: "bytes \<Rightarrow> nat \<Rightarrow> 'w \<Rightarrow> bytes" and rdb :: "bytes \<Rightarrow> nat \<Rightarrow> 'w"
begin

lemma rda_wrb:
  assumes "k + wa \<le> j \<or> j + wb \<le> k"
  shows "rda (wrb b j v) k = rda b k"
  using assms by (intro a.rd_cong b.wr_frame) auto

lemma rdb_wra:
  assumes "k + wb \<le> j \<or> j + wa \<le> k"
  shows "rdb (wra b j v) k = rdb b k"
  using assms by (intro b.rd_cong a.wr_frame) auto

end

section \<open>The fields satisfy it\<close>

lemma le16_bytes:
  "(ucast (ucast (v AND 0xff) :: u8) :: u16) OR push_bit 8 (ucast (ucast (drop_bit 8 v AND 0xff) :: u8)) = v"
proof (rule bit_word_eqI)
  fix n assume "n < LENGTH(16)"
  then consider "n < 8" | "8 \<le> n" "n < 16" by fastforce
  then show "bit ((ucast (ucast (v AND 0xff) :: u8) :: u16) OR push_bit 8 (ucast (ucast (drop_bit 8 v AND 0xff) :: u8))) n = bit v n"
  by cases (simp_all only: bit_or_iff bit_push_bit_iff bit_low_byte bit_ucast_iff bit_drop_bit_eq, simp_all add: and_ff bit_take_bit_iff bit_drop_bit_eq, auto)
qed

lemma le32_bytes:
  "(ucast (ucast (v AND 0xff) :: u8) :: u32) OR push_bit 8 (ucast (ucast (drop_bit 8 v AND 0xff) :: u8)) OR
   push_bit 16 (ucast (ucast (drop_bit 16 v AND 0xff) :: u8)) OR
   push_bit 24 (ucast (ucast (drop_bit 24 v AND 0xff) :: u8)) = v" (is "?l = v")
proof (rule bit_word_eqI)
  fix n assume "n < LENGTH(32)"
  then consider "n < 8" | "8 \<le> n" "n < 16" | "16 \<le> n" "n < 24" | "24 \<le> n" "n < 32" by fastforce
  then show "bit ?l n = bit v n"
  by cases (simp_all only: bit_or_iff bit_push_bit_iff bit_low_byte bit_ucast_iff bit_drop_bit_eq, simp_all add: and_ff bit_take_bit_iff bit_drop_bit_eq, auto)
qed

interpretation f8: field_codec 1 write_u8 read_u8
  by unfold_locales (auto simp: write_u8_def read_u8_def)

interpretation f16: field_codec 2 write_le16 read_le16
proof unfold_locales
  fix k b v assume "k + 2 \<le> length (b :: bytes)"
  then show "read_le16 (write_le16 b k v) k = v"
    using le16_bytes [of v] by (simp add: read_le16_def write_le16_def)
next
  fix k and b b' :: bytes
  assume "\<And>i. k \<le> i \<Longrightarrow> i < k + 2 \<Longrightarrow> b ! i = b' ! i"
  then show "read_le16 b k = read_le16 b' k" by (simp add: read_le16_def)
qed (auto simp: write_le16_def)

interpretation f32: field_codec 4 write_le32 read_le32
proof unfold_locales
  fix k b v assume "k + 4 \<le> length (b :: bytes)"
  then show "read_le32 (write_le32 b k v) k = v"
    using le32_bytes [of v] by (simp add: read_le32_def write_le32_def)
next
  fix k and b b' :: bytes
  assume "\<And>i. k \<le> i \<Longrightarrow> i < k + 4 \<Longrightarrow> b ! i = b' ! i"
  then show "read_le32 b k = read_le32 b' k" by (simp add: read_le32_def)
qed (auto simp: write_le32_def)

interpretation f8_16: two_fields 1 write_u8 read_u8 2 write_le16 read_le16
  by unfold_locales

interpretation f8_32: two_fields 1 write_u8 read_u8 4 write_le32 read_le32
  by unfold_locales

interpretation f16_32: two_fields 2 write_le16 read_le16 4 write_le32 read_le32
  by unfold_locales

lemmas field_rules [wire] =
  f8.rd_wr f16.rd_wr f32.rd_wr f8.length_wr f16.length_wr f32.length_wr
  f8.rd_wr_other f16.rd_wr_other f32.rd_wr_other
  f8_16.rda_wrb f8_16.rdb_wra f8_32.rda_wrb f8_32.rdb_wra f16_32.rda_wrb f16_32.rdb_wra

lemma length_write_bytes [wire]:
  "k + length src \<le> length out \<Longrightarrow> length (write_bytes out k src) = length out"
  by (simp add: write_bytes_def)

lemma write_bytes_nth:
  "k + length src \<le> length out \<Longrightarrow> i < length out \<Longrightarrow>
   write_bytes out k src ! i = (if k \<le> i \<and> i < k + length src then src ! (i - k) else out ! i)"
  by (auto simp: write_bytes_def nth_append min_def)

lemma take_drop_write_bytes [wire]:
  "k + length src \<le> length out \<Longrightarrow> take (length src) (drop k (write_bytes out k src)) = src"
  by (simp add: write_bytes_def)

text \<open>Writing zeros where there are zeros changes nothing.\<close>

lemma write_zeros_end:
  "length b = k + n \<Longrightarrow> (\<And>i. k \<le> i \<Longrightarrow> i < k + n \<Longrightarrow> b ! i = 0) \<Longrightarrow> write_bytes b k (replicate n 0) = b"
  by (intro nth_equalityI) (auto simp: wire write_bytes_nth)

lemma write_le32_zero:
  assumes "k + 4 \<le> length b" "\<And>i. k \<le> i \<Longrightarrow> i < k + 4 \<Longrightarrow> b ! i = 0"
  shows "write_le32 b k 0 = b"
proof -
  have "b ! k = 0" "b ! (k + 1) = 0" "b ! (k + 2) = 0" "b ! (k + 3) = 0"
    using assms(2) by simp_all
  then have "b[k := 0] = b" "b[k + 1 := 0] = b" "b[k + 2 := 0] = b" "b[k + 3 := 0] = b"
    by (metis list_update_id)+
  then show ?thesis by (simp add: write_le32_def)
qed

end
