(* ===== verification/Fragments.thy ===== *)
theory Fragments
  imports Prelude
begin

text \<open>
  Cutting a payload into packets of a maximal size. The protocol library, the Linux DRM driver
  and the vendor daemon each have a loop of their own that does it; \<open>fragmenter\<close> is what
  their receivers rely on: fragment \<open>i\<close> starts where fragment \<open>i - 1\<close> ended, every fragment but
  the last is full, and the continue flag is set on all but the last. The lemmas proved here
  once say what the receiver gets: the concatenated fragments are the payload.
\<close>

lemma concat_chunks:
  "concat (map (\<lambda>i. take M (drop (i * M) buf)) [0..<n]) = take (n * M) buf"
proof (induction n)
  case 0
  then show ?case by simp
next
  case (Suc n)
  have "take (Suc n * M) buf = take (n * M) buf @ take M (drop (n * M) buf)"
    using take_add [of "n * M" M buf] by (simp add: add.commute)
  with Suc show ?case by simp
qed

locale fragmenter =
  fixes ok :: "nat \<Rightarrow> nat \<Rightarrow> bool"
    and count :: "nat \<Rightarrow> nat \<Rightarrow> nat"
    and off :: "nat \<Rightarrow> nat \<Rightarrow> nat \<Rightarrow> nat"
    and len :: "nat \<Rightarrow> nat \<Rightarrow> nat \<Rightarrow> nat"
    and more :: "nat \<Rightarrow> nat \<Rightarrow> nat \<Rightarrow> bool"
  assumes step_pos: "ok P M \<Longrightarrow> 0 < M"
    and count_law: "ok P M \<Longrightarrow> i < count P M \<longleftrightarrow> i * M < P"
    and off_law: "ok P M \<Longrightarrow> i * M < P \<Longrightarrow> off P M i = i * M"
    and len_law: "ok P M \<Longrightarrow> i * M < P \<Longrightarrow> len P M i = min M (P - i * M)"
    and more_law: "ok P M \<Longrightarrow> i * M < P \<Longrightarrow> more P M i \<longleftrightarrow> Suc i * M < P"
begin

lemma count_mult_ge: "ok P M \<Longrightarrow> P \<le> count P M * M"
  using count_law [of P M "count P M"] by simp

lemma len_pos: "ok P M \<Longrightarrow> i < count P M \<Longrightarrow> 0 < len P M i"
  by (simp add: count_law len_law step_pos)

lemma len_le: "ok P M \<Longrightarrow> i < count P M \<Longrightarrow> len P M i \<le> M"
  by (simp add: count_law len_law)

lemma end_le: "ok P M \<Longrightarrow> i < count P M \<Longrightarrow> off P M i + len P M i \<le> P"
  by (simp add: count_law len_law off_law)

lemma contiguous:
  "ok P M \<Longrightarrow> Suc i < count P M \<Longrightarrow> off P M (Suc i) = off P M i + len P M i"
  by (auto simp: count_law len_law off_law min_def)

lemma first_off: "ok P M \<Longrightarrow> 0 < P \<Longrightarrow> off P M 0 = 0"
  using off_law [of P M 0] by simp

lemma more_iff_not_last: "ok P M \<Longrightarrow> i < count P M \<Longrightarrow> more P M i \<longleftrightarrow> Suc i < count P M"
  by (simp only: more_law count_law)

lemma fragment_bytes:
  assumes "ok P M" "length buf = P" "i < count P M"
  shows "take (len P M i) (drop (off P M i) buf) = take M (drop (i * M) buf)"
  using assms by (simp add: count_law len_law off_law min_def)

lemma reassembly:
  assumes "ok P M" "length buf = P"
  shows "concat (map (\<lambda>i. take (len P M i) (drop (off P M i) buf)) [0..<count P M]) = buf"
proof -
  have eq: "map (\<lambda>i. take (len P M i) (drop (off P M i) buf)) [0..<count P M] =
        map (\<lambda>i. take M (drop (i * M) buf)) [0..<count P M]"
    using assms by (intro map_cong) (simp_all add: fragment_bytes)
  show ?thesis
    unfolding eq concat_chunks using assms count_mult_ge [of P M] by simp
qed

lemma sum_len: "ok P M \<Longrightarrow> (\<Sum>i<count P M. len P M i) = P"
proof -
  assume ok: "ok P M"
  let ?buf = "replicate P ()"
  have "length (concat (map (\<lambda>i. take (len P M i) (drop (off P M i) ?buf)) [0..<count P M])) = P"
    using reassembly [OF ok, of ?buf] by simp
  moreover have "length (concat (map (\<lambda>i. take (len P M i) (drop (off P M i) ?buf)) [0..<n])) =
      (\<Sum>i<n. len P M i)" if "n \<le> count P M" for n
    using that
  proof (induction n)
    case (Suc n)
    with end_le [OF ok, of n] show ?case by (simp add: min_def)
  qed simp
  ultimately show ?thesis by simp
qed

end

end
