(* ===== verification/T6Proto.thy ===== *)
theory T6Proto
  imports WireBytes Fragments
begin

text \<open>
  \<^verbatim>\<open>mac/t6proto/src/t6proto.c\<close> and its header \<^verbatim>\<open>mac/t6proto/include/t6proto.h\<close>: the protocol
  library of the macOS side. Two packed headers are built and serialised (the 32-byte bulk DMA
  header and the 48-byte video flip header), the 64-byte interrupt packet is parsed, and a
  payload is cut into fragments of a maximal packet size.

  The structures are records with the fields of the C structures in their order; the buffers the
  C code fills through a pointer are byte lists that the writers return. All arithmetic is at the
  width of the C code, so every wrap-around of \<^verbatim>\<open>uint32_t\<close> and \<^verbatim>\<open>uint16_t\<close> is in the model.
\<close>

section \<open>Constants\<close>

definition T6_SIGNATURE_DISPLAY :: u32 where "T6_SIGNATURE_DISPLAY = 0x00"
definition T6_PACKET_FLAG_NONE :: u8 where "T6_PACKET_FLAG_NONE = 0x00"
definition T6_PACKET_FLAG_CONTINUE_TO_SEND :: u8 where "T6_PACKET_FLAG_CONTINUE_TO_SEND = 0x01"

definition T6_INT_FUNC_DISPLAY :: u8 where "T6_INT_FUNC_DISPLAY = 0x04"
definition T6_INT_DISPLAY_EVENT_FENCE_ID :: u8 where "T6_INT_DISPLAY_EVENT_FENCE_ID = 0x04"
definition T6_INT_DISPLAY_EVENT_JPEG_ERROR :: u8 where "T6_INT_DISPLAY_EVENT_JPEG_ERROR = 0x08"

definition T6_VIDEO_CMD_FLIP_PRIMARY :: u32 where "T6_VIDEO_CMD_FLIP_PRIMARY = 3"
definition T6_VIDEO_CMD_FLIP_SECONDARY :: u32 where "T6_VIDEO_CMD_FLIP_SECONDARY = 4"
definition T6_VIDEO_COLOR_NV12 :: u32 where "T6_VIDEO_COLOR_NV12 = 6"
definition T6_VIDEO_COLOR_JPEG :: u32 where "T6_VIDEO_COLOR_JPEG = 13"

definition T6_BULK_DMA_HEADER_SIZE :: nat where "T6_BULK_DMA_HEADER_SIZE = 32"
definition T6_VIDEO_FLIP_HEADER_SIZE :: nat where "T6_VIDEO_FLIP_HEADER_SIZE = 48"

lemmas t6_consts =
  T6_SIGNATURE_DISPLAY_def T6_PACKET_FLAG_NONE_def T6_PACKET_FLAG_CONTINUE_TO_SEND_def
  T6_INT_FUNC_DISPLAY_def T6_INT_DISPLAY_EVENT_FENCE_ID_def T6_INT_DISPLAY_EVENT_JPEG_ERROR_def
  T6_VIDEO_CMD_FLIP_PRIMARY_def T6_VIDEO_CMD_FLIP_SECONDARY_def
  T6_VIDEO_COLOR_NV12_def T6_VIDEO_COLOR_JPEG_def
  T6_BULK_DMA_HEADER_SIZE_def T6_VIDEO_FLIP_HEADER_SIZE_def

section \<open>Structures\<close>

record t6_bulk_dma_header =
  signature :: u32
  payload_length :: u32
  payload_address :: u32
  packet_size :: u32
  packet_offset :: u32
  packet_flags :: u8
  packet_reserved :: "u8 list"
  function_specific :: "u8 list"

record t6_video_flip_header =
  command :: u32
  payload_size :: u32
  fence_id :: u32
  target_format :: u32
  y_rgb_pitch :: u16
  uv_pitch :: u16
  y_rgb_data_fb_offset :: u32
  u_uv_data_offset :: u32
  v_data_offset :: u32
  source_format :: u32
  padding :: "u8 list"
  hdr_flags :: u8

record t6_display_interrupt =
  is_display :: bool
  display_data :: u32
  display_event :: u8
  has_fence_id :: bool
  has_jpeg_error :: bool

text \<open>\<^verbatim>\<open>memset(&header, 0, sizeof(header))\<close> for each of them.\<close>

definition zero_bulk_dma_header :: t6_bulk_dma_header where
  "zero_bulk_dma_header =
     \<lparr>signature = 0, payload_length = 0, payload_address = 0, packet_size = 0, packet_offset = 0,
      packet_flags = 0, packet_reserved = replicate 3 0, function_specific = replicate 8 0\<rparr>"

definition zero_video_flip_header :: t6_video_flip_header where
  "zero_video_flip_header =
     \<lparr>command = 0, payload_size = 0, fence_id = 0, target_format = 0, y_rgb_pitch = 0,
      uv_pitch = 0, y_rgb_data_fb_offset = 0, u_uv_data_offset = 0, v_data_offset = 0,
      source_format = 0, padding = replicate 11 0, hdr_flags = 0\<rparr>"

section \<open>Alignment\<close>

text \<open>The cast of the \<^verbatim>\<open>uint32_t\<close> product to \<^verbatim>\<open>uint16_t\<close> keeps the low 16 bits.\<close>

definition align_u16 :: "u16 \<Rightarrow> u16 \<Rightarrow> u16" where
  "align_u16 value alignment =
     ucast ((ucast value + ucast alignment - (1 :: u32)) div ucast alignment * ucast alignment)"

section \<open>Bulk DMA header\<close>

text \<open>
  \<^verbatim>\<open>out\<close> is cleared first, so its previous content does not matter; \<open>packet_reserved\<close> is not
  copied.
\<close>

definition t6_write_bulk_dma_header :: "t6_bulk_dma_header \<Rightarrow> bytes" where
  "t6_write_bulk_dma_header header =
    (let out = replicate T6_BULK_DMA_HEADER_SIZE 0;
         out = write_le32 out 0 (signature header);
         out = write_le32 out 4 (payload_length header);
         out = write_le32 out 8 (payload_address header);
         out = write_le32 out 12 (packet_size header);
         out = write_le32 out 16 (packet_offset header);
         out = write_u8 out 20 (packet_flags header)
     in write_bytes out 24 (function_specific header))"

definition t6_build_display_bulk_header ::
    "u32 \<Rightarrow> u32 \<Rightarrow> u32 \<Rightarrow> u32 \<Rightarrow> bool \<Rightarrow> bytes" where
  "t6_build_display_bulk_header plen paddr psize poff more_packets =
     t6_write_bulk_dma_header
       (zero_bulk_dma_header
         \<lparr>signature := T6_SIGNATURE_DISPLAY,
          payload_length := plen,
          payload_address := paddr,
          packet_size := psize,
          packet_offset := poff,
          packet_flags := (if more_packets then T6_PACKET_FLAG_CONTINUE_TO_SEND
                           else T6_PACKET_FLAG_NONE)\<rparr>)"

section \<open>Video flip header\<close>

definition t6_write_video_flip_header :: "t6_video_flip_header \<Rightarrow> bytes" where
  "t6_write_video_flip_header header =
    (let out = replicate T6_VIDEO_FLIP_HEADER_SIZE 0;
         out = write_le32 out 0 (command header);
         out = write_le32 out 4 (payload_size header);
         out = write_le32 out 8 (fence_id header);
         out = write_le32 out 12 (target_format header);
         out = write_le16 out 16 (y_rgb_pitch header);
         out = write_le16 out 18 (uv_pitch header);
         out = write_le32 out 20 (y_rgb_data_fb_offset header);
         out = write_le32 out 24 (u_uv_data_offset header);
         out = write_le32 out 28 (v_data_offset header);
         out = write_le32 out 32 (source_format header)
     in write_u8 out 47 (hdr_flags header))"

text \<open>\<^verbatim>\<open>(void)command_address\<close>: the argument is not used.\<close>

definition t6_make_jpeg_flip_header ::
    "u8 \<Rightarrow> u32 \<Rightarrow> u16 \<Rightarrow> u16 \<Rightarrow> u32 \<Rightarrow> u32 \<Rightarrow> u8 \<Rightarrow> t6_video_flip_header" where
  "t6_make_jpeg_flip_header display_index psize width height command_address
       framebuffer_address flags =
    (let pitch = align_u16 width 32;
         y_block_size = (ucast pitch :: u32) * ucast (align_u16 height 32) + 1024
     in zero_video_flip_header
         \<lparr>command := (if display_index = 0 then T6_VIDEO_CMD_FLIP_PRIMARY
                      else T6_VIDEO_CMD_FLIP_SECONDARY),
          payload_size := psize,
          target_format := T6_VIDEO_COLOR_NV12,
          y_rgb_pitch := pitch,
          uv_pitch := pitch,
          y_rgb_data_fb_offset := framebuffer_address,
          u_uv_data_offset := framebuffer_address + y_block_size,
          source_format := T6_VIDEO_COLOR_JPEG,
          hdr_flags := flags\<rparr>)"

definition t6_make_nv12_flip_header ::
    "u8 \<Rightarrow> u32 \<Rightarrow> u16 \<Rightarrow> u16 \<Rightarrow> u32 \<Rightarrow> u8 \<Rightarrow> t6_video_flip_header" where
  "t6_make_nv12_flip_header display_index psize width height framebuffer_address flags =
    (let pitch = align_u16 width 16;
         uv_offset = (ucast pitch :: u32) * ucast height;
         y_off = framebuffer_address + of_nat T6_VIDEO_FLIP_HEADER_SIZE
     in zero_video_flip_header
         \<lparr>command := (if display_index = 0 then T6_VIDEO_CMD_FLIP_PRIMARY
                      else T6_VIDEO_CMD_FLIP_SECONDARY),
          payload_size := psize,
          target_format := T6_VIDEO_COLOR_NV12,
          y_rgb_pitch := pitch,
          uv_pitch := pitch,
          y_rgb_data_fb_offset := y_off,
          u_uv_data_offset := y_off + uv_offset,
          source_format := T6_VIDEO_COLOR_NV12,
          hdr_flags := flags\<rparr>)"

section \<open>Interrupt packet\<close>

definition t6_parse_display_interrupt :: "bytes \<Rightarrow> t6_display_interrupt" where
  "t6_parse_display_interrupt packet =
    (let isd = (packet ! 0 AND T6_INT_FUNC_DISPLAY \<noteq> 0);
         ev = packet ! 19
     in \<lparr>is_display = isd,
         display_data = read_le32 packet 12,
         display_event = ev,
         has_fence_id = (isd \<and> ev AND T6_INT_DISPLAY_EVENT_FENCE_ID \<noteq> 0),
         has_jpeg_error = (isd \<and> ev AND T6_INT_DISPLAY_EVENT_JPEG_ERROR \<noteq> 0)\<rparr>)"

section \<open>Fragments of a payload\<close>

definition t6_fragment_count :: "u32 \<Rightarrow> u32 \<Rightarrow> u64" where
  "t6_fragment_count plen max_packet_size =
     (if plen = 0 \<or> max_packet_size = 0 then 0
      else ucast ((plen + max_packet_size - 1) div max_packet_size))"

definition t6_fragment_offset :: "u32 \<Rightarrow> u64 \<Rightarrow> u32" where
  "t6_fragment_offset max_packet_size fragment_index = max_packet_size * ucast fragment_index"

definition t6_fragment_size :: "u32 \<Rightarrow> u32 \<Rightarrow> u64 \<Rightarrow> u32" where
  "t6_fragment_size plen max_packet_size fragment_index =
    (let offset = t6_fragment_offset max_packet_size fragment_index
     in if max_packet_size = 0 \<or> plen \<le> offset then 0
        else let remaining = plen - offset
             in if remaining < max_packet_size then remaining else max_packet_size)"

definition t6_fragment_has_more :: "u32 \<Rightarrow> u32 \<Rightarrow> u64 \<Rightarrow> bool" where
  "t6_fragment_has_more plen max_packet_size fragment_index =
    (let offset = t6_fragment_offset max_packet_size fragment_index;
         size = t6_fragment_size plen max_packet_size fragment_index
     in size \<noteq> 0 \<and> offset + size < plen)"

section \<open>Facts about fragments\<close>

lemma fragment_count_unat:
  assumes "0 < unat m" "unat p + unat m \<le> 2 ^ 32"
  shows "unat (t6_fragment_count p m) = (unat p + unat m - 1) div unat m"
proof (cases "p = 0")
  case True
  then show ?thesis using assms by (simp add: t6_fragment_count_def)
next
  case False
  then have p: "0 < unat p" by (simp add: unat_gt_0)
  have "m \<noteq> 0" using assms by auto
  have "unat (p + m - 1) = unat p + unat m - 1"
  proof (cases "unat p + unat m = 2 ^ 32")
    case True
    then have "unat (p + m) = 0" by (simp add: unat_word_ariths)
    then have "p + m = 0" by (simp only: unat_eq_zero)
    with True show ?thesis by (simp add: unsigned_minus_1_eq_mask mask_eq_exp_minus_1)
  next
    case False
    then have "unat (p + m) = unat p + unat m" using assms by (simp add: unat_add_no_wrap)
    moreover have "1 \<le> p + m" using p calculation by (simp add: word_le_nat_alt)
    ultimately show ?thesis by (simp add: unat_sub_no_wrap)
  qed
  with False \<open>m \<noteq> 0\<close> show ?thesis
    by (simp add: t6_fragment_count_def unat_ucast_up unat_div)
qed

lemma fragment_offset_unat:
  assumes "unat i * unat m < 2 ^ 32" "0 < unat m"
  shows "unat (t6_fragment_offset m i) = unat i * unat m"
proof -
  have "unat i * 1 \<le> unat i * unat m" using assms(2) by (intro mult_le_mono2) simp
  with assms(1) have "unat i < 2 ^ 32" by linarith
  then have "unat (ucast i :: u32) = unat i" by (simp add: unsigned_ucast_eq take_bit_nat_eq_self_iff)
  then show ?thesis
    using assms by (simp add: t6_fragment_offset_def unat_mult_no_wrap mult.commute)
qed

lemma fragment_size_unat:
  assumes "unat i * unat m < unat p" "0 < unat m"
  shows "unat (t6_fragment_size p m i) = min (unat m) (unat p - unat i * unat m)"
proof -
  have o: "unat (t6_fragment_offset m i) = unat i * unat m"
    using less_trans [OF assms(1) unat_lt_2_32] assms(2) by (intro fragment_offset_unat) simp_all
  then have lt: "t6_fragment_offset m i < p" using assms by (simp add: word_less_nat_alt)
  then have "unat (p - t6_fragment_offset m i) = unat p - unat i * unat m"
    using o by (simp add: unat_sub_no_wrap)
  moreover have "m \<noteq> 0" using assms by auto
  moreover have "\<not> p \<le> t6_fragment_offset m i" using lt by simp
  ultimately show ?thesis
    by (simp add: t6_fragment_size_def Let_def word_less_nat_alt min_def)
qed

lemma fragment_has_more_iff:
  assumes "unat i * unat m < unat p" "0 < unat m"
  shows "t6_fragment_has_more p m i \<longleftrightarrow> Suc (unat i) * unat m < unat p"
proof -
  have o: "unat (t6_fragment_offset m i) = unat i * unat m"
    using less_trans [OF assms(1) unat_lt_2_32] assms(2) by (intro fragment_offset_unat) simp_all
  have s: "unat (t6_fragment_size p m i) = min (unat m) (unat p - unat i * unat m)"
    by (rule fragment_size_unat) fact+
  have "unat (t6_fragment_offset m i + t6_fragment_size p m i) =
      unat i * unat m + min (unat m) (unat p - unat i * unat m)"
  proof (subst unat_add_no_wrap)
    have "unat i * unat m + min (unat m) (unat p - unat i * unat m) \<le> unat p"
      by (rule add_min_diff_le) (rule less_imp_le [OF assms(1)])
    also have "\<dots> < 2 ^ LENGTH(32)" by (rule unsigned_less)
    finally show "unat (t6_fragment_offset m i) + unat (t6_fragment_size p m i) < 2 ^ LENGTH(32)"
      by (simp only: o s)
  qed (simp add: o s)
  moreover have "t6_fragment_size p m i \<noteq> 0" using s assms by (auto simp flip: unat_eq_zero)
  ultimately show ?thesis using assms
    by (auto simp: t6_fragment_has_more_def Let_def word_less_nat_alt min_def)
qed
interpretation t6frag: fragmenter
    "\<lambda>P M. 0 < M \<and> M < 2 ^ 32 \<and> P + M \<le> 2 ^ 32"
    "\<lambda>P M. unat (t6_fragment_count (of_nat P) (of_nat M))"
    "\<lambda>P M i. unat (t6_fragment_offset (of_nat M) (of_nat i))"
    "\<lambda>P M i. unat (t6_fragment_size (of_nat P) (of_nat M) (of_nat i))"
    "\<lambda>P M i. t6_fragment_has_more (of_nat P) (of_nat M) (of_nat i)"
proof -
  have pm: "unat (of_nat P :: u32) = P" "unat (of_nat M :: u32) = M"
    if "0 < M \<and> M < 2 ^ 32 \<and> P + M \<le> 2 ^ 32" for P M
    using that by (simp_all add: unat_of_nat)
  have idx: "unat (of_nat i :: u64) = i"
    if "0 < M \<and> M < 2 ^ 32 \<and> P + M \<le> 2 ^ 32" "i * M < P" for P M i
  proof -
    have "i \<le> i * M" using that(1) by simp
    also have "\<dots> < 2 ^ 32" using that by linarith
    finally show ?thesis by (simp add: unat_of_nat)
  qed
  show "fragmenter (\<lambda>P M. 0 < M \<and> M < 2 ^ 32 \<and> P + M \<le> 2 ^ 32)
    (\<lambda>P M. unat (t6_fragment_count (of_nat P) (of_nat M)))
    (\<lambda>P M i. unat (t6_fragment_offset (of_nat M) (of_nat i)))
    (\<lambda>P M i. unat (t6_fragment_size (of_nat P) (of_nat M) (of_nat i)))
    (\<lambda>P M i. t6_fragment_has_more (of_nat P) (of_nat M) (of_nat i))"
  proof unfold_locales
    fix P M i
    assume ok: "0 < M \<and> M < 2 ^ 32 \<and> P + (M::nat) \<le> 2 ^ 32"
    note u = pm [OF ok]
    show "0 < M" using ok by simp
    show "i < unat (t6_fragment_count (of_nat P) (of_nat M)) \<longleftrightarrow> i * M < P"
      using ok u less_ceil_div_iff [of M i P] by (simp add: fragment_count_unat)
    assume i: "i * M < P"
    note n = idx [OF ok i]
    show "unat (t6_fragment_offset (of_nat M) (of_nat i)) = i * M"
      using ok u n i by (subst fragment_offset_unat) simp_all
    show "unat (t6_fragment_size (of_nat P) (of_nat M) (of_nat i)) = min M (P - i * M)"
      using ok u n i by (subst fragment_size_unat) simp_all
    show "t6_fragment_has_more (of_nat P) (of_nat M) (of_nat i) \<longleftrightarrow> Suc i * M < P"
      using ok u n i by (subst fragment_has_more_iff) simp_all
  qed
qed

section \<open>Facts about the headers\<close>

lemma length_bulk_dma_header [wire]:
  "length (function_specific h) = 8 \<Longrightarrow> length (t6_write_bulk_dma_header h) = 32"
  by (simp add: t6_write_bulk_dma_header_def Let_def T6_BULK_DMA_HEADER_SIZE_def wire)

lemma length_video_flip_header [wire]: "length (t6_write_video_flip_header h) = 48"
  by (simp add: t6_write_video_flip_header_def Let_def T6_VIDEO_FLIP_HEADER_SIZE_def wire)

text \<open>What a receiver reads back from the two wire formats.\<close>

definition parse_bulk_dma_header :: "bytes \<Rightarrow> t6_bulk_dma_header" where
  "parse_bulk_dma_header b =
     \<lparr>signature = read_le32 b 0, payload_length = read_le32 b 4, payload_address = read_le32 b 8,
      packet_size = read_le32 b 12, packet_offset = read_le32 b 16, packet_flags = read_u8 b 20,
      packet_reserved = take 3 (drop 21 b), function_specific = take 8 (drop 24 b)\<rparr>"

definition parse_video_flip_header :: "bytes \<Rightarrow> t6_video_flip_header" where
  "parse_video_flip_header b =
     \<lparr>command = read_le32 b 0, payload_size = read_le32 b 4, fence_id = read_le32 b 8,
      target_format = read_le32 b 12, y_rgb_pitch = read_le16 b 16, uv_pitch = read_le16 b 18,
      y_rgb_data_fb_offset = read_le32 b 20, u_uv_data_offset = read_le32 b 24,
      v_data_offset = read_le32 b 28, source_format = read_le32 b 32,
      padding = take 11 (drop 36 b), hdr_flags = read_u8 b 47\<rparr>"

lemma read_write_bytes_before:
  assumes "k + length src \<le> length out"
  shows "j + 4 \<le> k \<Longrightarrow> read_le32 (write_bytes out k src) j = read_le32 out j"
    and "j < k \<Longrightarrow> read_u8 (write_bytes out k src) j = read_u8 out j"
  using assms by (auto intro!: f32.rd_cong simp: write_bytes_nth read_u8_def)

lemma write_le32_nth:
  "i < k \<or> k + 4 \<le> i \<Longrightarrow> write_le32 b k v ! i = b ! i"
  by (rule f32.wr_frame)

lemma take_drop_eqI:
  assumes "k + n \<le> length b" "length c = n" "\<And>i. i < n \<Longrightarrow> b ! (k + i) = c ! i"
  shows "take n (drop k b) = c"
  using assms by (intro nth_equalityI) simp_all

lemma drop_write_bytes_end [wire]:
  "k + length src = length out \<Longrightarrow> drop k (write_bytes out k src) = src"
  by (simp add: write_bytes_def)

lemma t6_bulk_header_roundtrip:
  assumes "length (function_specific h) = 8"
  shows "parse_bulk_dma_header (t6_write_bulk_dma_header h) = h\<lparr>packet_reserved := replicate 3 0\<rparr>"
proof -
  have res: "take 3 (drop 21 (t6_write_bulk_dma_header h)) = replicate 3 0"
    using assms
    by (intro take_drop_eqI)
       (simp_all add: wire t6_write_bulk_dma_header_def Let_def T6_BULK_DMA_HEADER_SIZE_def
         write_bytes_nth write_u8_def write_le32_def)
  have fs: "take 8 (drop 24 (t6_write_bulk_dma_header h)) = function_specific h"
    using assms
    by (simp add: t6_write_bulk_dma_header_def Let_def T6_BULK_DMA_HEADER_SIZE_def wire)
  show ?thesis
    using assms
    by (simp add: parse_bulk_dma_header_def res fs)
       (simp add: t6_write_bulk_dma_header_def Let_def T6_BULK_DMA_HEADER_SIZE_def wire
         read_write_bytes_before)
qed

lemma t6_flip_header_roundtrip:
  "parse_video_flip_header (t6_write_video_flip_header h) = h\<lparr>padding := replicate 11 0\<rparr>"
proof -
  have pad: "take 11 (drop 36 (t6_write_video_flip_header h)) = replicate 11 0"
    by (intro take_drop_eqI)
       (simp_all add: wire t6_write_video_flip_header_def Let_def T6_VIDEO_FLIP_HEADER_SIZE_def
         write_u8_def write_le32_def write_le16_def)
  show ?thesis
    by (simp add: parse_video_flip_header_def pad)
       (simp add: t6_write_video_flip_header_def Let_def T6_VIDEO_FLIP_HEADER_SIZE_def wire)
qed

section \<open>Alignment and planes\<close>

lemma align_u16_unat:
  assumes "0 < unat a"
  shows "unat (align_u16 v a) = (unat v + unat a - 1) div unat a * unat a mod 65536"
proof -
  let ?v = "ucast v :: u32" and ?a = "ucast a :: u32"
  have u: "unat ?v = unat v" "unat ?a = unat a" by (simp_all add: unat_ucast_up)
  have s: "unat (?v + ?a) = unat v + unat a"
    using unat_lt_2_16 [of v] unat_lt_2_16 [of a] by (simp add: unat_add_no_wrap u)
  have "1 \<le> ?v + ?a" using s assms by (simp add: word_le_nat_alt)
  then have t: "unat (?v + ?a - 1) = unat v + unat a - 1" by (simp add: unat_sub_no_wrap s)
  have "(unat v + unat a - 1) div unat a * unat a \<le> unat v + unat a - 1" by simp
  also have "\<dots> < 2 ^ 32" using unat_lt_2_16 [of v] unat_lt_2_16 [of a] by simp
  finally have "unat ((?v + ?a - 1) div ?a * ?a) = (unat v + unat a - 1) div unat a * unat a"
    by (simp add: unat_mult_no_wrap unat_div t u)
  then show ?thesis
    by (simp add: align_u16_def unsigned_ucast_eq take_bit_eq_mod)
qed

lemma align_u16_no_wrap:
  assumes "0 < unat a" "unat v + unat a \<le> 65536"
  shows "unat (align_u16 v a) = (unat v + unat a - 1) div unat a * unat a"
proof -
  have "(unat v + unat a - 1) div unat a * unat a \<le> unat v + unat a - 1" by simp
  also have "\<dots> < 65536" using assms by linarith
  finally show ?thesis using assms by (simp add: align_u16_unat)
qed

lemma align_u16_ge:
  "0 < unat a \<Longrightarrow> unat v + unat a \<le> 65536 \<Longrightarrow> v \<le> align_u16 v a"
  using ceil_div_mult_ge [of "unat a" "unat v"] by (simp add: word_le_nat_alt align_u16_no_wrap)

lemma align_u16_dvd:
  "0 < unat a \<Longrightarrow> unat v + unat a \<le> 65536 \<Longrightarrow> unat a dvd unat (align_u16 v a)"
  by (simp add: align_u16_no_wrap)

lemma align_u16_less:
  "0 < unat a \<Longrightarrow> unat v + unat a \<le> 65536 \<Longrightarrow> unat (align_u16 v a) < unat v + unat a"
  by (simp add: align_u16_no_wrap) (metis One_nat_def add_gr_0 div_times_less_eq_dividend diff_Suc_less le_less_trans)

lemma unat_mult_u16:
  "unat ((ucast (a :: u16) :: u32) * ucast (b :: u16)) = unat a * unat b"
proof -
  have "unat a * unat b \<le> 65535 * 65535"
    using unat_lt_2_16 [of a] unat_lt_2_16 [of b] by (intro mult_le_mono) simp_all
  then show ?thesis by (simp add: unat_mult_no_wrap unat_ucast_up)
qed
section \<open>Properties\<close>

text \<open>
  C22: Cutting a payload into \<^verbatim>\<open>t6_fragment_count\<close> fragments loses nothing: the bytes at
  \<^verbatim>\<open>t6_fragment_offset\<close> of length \<^verbatim>\<open>t6_fragment_size\<close>, concatenated over all fragment indices,
  are the payload, and \<^verbatim>\<open>t6_fragment_has_more\<close> is set on every fragment but the last, whenever
  \<^verbatim>\<open>payload_length + max_packet_size - 1\<close> fits into \<^verbatim>\<open>uint32_t\<close>.
\<close>

theorem t6_fragments_reassemble:
  assumes "0 < unat m" and "unat p + unat m \<le> 2 ^ 32" and "length payload = unat p"
  shows "concat (map (\<lambda>i. take (unat (t6_fragment_size p m (of_nat i)))
                            (drop (unat (t6_fragment_offset m (of_nat i))) payload))
              [0..<unat (t6_fragment_count p m)]) = payload \<and>
         (\<forall>i<unat (t6_fragment_count p m).
            t6_fragment_has_more p m (of_nat i) \<longleftrightarrow> Suc i < unat (t6_fragment_count p m))"
  using t6frag.reassembly [of "unat m" "unat p" payload] t6frag.more_iff_not_last [of "unat m" "unat p"]
    assms unat_lt_2_32 [of m] by simp

theorem t6_fragments_reassemble_witness:
  "concat (map (\<lambda>i. take (unat (t6_fragment_size 7 3 (of_nat i)))
                      (drop (unat (t6_fragment_offset 3 (of_nat i))) [1, 2, 3, 4, 5, 6, 7 :: u8]))
        [0..<unat (t6_fragment_count 7 3)]) = [1, 2, 3, 4, 5, 6, 7]"
  using t6_fragments_reassemble [of 3 7 "[1, 2, 3, 4, 5, 6, 7 :: u8]"] by simp

text \<open>
  The \<^verbatim>\<open>uint32_t\<close> sum in \<^verbatim>\<open>t6_fragment_count\<close> is the only limit of the scheme, and it is a
  real one: for a non-empty payload and packet size the counted fragments span the payload exactly
  when \<^verbatim>\<open>payload_length + max_packet_size - 1\<close> does not wrap. Past that the count is too small and
  the tail of the payload is never sent.
\<close>

theorem t6_fragment_count_covers_iff:
  assumes "p \<noteq> 0" and "m \<noteq> 0"
  shows "unat p \<le> unat (t6_fragment_count p m) * unat m \<longleftrightarrow> unat p + unat m \<le> 2 ^ 32"
proof (cases "unat p + unat m \<le> 2 ^ 32")
  case True
  have "0 < unat m" using assms by (simp add: unat_gt_0)
  with True show ?thesis using ceil_div_mult_ge [of "unat m" "unat p"] by (simp add: fragment_count_unat)
next
  case False
  have m: "0 < unat m" using assms by (simp add: unat_gt_0)
  have "unat (p + m) = unat p + unat m - 2 ^ 32"
    using False unat_lt_2_32 [of p] unat_lt_2_32 [of m]
    by (simp add: unat_word_ariths mod_if)
  moreover from this False have "1 \<le> p + m" by (simp add: word_le_nat_alt)
  ultimately have "unat (p + m - 1) = unat p + unat m - 2 ^ 32 - 1" by (simp add: unat_sub_no_wrap)
  then have "unat (t6_fragment_count p m) * unat m \<le> unat p + unat m - 2 ^ 32 - 1"
    using assms by (simp add: t6_fragment_count_def unat_ucast_up unat_div)
  also have "\<dots> < unat p" using False unat_lt_2_32 [of m] by simp
  finally show ?thesis using False by simp
qed

theorem t6_fragment_count_covers_iff_witness:
  "\<not> unat (0xFFFFFFFF :: u32) \<le> unat (t6_fragment_count 0xFFFFFFFF 0x19000) * unat (0x19000 :: u32)"
  using t6_fragment_count_covers_iff [of "0xFFFFFFFF" "0x19000"] by simp

text \<open>
  The 32-byte bulk DMA header is decoded back from its wire bytes field by field; only the
  reserved bytes are not carried, they are sent as zero.
\<close>

theorem t6_bulk_header_wire:
  assumes "length (function_specific h) = 8"
  shows "length (t6_write_bulk_dma_header h) = T6_BULK_DMA_HEADER_SIZE \<and>
         parse_bulk_dma_header (t6_write_bulk_dma_header h) = h\<lparr>packet_reserved := replicate 3 0\<rparr>"
  using assms by (simp add: length_bulk_dma_header t6_bulk_header_roundtrip T6_BULK_DMA_HEADER_SIZE_def)

theorem t6_bulk_header_wire_witness:
  "parse_bulk_dma_header (t6_write_bulk_dma_header (zero_bulk_dma_header\<lparr>payload_length := 0x87e0\<rparr>)) =
   zero_bulk_dma_header\<lparr>payload_length := 0x87e0\<rparr>"
  using t6_bulk_header_wire [of "zero_bulk_dma_header\<lparr>payload_length := 0x87e0\<rparr>"]
  by (simp add: zero_bulk_dma_header_def)

text \<open>
  A receiver decodes the display bulk header that \<^verbatim>\<open>t6_build_display_bulk_header\<close> builds to
  exactly its arguments: signature display, the lengths, address and offset given, the continue
  flag set precisely when more packets follow, and every other byte zero.
\<close>

theorem t6_display_bulk_header_decoded:
  "parse_bulk_dma_header (t6_build_display_bulk_header plen paddr psize poff cont) =
     \<lparr>signature = T6_SIGNATURE_DISPLAY, payload_length = plen, payload_address = paddr,
      packet_size = psize, packet_offset = poff, packet_flags = of_bool cont,
      packet_reserved = replicate 3 0, function_specific = replicate 8 0\<rparr>"
  by (simp add: t6_build_display_bulk_header_def t6_bulk_header_roundtrip zero_bulk_dma_header_def
      T6_PACKET_FLAG_CONTINUE_TO_SEND_def T6_PACKET_FLAG_NONE_def)

text \<open>
  The 48-byte video flip header is decoded back from its wire bytes field by field; only the
  padding is not carried, it is sent as zero.
\<close>

theorem t6_flip_header_wire:
  "length (t6_write_video_flip_header h) = T6_VIDEO_FLIP_HEADER_SIZE \<and>
   parse_video_flip_header (t6_write_video_flip_header h) = h\<lparr>padding := replicate 11 0\<rparr>"
  by (simp add: length_video_flip_header t6_flip_header_roundtrip T6_VIDEO_FLIP_HEADER_SIZE_def)

text \<open>
  \<^verbatim>\<open>align_u16\<close> rounds up to the least multiple of the alignment as long as that multiple fits
  into 16 bits.
\<close>

theorem t6_align_u16_least:
  assumes "0 < unat a" and "unat v + unat a \<le> 65536"
  shows "v \<le> align_u16 v a \<and> unat a dvd unat (align_u16 v a) \<and>
         (\<forall>w. v \<le> w \<and> unat a dvd unat w \<longrightarrow> align_u16 v a \<le> w)"
proof (intro conjI allI impI)
  fix w assume w: "v \<le> w \<and> unat a dvd unat w"
  then obtain k where k: "unat w = unat a * k" by (auto elim: dvdE)
  obtain j where j: "unat (align_u16 v a) = unat a * j"
    using align_u16_dvd [OF assms] by (auto elim: dvdE)
  have "unat a * j < unat a * Suc k"
    using align_u16_less [OF assms] w k j by (simp add: word_le_nat_alt)
  then have "j \<le> k" by (metis less_Suc_eq_le mult_less_cancel1)
  then show "align_u16 v a \<le> w" by (simp add: word_le_nat_alt j k)
qed (use assms in \<open>simp_all add: align_u16_ge align_u16_dvd\<close>)

theorem t6_align_u16_least_witness:
  "1360 \<le> align_u16 1360 32 \<and> 32 dvd unat (align_u16 1360 32) \<and> align_u16 1360 32 \<le> 1376"
proof -
  have "32 dvd (1376 :: nat)" by presburger
  then show ?thesis using t6_align_u16_least [of 32 1360] by auto
qed

text \<open>
  The planes a JPEG flip header announces do not overlap: the pitch holds a full line, and the
  chroma plane starts after all \<open>height\<close> luma lines plus the 1024 bytes of slack, with no
  wrap-around in the block size.
\<close>

theorem t6_jpeg_flip_planes:
  assumes "unat width \<le> 65504" and "unat height \<le> 65504"
  shows "width \<le> y_rgb_pitch (t6_make_jpeg_flip_header di psize width height ca fb fl) \<and>
    unat (y_rgb_pitch (t6_make_jpeg_flip_header di psize width height ca fb fl)) * unat height + 1024 \<le>
      unat (u_uv_data_offset (t6_make_jpeg_flip_header di psize width height ca fb fl)
            - y_rgb_data_fb_offset (t6_make_jpeg_flip_header di psize width height ca fb fl))"
proof -
  let ?p = "align_u16 width 32" and ?h = "align_u16 height 32"
  have p: "unat ?p \<le> 65504" and h: "unat ?h \<le> 65504" and hh: "unat height \<le> unat ?h"
    using align_u16_no_wrap [of 32 width] align_u16_no_wrap [of 32 height] align_u16_ge [of 32 height]
      assms by (simp_all add: word_le_nat_alt)
  have m: "unat ((ucast ?p :: u32) * ucast ?h) = unat ?p * unat ?h" by (rule unat_mult_u16)
  have "unat ?p * unat ?h \<le> 65504 * 65504" using p h by (intro mult_le_mono)
  then have "unat ((ucast ?p :: u32) * ucast ?h + 1024) = unat ?p * unat ?h + 1024"
    by (subst unat_add_no_wrap) (simp_all add: m)
  moreover have "unat ?p * unat height \<le> unat ?p * unat ?h" using hh by simp
  ultimately show ?thesis
    using assms align_u16_ge [of 32 width] by (simp add: t6_make_jpeg_flip_header_def Let_def)
qed

theorem t6_jpeg_flip_planes_witness:
  "unat (y_rgb_pitch (t6_make_jpeg_flip_header 0 0x87b0 1360 768 0 0 0)) * 768 + 1024 \<le>
   unat (u_uv_data_offset (t6_make_jpeg_flip_header 0 0x87b0 1360 768 0 0 0)
         - y_rgb_data_fb_offset (t6_make_jpeg_flip_header 0 0x87b0 1360 768 0 0 0))"
  using t6_jpeg_flip_planes [of 1360 768 0 "0x87b0" 0 0 0] by simp

text \<open>
  The planes an NV12 flip header announces do not overlap: the luma plane starts right after the
  48-byte header and the chroma plane after exactly \<open>pitch * height\<close> luma bytes.
\<close>

theorem t6_nv12_flip_planes:
  assumes "unat width \<le> 65520"
  shows "width \<le> y_rgb_pitch (t6_make_nv12_flip_header di psize width height fb fl) \<and>
    y_rgb_data_fb_offset (t6_make_nv12_flip_header di psize width height fb fl) - fb =
      of_nat T6_VIDEO_FLIP_HEADER_SIZE \<and>
    unat (u_uv_data_offset (t6_make_nv12_flip_header di psize width height fb fl)
          - y_rgb_data_fb_offset (t6_make_nv12_flip_header di psize width height fb fl)) =
      unat (y_rgb_pitch (t6_make_nv12_flip_header di psize width height fb fl)) * unat height"
proof -
  have "width \<le> align_u16 width 16" using assms by (intro align_u16_ge) simp_all
  then show ?thesis
    by (simp add: t6_make_nv12_flip_header_def Let_def unat_mult_u16)
qed

theorem t6_nv12_flip_planes_witness:
  "unat (u_uv_data_offset (t6_make_nv12_flip_header 0 0 1920 1080 0x1c00000 0)
         - y_rgb_data_fb_offset (t6_make_nv12_flip_header 0 0 1920 1080 0x1c00000 0)) =
   unat (y_rgb_pitch (t6_make_nv12_flip_header 0 0 1920 1080 0x1c00000 0)) * 1080"
  using t6_nv12_flip_planes [of 1920 0 0 1080 "0x1c00000" 0] by simp

end
