(* ===== verification/FrameQueue.thy ===== *)
theory FrameQueue
  imports Prelude
begin

text \<open>
  \<^verbatim>\<open>extracted/.../evdi_t6_1/queue.c\<close> and \<^verbatim>\<open>queue.h\<close>: the thread-safe singly linked queue between
  the encoder thread and the USB thread of the vendor daemon, and the video frames it carries.

  The linked structure is kept: \<open>nodes\<close> is the heap of \<^verbatim>\<open>queue_element_t\<close> objects by address, and
  the queue object holds the \<^verbatim>\<open>first\<close> and \<^verbatim>\<open>last\<close> pointers, the length and the mutex. \<open>malloc\<close> is
  the environment: each operation that allocates takes the address it returned, \<open>NULL\<close> when it
  failed. \<open>present\<close> is false for a null queue pointer. \<open>buf_of\<close> is the \<^verbatim>\<open>buf\<close> field of each frame,
  and \<open>freed\<close> logs the blocks \<^verbatim>\<open>free_video_frame\<close> gives back (its store of \<^verbatim>\<open>NULL\<close> into a frame it
  frees in the next statement is dead and left out).

  The abstract contract is the locale \<open>fifo\<close> (a list, added at the end, removed at the front); the
  representation relation \<open>queue_rep\<close> ties the heap to the list, and the interpretation at the end
  proves that the linked code refines it.
\<close>

section \<open>State\<close>

record queue_element_t =
  elem :: ptr
  "next" :: ptr

record queue_t =
  first :: ptr
  "last" :: ptr
  qlength :: int
  locked :: bool

record qstate =
  nodes :: "ptr \<rightharpoonup> queue_element_t"
  queue :: queue_t
  destroyed :: bool
  buf_of :: "ptr \<Rightarrow> ptr"
  freed :: "ptr list"

definition lock :: "qstate \<Rightarrow> c_error + qstate" where
  "lock s = (if destroyed s then Inl UseAfterFree
             else if locked (queue s) then Inl Deadlock
             else Inr (s\<lparr>queue := (queue s)\<lparr>locked := True\<rparr>\<rparr>))"

definition unlock :: "qstate \<Rightarrow> qstate" where
  "unlock s = s\<lparr>queue := (queue s)\<lparr>locked := False\<rparr>\<rparr>"

definition deref :: "qstate \<Rightarrow> ptr \<Rightarrow> c_error + queue_element_t" where
  "deref s p = (if p = NULL then Inl NullDeref
                else case nodes s p of None \<Rightarrow> Inl UseAfterFree | Some n \<Rightarrow> Inr n)"

section \<open>Video frames\<close>

text \<open>
  Sizes and offsets of \<^verbatim>\<open>VIDEO_FRAME {char *buf; int length;}\<close> on the 64-bit targets. A store
  through a pointer into a block of \<open>blk\<close> bytes is checked.
\<close>

definition sizeof_PVIDEO_FRAME :: nat where "sizeof_PVIDEO_FRAME = 8"
definition offset_buf :: nat where "offset_buf = 0"
definition offset_length :: nat where "offset_length = 8"

definition store_ok :: "nat \<Rightarrow> nat \<Rightarrow> nat \<Rightarrow> c_error + unit" where
  "store_ok blk off width = (if off + width \<le> blk then Inr () else Inl OutOfBounds)"

text \<open>
  \<open>m1\<close> and \<open>m2\<close> are what the two calls of \<^verbatim>\<open>malloc\<close> return. The frame block has the size the code
  asks for, \<^verbatim>\<open>sizeof(PVIDEO_FRAME)\<close>. The result is the frame pointer with the buffer pointer and the
  length, or \<open>None\<close> for \<^verbatim>\<open>NULL\<close>.
\<close>

definition allocate_video_frame :: "ptr \<Rightarrow> ptr \<Rightarrow> int \<Rightarrow> c_error + (ptr \<times> ptr \<times> int) option" where
  "allocate_video_frame m1 m2 len =
    (if m1 = NULL then Inr None
     else case store_ok sizeof_PVIDEO_FRAME offset_buf 8 of
       Inl e \<Rightarrow> Inl e
     | Inr _ \<Rightarrow>
         if m2 = NULL then Inr None
         else case store_ok sizeof_PVIDEO_FRAME offset_length 4 of
           Inl e \<Rightarrow> Inl e
         | Inr _ \<Rightarrow> Inr (Some (m1, m2, len)))"

definition allocate_video_frame2 :: "ptr \<Rightarrow> int \<Rightarrow> c_error + (ptr \<times> int) option" where
  "allocate_video_frame2 m1 len =
    (if m1 = NULL then Inr None
     else case store_ok sizeof_PVIDEO_FRAME offset_length 4 of
       Inl e \<Rightarrow> Inl e
     | Inr _ \<Rightarrow> Inr (Some (m1, len)))"

definition free_video_frame :: "ptr \<Rightarrow> qstate \<Rightarrow> qstate" where
  "free_video_frame frame s =
    (if frame = NULL then s
     else
       let s = (if buf_of s frame \<noteq> NULL then s\<lparr>freed := freed s @ [buf_of s frame]\<rparr> else s)
       in s\<lparr>freed := freed s @ [frame]\<rparr>)"

definition frame_blocks :: "qstate \<Rightarrow> ptr \<Rightarrow> ptr list" where
  "frame_blocks s frame = (if buf_of s frame \<noteq> NULL then [buf_of s frame, frame] else [frame])"

section \<open>Queue operations\<close>

definition queue_create :: "ptr \<Rightarrow> queue_t option" where
  "queue_create m =
    (if m = NULL then None
     else Some \<lparr>first = NULL, last = NULL, qlength = 0, locked = False\<rparr>)"

text \<open>\<open>present\<close> is whether the queue pointer is not \<^verbatim>\<open>NULL\<close>; \<open>m\<close> is what \<^verbatim>\<open>malloc\<close> returns.\<close>

definition queue_add :: "bool \<Rightarrow> ptr \<Rightarrow> ptr \<Rightarrow> qstate \<Rightarrow> c_error + qstate" where
  "queue_add present m e s =
    (if \<not> present \<or> e = NULL then Inr s
     else case lock s of
       Inl err \<Rightarrow> Inl err
     | Inr s \<Rightarrow>
         if m = NULL then Inr (unlock s)
         else
           let s = s\<lparr>nodes := (nodes s)(m \<mapsto> \<lparr>elem = e, next = NULL\<rparr>)\<rparr>;
               q = queue s
           in if first q = NULL
              then Inr (unlock (s\<lparr>queue := q\<lparr>first := m, last := m, qlength := qlength q + 1\<rparr>\<rparr>))
              else case deref s (last q) of
                Inl err \<Rightarrow> Inl err
              | Inr n \<Rightarrow>
                  Inr (unlock (s\<lparr>nodes := (nodes s)(last q \<mapsto> n\<lparr>next := m\<rparr>),
                                 queue := q\<lparr>last := m, qlength := qlength q + 1\<rparr>\<rparr>)))"

definition queue_length :: "bool \<Rightarrow> qstate \<Rightarrow> int" where
  "queue_length present s = (if present then qlength (queue s) else 0)"

text \<open>
  \<^verbatim>\<open>queue_first\<close> and \<^verbatim>\<open>queue_remove\<close> take the mutex of the queue before they test the pointer for
  \<^verbatim>\<open>NULL\<close>.
\<close>

definition queue_first :: "bool \<Rightarrow> qstate \<Rightarrow> c_error + ptr \<times> qstate" where
  "queue_first present s =
    (if \<not> present then Inl NullDeref
     else case lock s of
       Inl err \<Rightarrow> Inl err
     | Inr s \<Rightarrow>
         if first (queue s) = NULL then Inr (NULL, unlock s)
         else case deref s (first (queue s)) of
           Inl err \<Rightarrow> Inl err
         | Inr n \<Rightarrow> Inr (elem n, unlock s))"

definition queue_remove :: "bool \<Rightarrow> qstate \<Rightarrow> c_error + ptr \<times> qstate" where
  "queue_remove present s =
    (if \<not> present then Inl NullDeref
     else case lock s of
       Inl err \<Rightarrow> Inl err
     | Inr s \<Rightarrow>
         let q = queue s; node = first q
         in if node = NULL then Inr (NULL, unlock s)
            else case deref s node of
              Inl err \<Rightarrow> Inl err
            | Inr n \<Rightarrow>
                let q' = (if first q = last q then q\<lparr>first := NULL, last := NULL\<rparr>
                          else q\<lparr>first := next n\<rparr>)
                in Inr (elem n,
                     unlock (s\<lparr>nodes := (nodes s)(node := None),
                               queue := q'\<lparr>qlength := qlength q' - 1\<rparr>\<rparr>)))"

text \<open>The drain loop of \<^verbatim>\<open>releses_queue\<close>; \<open>None\<close> is a loop that never ends.\<close>

partial_function (option) releses_loop :: "qstate \<Rightarrow> (c_error + qstate) option" where
  "releses_loop s =
    (case lock s of
       Inl err \<Rightarrow> Some (Inl err)
     | Inr s \<Rightarrow>
         if 0 < qlength (queue s) then
           case queue_remove True (unlock s) of
             Inl err \<Rightarrow> Some (Inl err)
           | Inr (frame, s) \<Rightarrow> releses_loop (if frame \<noteq> NULL then free_video_frame frame s else s)
         else Some (Inr (unlock s)))"

definition releses_queue :: "bool \<Rightarrow> qstate \<Rightarrow> (c_error + qstate) option" where
  "releses_queue present s = (if \<not> present then Some (Inr s) else releses_loop s)"

text \<open>
  \<^verbatim>\<open>queue_destroy\<close> destroys the mutex and frees the queue object only; the nodes stay as they are.
\<close>

definition queue_destroy :: "bool \<Rightarrow> qstate \<Rightarrow> qstate" where
  "queue_destroy present s = (if \<not> present then s else s\<lparr>destroyed := True\<rparr>)"

section \<open>Representation of a list\<close>

text \<open>\<open>chain h p as\<close>: following \<^verbatim>\<open>next\<close> from \<open>p\<close> visits the nodes \<open>as\<close> and ends in \<^verbatim>\<open>NULL\<close>.\<close>

fun chain :: "(ptr \<rightharpoonup> queue_element_t) \<Rightarrow> ptr \<Rightarrow> ptr list \<Rightarrow> bool" where
  "chain h p [] \<longleftrightarrow> p = NULL"
| "chain h p (a # as) \<longleftrightarrow> p = a \<and> a \<noteq> NULL \<and> (case h a of None \<Rightarrow> False | Some n \<Rightarrow> chain h (next n) as)"

definition elems_of :: "(ptr \<rightharpoonup> queue_element_t) \<Rightarrow> ptr list \<Rightarrow> ptr list" where
  "elems_of h as = map (\<lambda>a. elem (the (h a))) as"

definition queue_rep :: "qstate \<Rightarrow> ptr list \<Rightarrow> bool" where
  "queue_rep s xs \<longleftrightarrow>
    (\<exists>as. chain (nodes s) (first (queue s)) as \<and> distinct as \<and> dom (nodes s) = set as \<and>
          last (queue s) = (if as = [] then NULL else List.last as) \<and>
          elems_of (nodes s) as = xs) \<and>
    NULL \<notin> set xs \<and> qlength (queue s) = int (length xs) \<and>
    \<not> locked (queue s) \<and> \<not> destroyed s"

lemma chain_frame: "m \<notin> set as \<Longrightarrow> chain (h(m := v)) p as = chain h p as"
  by (induction as arbitrary: p) (auto split: option.splits)

lemma elems_of_frame: "m \<notin> set as \<Longrightarrow> elems_of (h(m := v)) as = elems_of h as"
  by (auto simp: elems_of_def)

lemma chain_dom: "chain h p as \<Longrightarrow> set as \<subseteq> dom h"
  by (induction as arbitrary: p) (auto split: option.splits)

lemma chain_not_NULL: "chain h p as \<Longrightarrow> NULL \<notin> set as"
  by (induction as arbitrary: p) (auto split: option.splits)

lemma chain_Nil_iff: "chain h p as \<Longrightarrow> p = NULL \<longleftrightarrow> as = []"
  by (cases as) auto

text \<open>Appending at the tail: the old last node is redirected to the new one.\<close>

lemma chain_snoc:
  assumes "chain h p as" "as \<noteq> []" "distinct as" "m \<notin> dom h" "m \<noteq> NULL"
    "h (List.last as) = Some n"
  shows "chain (h(m \<mapsto> \<lparr>elem = e, next = NULL\<rparr>, List.last as \<mapsto> n\<lparr>next := m\<rparr>)) p (as @ [m])"
  using assms
proof (induction as arbitrary: p)
  case Nil
  then show ?case by simp
next
  case (Cons a as)
  from Cons.prems obtain k where k: "h a = Some k" "chain h (next k) as" "p = a" "a \<noteq> NULL"
    by (auto split: option.splits)
  have am: "a \<noteq> m" using k(1) Cons.prems by auto
  show ?case
  proof (cases "as = []")
    case True
    with k am Cons.prems show ?thesis by auto
  next
    case False
    have "a \<noteq> List.last as" using Cons.prems False last_in_set [of as] by auto
    moreover have "chain (h(m \<mapsto> \<lparr>elem = e, next = NULL\<rparr>, List.last as \<mapsto> n\<lparr>next := m\<rparr>)) (next k) (as @ [m])"
      using Cons.prems False k(2) by (intro Cons.IH) auto
    ultimately show ?thesis using k am False
      by (simp del: fun_upd_apply add: fun_upd_other)
  qed
qed

lemma queue_repE:
  assumes "queue_rep s xs"
  obtains as where "chain (nodes s) (first (queue s)) as" "distinct as" "dom (nodes s) = set as"
    "last (queue s) = (if as = [] then NULL else List.last as)" "elems_of (nodes s) as = xs"
    "length as = length xs" "NULL \<notin> set xs" "qlength (queue s) = int (length xs)"
    "\<not> locked (queue s)" "\<not> destroyed s"
  using assms by (auto simp: queue_rep_def elems_of_def)

lemma queue_rep_not_NULL: "queue_rep s xs \<Longrightarrow> NULL \<notin> set xs"
  by (simp add: queue_rep_def)

lemma unlock_lock_rep: "queue_rep s xs \<Longrightarrow> \<exists>t. lock s = Inr t \<and> unlock t = s"
  by (auto simp: queue_rep_def lock_def unlock_def)

lemma queue_rep_unlock: "queue_rep s xs \<Longrightarrow> unlock (s\<lparr>queue := (queue s)\<lparr>locked := True\<rparr>\<rparr>) = s"
  by (auto simp: queue_rep_def unlock_def)

section \<open>Each operation refines the list\<close>

lemma queue_create_rep:
  "queue_create m = Some q \<Longrightarrow>
   queue_rep \<lparr>nodes = Map.empty, queue = q, destroyed = False, buf_of = b, freed = []\<rparr> []"
  by (auto simp: queue_create_def queue_rep_def elems_of_def split: if_splits intro: exI [of _ "[]"])

lemma queue_length_rep: "queue_rep s xs \<Longrightarrow> queue_length True s = int (length xs)"
  by (simp add: queue_length_def queue_rep_def)

lemma queue_first_rep:
  assumes "queue_rep s xs"
  shows "queue_first True s = Inr (if xs = [] then NULL else hd xs, s)"
proof -
  obtain as where as: "chain (nodes s) (first (queue s)) as" "elems_of (nodes s) as = xs"
    "\<not> locked (queue s)" "\<not> destroyed s"
    using assms by (elim queue_repE)
  show ?thesis
    using as queue_rep_unlock [OF assms]
    by (cases as) (auto simp: queue_first_def lock_def deref_def elems_of_def split: option.splits)
qed

lemma queue_add_ignored:
  "queue_rep s xs \<Longrightarrow> e = NULL \<or> m = NULL \<Longrightarrow> queue_add True m e s = Inr s"
  using queue_rep_unlock [of s xs] by (auto simp: queue_add_def lock_def queue_rep_def)

lemma queue_add_rep:
  assumes rep: "queue_rep s xs" and m: "m \<noteq> NULL" "m \<notin> dom (nodes s)" and e: "e \<noteq> NULL"
  shows "\<exists>t. queue_add True m e s = Inr t \<and> queue_rep t (xs @ [e]) \<and> freed t = freed s"
proof -
  obtain as where as: "chain (nodes s) (first (queue s)) as" "distinct as" "dom (nodes s) = set as"
    "last (queue s) = (if as = [] then NULL else List.last as)" "elems_of (nodes s) as = xs"
    "NULL \<notin> set xs" "qlength (queue s) = int (length xs)" "\<not> locked (queue s)" "\<not> destroyed s"
    using rep by (elim queue_repE)
  show ?thesis
  proof (cases "as = []")
    case True
    with as m e show ?thesis
      by (auto simp: queue_add_def lock_def unlock_def deref_def queue_rep_def elems_of_def
          intro!: exI [of _ "[m]"])
  next
    case False
    then have fst: "first (queue s) \<noteq> NULL" using chain_Nil_iff [OF as(1)] by simp
    have lastin: "List.last as \<in> set as" using False by simp
    with as(3) obtain n where n: "nodes s (List.last as) = Some n" by blast
    have lnn: "List.last as \<noteq> NULL" using chain_not_NULL [OF as(1)] lastin by metis
    have ml: "m \<noteq> List.last as" using m as(3) lastin by metis
    let ?h = "(nodes s)(m \<mapsto> \<lparr>elem = e, next = NULL\<rparr>, List.last as \<mapsto> n\<lparr>next := m\<rparr>)"
    have ch: "chain ?h (first (queue s)) (as @ [m])"
      using chain_snoc [OF as(1) False as(2) m(2,1) n] .
    have el: "elems_of ?h (as @ [m]) = xs @ [e]"
      using as(5) n ml m(2) as(3) by (auto simp: elems_of_def)
    have dm: "dom ?h = set (as @ [m])" using as(3) lastin by auto
    have "queue_rep (s\<lparr>nodes := ?h, queue := (queue s)\<lparr>last := m, qlength := qlength (queue s) + 1, locked := False\<rparr>\<rparr>)
           (xs @ [e])"
      unfolding queue_rep_def using as m ch el dm e
      by (intro conjI exI [of _ "as @ [m]"]) auto
    moreover have "queue_add True m e s =
      Inr (s\<lparr>nodes := ?h, queue := (queue s)\<lparr>last := m, qlength := qlength (queue s) + 1, locked := False\<rparr>\<rparr>)"
      using as m e fst n lnn ml False
      by (simp add: queue_add_def lock_def unlock_def deref_def Let_def)
    ultimately show ?thesis by simp
  qed
qed

lemma queue_remove_Nil:
  "queue_rep s [] \<Longrightarrow> queue_remove True s = Inr (NULL, s)"
  using queue_rep_unlock [of s "[]"]
  by (auto simp: queue_remove_def lock_def queue_rep_def elems_of_def)

lemma queue_remove_Cons:
  assumes "queue_rep s (x # xs)"
  shows "\<exists>t. queue_remove True s = Inr (x, t) \<and> queue_rep t xs \<and> freed t = freed s \<and> buf_of t = buf_of s"
proof -
  obtain bs where bs: "chain (nodes s) (first (queue s)) bs" "distinct bs" "dom (nodes s) = set bs"
    "last (queue s) = (if bs = [] then NULL else List.last bs)" "elems_of (nodes s) bs = x # xs"
    "NULL \<notin> set (x # xs)" "qlength (queue s) = int (length (x # xs))"
    "\<not> locked (queue s)" "\<not> destroyed s"
    using assms by (elim queue_repE)
  then obtain a as n where a: "bs = a # as" "nodes s a = Some n" "chain (nodes s) (next n) as"
    "first (queue s) = a" "a \<noteq> NULL" "elem n = x" "elems_of (nodes s) as = xs" "a \<notin> set as"
    by (cases bs) (auto simp: elems_of_def split: option.splits)
  have one: "a = last (queue s) \<longleftrightarrow> as = []"
    using bs(4) a(1,8) last_in_set [of as] by auto
  let ?q = "(if as = [] then (queue s)\<lparr>first := NULL, last := NULL\<rparr> else (queue s)\<lparr>first := next n\<rparr>)"
  let ?t = "s\<lparr>nodes := (nodes s)(a := None), queue := ?q\<lparr>qlength := int (length xs), locked := False\<rparr>\<rparr>"
  have "queue_rep ?t xs"
    unfolding queue_rep_def using bs a chain_frame [of a as "nodes s" None] elems_of_frame [of a as "nodes s" None]
    by (intro conjI exI [of _ as]) auto
  moreover have "queue_remove True s = Inr (x, ?t)"
    using bs(7-9) a one
    by (simp add: queue_remove_def lock_def unlock_def deref_def Let_def)
  ultimately show ?thesis by auto
qed

section \<open>The contract of a bounded-by-memory FIFO\<close>

text \<open>
  A run of a producer and a consumer on one queue, in the order the mutex serialises their calls.
  \<open>alloc\<close> is the allocator; the result lists the elements that were accepted, the elements
  that came out, and the final state.
\<close>

datatype qop = Add ptr | Remove

fun queue_run ::
  "('s \<Rightarrow> ptr) \<Rightarrow> (ptr \<Rightarrow> ptr \<Rightarrow> 's \<Rightarrow> c_error + 's) \<Rightarrow> ('s \<Rightarrow> c_error + ptr \<times> 's) \<Rightarrow>
   qop list \<Rightarrow> 's \<Rightarrow> c_error + (ptr list \<times> ptr list \<times> 's)" where
  "queue_run alloc add remove [] s = Inr ([], [], s)"
| "queue_run alloc add remove (Add e # ops) s =
    (case add (alloc s) e s of
       Inl err \<Rightarrow> Inl err
     | Inr t \<Rightarrow>
         (case queue_run alloc add remove ops t of
            Inl err \<Rightarrow> Inl err
          | Inr (ins, outs, u) \<Rightarrow> Inr (if e = NULL \<or> alloc s = NULL then ins else e # ins, outs, u)))"
| "queue_run alloc add remove (Remove # ops) s =
    (case remove s of
       Inl err \<Rightarrow> Inl err
     | Inr (x, t) \<Rightarrow>
         (case queue_run alloc add remove ops t of
            Inl err \<Rightarrow> Inl err
          | Inr (ins, outs, u) \<Rightarrow> Inr (ins, if x = NULL then outs else x # outs, u)))"

locale fifo =
  fixes R :: "'s \<Rightarrow> ptr list \<Rightarrow> bool"
    and fresh :: "'s \<Rightarrow> ptr \<Rightarrow> bool"
    and add :: "ptr \<Rightarrow> ptr \<Rightarrow> 's \<Rightarrow> c_error + 's"
    and remove :: "'s \<Rightarrow> c_error + ptr \<times> 's"
    and len :: "'s \<Rightarrow> int"
    and front :: "'s \<Rightarrow> c_error + ptr \<times> 's"
  assumes elem_law: "R s xs \<Longrightarrow> NULL \<notin> set xs"
    and ignore_law: "R s xs \<Longrightarrow> e = NULL \<or> m = NULL \<Longrightarrow> add m e s = Inr s"
    and add_law: "R s xs \<Longrightarrow> e \<noteq> NULL \<Longrightarrow> m \<noteq> NULL \<Longrightarrow> fresh s m \<Longrightarrow>
      \<exists>t. add m e s = Inr t \<and> R t (xs @ [e])"
    and empty_law: "R s [] \<Longrightarrow> remove s = Inr (NULL, s)"
    and remove_law: "R s (x # xs) \<Longrightarrow> \<exists>t. remove s = Inr (x, t) \<and> R t xs"
    and len_law: "R s xs \<Longrightarrow> len s = int (length xs)"
    and front_law: "R s xs \<Longrightarrow> front s = Inr (if xs = [] then NULL else hd xs, s)"
begin

lemma run_fifo:
  assumes "R s xs" "\<And>t. fresh t (alloc t)"
  shows "\<exists>ins outs u rest. queue_run alloc add remove ops s = Inr (ins, outs, u) \<and> R u rest \<and>
           outs @ rest = xs @ ins"
  using assms(1)
proof (induction ops arbitrary: s xs)
  case Nil
  then show ?case by auto
next
  case (Cons op ops)
  show ?case
  proof (cases op)
    case (Add e)
    show ?thesis
    proof (cases "e = NULL \<or> alloc s = NULL")
      case True
      then have "add (alloc s) e s = Inr s" using ignore_law [OF Cons.prems] by blast
      with True Add Cons.IH [OF Cons.prems] show ?thesis by auto
    next
      case False
      with add_law [OF Cons.prems, of e "alloc s"] assms(2)
      obtain t where t: "add (alloc s) e s = Inr t" "R t (xs @ [e])" by auto
      with False Add Cons.IH [OF t(2)] show ?thesis by auto
    qed
  next
    case Remove
    show ?thesis
    proof (cases xs)
      case Nil
      with Cons.prems empty_law have "remove s = Inr (NULL, s)" by simp
      with Remove Cons.IH [OF Cons.prems] show ?thesis by auto
    next
      case (Cons x ys)
      with Cons.prems remove_law obtain t where t: "remove s = Inr (x, t)" "R t ys" by metis
      have "x \<noteq> NULL" using elem_law [OF Cons.prems] Cons by auto
      with Remove t Cons Cons.IH [OF t(2)] show ?thesis by fastforce
    qed
  qed
qed

text \<open>What \<^verbatim>\<open>queue_first\<close> shows is what the next \<^verbatim>\<open>queue_remove\<close> hands out.\<close>

lemma front_is_next:
  assumes "R s xs" shows "\<exists>t. front s = Inr (fst (projr (remove s)), s) \<and> remove s = Inr (fst (projr (remove s)), t)"
proof (cases xs)
  case Nil
  with assms empty_law front_law show ?thesis by fastforce
next
  case (Cons x ys)
  with assms remove_law obtain t where "remove s = Inr (x, t)" by metis
  with Cons front_law [OF assms] show ?thesis by auto
qed

end

definition fresh_node :: "qstate \<Rightarrow> ptr \<Rightarrow> bool" where
  "fresh_node s m \<longleftrightarrow> m = NULL \<or> m \<notin> dom (nodes s)"

interpretation fq: fifo queue_rep fresh_node "queue_add True" "queue_remove True"
  "queue_length True" "queue_first True"
proof unfold_locales
  fix s xs e m assume "queue_rep s xs" "e \<noteq> NULL" "m \<noteq> NULL" "fresh_node s m"
  then show "\<exists>t. queue_add True m e s = Inr t \<and> queue_rep t (xs @ [e])"
    using queue_add_rep [of s xs m e] by (auto simp: fresh_node_def)
next
  fix s x xs assume "queue_rep s (x # xs)"
  then show "\<exists>t. queue_remove True s = Inr (x, t) \<and> queue_rep t xs"
    using queue_remove_Cons by blast
qed (rule queue_rep_not_NULL queue_add_ignored queue_remove_Nil queue_length_rep queue_first_rep, assumption+)+

section \<open>Draining\<close>

lemma releses_loop_rep:
  assumes "queue_rep s xs"
  shows "\<exists>t. releses_loop s = Some (Inr t) \<and> queue_rep t [] \<and> freed t = freed s @ concat (map (frame_blocks s) xs)"
  using assms
proof (induction xs arbitrary: s)
  case Nil
  then have l: "lock s = Inr (s\<lparr>queue := (queue s)\<lparr>locked := True\<rparr>\<rparr>)"
    by (simp add: lock_def queue_rep_def)
  with Nil queue_rep_unlock [OF Nil] show ?case
    by (subst releses_loop.simps) (simp add: queue_rep_def)
next
  case (Cons x xs)
  then have l: "lock s = Inr (s\<lparr>queue := (queue s)\<lparr>locked := True\<rparr>\<rparr>)"
    by (simp add: lock_def queue_rep_def)
  from queue_remove_Cons [OF Cons.prems] obtain t where
    t: "queue_remove True s = Inr (x, t)" "queue_rep t xs" "freed t = freed s" "buf_of t = buf_of s" by blast
  have x: "x \<noteq> NULL" using Cons.prems by (auto simp: queue_rep_def)
  have "queue_rep (free_video_frame x t) xs"
    using t(2) by (auto simp: queue_rep_def free_video_frame_def)
  moreover have "frame_blocks (free_video_frame x t) = frame_blocks s"
    using t(4) by (auto simp: free_video_frame_def frame_blocks_def)
  moreover have "freed (free_video_frame x t) = freed s @ frame_blocks s x"
    using t(3,4) x by (simp add: free_video_frame_def frame_blocks_def)
  ultimately have "\<exists>u. releses_loop (free_video_frame x t) = Some (Inr u) \<and> queue_rep u [] \<and>
      freed u = freed s @ frame_blocks s x @ concat (map (frame_blocks s) xs)"
    using Cons.IH [of "free_video_frame x t"] by simp
  with t x l queue_rep_unlock [OF Cons.prems] Cons.prems show ?case
    by (subst releses_loop.simps) (auto simp: queue_rep_def)
qed

section \<open>Properties\<close>



text \<open>
  C34: \<^verbatim>\<open>releses_queue\<close> ends on every well-formed queue; it frees every queued frame, its buffer first, exactly once and
  in order, and leaves an empty well-formed queue with the mutex released.
\<close>

theorem releses_queue_frees_all:
  assumes "queue_rep s xs"
  shows "\<exists>t. releses_queue True s = Some (Inr t) \<and> queue_rep t [] \<and> freed t = freed s @ concat (map (frame_blocks s) xs)"
  using releses_loop_rep [OF assms] by (simp add: releses_queue_def)

lemma releses_queue_frees_all_witness:
  "\<exists>t. releses_queue True
      \<lparr>nodes = [64 \<mapsto> \<lparr>elem = 7, next = 80\<rparr>, 80 \<mapsto> \<lparr>elem = 8, next = NULL\<rparr>],
       queue = \<lparr>first = 64, last = 80, qlength = 2, locked = False\<rparr>,
       destroyed = False, buf_of = (\<lambda>f. f + 1000), freed = [3]\<rparr> = Some (Inr t) \<and> queue_rep t [] \<and>
      freed t = [3, 1007, 7, 1008, 8]"
  using releses_queue_frees_all [of "\<lparr>nodes = [64 \<mapsto> \<lparr>elem = 7, next = 80\<rparr>, 80 \<mapsto> \<lparr>elem = 8, next = NULL\<rparr>],
       queue = \<lparr>first = 64, last = 80, qlength = 2, locked = False\<rparr>,
       destroyed = False, buf_of = (\<lambda>f. f + 1000), freed = [3]\<rparr>" "[7, 8]"]
  by (force simp: queue_rep_def elems_of_def frame_blocks_def intro: exI [of _ "[64, 80]"])

text \<open>
  \<^verbatim>\<open>allocate_video_frame\<close> never succeeds within its own block: it asks for the size of a pointer
  and then stores \<^verbatim>\<open>length\<close> behind it, so whenever both allocations succeed the store is out of
  bounds, and \<^verbatim>\<open>allocate_video_frame2\<close> does the same.
\<close>

theorem allocate_video_frame_overflows:
  "allocate_video_frame m1 m2 len =
     (if m1 = NULL \<or> m2 = NULL then Inr None else Inl OutOfBounds) \<and>
   allocate_video_frame2 m1 len = (if m1 = NULL then Inr None else Inl OutOfBounds)"
  by (simp add: allocate_video_frame_def allocate_video_frame2_def store_ok_def
      sizeof_PVIDEO_FRAME_def offset_buf_def offset_length_def)

text \<open>
  What a null queue does to each operation: adding, measuring, draining and destroying
  return at once, but looking at the front and removing touch the mutex of the null queue first.
\<close>

theorem null_queue_faults:
  "queue_add False m e s = Inr s \<and> queue_length False s = 0 \<and>
   releses_queue False s = Some (Inr s) \<and> queue_destroy False s = s \<and>
   queue_first False s = Inl NullDeref \<and> queue_remove False s = Inl NullDeref"
  by (simp add: queue_add_def queue_length_def releses_queue_def queue_destroy_def
      queue_first_def queue_remove_def)

end
