(* ===== verification/UsbTransport.thy ===== *)
theory UsbTransport
  imports Prelude
begin

text \<open>
  The USB stack as the drivers see it. Neither the kernel's \<^verbatim>\<open>usb_control_msg\<close> and
  \<^verbatim>\<open>usb_bulk_msg\<close> nor \<^verbatim>\<open>libusb\<close> is part of the repository, so the device with its stack is a
  parameter \<open>host\<close>: given the transfers made so far and the next one, it answers with the return
  code and, for a transfer towards the host, the bytes received. The arguments have the widths of
  the setup packet: request and type 8 bits, value, index and length 16 bits, so a wider C argument
  is truncated where the code passes it. Every operation appends what it sent to the trace.
\<close>

datatype usb_xfer =
    Control (bmRequestType: u8) (bRequest: u8) (wValue: u16) (wIndex: u16) (wData: bytes) (wLength: u16)
  | BulkOut (xfer_ep: u8) (xfer_payload: bytes)
  | ReadIn (xfer_ep: u8) (in_len: nat)

type_synonym trace = "usb_xfer list"
type_synonym usb_host = "trace \<Rightarrow> usb_xfer \<Rightarrow> int \<times> bytes"

definition usb_send :: "usb_host \<Rightarrow> usb_xfer \<Rightarrow> trace \<Rightarrow> int \<times> trace" where
  "usb_send host x tr = (fst (host tr x), tr @ [x])"

text \<open>
  A transfer towards the host fills a prefix of the buffer, never more than the \<open>n\<close> bytes asked
  for; the rest keeps its old contents.
\<close>

definition usb_recv :: "usb_host \<Rightarrow> usb_xfer \<Rightarrow> nat \<Rightarrow> bytes \<Rightarrow> trace \<Rightarrow> int \<times> bytes \<times> trace" where
  "usb_recv host x n buf tr =
    (let (ret, d) = host tr x; d = take n d
     in (ret, d @ drop (length d) buf, tr @ [x]))"

lemma length_usb_recv:
  "n \<le> length buf \<Longrightarrow> usb_recv host x n buf tr = (ret, buf', tr') \<Longrightarrow> length buf' = length buf"
  by (auto simp: usb_recv_def Let_def split: prod.splits)

lemma trace_usb_send [simp]: "snd (usb_send host x tr) = tr @ [x]"
  by (simp add: usb_send_def)

lemma trace_usb_recv: "usb_recv host x n buf tr = (ret, buf', tr') \<Longrightarrow> tr' = tr @ [x]"
  by (auto simp: usb_recv_def Let_def split: prod.splits)

text \<open>The payloads that went out on a bulk endpoint, in order.\<close>

definition bulk_payloads :: "u8 \<Rightarrow> trace \<Rightarrow> bytes list" where
  "bulk_payloads ep tr = [xfer_payload x. x \<leftarrow> tr, (case x of BulkOut e _ \<Rightarrow> e = ep | _ \<Rightarrow> False)]"

lemma bulk_payloads_simps [simp]:
  "bulk_payloads ep [] = []"
  "bulk_payloads ep (BulkOut e p # tr) = (if e = ep then p # bulk_payloads ep tr else bulk_payloads ep tr)"
  "bulk_payloads ep (Control a b c d dat n # tr) = bulk_payloads ep tr"
  "bulk_payloads ep (ReadIn e' k # tr) = bulk_payloads ep tr"
  "bulk_payloads ep (tr @ tr') = bulk_payloads ep tr @ bulk_payloads ep tr'"
  by (simp_all add: bulk_payloads_def)

text \<open>Request type and direction bits of the setup packet.\<close>

definition USB_TYPE_VENDOR :: u8 where "USB_TYPE_VENDOR = 0x40"
definition USB_DIR_IN :: u8 where "USB_DIR_IN = 0x80"

end
