(* ===== verification/Trigger6.thy ===== *)
theory Trigger6
  imports UsbTransport Fragments T6Proto
begin

text \<open>
  The Linux DRM driver at the root of the repository: \<^verbatim>\<open>trigger6_drv.c\<close> (display pipe, probe and
  disconnect), \<^verbatim>\<open>trigger6_commands.c\<close> (control requests), \<^verbatim>\<open>trigger6_connector.c\<close> (EDID and hotplug)
  with the structures of \<^verbatim>\<open>trigger6.h\<close>. The kernel is a parameter: return codes of its calls, the
  pixel conversion \<^verbatim>\<open>drm_fb_xrgb8888_to_rgb888\<close> and whether an allocation succeeds are arguments.
\<close>

section \<open>Structures\<close>

definition TRIGGER6_EP_BULK_OUT :: u8 where "TRIGGER6_EP_BULK_OUT = 0x2"
definition TRIGGER6_MAX_TRANSFER_LENGTH :: nat where "TRIGGER6_MAX_TRANSFER_LENGTH = 0x19000"
definition TRIGGER6_BGR24_FORMAT :: u32 where "TRIGGER6_BGR24_FORMAT = 0x9"

record trigger6_mode =
  pixel_clock_khz :: u32
  refresh_rate_hz :: u16
  line_total_pixels :: u16
  line_active_pixels :: u16
  line_active_plus_front_porch_pixels :: u16
  line_sync_width :: u16
  frame_total_lines :: u16
  frame_active_lines :: u16
  frame_active_plus_front_porch_lines :: u16
  frame_sync_width :: u16
  unk8 :: u16
  unk9 :: u16
  unk10 :: u16
  sync_polarity_0 :: u8
  sync_polarity_1 :: u8
  unk11 :: u16

record trigger6_bulk_command =
  bc_session_number :: u32
  bc_payload_length :: u32
  bc_dest_addr :: u32
  bc_fragment_length :: u32
  bc_offset :: u32
  bc_more_fragments :: u8

record trigger6_video_header =
  vh_type :: u32
  vh_data_length :: u32
  vh_sequence_counter :: u32
  vh_unk4 :: u32
  vh_width :: u16
  vh_height :: u16
  vh_start_address :: u32
  vh_end_address :: u32
  vh_image_format :: u32

text \<open>
  The device structure: \<open>modes\<close> is the memory of \<^verbatim>\<open>struct trigger6_mode modes[30]\<close>, \<open>dmadev\<close> whether
  that pointer is set, \<open>dma_refs\<close> the references the driver holds on it, \<open>trace\<close> the transfers made.
\<close>

record trigger6_device =
  modes :: bytes
  dmadev :: bool
  dma_refs :: int
  trace :: trace

definition sizeof_mode :: nat where "sizeof_mode = 32"
definition n_modes :: nat where "n_modes = 30"

text \<open>The packed structure \<^verbatim>\<open>modes[i]\<close>, read from the memory of the table.\<close>

definition mode_at :: "bytes \<Rightarrow> nat \<Rightarrow> trigger6_mode" where
  "mode_at b i = (let k = sizeof_mode * i in
    \<lparr>pixel_clock_khz = read_le32 b k, refresh_rate_hz = read_le16 b (k + 4),
     line_total_pixels = read_le16 b (k + 6), line_active_pixels = read_le16 b (k + 8),
     line_active_plus_front_porch_pixels = read_le16 b (k + 10), line_sync_width = read_le16 b (k + 12),
     frame_total_lines = read_le16 b (k + 14), frame_active_lines = read_le16 b (k + 16),
     frame_active_plus_front_porch_lines = read_le16 b (k + 18), frame_sync_width = read_le16 b (k + 20),
     unk8 = read_le16 b (k + 22), unk9 = read_le16 b (k + 24), unk10 = read_le16 b (k + 26),
     sync_polarity_0 = read_u8 b (k + 28), sync_polarity_1 = read_u8 b (k + 29),
     unk11 = read_le16 b (k + 30)\<rparr>)"

text \<open>The packed layouts of the two structures the driver sends.\<close>

definition bulk_command_bytes :: "trigger6_bulk_command \<Rightarrow> bytes" where
  "bulk_command_bytes c =
    (let out = replicate 32 0;
         out = write_le32 out 0 (bc_session_number c);
         out = write_le32 out 4 (bc_payload_length c);
         out = write_le32 out 8 (bc_dest_addr c);
         out = write_le32 out 12 (bc_fragment_length c);
         out = write_le32 out 16 (bc_offset c)
     in write_u8 out 20 (bc_more_fragments c))"

definition video_header_bytes :: "trigger6_video_header \<Rightarrow> bytes" where
  "video_header_bytes h =
    (let out = replicate 48 0;
         out = write_le32 out 0 (vh_type h);
         out = write_le32 out 4 (vh_data_length h);
         out = write_le32 out 8 (vh_sequence_counter h);
         out = write_le32 out 12 (vh_unk4 h);
         out = write_le16 out 16 (vh_width h);
         out = write_le16 out 18 (vh_height h);
         out = write_le32 out 20 (vh_start_address h);
         out = write_le32 out 24 (vh_end_address h)
     in write_le32 out 32 (vh_image_format h))"

section \<open>Control requests\<close>

definition trigger6_read_modes ::
    "usb_host \<Rightarrow> int \<Rightarrow> int \<Rightarrow> bytes \<Rightarrow> nat \<Rightarrow> trace \<Rightarrow> int \<times> bytes \<times> trace" where
  "trigger6_read_modes host output_index byte_offset data len tr =
     usb_recv host (Control (USB_DIR_IN OR USB_TYPE_VENDOR) 0x89 (word_of_int output_index)
                      (word_of_int byte_offset) [] (word_of_nat len)) len data tr"

definition trigger6_send_software_ready :: "usb_host \<Rightarrow> int \<Rightarrow> trace \<Rightarrow> int \<times> trace" where
  "trigger6_send_software_ready host session_number tr =
     usb_send host (Control USB_TYPE_VENDOR 0x31 (word_of_int session_number) 0 [] 0) tr"

text \<open>\<open>mem\<close> is whether the one-byte \<^verbatim>\<open>kmalloc\<close> succeeds, \<open>junk\<close> the byte it returns.\<close>

definition trigger6_read_connector_status ::
    "usb_host \<Rightarrow> bool \<Rightarrow> u8 \<Rightarrow> int \<Rightarrow> trace \<Rightarrow> int \<times> trace" where
  "trigger6_read_connector_status host mem junk output_index tr =
    (if \<not> mem then (- ENOMEM, tr)
     else
       let (ret, status, tr) =
             usb_recv host (Control (USB_DIR_IN OR USB_TYPE_VENDOR) 0x87 (word_of_int output_index) 0 [] 1)
               1 [junk] tr
       in if ret < 0 then (ret, tr)
          else if ret \<noteq> 1 then (- EIO, tr)
          else (int (unat (status ! 0)), tr))"

definition trigger6_enable_output :: "usb_host \<Rightarrow> trace \<Rightarrow> int \<times> trace" where
  "trigger6_enable_output host tr = usb_send host (Control USB_TYPE_VENDOR 0x3 0 0x0001 [] 0) tr"

definition trigger6_disable_output :: "usb_host \<Rightarrow> trace \<Rightarrow> int \<times> trace" where
  "trigger6_disable_output host tr = usb_send host (Control USB_TYPE_VENDOR 0x3 0 0x0000 [] 0) tr"

text \<open>\<open>mode\<close> is the 32 bytes the code points to.\<close>

definition trigger6_set_resolution :: "usb_host \<Rightarrow> bytes \<Rightarrow> trace \<Rightarrow> int \<times> trace" where
  "trigger6_set_resolution host mode tr = usb_send host (Control USB_TYPE_VENDOR 0x12 0 0 mode 32) tr"

section \<open>Connector\<close>

definition EDID_LENGTH :: nat where "EDID_LENGTH = 128"

definition trigger6_read_edid ::
    "usb_host \<Rightarrow> bytes \<Rightarrow> nat \<Rightarrow> nat \<Rightarrow> trace \<Rightarrow> int \<times> bytes \<times> trace" where
  "trigger6_read_edid host buf block len tr =
    (let (ret, buf, tr) =
           usb_recv host (Control (USB_DIR_IN OR USB_TYPE_VENDOR) 0x80 (word_of_nat (block * EDID_LENGTH)) 0 []
                           (word_of_nat len)) len buf tr
     in if ret < 0 then (ret, buf, tr)
        else if ret \<noteq> int len then (- EIO, buf, tr)
        else (ret, buf, tr))"

definition trigger6_detect ::
    "usb_host \<Rightarrow> bool \<Rightarrow> u8 \<Rightarrow> trace \<Rightarrow> drm_connector_status \<times> trace" where
  "trigger6_detect host mem junk tr =
    (let (status, tr) = trigger6_read_connector_status host mem junk 0 tr
     in (if status < 0 then connector_status_unknown
         else if status = 1 then connector_status_connected
         else connector_status_disconnected, tr))"

text \<open>
  \<open>edid\<close> is what \<^verbatim>\<open>drm_edid_read_custom\<close> returned, \<open>update\<close> and \<open>add\<close> the results of the two library
  calls on it. The second component is whether \<^verbatim>\<open>drm_edid_free\<close> was called.
\<close>

definition trigger6_connector_get_modes :: "'edid option \<Rightarrow> ('edid \<Rightarrow> int) \<Rightarrow> ('edid \<Rightarrow> int) \<Rightarrow> int \<times> bool" where
  "trigger6_connector_get_modes edid update add =
    (case edid of
       None \<Rightarrow> (0, False)
     | Some e \<Rightarrow> if update e < 0 then (0, True) else (add e, True))"

section \<open>Display pipe\<close>

fun get_mode_from :: "bytes \<Rightarrow> u16 \<Rightarrow> u16 \<Rightarrow> u16 \<Rightarrow> nat list \<Rightarrow> nat option" where
  "get_mode_from ms w h hz [] = None"
| "get_mode_from ms w h hz (i # is) =
    (if line_active_pixels (mode_at ms i) = w \<and> frame_active_lines (mode_at ms i) = h \<and>
        refresh_rate_hz (mode_at ms i) = hz
     then Some i else get_mode_from ms w h hz is)"

text \<open>The index of the mode, or \<open>None\<close> for \<^verbatim>\<open>ERR_PTR(-EINVAL)\<close>.\<close>

definition trigger6_get_mode :: "trigger6_device \<Rightarrow> drm_display_mode \<Rightarrow> nat option" where
  "trigger6_get_mode dev mode =
     get_mode_from (modes dev) (hdisplay mode) (vdisplay mode) (word_of_int (vrefresh mode)) [0..<n_modes]"

definition trigger6_pipe_mode_valid :: "trigger6_device \<Rightarrow> drm_display_mode \<Rightarrow> drm_mode_status" where
  "trigger6_pipe_mode_valid dev mode =
     (case trigger6_get_mode dev mode of None \<Rightarrow> MODE_BAD | Some _ \<Rightarrow> MODE_OK)"

text \<open>
  \<^verbatim>\<open>trigger6_pipe_enable\<close> hands the result of \<^verbatim>\<open>trigger6_get_mode\<close> to the USB stack unchecked; with
  an error pointer that is a read outside any object.
\<close>

definition trigger6_pipe_enable ::
    "usb_host \<Rightarrow> bool \<Rightarrow> drm_display_mode \<Rightarrow> trigger6_device \<Rightarrow> c_error + trigger6_device" where
  "trigger6_pipe_enable host mode_changed adjusted_mode dev =
    (let dev = dev\<lparr>trace := snd (trigger6_enable_output host (trace dev))\<rparr>
     in if mode_changed then
          (case trigger6_get_mode dev adjusted_mode of
             None \<Rightarrow> Inl OutOfBounds
           | Some i \<Rightarrow>
               let mode = take 32 (drop (sizeof_mode * i) (modes dev))
               in Inr (dev\<lparr>trace := snd (trigger6_set_resolution host mode (trace dev))\<rparr>))
        else Inr dev)"

definition trigger6_pipe_disable :: "usb_host \<Rightarrow> trigger6_device \<Rightarrow> trigger6_device" where
  "trigger6_pipe_disable host dev = dev\<lparr>trace := snd (trigger6_disable_output host (trace dev))\<rparr>"

text \<open>
  \<^verbatim>\<open>trigger6_pipe_update\<close>. The driver sends the whole frame whenever anything was damaged.
  \<open>conv w h\<close> is the BGR24 image the kernel's conversion writes behind the header; \<open>vmem\<close>,
  \<open>cmd_mem\<close> and \<open>blk_mem\<close> are the three allocations. The result of \<^verbatim>\<open>vmalloc\<close> is used unchecked.
  Widths and heights are at most 10000 (\<^verbatim>\<open>mode_config\<close>), so the C \<^verbatim>\<open>int\<close> product does not overflow
  and is a natural number here; the fields of the headers are truncated as the code does.
\<close>

definition frame_header :: "nat \<Rightarrow> nat \<Rightarrow> trigger6_video_header" where
  "frame_header buf_size width =
    \<lparr>vh_type = 0x3, vh_data_length = word_of_nat buf_size, vh_sequence_counter = 1, vh_unk4 = 0x9,
     vh_width = word_of_nat (width * 3), vh_height = 0, vh_start_address = 0x60,
     vh_end_address = 0x60, vh_image_format = TRIGGER6_BGR24_FORMAT\<rparr>"

definition update_buffer :: "(nat \<Rightarrow> nat \<Rightarrow> bytes) \<Rightarrow> nat \<Rightarrow> nat \<Rightarrow> bytes" where
  "update_buffer conv width height =
    (let buf_size = 48 + width * height * 3;
         buf = replicate buf_size 0;
         buf = write_bytes buf 0 (video_header_bytes (frame_header buf_size width))
     in write_bytes buf 48 (conv width height))"

definition update_blocks :: "nat \<Rightarrow> nat \<Rightarrow> nat" where
  "update_blocks buf_size maxlen = (buf_size + maxlen - 1) div maxlen"

definition update_offset :: "nat \<Rightarrow> nat \<Rightarrow> nat \<Rightarrow> nat" where
  "update_offset buf_size maxlen i = i * maxlen"

definition update_length :: "nat \<Rightarrow> nat \<Rightarrow> nat \<Rightarrow> nat" where
  "update_length buf_size maxlen i = min ((i + 1) * maxlen) buf_size - update_offset buf_size maxlen i"

definition update_more :: "nat \<Rightarrow> nat \<Rightarrow> nat \<Rightarrow> bool" where
  "update_more buf_size maxlen i \<longleftrightarrow> i + 1 < update_blocks buf_size maxlen"

definition update_command :: "nat \<Rightarrow> nat \<Rightarrow> trigger6_bulk_command" where
  "update_command buf_size i =
    (let M = TRIGGER6_MAX_TRANSFER_LENGTH in
     \<lparr>bc_session_number = 0, bc_payload_length = word_of_nat buf_size, bc_dest_addr = 0x030,
      bc_fragment_length = word_of_nat (update_length buf_size M i),
      bc_offset = word_of_nat (update_offset buf_size M i),
      bc_more_fragments = of_bool (update_more buf_size M i)\<rparr>)"

fun send_blocks :: "usb_host \<Rightarrow> bytes \<Rightarrow> nat list \<Rightarrow> trace \<Rightarrow> trace" where
  "send_blocks host buf [] tr = tr"
| "send_blocks host buf (i # is) tr =
    (let M = TRIGGER6_MAX_TRANSFER_LENGTH; n = length buf;
         tr = snd (usb_send host (BulkOut TRIGGER6_EP_BULK_OUT (bulk_command_bytes (update_command n i))) tr);
         block = take (update_length n M i) (drop (update_offset n M i) buf);
         tr = snd (usb_send host (BulkOut TRIGGER6_EP_BULK_OUT block) tr)
     in send_blocks host buf is tr)"

definition trigger6_pipe_update ::
    "usb_host \<Rightarrow> (nat \<Rightarrow> nat \<Rightarrow> bytes) \<Rightarrow> bool \<Rightarrow> bool \<Rightarrow> bool \<Rightarrow> bool \<Rightarrow>
     nat \<Rightarrow> nat \<Rightarrow> trigger6_device \<Rightarrow> c_error + trigger6_device" where
  "trigger6_pipe_update host conv vmem cmd_mem blk_mem damaged width height dev =
    (if \<not> damaged then Inr dev
     else if \<not> vmem then Inl NullDeref
     else
       let buf = update_buffer conv width height;
           blocks = update_blocks (48 + width * height * 3) TRIGGER6_MAX_TRANSFER_LENGTH
       in if \<not> cmd_mem \<or> \<not> blk_mem then Inr dev
          else Inr (dev\<lparr>trace := send_blocks host buf [0..<blocks] (trace dev)\<rparr>))"

section \<open>Probe and disconnect\<close>

text \<open>The results of the kernel calls a probe makes, in the order of the calls; 0 is success.\<close>

record probe_env =
  dev_alloc :: int
  has_dmadev :: bool
  mode_config_init :: int
  connector_init :: int
  display_pipe_init :: int
  dev_register :: int

definition put_dmadev :: "trigger6_device \<Rightarrow> trigger6_device" where
  "put_dmadev dev = (if dmadev dev then dev\<lparr>dma_refs := dma_refs dev - 1\<rparr> else dev)"

text \<open>
  The reading of the mode table: 512 bytes at its start and 448 bytes at \<^verbatim>\<open>modes + 16\<close>. The result
  is the value of \<^verbatim>\<open>ret\<close>, negative if the probe gives up.
\<close>

definition probe_read_modes :: "usb_host \<Rightarrow> trigger6_device \<Rightarrow> int \<times> trigger6_device" where
  "probe_read_modes host dev =
    (let (ret, lo, tr) = trigger6_read_modes host 0 0 (modes dev) 512 (trace dev);
         dev = dev\<lparr>modes := lo, trace := tr\<rparr>
     in if ret < 0 then (ret, dev)
        else if ret \<noteq> 512 then (- EIO, dev)
        else
          let at = sizeof_mode * 16;
              (ret, hi, tr) = trigger6_read_modes host 0 512 (drop at (modes dev)) 448 (trace dev);
              dev = dev\<lparr>modes := take at (modes dev) @ hi, trace := tr\<rparr>
          in if ret < 0 then (ret, dev)
             else if ret \<noteq> 448 then (- EIO, dev)
             else (ret, dev))"

definition zero_device :: "trace \<Rightarrow> trigger6_device" where
  "zero_device tr = \<lparr>modes = replicate (sizeof_mode * n_modes) 0, dmadev = False, dma_refs = 0, trace = tr\<rparr>"

definition trigger6_usb_probe :: "usb_host \<Rightarrow> probe_env \<Rightarrow> trace \<Rightarrow> int \<times> trigger6_device" where
  "trigger6_usb_probe host env tr =
    (if dev_alloc env \<noteq> 0 then (dev_alloc env, zero_device tr)
     else
       let dev = zero_device tr;
           dev = (if has_dmadev env then dev\<lparr>dmadev := True, dma_refs := dma_refs dev + 1\<rparr> else dev)
       in if mode_config_init env \<noteq> 0 then (mode_config_init env, put_dmadev dev)
          else
            let dev = dev\<lparr>trace := snd (trigger6_send_software_ready host 0 (trace dev))\<rparr>;
                (ret, dev) = probe_read_modes host dev
            in if ret < 0 then (ret, put_dmadev dev)
               else if connector_init env \<noteq> 0 then (connector_init env, put_dmadev dev)
               else if display_pipe_init env \<noteq> 0 then (display_pipe_init env, put_dmadev dev)
               else if dev_register env \<noteq> 0 then (dev_register env, put_dmadev dev)
               else (0, dev))"

definition trigger6_usb_disconnect :: "trigger6_device \<Rightarrow> trigger6_device" where
  "trigger6_usb_disconnect dev = (put_dmadev dev)\<lparr>dmadev := False\<rparr>"

text \<open>\<^verbatim>\<open>Inl\<close> is the error pointer; \<open>import\<close> is the kernel's \<^verbatim>\<open>drm_gem_prime_import_dev\<close>.\<close>

definition trigger6_driver_gem_prime_import ::
    "trigger6_device \<Rightarrow> ('buf \<Rightarrow> int + 'obj) \<Rightarrow> 'buf \<Rightarrow> int + 'obj" where
  "trigger6_driver_gem_prime_import dev import dma_buf =
     (if \<not> dmadev dev then Inl (- ENODEV) else import dma_buf)"

section \<open>Layouts\<close>

text \<open>The driver's two structures have the layout of the protocol library's.\<close>

lemma bulk_command_bytes_eq:
  "bulk_command_bytes c = t6_write_bulk_dma_header
     \<lparr>signature = bc_session_number c, payload_length = bc_payload_length c,
      payload_address = bc_dest_addr c, packet_size = bc_fragment_length c,
      packet_offset = bc_offset c, packet_flags = bc_more_fragments c,
      packet_reserved = replicate 3 0, function_specific = replicate 8 0\<rparr>"
  unfolding bulk_command_bytes_def t6_write_bulk_dma_header_def Let_def T6_BULK_DMA_HEADER_SIZE_def
  by (simp, rule sym, rule write_zeros_end)
    (auto simp: wire write_u8_def write_le32_def)

lemma video_header_bytes_eq:
  "video_header_bytes h = t6_write_video_flip_header
     \<lparr>command = vh_type h, payload_size = vh_data_length h, fence_id = vh_sequence_counter h,
      target_format = vh_unk4 h, y_rgb_pitch = vh_width h, uv_pitch = vh_height h,
      y_rgb_data_fb_offset = vh_start_address h, u_uv_data_offset = vh_end_address h,
      v_data_offset = 0, source_format = vh_image_format h, padding = replicate 11 0,
      hdr_flags = 0\<rparr>"
proof -
  let ?b = "write_le32 (write_le32 (write_le16 (write_le16 (write_le32 (write_le32 (write_le32
    (write_le32 (replicate 48 0) 0 (vh_type h)) 4 (vh_data_length h)) 8 (vh_sequence_counter h))
    12 (vh_unk4 h)) 16 (vh_width h)) 18 (vh_height h)) 20 (vh_start_address h)) 24 (vh_end_address h)"
  have "write_le32 ?b 28 0 = ?b"
    by (rule write_le32_zero) (auto simp: wire write_le32_def write_le16_def)
  moreover have "write_u8 (write_le32 ?b 32 (vh_image_format h)) 47 0 = write_le32 ?b 32 (vh_image_format h)"
    by (simp only: write_u8_def, rule list_update_same_conv [THEN iffD2])
      (auto simp: wire write_le32_def write_le16_def)
  ultimately show ?thesis
    by (simp only: video_header_bytes_def t6_write_video_flip_header_def Let_def
        T6_VIDEO_FLIP_HEADER_SIZE_def t6_video_flip_header.select_convs)
qed

lemma length_bulk_command_bytes [wire]: "length (bulk_command_bytes c) = 32"
  by (simp add: bulk_command_bytes_def wire Let_def)

lemma length_video_header_bytes [wire]: "length (video_header_bytes h) = 48"
  by (simp add: video_header_bytes_def wire Let_def)

lemma update_command_bytes:
  "bulk_command_bytes (update_command n i) =
   t6_build_display_bulk_header (word_of_nat n) 0x30
     (word_of_nat (update_length n TRIGGER6_MAX_TRANSFER_LENGTH i))
     (word_of_nat (update_offset n TRIGGER6_MAX_TRANSFER_LENGTH i))
     (update_more n TRIGGER6_MAX_TRANSFER_LENGTH i)"
  by (simp add: bulk_command_bytes_eq update_command_def Let_def t6_build_display_bulk_header_def
      zero_bulk_dma_header_def t6_consts)

section \<open>The block loop is a fragmenter\<close>

interpretation upd: fragmenter "\<lambda>P M. 0 < M" "update_blocks" "update_offset" "update_length" "update_more"
proof unfold_locales
  fix P M i :: nat assume "0 < M"
  then show cnt: "i < update_blocks P M \<longleftrightarrow> i * M < P" for i
    unfolding update_blocks_def by (rule less_ceil_div_iff)
  then show "i * M < P \<Longrightarrow> update_more P M i \<longleftrightarrow> Suc i * M < P"
    by (simp add: update_more_def)
qed (auto simp: update_offset_def update_length_def min_def)

text \<open>The image buffer is the header followed by the converted image.\<close>

lemma update_buffer_eq:
  assumes "length (conv w h) = w * h * 3"
  shows "update_buffer conv w h =
         video_header_bytes (frame_header (48 + w * h * 3) w) @ conv w h"
  using assms by (simp add: update_buffer_def Let_def write_bytes_def wire)

definition block_pair :: "bytes \<Rightarrow> nat \<Rightarrow> usb_xfer list" where
  "block_pair buf i =
    (let M = TRIGGER6_MAX_TRANSFER_LENGTH; n = length buf in
     [BulkOut TRIGGER6_EP_BULK_OUT
        (t6_build_display_bulk_header (word_of_nat n) 0x30 (word_of_nat (update_length n M i))
           (word_of_nat (update_offset n M i)) (update_more n M i)),
      BulkOut TRIGGER6_EP_BULK_OUT (take (update_length n M i) (drop (update_offset n M i) buf))])"

lemma send_blocks_trace:
  "send_blocks host buf is tr = tr @ concat (map (block_pair buf) is)"
  by (induction host buf "is" tr rule: send_blocks.induct)
    (simp_all add: block_pair_def update_command_bytes Let_def)

lemma update_payload:
  "concat (map (\<lambda>i. take (update_length (length buf) TRIGGER6_MAX_TRANSFER_LENGTH i)
      (drop (update_offset (length buf) TRIGGER6_MAX_TRANSFER_LENGTH i) buf))
     [0..<update_blocks (length buf) TRIGGER6_MAX_TRANSFER_LENGTH]) = buf"
  by (rule upd.reassembly) (simp_all add: TRIGGER6_MAX_TRANSFER_LENGTH_def)

section \<open>Looking a mode up\<close>

definition mode_matches :: "trigger6_device \<Rightarrow> drm_display_mode \<Rightarrow> nat \<Rightarrow> bool" where
  "mode_matches dev m i \<longleftrightarrow>
     line_active_pixels (mode_at (modes dev) i) = hdisplay m \<and>
     frame_active_lines (mode_at (modes dev) i) = vdisplay m \<and>
     refresh_rate_hz (mode_at (modes dev) i) = word_of_int (vrefresh m)"

lemma get_mode_from_find:
  "get_mode_from ms w h hz is =
     find (\<lambda>i. line_active_pixels (mode_at ms i) = w \<and> frame_active_lines (mode_at ms i) = h \<and>
              refresh_rate_hz (mode_at ms i) = hz) is"
  by (induction "is") auto

lemma get_mode_find: "trigger6_get_mode dev m = find (mode_matches dev m) [0..<n_modes]"
  by (simp add: trigger6_get_mode_def get_mode_from_find mode_matches_def [abs_def])

lemma get_mode_Some_iff:
  "trigger6_get_mode dev m = Some i \<longleftrightarrow>
     i < 30 \<and> mode_matches dev m i \<and> (\<forall>j<i. \<not> mode_matches dev m j)"
  by (auto simp: get_mode_find find_Some_iff n_modes_def)

lemma get_mode_None_iff: "trigger6_get_mode dev m = None \<longleftrightarrow> (\<forall>i<30. \<not> mode_matches dev m i)"
  by (auto simp: get_mode_find find_None_iff n_modes_def)

lemma get_mode_trace [simp]: "trigger6_get_mode (dev\<lparr>trace := t\<rparr>) m = trigger6_get_mode dev m"
  by (simp add: trigger6_get_mode_def)

section \<open>Reading the mode table\<close>

lemma probe_read_modes_keeps:
  "probe_read_modes host dev = (ret, dev') \<Longrightarrow> dmadev dev' = dmadev dev \<and> dma_refs dev' = dma_refs dev"
  by (auto simp: probe_read_modes_def Let_def split: prod.splits if_splits)

text \<open>A device that serves \<open>table\<close> through the mode request.\<close>

definition serves_modes :: "usb_host \<Rightarrow> bytes \<Rightarrow> bool" where
  "serves_modes host table \<longleftrightarrow>
    (\<forall>tr off n. host tr (Control (USB_DIR_IN OR USB_TYPE_VENDOR) 0x89 0 off [] n) =
       (int (length (take (unat n) (drop (unat off) table))), take (unat n) (drop (unat off) table)))"

lemma usb_recv_served:
  "host tr x = (int (length d), d) \<Longrightarrow> length d = n \<Longrightarrow> n \<le> length buf \<Longrightarrow>
   usb_recv host x n buf tr = (int n, d @ drop n buf, tr @ [x])"
  by (simp add: usb_recv_def)

lemma probe_read_modes_served:
  assumes "serves_modes host table" "960 \<le> length table" "length (modes dev) = 960"
  shows "\<exists>tr. probe_read_modes host dev = (448, dev\<lparr>modes := take 960 table, trace := tr\<rparr>)"
proof -
  let ?x = "\<lambda>off n. Control (USB_DIR_IN OR USB_TYPE_VENDOR) 0x89 0 off [] n"
  let ?lo = "take 512 table" and ?hi = "take 448 (drop 512 table)"
  let ?m = "?lo @ drop 512 (modes dev)"
  have "usb_recv host (?x 0 512) 512 (modes dev) (trace dev) =
      (int 512, ?m, trace dev @ [?x 0 512])"
    using assms by (intro usb_recv_served) (auto simp: serves_modes_def)
  moreover have "usb_recv host (?x 512 448) 448 (drop 512 ?m) (trace dev @ [?x 0 512]) =
      (int 448, ?hi, (trace dev @ [?x 0 512]) @ [?x 512 448])"
    using assms usb_recv_served [of host "trace dev @ [?x 0 512]" "?x 512 448" ?hi 448 "drop 512 ?m"]
    by (simp add: serves_modes_def)
  moreover have "?lo @ ?hi = take 960 table"
    using take_add [of 512 448 table] by simp
  ultimately show ?thesis
    using assms(2,3)
    by (intro exI [of _ "(trace dev @ [?x 0 512]) @ [?x 512 448]"])
      (simp add: probe_read_modes_def trigger6_read_modes_def Let_def sizeof_mode_def)
qed

section \<open>Properties\<close>

text \<open>
  C39: A damaged frame reaches the device whole. What \<^verbatim>\<open>trigger6_pipe_update\<close> sends is, for each block,
  a bulk command and the block; the commands are byte for byte those of the protocol library
  (\<^verbatim>\<open>t6_build_display_bulk_header\<close> with the block's length and offset and the continue flag), and the
  blocks, each non-empty and at most \<^verbatim>\<open>TRIGGER6_MAX_TRANSFER_LENGTH\<close> long, concatenate to the video
  header followed by the converted image; only the last command has the continue flag clear.
\<close>

theorem pipe_update_sends_frame:
  assumes "length (conv w h) = w * h * 3"
  defines "buf \<equiv> video_header_bytes (frame_header (48 + w * h * 3) w) @ conv w h"
    and "M \<equiv> TRIGGER6_MAX_TRANSFER_LENGTH"
  shows "trigger6_pipe_update host conv True True True True w h dev =
      Inr (dev\<lparr>trace := trace dev @ concat (map (block_pair buf) [0..<update_blocks (length buf) M])\<rparr>) \<and>
    concat (map (\<lambda>i. xfer_payload (block_pair buf i ! 1)) [0..<update_blocks (length buf) M]) = buf \<and>
    (\<forall>i<update_blocks (length buf) M.
       0 < update_length (length buf) M i \<and> update_length (length buf) M i \<le> M \<and>
       (update_more (length buf) M i \<longleftrightarrow> Suc i < update_blocks (length buf) M))"
proof (intro conjI allI impI)
  have len: "length buf = 48 + w * h * 3" using assms by (simp add: wire)
  show "trigger6_pipe_update host conv True True True True w h dev =
      Inr (dev\<lparr>trace := trace dev @ concat (map (block_pair buf) [0..<update_blocks (length buf) M])\<rparr>)"
    using update_buffer_eq [of conv w h] assms len
    by (simp add: trigger6_pipe_update_def send_blocks_trace)
  show "concat (map (\<lambda>i. xfer_payload (block_pair buf i ! 1)) [0..<update_blocks (length buf) M]) = buf"
    using update_payload [of buf] by (simp add: block_pair_def Let_def M_def)
  have M: "0 < M" by (simp add: M_def TRIGGER6_MAX_TRANSFER_LENGTH_def)
  fix i assume i: "i < update_blocks (length buf) M"
  show "0 < update_length (length buf) M i" by (rule upd.len_pos [OF M i])
  show "update_length (length buf) M i \<le> M" by (rule upd.len_le [OF M i])
  show "update_more (length buf) M i \<longleftrightarrow> Suc i < update_blocks (length buf) M"
    by (rule upd.more_iff_not_last [OF M i])
qed

theorem pipe_update_sends_frame_witness:
  "\<exists>dev'. trigger6_pipe_update (\<lambda>tr x. (0, [])) (\<lambda>w h. replicate (w * h * 3) 7) True True True True
     640 480 (zero_device []) = Inr dev'"
  using pipe_update_sends_frame [of "\<lambda>w h. replicate (w * h * 3) 7" 640 480 "\<lambda>tr x. (0, [])" "zero_device []"]
  by simp

text \<open>
  The failures of \<^verbatim>\<open>trigger6_pipe_update\<close>: without damage nothing happens; if the image buffer cannot be
  allocated the header is copied to a null pointer; if one of the two transfer buffers cannot be
  allocated the frame is dropped without any transfer.
\<close>

theorem pipe_update_failures:
  "trigger6_pipe_update host conv vmem cmem bmem False w h dev = Inr dev \<and>
   trigger6_pipe_update host conv False cmem bmem True w h dev = Inl NullDeref \<and>
   trigger6_pipe_update host conv True False bmem True w h dev = Inr dev \<and>
   trigger6_pipe_update host conv True cmem False True w h dev = Inr dev"
  by (simp add: trigger6_pipe_update_def)

text \<open>
  Enabling the pipe with a changed mode sends the enable request and then exactly the 32 bytes of the
  first entry of the mode table with the requested width, height and refresh rate, for precisely
  the modes \<^verbatim>\<open>trigger6_pipe_mode_valid\<close> accepts; for any other mode an error pointer goes to the USB
  stack.
\<close>

theorem pipe_enable_mode:
  "trigger6_pipe_enable host True m dev =
     (case trigger6_get_mode dev m of
        None \<Rightarrow> Inl OutOfBounds
      | Some i \<Rightarrow> Inr (dev\<lparr>trace := trace dev @
            [Control 0x40 0x3 0 1 [] 0, Control 0x40 0x12 0 0 (take 32 (drop (32 * i) (modes dev))) 32]\<rparr>)) \<and>
   (trigger6_get_mode dev m = Some i \<longleftrightarrow>
      i < 30 \<and> mode_matches dev m i \<and> (\<forall>j<i. \<not> mode_matches dev m j)) \<and>
   (trigger6_pipe_mode_valid dev m = MODE_OK \<longleftrightarrow> (\<exists>i<30. mode_matches dev m i))"
proof (intro conjI)
  show "trigger6_pipe_enable host True m dev =
     (case trigger6_get_mode dev m of
        None \<Rightarrow> Inl OutOfBounds
      | Some i \<Rightarrow> Inr (dev\<lparr>trace := trace dev @
            [Control 0x40 0x3 0 1 [] 0, Control 0x40 0x12 0 0 (take 32 (drop (32 * i) (modes dev))) 32]\<rparr>))"
    by (simp add: trigger6_pipe_enable_def trigger6_enable_output_def trigger6_set_resolution_def
        USB_TYPE_VENDOR_def sizeof_mode_def Let_def split: option.splits)
  show "trigger6_get_mode dev m = Some i \<longleftrightarrow>
      i < 30 \<and> mode_matches dev m i \<and> (\<forall>j<i. \<not> mode_matches dev m j)"
    by (rule get_mode_Some_iff)
  show "trigger6_pipe_mode_valid dev m = MODE_OK \<longleftrightarrow> (\<exists>i<30. mode_matches dev m i)"
    using get_mode_None_iff [of dev m] by (auto simp: trigger6_pipe_mode_valid_def split: option.splits)
qed

definition sample_device :: trigger6_device where
  "sample_device = (zero_device [])
     \<lparr>modes := replicate 36 0 @ [60, 0, 0, 0, 0x80, 2, 0, 0, 0, 0, 0, 0, 0xE0, 1] @ replicate 910 0\<rparr>"

theorem pipe_enable_mode_witness:
  "trigger6_pipe_enable (\<lambda>tr x. (0, [])) True \<lparr>hdisplay = 640, vdisplay = 480, vrefresh = 60\<rparr> sample_device =
     Inr (sample_device\<lparr>trace := [Control 0x40 0x3 0 1 [] 0,
       Control 0x40 0x12 0 0 (take 32 (drop 32 (modes sample_device))) 32]\<rparr>)"
proof -
  let ?m = "\<lparr>hdisplay = 640, vdisplay = 480, vrefresh = 60\<rparr>"
  have "trigger6_get_mode sample_device ?m = Some 1"
    by (simp add: get_mode_Some_iff mode_matches_def less_Suc_eq mode_at_def sizeof_mode_def
        sample_device_def nth_append read_le16_def)
  then show ?thesis
    using pipe_enable_mode [of "\<lambda>tr x. (0, [])" ?m sample_device]
    by (simp add: sample_device_def zero_device_def)
qed

text \<open>
  A probe on a device that serves a mode table of at least 960 bytes succeeds whenever the kernel's
  own calls do, and the two partial reads, 512 bytes and then 448 at entry 16, leave exactly the
  first 960 bytes of the table in \<^verbatim>\<open>modes\<close>.
\<close>

theorem probe_reads_mode_table:
  assumes "serves_modes host table" "960 \<le> length table"
    "dev_alloc env = 0" "mode_config_init env = 0" "connector_init env = 0" "display_pipe_init env = 0"
    "dev_register env = 0"
  shows "\<exists>dev. trigger6_usb_probe host env tr = (0, dev) \<and> modes dev = take 960 table"
proof -
  let ?d = "(if has_dmadev env then (zero_device tr)\<lparr>dmadev := True, dma_refs := dma_refs (zero_device tr) + 1\<rparr>
             else zero_device tr)"
  let ?e = "?d\<lparr>trace := snd (trigger6_send_software_ready host 0 (trace ?d))\<rparr>"
  have "length (modes ?e) = 960" by (simp add: zero_device_def sizeof_mode_def n_modes_def)
  from probe_read_modes_served [OF assms(1,2) this] obtain t where
    "probe_read_modes host ?e = (448, ?e\<lparr>modes := take 960 table, trace := t\<rparr>)" by blast
  then show ?thesis using assms(3-) by (simp add: trigger6_usb_probe_def Let_def)
qed

theorem probe_reads_mode_table_witness:
  "\<exists>dev. trigger6_usb_probe
      (\<lambda>tr x. let d = take (unat (wLength x)) (drop (unat (wIndex x)) (map word_of_nat [0..<1000])) in (int (length d), d))
      \<lparr>dev_alloc = 0, has_dmadev = True, mode_config_init = 0, connector_init = 0, display_pipe_init = 0,
       dev_register = 0\<rparr> [] = (0, dev) \<and> modes dev = take 960 (map word_of_nat [0..<1000])"
  by (rule probe_reads_mode_table) (simp_all add: serves_modes_def Let_def)

text \<open>
  The reference on the DMA device is balanced on every path: a failed probe leaves none, a
  successful one leaves one exactly if there is a DMA device, and a disconnect after it leaves none
  and makes every later dma-buf import fail with \<^verbatim>\<open>-ENODEV\<close>.
\<close>

theorem probe_disconnect_balanced:
  assumes "trigger6_usb_probe host env tr = (ret, dev)"
  shows "dma_refs dev = (if ret = 0 \<and> dmadev dev then 1 else 0) \<and>
    (ret = 0 \<longrightarrow> dmadev dev = has_dmadev env) \<and>
    (ret = 0 \<longrightarrow> dma_refs (trigger6_usb_disconnect dev) = 0) \<and>
    trigger6_driver_gem_prime_import (trigger6_usb_disconnect dev) import b = Inl (-19)"
  using assms
  by (auto simp: trigger6_usb_probe_def put_dmadev_def zero_device_def trigger6_usb_disconnect_def
      trigger6_driver_gem_prime_import_def ENODEV_def Let_def
      split: if_splits prod.splits dest!: probe_read_modes_keeps)

theorem probe_disconnect_balanced_witness:
  "\<exists>ret dev. trigger6_usb_probe (\<lambda>tr x. (-71, []))
      \<lparr>dev_alloc = 0, has_dmadev = True, mode_config_init = 0, connector_init = 0, display_pipe_init = 0,
       dev_register = 0\<rparr> [] = (ret, dev) \<and> ret = -71 \<and> dma_refs dev = 0"
proof -
  let ?e = "\<lparr>dev_alloc = 0, has_dmadev = True, mode_config_init = 0, connector_init = 0, display_pipe_init = 0,
       dev_register = 0\<rparr>"
  obtain ret dev where r: "trigger6_usb_probe (\<lambda>tr x. (-71, [])) ?e [] = (ret, dev)"
    by (cases "trigger6_usb_probe (\<lambda>tr x. (-71, [])) ?e []")
  moreover have "ret = -71"
    using r by (simp add: trigger6_usb_probe_def probe_read_modes_def trigger6_read_modes_def
        usb_recv_def Let_def)
  ultimately show ?thesis using probe_disconnect_balanced [OF r, of "\<lambda>_. Inr ()" "()"] by auto
qed

text \<open>
  Control reads never pass off a short answer as a result: the connector status is a byte or a
  negative error (\<^verbatim>\<open>-ENOMEM\<close>, the stack's error, or \<^verbatim>\<open>-EIO\<close> for a wrong length), the detector reports a
  connected display exactly when the device answered the single byte 1, and an EDID block read
  returns either the full block length or a negative error.
\<close>

theorem connector_reads_checked:
  "(fst (trigger6_detect host mem junk tr) = connector_status_connected \<longleftrightarrow>
     mem \<and> (\<exists>d. host tr (Control 0xC0 0x87 0 0 [] 1) = (1, d) \<and> (d @ [junk]) ! 0 = 1)) \<and>
   fst (trigger6_read_connector_status host False junk k tr) = -12 \<and>
   fst (trigger6_read_connector_status host mem junk k tr) \<in> {-5, -12} \<union> {..<0} \<union> {0..255} \<and>
   fst (trigger6_read_edid host buf block n tr) \<in> {int n} \<union> {..<0}"
proof (intro conjI)
  have nth0: "(take (Suc 0) d @ drop (min (length d) (Suc 0)) [junk]) ! 0 = (d @ [junk]) ! 0" for d
    by (cases d) simp_all
  have le255: "uint b \<le> 255" for b :: u8
    using uint_bounded [of b] by simp
  have one: "uint b = 1 \<longleftrightarrow> b = 1" for b :: u8
    by (metis uint_1 word_uint_eq_iff)
  show "fst (trigger6_detect host mem junk tr) = connector_status_connected \<longleftrightarrow>
     mem \<and> (\<exists>d. host tr (Control 0xC0 0x87 0 0 [] 1) = (1, d) \<and> (d @ [junk]) ! 0 = 1)"
    by (cases "host tr (Control 0xC0 0x87 0 0 [] 1)")
      (simp add: trigger6_detect_def trigger6_read_connector_status_def usb_recv_def Let_def nth0
        USB_DIR_IN_def USB_TYPE_VENDOR_def ENOMEM_def EIO_def one split: if_splits)
  show "fst (trigger6_read_connector_status host mem junk k tr) \<in> {-5, -12} \<union> {..<0} \<union> {0..255}"
    by (auto simp: trigger6_read_connector_status_def Let_def le255 EIO_def ENOMEM_def split: prod.splits)
qed (simp_all add: trigger6_read_connector_status_def trigger6_read_edid_def ENOMEM_def EIO_def Let_def
      split: prod.splits)

end
