(* ===== verification/UrbPool.thy ===== *)
theory UrbPool
  imports Trigger6
begin

text \<open>
  \<^verbatim>\<open>trigger6_transfer.c\<close>: the pool of USB request blocks, a list guarded by a spinlock with a counting
  semaphore, and the rectangle sender that draws from it. The file is in the repository but not in
  its \<^verbatim>\<open>Makefile\<close>; two of its structures are declared nowhere, so the 8 bytes of the rectangle
  header and the pixel conversion are parameters.

  A request block is a number, its position in the initialisation loop. The spinlock makes each
  list update one step; \<open>taken\<close> lists the blocks that are out (with the caller or with the host
  controller). \<^verbatim>\<open>down\<close> on an empty semaphore sleeps: the operation then has the value \<open>None\<close>.
\<close>

section \<open>State and operations\<close>

record urb_pool =
  avail :: "nat list"
  sem :: nat
  num_urbs :: nat
  taken :: "nat list"

text \<open>
  \<open>allocs i\<close> are the three allocations of iteration \<open>i\<close>: list entry, request block, DMA buffer. The
  loop stops at the first that fails, freeing what the iteration had allocated.
\<close>

fun init_loop :: "(nat \<Rightarrow> bool \<times> bool \<times> bool) \<Rightarrow> nat list \<Rightarrow> urb_pool \<Rightarrow> urb_pool" where
  "init_loop allocs [] p = p"
| "init_loop allocs (i # is) p =
    (case allocs i of (entry_ok, urb_ok, buf_ok) \<Rightarrow>
       if \<not> entry_ok \<or> \<not> urb_ok \<or> \<not> buf_ok then p
       else init_loop allocs is
              (p\<lparr>avail := avail p @ [i], sem := sem p + 1, num_urbs := num_urbs p + 1\<rparr>))"

definition trigger6_init_urb :: "(nat \<Rightarrow> bool \<times> bool \<times> bool) \<Rightarrow> nat \<Rightarrow> nat \<times> urb_pool" where
  "trigger6_init_urb allocs total_size =
    (let blocks = (total_size + TRIGGER6_MAX_TRANSFER_LENGTH - 1) div TRIGGER6_MAX_TRANSFER_LENGTH;
         p = init_loop allocs [0..<blocks] \<lparr>avail = [], sem = 0, num_urbs = 0, taken = []\<rparr>
     in (num_urbs p, p))"

definition trigger6_urb_completion :: "nat \<Rightarrow> urb_pool \<Rightarrow> urb_pool" where
  "trigger6_urb_completion u p = p\<lparr>avail := avail p @ [u], sem := sem p + 1, taken := remove1 u (taken p)\<rparr>"

text \<open>
  \<open>intr\<close> is whether a signal interrupts the sleep. \<^verbatim>\<open>list_first_entry\<close> of an empty list is not an
  entry: using it is out of bounds.
\<close>

definition trigger6_get_urb :: "bool \<Rightarrow> urb_pool \<Rightarrow> (c_error + (int + nat) \<times> urb_pool) option" where
  "trigger6_get_urb intr p =
    (if sem p = 0 then (if intr then Some (Inr (Inl (- EINTR), p)) else None)
     else case avail p of
       [] \<Rightarrow> Some (Inl OutOfBounds)
     | u # us \<Rightarrow> Some (Inr (Inr u, p\<lparr>sem := sem p - 1, avail := us, taken := u # taken p\<rparr>)))"

text \<open>The result lists the request blocks freed, in order.\<close>

fun free_loop :: "nat \<Rightarrow> urb_pool \<Rightarrow> (c_error + nat list \<times> urb_pool) option" where
  "free_loop 0 p = Some (Inr ([], p))"
| "free_loop (Suc n) p =
    (if sem p = 0 then None
     else case avail p of
       [] \<Rightarrow> Some (Inl OutOfBounds)
     | u # us \<Rightarrow>
         (case free_loop n (p\<lparr>sem := sem p - 1, avail := us\<rparr>) of
            None \<Rightarrow> None
          | Some (Inl e) \<Rightarrow> Some (Inl e)
          | Some (Inr (fs, q)) \<Rightarrow> Some (Inr (u # fs, q))))"

definition trigger6_free_urb :: "urb_pool \<Rightarrow> (c_error + nat list \<times> urb_pool) option" where
  "trigger6_free_urb p = free_loop (num_urbs p) p"

section \<open>The pool as a state machine\<close>

text \<open>
  The steps of the threads that share the pool: someone takes a request block, or one that is out
  comes back, by completion or by a failed submission.
\<close>

inductive pool_step :: "urb_pool \<Rightarrow> urb_pool \<Rightarrow> bool" where
  take: "trigger6_get_urb intr p = Some (Inr (r, q)) \<Longrightarrow> pool_step p q"
| complete: "u \<in> set (taken p) \<Longrightarrow> pool_step p (trigger6_urb_completion u p)"

inductive_cases pool_stepE: "pool_step p q"

inductive pool_reach :: "urb_pool \<Rightarrow> bool" where
  init: "trigger6_init_urb allocs total_size = (n, p) \<Longrightarrow> pool_reach p"
| step: "pool_reach p \<Longrightarrow> pool_step p q \<Longrightarrow> pool_reach q"

definition pool_inv :: "urb_pool \<Rightarrow> bool" where
  "pool_inv p \<longleftrightarrow> sem p = length (avail p) \<and> distinct (avail p @ taken p) \<and>
                 set (avail p @ taken p) = {0..<num_urbs p}"

lemma init_loop_inv:
  "sem p = length (avail p) \<Longrightarrow> taken p = [] \<Longrightarrow> avail p = [0..<num_urbs p] \<Longrightarrow>
   pool_inv (init_loop allocs [num_urbs p..<n] p) \<and>
   num_urbs (init_loop allocs [num_urbs p..<n] p) \<le> max (num_urbs p) n \<and>
   taken (init_loop allocs [num_urbs p..<n] p) = []"
proof (induction "n - num_urbs p" arbitrary: p)
  case 0
  then show ?case by (simp add: pool_inv_def)
next
  case (Suc k)
  then have lt: "num_urbs p < n" by simp
  let ?q = "p\<lparr>avail := avail p @ [num_urbs p], sem := sem p + 1, num_urbs := num_urbs p + 1\<rparr>"
  have "pool_inv (init_loop allocs [num_urbs ?q..<n] ?q) \<and>
    num_urbs (init_loop allocs [num_urbs ?q..<n] ?q) \<le> max (num_urbs ?q) n \<and>
    taken (init_loop allocs [num_urbs ?q..<n] ?q) = []"
    using Suc.hyps Suc.prems by (intro Suc.hyps(1)) auto
  then show ?case
    using lt Suc.prems
    by (auto simp: upt_conv_Cons pool_inv_def split: prod.splits)
qed

lemma init_urb_inv:
  assumes "trigger6_init_urb allocs total_size = (n, p)"
  shows "pool_inv p \<and> n = num_urbs p \<and> taken p = [] \<and>
         n \<le> (total_size + TRIGGER6_MAX_TRANSFER_LENGTH - 1) div TRIGGER6_MAX_TRANSFER_LENGTH"
  using assms init_loop_inv [of "\<lparr>avail = [], sem = 0, num_urbs = 0, taken = []\<rparr>" allocs
      "(total_size + TRIGGER6_MAX_TRANSFER_LENGTH - 1) div TRIGGER6_MAX_TRANSFER_LENGTH"]
  by (auto simp: trigger6_init_urb_def Let_def)

lemma get_urb_inv:
  "pool_inv p \<Longrightarrow> trigger6_get_urb intr p = Some (Inr (r, q)) \<Longrightarrow> pool_inv q \<and> num_urbs q = num_urbs p"
  by (auto simp: trigger6_get_urb_def pool_inv_def split: if_splits list.splits)

lemma get_urb_no_fault: "pool_inv p \<Longrightarrow> trigger6_get_urb intr p \<noteq> Some (Inl e)"
  by (auto simp: trigger6_get_urb_def pool_inv_def split: list.splits)

lemma completion_inv:
  "pool_inv p \<Longrightarrow> u \<in> set (taken p) \<Longrightarrow>
   pool_inv (trigger6_urb_completion u p) \<and> num_urbs (trigger6_urb_completion u p) = num_urbs p"
  by (auto simp: trigger6_urb_completion_def pool_inv_def)

lemma pool_reach_inv: "pool_reach p \<Longrightarrow> pool_inv p"
  by (induction rule: pool_reach.induct)
    (auto dest: init_urb_inv get_urb_inv elim!: pool_stepE intro: completion_inv [THEN conjunct1])

lemma free_loop_avail:
  "sem p = length (avail p) \<Longrightarrow> n \<le> length (avail p) \<Longrightarrow>
   \<exists>q. free_loop n p = Some (Inr (take n (avail p), q)) \<and> avail q = drop n (avail p) \<and> sem q = sem p - n"
  by (induction n p rule: free_loop.induct) (auto split: list.splits)

lemma free_loop_blocks:
  "sem p = length (avail p) \<Longrightarrow> length (avail p) < n \<Longrightarrow> free_loop n p = None"
  by (induction n p rule: free_loop.induct) (auto split: list.splits option.splits)

section \<open>Sending a rectangle\<close>

record drm_rect =
  rx1 :: int
  ry1 :: int
  rx2 :: int
  ry2 :: int

definition ALIGN_DOWN :: "int \<Rightarrow> int \<Rightarrow> int" where "ALIGN_DOWN x a = x div a * a"
definition ALIGN :: "int \<Rightarrow> int \<Rightarrow> int" where "ALIGN x a = (x + a - 1) div a * a"

text \<open>The rectangle the code updates in place: widened to multiples of 16 pixels.\<close>

definition hw_rect :: "drm_rect \<Rightarrow> drm_rect" where
  "hw_rect r =
    (let x = ALIGN_DOWN (rx1 r) 16; width = ALIGN (rx2 r) 16 - x
     in r\<lparr>rx1 := x, rx2 := x + width\<rparr>)"

definition end_of_buffer :: bytes where "end_of_buffer = [0xff, 0xc0, 0, 0, 0, 0, 0, 0]"

text \<open>
  \<open>hdr\<close> is the 8-byte header for a rectangle and \<open>yuv ofs width\<close> the converted line at byte offset
  \<open>ofs\<close>. A store past the \<open>cap\<close> bytes of \<^verbatim>\<open>transfer_buffer\<close> is out of bounds.
\<close>

definition put :: "nat \<Rightarrow> bytes \<Rightarrow> bytes \<Rightarrow> c_error + bytes" where
  "put cap buf src = (if length buf + length src \<le> cap then Inr (buf @ src) else Inl OutOfBounds)"

fun put_lines :: "nat \<Rightarrow> (int \<Rightarrow> int \<Rightarrow> bytes) \<Rightarrow> int \<Rightarrow> int \<Rightarrow> int \<Rightarrow> int list \<Rightarrow> bytes \<Rightarrow> c_error + bytes" where
  "put_lines cap yuv pitch x width [] buf = Inr buf"
| "put_lines cap yuv pitch x width (i # is) buf =
    (case put cap buf (yuv (pitch * i + x * 4) width) of
       Inl e \<Rightarrow> Inl e
     | Inr buf \<Rightarrow> put_lines cap yuv pitch x width is buf)"

definition rect_buffer :: "(drm_rect \<Rightarrow> bytes) \<Rightarrow> (int \<Rightarrow> int \<Rightarrow> bytes) \<Rightarrow> int \<Rightarrow> drm_rect \<Rightarrow> c_error + bytes" where
  "rect_buffer hdr yuv pitch rect =
    (let r = hw_rect rect; x = rx1 r; width = rx2 r - x;
         cap = nat ((rx2 r - rx1 r) * (ry2 r - ry1 r) * 2 + 16)
     in case put cap [] (hdr r) of
          Inl e \<Rightarrow> Inl e
        | Inr buf \<Rightarrow>
            (case put_lines cap yuv pitch x width [ry1 r..ry2 r - 1] buf of
               Inl e \<Rightarrow> Inl e
             | Inr buf \<Rightarrow> put cap buf end_of_buffer))"

definition urb_blocks :: "nat \<Rightarrow> nat \<Rightarrow> nat" where
  "urb_blocks nbytes M = (nbytes + M - 1) div M"

definition urb_length :: "nat \<Rightarrow> nat \<Rightarrow> nat \<Rightarrow> nat" where
  "urb_length nbytes M i = min ((i + 1) * M) nbytes - i * M"

text \<open>
  \<open>env i\<close> is what happens around block \<open>i\<close>: the request blocks that complete before it is prepared,
  whether the sleep is interrupted, and the result of \<^verbatim>\<open>usb_submit_urb\<close>.
\<close>

type_synonym send_env = "nat \<Rightarrow> nat list \<times> bool \<times> int"

definition completions :: "nat list \<Rightarrow> urb_pool \<Rightarrow> urb_pool" where
  "completions us p = fold (\<lambda>u p. if u \<in> set (taken p) then trigger6_urb_completion u p else p) us p"

fun send_urbs :: "send_env \<Rightarrow> bytes \<Rightarrow> nat list \<Rightarrow> urb_pool \<Rightarrow> (c_error + bytes list \<times> urb_pool) option" where
  "send_urbs env buf [] p = Some (Inr ([], p))"
| "send_urbs env buf (i # is) p =
    (case env i of (done, intr, ret) \<Rightarrow>
       case trigger6_get_urb intr (completions done p) of
         None \<Rightarrow> None
       | Some (Inl e) \<Rightarrow> Some (Inl e)
       | Some (Inr (Inl err, p)) \<Rightarrow> Some (Inr ([], p))
       | Some (Inr (Inr u, p)) \<Rightarrow>
           let M = TRIGGER6_MAX_TRANSFER_LENGTH;
               block = take (urb_length (length buf) M i) (drop (i * M) buf)
           in if ret < 0 then Some (Inr ([], trigger6_urb_completion u p))
              else case send_urbs env buf is p of
                     None \<Rightarrow> None
                   | Some (Inl e) \<Rightarrow> Some (Inl e)
                   | Some (Inr (sent, q)) \<Rightarrow> Some (Inr (block # sent, q)))"

definition trigger6_fb_send_rect ::
    "(drm_rect \<Rightarrow> bytes) \<Rightarrow> (int \<Rightarrow> int \<Rightarrow> bytes) \<Rightarrow> bool \<Rightarrow> int \<Rightarrow> send_env \<Rightarrow> int \<Rightarrow> drm_rect \<Rightarrow> urb_pool \<Rightarrow>
     (c_error + bytes list \<times> urb_pool) option" where
  "trigger6_fb_send_rect hdr yuv mem cpu_access env pitch rect p =
    (if \<not> mem \<or> cpu_access < 0 then Some (Inr ([], p))
     else case rect_buffer hdr yuv pitch rect of
       Inl e \<Rightarrow> Some (Inl e)
     | Inr buf \<Rightarrow> send_urbs env buf [0..<urb_blocks (length buf) TRIGGER6_MAX_TRANSFER_LENGTH] p)"

interpretation rect: fragmenter "\<lambda>P M. 0 < M" urb_blocks "\<lambda>P M i. i * M" urb_length
  "\<lambda>P M i. Suc i < urb_blocks P M"
proof unfold_locales
  fix P M i :: nat assume "0 < M"
  then show cnt: "i < urb_blocks P M \<longleftrightarrow> i * M < P" for i
    unfolding urb_blocks_def by (rule less_ceil_div_iff)
  then show "i * M < P \<Longrightarrow> Suc i < urb_blocks P M \<longleftrightarrow> Suc i * M < P" .
qed (auto simp: urb_length_def min_def)

lemma completions_inv: "pool_inv p \<Longrightarrow> pool_inv (completions us p) \<and> num_urbs (completions us p) = num_urbs p"
  by (induction us arbitrary: p) (auto simp: completions_def dest: completion_inv)

lemma get_urb_taken:
  "trigger6_get_urb intr p = Some (Inr (Inr u, q)) \<Longrightarrow> u \<in> set (taken q)"
  by (auto simp: trigger6_get_urb_def split: if_splits list.splits)

lemma send_urbs_inv:
  "pool_inv p \<Longrightarrow> send_urbs env buf is p = Some r \<Longrightarrow>
   \<exists>sent q. r = Inr (sent, q) \<and> pool_inv q \<and> num_urbs q = num_urbs p \<and>
     sent = map (\<lambda>i. take (urb_length (length buf) TRIGGER6_MAX_TRANSFER_LENGTH i)
                       (drop (i * TRIGGER6_MAX_TRANSFER_LENGTH) buf)) (take (length sent) is)"
proof (induction "is" arbitrary: p r)
  case Nil
  then show ?case by auto
next
  case (Cons i "is")
  note prems = Cons.prems
  obtain dn intr ret where e: "env i = (dn, intr, ret)" by (cases "env i")
  have inv: "pool_inv (completions dn p)" "num_urbs (completions dn p) = num_urbs p"
    using completions_inv [OF prems(1)] by simp_all
  show ?case
  proof (cases "trigger6_get_urb intr (completions dn p)")
    case None
    then show ?thesis using prems(2) e by simp
  next
    case (Some x)
    then obtain y q where x: "x = Inr (y, q)"
      using get_urb_no_fault [OF inv(1)] by (cases x) auto
    have q: "pool_inv q" "num_urbs q = num_urbs p"
      using get_urb_inv [OF inv(1), of intr y q] Some x inv(2) by simp_all
    show ?thesis
    proof (cases y)
      case (Inl err)
      then show ?thesis using prems(2) e Some x q by auto
    next
      case (Inr u)
      then have u: "u \<in> set (taken q)" using get_urb_taken Some x by blast
      show ?thesis
      proof (cases "ret < 0")
        case True
        then show ?thesis using prems(2) e Some x Inr completion_inv [OF q(1) u] q(2) by auto
      next
        case False
        with prems(2) e Some x Inr obtain s where s: "send_urbs env buf is q = Some s"
          by (auto simp: Let_def split: option.splits)
        from Cons.IH [OF q(1) s]
        obtain sent q' where "s = Inr (sent, q')" "pool_inv q'" "num_urbs q' = num_urbs q"
          "sent = map (\<lambda>i. take (urb_length (length buf) TRIGGER6_MAX_TRANSFER_LENGTH i)
                       (drop (i * TRIGGER6_MAX_TRANSFER_LENGTH) buf)) (take (length sent) is)"
          by blast
        then show ?thesis using prems(2) e Some x Inr False s q(2) by (auto simp: Let_def)
      qed
    qed
  qed
qed

lemma put_lines_ok:
  "(\<And>ofs. length (yuv ofs width) = nat (width * 2)) \<Longrightarrow>
   length buf + length is * nat (width * 2) \<le> cap \<Longrightarrow>
   \<exists>b. put_lines cap yuv pitch x width is buf = Inr b \<and> length b = length buf + length is * nat (width * 2)"
  by (induction cap yuv pitch x width "is" buf rule: put_lines.induct) (auto simp: put_def)

lemma hw_rect_bounds:
  "rx1 (hw_rect r) = 16 * (rx1 r div 16)" "rx2 (hw_rect r) = 16 * ((rx2 r + 15) div 16)"
  "ry1 (hw_rect r) = ry1 r" "ry2 (hw_rect r) = ry2 r"
  by (simp_all add: hw_rect_def ALIGN_DOWN_def ALIGN_def Let_def)

lemma hw_rect_covers:
  "rx1 (hw_rect r) \<le> rx1 r \<and> rx2 r \<le> rx2 (hw_rect r) \<and>
   rx1 r - rx1 (hw_rect r) < 16 \<and> rx2 (hw_rect r) - rx2 r < 16 \<and>
   16 dvd rx1 (hw_rect r) \<and> 16 dvd rx2 (hw_rect r)"
  unfolding hw_rect_bounds by (intro conjI; (simp | presburger))

lemma rect_buffer_fits:
  assumes "\<And>q. length (hdr q) = 8" "\<And>ofs w. length (yuv ofs w) = nat (w * 2)"
    and "rx1 r \<le> rx2 r" "ry1 r \<le> ry2 r"
  shows "\<exists>b. rect_buffer hdr yuv pitch r = Inr b \<and>
    length b = nat ((rx2 (hw_rect r) - rx1 (hw_rect r)) * (ry2 r - ry1 r) * 2 + 16)"
proof -
  let ?q = "hw_rect r"
  let ?w = "rx2 ?q - rx1 ?q" and ?h = "ry2 r - ry1 r"
  let ?cap = "nat (?w * ?h * 2 + 16)"
  have w: "0 \<le> ?w" using hw_rect_covers [of r] assms(3) by linarith
  have h: "length [ry1 ?q..ry2 ?q - 1] = nat ?h" by (simp add: hw_rect_bounds)
  have prod: "nat ?h * nat (?w * 2) + 16 = ?cap"
  proof -
    have "nat ?h * nat (?w * 2) = nat (?w * ?h * 2)"
      using w assms(4) by (simp add: nat_mult_distrib [symmetric] algebra_simps)
    moreover have "0 \<le> ?w * ?h * 2" using w assms(4) by simp
    ultimately show ?thesis by (simp add: nat_add_distrib)
  qed
  obtain b where b: "put_lines ?cap yuv pitch (rx1 ?q) ?w [ry1 ?q..ry2 ?q - 1] (hdr ?q) = Inr b"
    "length b = 8 + nat ?h * nat (?w * 2)"
    using put_lines_ok [of yuv ?w "hdr ?q" "[ry1 ?q..ry2 ?q - 1]" ?cap pitch "rx1 ?q"] assms(1,2) h prod
    by auto
  have "put ?cap [] (hdr ?q) = Inr (hdr ?q)" using assms(1) prod by (simp add: put_def)
  moreover have "put ?cap b end_of_buffer = Inr (b @ end_of_buffer)"
    using b(2) prod by (simp add: put_def end_of_buffer_def)
  ultimately show ?thesis
    using b prod by (simp add: rect_buffer_def Let_def hw_rect_bounds end_of_buffer_def)
qed

section \<open>Properties\<close>

text \<open>
  C12: In every reachable state of the request block pool the semaphore counts the list, no block is in the list
  twice or both in the list and out, and none is lost; taking a block therefore never reads an empty
  list, and a block that is handed out was not out before.
\<close>

theorem urb_pool_safe:
  assumes "pool_reach p"
  shows "sem p = length (avail p) \<and> distinct (avail p @ taken p) \<and>
    set (avail p @ taken p) = {0..<num_urbs p} \<and>
    trigger6_get_urb intr p \<noteq> Some (Inl e) \<and>
    (trigger6_get_urb intr p = Some (Inr (Inr u, q)) \<longrightarrow>
       u \<in> set (avail p) \<and> u \<notin> set (taken p) \<and> taken q = u # taken p)"
  using pool_reach_inv [OF assms] get_urb_no_fault [of p intr e]
  by (auto simp: pool_inv_def trigger6_get_urb_def split: if_splits list.splits)

lemma pool_reach_example:
  "pool_reach \<lparr>avail = [1], sem = 1, num_urbs = 2, taken = [0]\<rparr>"
proof (rule pool_reach.step [OF pool_reach.init])
  show "trigger6_init_urb (\<lambda>i. (True, True, True)) 0x19001 = (2, \<lparr>avail = [0, 1], sem = 2, num_urbs = 2, taken = []\<rparr>)"
    by (simp add: trigger6_init_urb_def TRIGGER6_MAX_TRANSFER_LENGTH_def Let_def upt_rec numeral_2_eq_2)
  show "pool_step \<lparr>avail = [0, 1], sem = 2, num_urbs = 2, taken = []\<rparr> \<lparr>avail = [1], sem = 1, num_urbs = 2, taken = [0]\<rparr>"
    by (rule pool_step.take [of False _ "Inr 0"]) (simp add: trigger6_get_urb_def)
qed

theorem urb_pool_safe_witness:
  "set (avail \<lparr>avail = [1], sem = 1, num_urbs = 2, taken = [0::nat]\<rparr> @ [0]) = {0..<2::nat}"
  using urb_pool_safe [OF pool_reach_example] by simp

text \<open>
  C14: Tearing the pool down returns every request block exactly once when none is out; while one is out
  it waits for it.
\<close>

theorem free_urb_frees_all_or_waits:
  assumes "pool_reach p"
  shows "case trigger6_free_urb p of
      None \<Rightarrow> taken p \<noteq> []
    | Some (Inl e) \<Rightarrow> False
    | Some (Inr (fs, q)) \<Rightarrow> taken p = [] \<and> fs = avail p \<and> distinct fs \<and> set fs = {0..<num_urbs p} \<and> sem q = 0"
proof -
  have inv: "sem p = length (avail p)" "distinct (avail p @ taken p)"
    "set (avail p @ taken p) = {0..<num_urbs p}"
    using pool_reach_inv [OF assms] by (simp_all add: pool_inv_def)
  have n: "num_urbs p = length (avail p) + length (taken p)"
    using inv(2,3) by (metis distinct_card length_append card_atLeastLessThan minus_nat.diff_0)
  show ?thesis
  proof (cases "taken p")
    case Nil
    with free_loop_avail [of p "num_urbs p"] inv n show ?thesis
      by (auto simp: trigger6_free_urb_def)
  next
    case (Cons u us)
    with free_loop_blocks [of p "num_urbs p"] inv n show ?thesis
      by (simp add: trigger6_free_urb_def)
  qed
qed

theorem free_urb_frees_all_or_waits_witness:
  "trigger6_free_urb \<lparr>avail = [1], sem = 1, num_urbs = 2, taken = [0]\<rparr> = None \<and>
   (case trigger6_free_urb \<lparr>avail = [1], sem = 1, num_urbs = 2, taken = [0]\<rparr> of
      None \<Rightarrow> [0::nat] \<noteq> [] | Some x \<Rightarrow> False)"
  using free_urb_frees_all_or_waits [OF pool_reach_example]
  by (simp add: trigger6_free_urb_def numeral_2_eq_2)



end
