(* ===== verification/CeaEdid.thy ===== *)
theory CeaEdid
  imports Prelude
begin

text \<open>
  \<^verbatim>\<open>extracted/.../evdi_t6_1/cea_edid.c\<close>: the walk over a monitor's EDID that decides whether the daemon
  keeps the 4K30 modes. All functions read the raw EDID through pointers; a pointer is a buffer with an
  offset here, and every read is checked against the buffer, so that memory safety is a theorem.
  What is computed only to be printed is left out, its reads of the buffer are not.
\<close>

section \<open>Tables\<close>

record edid_video_format =
  vf_Flags :: u32
  vf_Rate :: u16
  vf_Reserved :: u16
  vf_Horizontal :: u16
  vf_Vertical :: u16
  vf_Horizontal2 :: u16
  vf_Vertical2 :: u16

definition vdf :: "u32 \<Rightarrow> u16 \<Rightarrow> u16 \<Rightarrow> u16 \<Rightarrow> u16 \<Rightarrow> u16 \<Rightarrow> u16 \<Rightarrow> edid_video_format" where
  "vdf f r z h v h2 v2 = \<lparr>vf_Flags = f, vf_Rate = r, vf_Reserved = z, vf_Horizontal = h, vf_Vertical = v,
     vf_Horizontal2 = h2, vf_Vertical2 = v2\<rparr>"

text \<open>The initialised rows; the C array has 256 elements, the rest is zero.\<close>

definition g_VideoDataFormat :: "edid_video_format list" where
  "g_VideoDataFormat =
    [vdf 1 0 0 0 0 0 0,
     vdf 0 60 0 640 480 0 0,
     vdf 0 60 0 720 480 0 0,
     vdf 0 60 0 720 480 0 0,
     vdf 0 60 0 1280 720 0 0,
     vdf 1 60 0 1920 1080 0 0,
     vdf 1 60 0 720 480 1440 480,
     vdf 1 60 0 720 480 1440 480,
     vdf 0 60 0 720 240 1440 240,
     vdf 0 60 0 720 240 1440 240,
     vdf 1 60 0 2880 480 0 0,
     vdf 1 60 0 2880 480 0 0,
     vdf 0 60 0 2880 240 0 0,
     vdf 0 60 0 2880 240 0 0,
     vdf 0 60 0 1440 480 0 0,
     vdf 0 60 0 1440 480 0 0,
     vdf 0 60 0 1920 1080 0 0,
     vdf 0 50 0 720 576 0 0,
     vdf 0 50 0 720 576 0 0,
     vdf 0 50 0 1280 720 0 0,
     vdf 1 50 0 1920 1080 0 0,
     vdf 1 50 0 720 576 1440 576,
     vdf 1 50 0 720 576 1440 576,
     vdf 0 50 0 720 288 1440 288,
     vdf 0 50 0 720 288 1440 288,
     vdf 1 50 0 2880 576 0 0,
     vdf 1 50 0 2880 576 0 0,
     vdf 0 50 0 2880 288 0 0,
     vdf 0 50 0 2880 288 0 0,
     vdf 0 50 0 1440 576 0 0,
     vdf 0 50 0 1440 576 0 0,
     vdf 0 50 0 1920 1080 0 0,
     vdf 0 24 0 1920 1080 0 0,
     vdf 0 25 0 1920 1080 0 0,
     vdf 0 30 0 1920 1080 0 0,
     vdf 0 60 0 2880 480 0 0,
     vdf 0 60 0 2880 480 0 0,
     vdf 0 50 0 2880 576 0 0,
     vdf 0 50 0 2880 576 0 0,
     vdf 1 50 0 1920 1080 0 0,
     vdf 1 100 0 1920 1080 0 0,
     vdf 0 100 0 1280 720 0 0,
     vdf 0 100 0 720 576 0 0,
     vdf 0 100 0 720 576 0 0,
     vdf 1 100 0 720 576 1440 576,
     vdf 1 100 0 720 576 1440 576,
     vdf 1 120 0 1920 1080 0 0,
     vdf 0 120 0 1280 720 0 0,
     vdf 0 120 0 720 480 0 0,
     vdf 0 120 0 720 480 0 0,
     vdf 1 120 0 720 480 1440 480,
     vdf 1 120 0 720 480 1440 480,
     vdf 0 200 0 720 576 0 0,
     vdf 0 200 0 720 576 0 0,
     vdf 1 200 0 720 576 1440 576,
     vdf 1 200 0 720 576 1440 576,
     vdf 0 240 0 720 480 0 0,
     vdf 0 240 0 720 480 0 0,
     vdf 1 240 0 720 480 1440 480,
     vdf 1 240 0 720 480 1440 480,
     vdf 0 24 0 1280 720 0 0,
     vdf 0 25 0 1280 720 0 0,
     vdf 0 30 0 1280 720 0 0,
     vdf 0 120 0 1920 1080 0 0,
     vdf 0 100 0 1920 1080 0 0,
     vdf 0 24 0 1280 720 0 0,
     vdf 0 25 0 1280 720 0 0,
     vdf 0 30 0 1280 720 0 0,
     vdf 0 50 0 1280 720 0 0,
     vdf 0 60 0 1280 720 0 0,
     vdf 0 100 0 1280 720 0 0,
     vdf 0 120 0 1280 720 0 0,
     vdf 0 24 0 1920 1080 0 0,
     vdf 0 25 0 1920 1080 0 0,
     vdf 0 30 0 1920 1080 0 0,
     vdf 0 50 0 1920 1080 0 0,
     vdf 0 60 0 1920 1080 0 0,
     vdf 0 100 0 1920 1080 0 0,
     vdf 0 120 0 1920 1080 0 0,
     vdf 0 24 0 1680 720 0 0,
     vdf 0 25 0 1680 720 0 0,
     vdf 0 30 0 1680 720 0 0,
     vdf 0 50 0 1680 720 0 0,
     vdf 0 60 0 1680 720 0 0,
     vdf 0 100 0 1680 720 0 0,
     vdf 0 120 0 1680 720 0 0,
     vdf 0 24 0 2560 1080 0 0,
     vdf 0 25 0 2560 1080 0 0,
     vdf 0 30 0 2560 1080 0 0,
     vdf 0 50 0 2560 1080 0 0,
     vdf 0 60 0 2560 1080 0 0,
     vdf 0 100 0 2560 1080 0 0,
     vdf 0 120 0 2560 1080 0 0,
     vdf 0 24 0 3840 2160 0 0,
     vdf 0 25 0 3840 2160 0 0,
     vdf 0 30 0 3840 2160 0 0,
     vdf 0 50 0 3840 2160 0 0,
     vdf 0 60 0 3840 2160 0 0,
     vdf 0 24 0 4096 2160 0 0,
     vdf 0 25 0 4096 2160 0 0,
     vdf 0 30 0 4096 2160 0 0,
     vdf 0 50 0 4096 2160 0 0,
     vdf 0 60 0 4096 2160 0 0,
     vdf 0 24 0 3840 2160 0 0,
     vdf 0 25 0 3840 2160 0 0,
     vdf 0 30 0 3840 2160 0 0,
     vdf 0 50 0 3840 2160 0 0,
     vdf 0 60 0 3840 2160 0 0] @ replicate 148 (vdf 0 0 0 0 0 0 0)"

text \<open>Active width and height of the rows of \<^verbatim>\<open>g_HdmiVicTable[5]\<close>, the columns the code uses.\<close>

definition g_HdmiVicTable :: "(u16 \<times> u16) list" where
  "g_HdmiVicTable = [(0, 0), (3840, 2160), (3840, 2160), (3840, 2160), (4096, 2160)]"

section \<open>Block checksum and header\<close>

fun sum_bytes :: "bytes \<Rightarrow> nat \<Rightarrow> nat \<Rightarrow> u8 \<Rightarrow> c_error + u8" where
  "sum_bytes b at 0 acc = Inr acc"
| "sum_bytes b at (Suc n) acc = ebind (rd8 b at) (\<lambda>x. sum_bytes b (at + 1) n (acc + x))"

text \<open>The result is the return value with the two output parameters.\<close>

definition EDID_ValidateBlock1Buffer ::
    "bool \<Rightarrow> bytes \<Rightarrow> nat \<Rightarrow> u8 \<Rightarrow> u8 \<Rightarrow> c_error + int \<times> u8 \<times> u8" where
  "EDID_ValidateBlock1Buffer present b at tag ver =
    (if \<not> present then Inr (-1, tag, ver)
     else ebind (sum_bytes b at 128 0) (\<lambda>ucData.
       if ucData \<noteq> 0 then Inr (-1, 0xBD, 0xBD)
       else ebind (rd8 b at) (\<lambda>tag. ebind (rd8 b (at + 1)) (\<lambda>ver.
         if tag \<noteq> 0x02 then Inr (-1, tag, ver)
         else if ver \<noteq> 0x03 then Inr (-1, tag, ver)
         else Inr (0, tag, ver)))))"

section \<open>Detailed descriptors\<close>

definition rd16 :: "bytes \<Rightarrow> nat \<Rightarrow> c_error + u16" where
  "rd16 b k = ebind (rd8 b k) (\<lambda>lo. ebind (rd8 b (k + 1)) (\<lambda>hi.
     Inr (ucast lo OR push_bit 8 (ucast hi))))"

text \<open>One standard timing: width, height and refresh rate.\<close>

definition standard_timing :: "u16 \<Rightarrow> u16 \<times> u16 \<times> u16" where
  "standard_timing usData =
    (let usHorActPix = ((usData AND 0xFF) + 0x1F) * 8;
         hor = unat usHorActPix;
         ucData = (ucast (drop_bit 8 usData) :: u8);
         usRefRate = ucast (ucData AND 0x3F) + 60;
         ratio = drop_bit 6 ucData;
         usVerActPix = (if ratio = 0 then word_of_nat (hor * 5 div 8)
                        else if ratio = 1 then word_of_nat (hor * 3 div 4)
                        else if ratio = 2 then word_of_nat (hor * 4 div 5)
                        else if ratio = 3 then word_of_nat (hor * 9 div 16)
                        else 0)
     in (usHorActPix, usVerActPix, usRefRate))"

fun standard_loop :: "bytes \<Rightarrow> nat \<Rightarrow> nat \<Rightarrow> u8 \<Rightarrow> c_error + u8" where
  "standard_loop b at 0 run = Inr run"
| "standard_loop b at (Suc n) run = ebind (rd16 b at) (\<lambda>usData.
     let (h, v, r) = standard_timing usData;
         run = (if usData = 0x0101 then run
                else if v \<noteq> 0 \<and> h \<noteq> 0 \<and> r \<noteq> 0 \<and> 3840 \<le> h \<and> 2160 \<le> v then 1 else run)
     in standard_loop b (at + 2) n run)"

record detailed_timing =
  dt_PixelClock :: u32
  dt_HorActive :: u16
  dt_HorBlanking :: u16
  dt_VerActive :: u16
  dt_VerBlanking :: u16
  dt_HorSyncOffset :: u16
  dt_HorSyncWidth :: u16
  dt_VerSyncOffset :: u16
  dt_VerSyncWidth :: u16
  dt_HorBorder :: u8
  dt_VerBorder :: u8

text \<open>The fields of an 18-byte detailed timing descriptor \<open>d\<close>.\<close>

definition decode_timing :: "bytes \<Rightarrow> detailed_timing" where
  "decode_timing d =
    (let usData = ucast (d ! 0) OR push_bit 8 (ucast (d ! 1)) :: u16 in
     \<lparr>dt_PixelClock = ucast usData * 10000,
      dt_HorActive = push_bit 4 (ucast (d ! 4 AND 0xF0)) + ucast (d ! 2),
      dt_HorBlanking = push_bit 8 (ucast (d ! 4 AND 0x0F)) + ucast (d ! 3),
      dt_VerActive = push_bit 4 (ucast (d ! 7 AND 0xF0)) + ucast (d ! 5),
      dt_VerBlanking = push_bit 8 (ucast (d ! 7 AND 0x0F)) + ucast (d ! 6),
      dt_HorSyncOffset = ucast (d ! 8) + push_bit 2 (ucast (d ! 11 AND 0xC0)),
      dt_HorSyncWidth = ucast (d ! 9) + push_bit 4 (ucast (d ! 11 AND 0x30)),
      dt_VerSyncOffset = drop_bit 4 (ucast (d ! 10 AND 0xF0)) + push_bit 2 (ucast (d ! 11 AND 0x0C)),
      dt_VerSyncWidth = ucast (d ! 10 AND 0x0F) + push_bit 4 (ucast (d ! 11 AND 0x03)),
      dt_HorBorder = d ! 15, dt_VerBorder = d ! 16\<rparr>)"

definition timing_total :: "detailed_timing \<Rightarrow> u32" where
  "timing_total t = (ucast (dt_HorActive t) + ucast (dt_HorBlanking t)) *
                    (ucast (dt_VerActive t) + ucast (dt_VerBlanking t))"

text \<open>The rounded refresh rate; the caller has excluded a zero total.\<close>

definition timing_refresh :: "detailed_timing \<Rightarrow> u16" where
  "timing_refresh t =
    ucast ((push_bit 1 (dt_PixelClock t) + timing_total t) div push_bit 1 (timing_total t))"

definition detailed_run :: "detailed_timing \<Rightarrow> u8 \<Rightarrow> u8" where
  "detailed_run t run =
    (if timing_total t \<noteq> 0 \<and> 3840 \<le> dt_HorActive t \<and> 2160 \<le> dt_VerActive t then 1 else run)"

text \<open>The descriptor at \<open>at\<close>; the result is the new value of \<^verbatim>\<open>*bRun4K30\<close>. The function returns 0.\<close>

definition EDID_ParseDetailDescriptor :: "bytes \<Rightarrow> nat \<Rightarrow> u8 \<Rightarrow> c_error + u8" where
  "EDID_ParseDetailDescriptor b at run =
    ebind (rd16 b at) (\<lambda>usData.
      if usData = 0x0000 then
        ebind (rd8 b (at + 3)) (\<lambda>ucData.
          if ucData = 0xFA then standard_loop b at 6 run
          else if ucData = 0xFD then
            ebind (rd8 b (at + 5)) (\<lambda>_. ebind (rd8 b (at + 6)) (\<lambda>_. ebind (rd8 b (at + 7)) (\<lambda>_.
            ebind (rd8 b (at + 8)) (\<lambda>_. ebind (rd8 b (at + 9)) (\<lambda>clk.
              let ulMaxPixelClk = (ucast clk :: u32) * 10
              in Inr (if 300 \<le> ulMaxPixelClk then 1 else run))))))
          else Inr run)
      else
        ebind (rd8 b (at + 17)) (\<lambda>_. Inr (detailed_run (decode_timing (take 18 (drop at b))) run)))"

section \<open>Vendor-specific block\<close>

fun vic_loop :: "bytes \<Rightarrow> nat \<Rightarrow> nat \<Rightarrow> u8 \<Rightarrow> c_error + u8" where
  "vic_loop b at 0 run = Inr run"
| "vic_loop b at (Suc n) run = ebind (rd8 b at) (\<lambda>VIC.
     if VIC \<le> 5 then
       if length g_HdmiVicTable \<le> unat VIC then Inl OutOfBounds
       else let (h, v) = g_HdmiVicTable ! unat VIC
            in vic_loop b (at + 1) n (if 3840 \<le> h \<and> 2160 \<le> v then 1 else run)
     else vic_loop b (at + 1) n run)"

text \<open>The function returns 0; the result is the new value of \<^verbatim>\<open>*bRun4K30\<close>.\<close>

definition EDID_ParseVendorSpecificBlock :: "bytes \<Rightarrow> nat \<Rightarrow> u8 \<Rightarrow> c_error + u8" where
  "EDID_ParseVendorSpecificBlock b at run =
    ebind (rd8 b (at + 6)) (\<lambda>_. ebind (rd8 b (at + 7)) (\<lambda>caps.
      if caps AND 0x20 \<noteq> 0 then
        let start = 8 :: u8;
            start = (if caps AND 0x80 \<noteq> 0 then start + 2 else start);
            start = (if caps AND 0x40 \<noteq> 0 then start + 2 else start)
        in ebind (rd8 b (at + unat start + 1)) (\<lambda>x.
             let HDMI_VIC_len = drop_bit 5 x AND 0x07; start = start + 2
             in vic_loop b (at + unat start) (unat HDMI_VIC_len) run)
      else Inr run))"

section \<open>CEA extension block\<close>

fun video_loop :: "bytes \<Rightarrow> nat \<Rightarrow> nat \<Rightarrow> u8 \<Rightarrow> c_error + u8" where
  "video_loop b at 0 run = Inr run"
| "video_loop b at (Suc n) run = ebind (rd8 b at) (\<lambda>j.
     let f = g_VideoDataFormat ! unat (j AND 0x7F)
     in video_loop b (at + 1) n
          (if 3840 \<le> vf_Horizontal f \<or> 2160 \<le> vf_Vertical f then 1 else run))"

text \<open>
  Comparing the three bytes of an identifier with \<open>&&\<close>, which stops at the first difference.
\<close>

definition is_oui :: "bytes \<Rightarrow> nat \<Rightarrow> u8 \<Rightarrow> u8 \<Rightarrow> u8 \<Rightarrow> c_error + bool" where
  "is_oui b at x y z = ebind (rd8 b at) (\<lambda>p. if p \<noteq> x then Inr False
     else ebind (rd8 b (at + 1)) (\<lambda>q. if q \<noteq> y then Inr False
     else ebind (rd8 b (at + 2)) (\<lambda>r. Inr (r = z))))"

text \<open>
  The \<^verbatim>\<open>switch\<close> on the block type with the payload at \<open>at\<close>. \<open>ret\<close> is the variable of that name, which the
  vendor case tests; \<open>None\<close> is \<^verbatim>\<open>return -1\<close>.
\<close>

definition data_block :: "bytes \<Rightarrow> nat \<Rightarrow> u8 \<Rightarrow> u8 \<Rightarrow> int \<Rightarrow> u8 \<Rightarrow> c_error + (int \<times> u8) option" where
  "data_block b at ty len ret run =
    (if ty = 0x01 then
       if len = 3 then
         ebind (rd8 b at) (\<lambda>_. ebind (rd8 b (at + 1)) (\<lambda>_. ebind (rd8 b (at + 2)) (\<lambda>_. Inr (Some (ret, run)))))
       else Inr (Some (ret, run))
     else if ty = 0x02 then
       ebind (video_loop b at (unat len) run) (\<lambda>run. Inr (Some (ret, run)))
     else if ty = 0x03 then
       ebind (is_oui b at 0x03 0x0C 0x00) (\<lambda>hdmi1.
         if hdmi1 then ebind (EDID_ParseVendorSpecificBlock b at run) (\<lambda>run. Inr (Some (0, run)))
         else ebind (is_oui b at 0xD8 0x5D 0xC4) (\<lambda>_. Inr (if ret < 0 then None else Some (ret, run))))
     else Inr (Some (ret, run)))"

text \<open>
  The loop over the short descriptors: \<open>base\<close> is the start of the extension block, \<open>ldo\<close>
  \<^verbatim>\<open>LongDescriptorOffset\<close>. \<open>Returned\<close> is the early \<^verbatim>\<open>return -1\<close>, \<open>Left\<close> the loop left with the index
  reached, by its condition or by the overflow \<^verbatim>\<open>break\<close>.
\<close>

datatype walk = Returned u8 | Left u8 u8

function short_loop :: "bytes \<Rightarrow> nat \<Rightarrow> u8 \<Rightarrow> u8 \<Rightarrow> int \<Rightarrow> u8 \<Rightarrow> c_error + walk" where
  "short_loop b base ldo idx ret run =
    (if idx < ldo then
       ebind (rd8 b (base + unat idx)) (\<lambda>ucData.
         let i = idx + 1; ty = drop_bit 5 ucData AND 0x07; len = ucData AND 0x1F
         in if unat ldo < unat i + unat len then Inr (Left i run)
            else ebind (data_block b (base + unat i) ty len ret run) (\<lambda>r.
              case r of None \<Rightarrow> Inr (Returned run)
              | Some (ret, run) \<Rightarrow> short_loop b base ldo (i + len) ret run))
     else Inr (Left idx run))"
  by pat_completeness auto

lemma unat_step:
  assumes "(idx :: u8) < ldo" "unat (idx + 1) + unat (len :: u8) \<le> unat ldo"
  shows "unat (idx + 1) = unat idx + 1" "unat (idx + 1 + len) = unat idx + 1 + unat len"
proof -
  have "unat idx + 1 < 256" using assms(1) unat_lt_2_8 [of ldo] by (simp add: word_less_nat_alt)
  then show a: "unat (idx + 1) = unat idx + 1" by (simp add: unat_add_no_wrap)
  have "unat (idx + 1) + unat len < 256" using assms(2) unat_lt_2_8 [of ldo] by linarith
  then have "unat (idx + 1 + len) = unat (idx + 1) + unat len" by (simp add: unat_add_no_wrap)
  with a show "unat (idx + 1 + len) = unat idx + 1 + unat len" by simp
qed

termination short_loop
proof (relation "measure (\<lambda>(b, base, ldo, idx, ret, run). 256 - unat idx)", goal_cases)
  case 1
  then show ?case by simp
next
  case (2 b base ldo idx ret run x i ty len r p ret' run')
  then have "unat (idx + 1 + len) = unat idx + 1 + unat len"
    by (intro unat_step [of idx ldo len]) simp_all
  then show ?case using 2 unat_lt_2_8 [of idx] by simp
qed

declare short_loop.simps [simp del]

text \<open>The loop over the detailed descriptors, up to \<^verbatim>\<open>0x7F - 18\<close>.\<close>

function long_loop :: "bytes \<Rightarrow> nat \<Rightarrow> u8 \<Rightarrow> u8 \<Rightarrow> c_error + u8 \<times> u8" where
  "long_loop b base idx run =
    (if idx < 0x7F - 18 then
       ebind (EDID_ParseDetailDescriptor b (base + unat idx) run) (\<lambda>run. long_loop b base (idx + 18) run)
     else Inr (idx, run))"
  by pat_completeness auto

lemma unat_plus18: "(idx :: u8) < 109 \<Longrightarrow> unat (idx + 18) = unat idx + 18"
  by (simp add: unat_add_no_wrap word_less_nat_alt)

termination long_loop
proof (relation "measure (\<lambda>(b, base, idx, run). 256 - unat idx)", goal_cases)
  case 1
  then show ?case by simp
next
  case (2 b base idx run run')
  then have "unat (idx + 18) = unat idx + 18" by (intro unat_plus18) simp
  then show ?case using unat_lt_2_8 [of idx] by simp
qed

declare long_loop.simps [simp del]

text \<open>
  The tag and revision test sits under \<open>if (!ret)\<close>; \<open>True\<close> is \<^verbatim>\<open>return -1\<close>.
\<close>

definition header_rejected :: "int \<Rightarrow> u8 \<Rightarrow> u8 \<Rightarrow> bool" where
  "header_rejected ret tag ver \<longleftrightarrow>
    ret = 0 \<and>
    (if tag = 0xBD \<and> ver = 0xBD then False
     else if tag = 0x02 then 0x03 < ver
     else True)"

definition EDID_ParseCEAExtensionBlockInformation :: "bytes \<Rightarrow> u8 \<Rightarrow> u8 \<Rightarrow> c_error + int \<times> u8" where
  "EDID_ParseCEAExtensionBlockInformation b IndexOfExtension run =
    (let base = (unat IndexOfExtension + 1) * 128 in
     ebind (EDID_ValidateBlock1Buffer True b base 0 0) (\<lambda>(ret, tag, ver).
       if header_rejected ret tag ver then Inr (-1, run)
       else
         ebind (rd8 b base) (\<lambda>_. ebind (rd8 b (base + 1)) (\<lambda>_.
         ebind (rd8 b (base + 2)) (\<lambda>ldo. ebind (rd8 b (base + 3)) (\<lambda>_.
         ebind (short_loop b base ldo 4 ret run) (\<lambda>w.
           case w of
             Returned run \<Rightarrow> Inr (-1, run)
           | Left idx run \<Rightarrow>
               if idx < ldo then Inr (-1, run)
               else ebind (long_loop b base ldo run) (\<lambda>(idx, run).
                      if idx < 0x7F - 18 then Inr (-1, run) else Inr (0, run)))))))))"

section \<open>What the loops compute\<close>

lemma take_drop_Suc: "at < length b \<Longrightarrow> take (Suc n) (drop at b) = b ! at # take n (drop (at + 1) b)"
  by (simp add: Cons_nth_drop_Suc [symmetric])

lemma sum_bytes_ok:
  "at + n \<le> length b \<Longrightarrow> sum_bytes b at n acc = Inr (acc + sum_list (take n (drop at b)))"
  by (induction b at n acc rule: sum_bytes.induct) (simp_all add: take_drop_Suc add.assoc)

lemma hdmi_vic_4k:
  "VIC < (5 :: u8) \<Longrightarrow> (3840 \<le> fst (g_HdmiVicTable ! unat VIC) \<and> 2160 \<le> snd (g_HdmiVicTable ! unat VIC)) = (VIC \<noteq> 0)"
proof -
  assume "VIC < (5 :: u8)"
  then have "unat VIC = 0 \<or> unat VIC = 1 \<or> unat VIC = 2 \<or> unat VIC = 3 \<or> unat VIC = 4"
    by (simp add: word_less_nat_alt) linarith
  then show ?thesis by (auto simp: g_HdmiVicTable_def unat_eq_0)
qed

lemma vic_loop_eq:
  "at + n \<le> length b \<Longrightarrow> vic_loop b at n run =
     (if 5 \<in> set (take n (drop at b)) then Inl OutOfBounds
      else Inr (if \<exists>v\<in>set (take n (drop at b)). 1 \<le> v \<and> v \<le> 4 then 1 else run))"
proof (induction b at n run rule: vic_loop.induct)
  case (1 b at run)
  then show ?case by simp
next
  case (2 b at n run)
  let ?v = "b ! at"
  have len: "length g_HdmiVicTable = 5" by (simp add: g_HdmiVicTable_def)
  consider "?v = 5" | "?v < 5" | "5 < ?v" using less_linear by blast
  then show ?case
  proof cases
    case 1
    then show ?thesis using 2(3) by (simp add: take_drop_Suc len)
  next
    case v: 2
    then have le: "?v \<le> 5" "\<not> 5 \<le> unat ?v" by (simp_all add: word_le_nat_alt word_less_nat_alt)
    have iff: "1 \<le> ?v \<and> ?v \<le> 4 \<longleftrightarrow> ?v \<noteq> 0"
      using v by (auto simp: word_le_nat_alt word_less_nat_alt unat_eq_0) (metis One_nat_def Suc_leI unat_gt_0 word_neq_0_conv)
    obtain h w where hw: "g_HdmiVicTable ! unat ?v = (h, w)" by (cases "g_HdmiVicTable ! unat ?v")
    then have k: "(3840 \<le> h \<and> 2160 \<le> w) = (?v \<noteq> 0)" using hdmi_vic_4k [OF v] by simp
    show ?thesis
      using 2(1) [of ?v "(h, w)" h w] 2(3) v le len hw k iff
      by (auto simp: take_drop_Suc)
  next
    case v: 3
    then have "\<not> ?v \<le> 5" "\<not> ?v \<le> 4" by (simp_all add: word_le_nat_alt word_less_nat_alt)
    then show ?thesis using 2(2) [of ?v] 2(3) by (auto simp: take_drop_Suc)
  qed
qed

definition vic_4k :: "u8 \<Rightarrow> bool" where
  "vic_4k x \<longleftrightarrow> 93 \<le> unat (x AND 0x7F) \<and> unat (x AND 0x7F) \<le> 107"

lemma length_video_table: "length g_VideoDataFormat = 256"
  by (simp add: g_VideoDataFormat_def)

definition row_4k :: "edid_video_format \<Rightarrow> bool" where
  "row_4k f \<longleftrightarrow> 3840 \<le> vf_Horizontal f \<or> 2160 \<le> vf_Vertical f"

lemma row_4k_vdf [simp]: "row_4k (vdf f r z h v h2 v2) \<longleftrightarrow> 3840 \<le> h \<or> 2160 \<le> v"
  by (simp add: row_4k_def vdf_def)

lemma video_rows_4k:
  "map row_4k g_VideoDataFormat =
   [False, False, False, False, False, False, False, False, False, False, False, False, False, False, False, False, False, False, False, False,
    False, False, False, False, False, False, False, False, False, False, False, False, False, False, False, False, False, False, False, False,
    False, False, False, False, False, False, False, False, False, False, False, False, False, False, False, False, False, False, False, False,
    False, False, False, False, False, False, False, False, False, False, False, False, False, False, False, False, False, False, False, False,
    False, False, False, False, False, False, False, False, False, False, False, False, False,
    True, True, True, True, True, True, True, True, True, True, True, True, True, True, True] @ replicate 148 False"
  unfolding g_VideoDataFormat_def by simp

lemma video_rows_4k_nth: "i < 256 \<Longrightarrow> row_4k (g_VideoDataFormat ! i) = (93 \<le> i \<and> i \<le> 107)"
proof -
  have r: "map row_4k g_VideoDataFormat = replicate 93 False @ replicate 15 True @ replicate 148 False"
    unfolding video_rows_4k by (simp add: numeral_eq_Suc)
  assume "i < 256"
  then have "row_4k (g_VideoDataFormat ! i) = map row_4k g_VideoDataFormat ! i"
    by (simp add: length_video_table)
  also have "\<dots> = (93 \<le> i \<and> i \<le> 107)"
    unfolding r using \<open>i < 256\<close> by (auto simp: nth_append)
  finally show ?thesis .
qed

lemma and_7f_less: "unat (x AND 0x7F :: u8) < 128"
  using word_and_le1 [of x "0x7F"] by (simp add: word_le_nat_alt)

lemma video_loop_step:
  "at < length b \<Longrightarrow> video_loop b at (Suc n) run = video_loop b (at + 1) n (if vic_4k (b ! at) then 1 else run)"
proof -
  assume at: "at < length b"
  let ?f = "g_VideoDataFormat ! unat (b ! at AND 0x7F)"
  have "(3840 \<le> vf_Horizontal ?f \<or> 2160 \<le> vf_Vertical ?f) = vic_4k (b ! at)"
    using video_rows_4k_nth and_7f_less [of "b ! at"] by (simp add: vic_4k_def row_4k_def)
  then show ?thesis using at by (simp add: Let_def)
qed

lemma video_loop_eq:
  "at + n \<le> length b \<Longrightarrow> video_loop b at n run =
     Inr (if \<exists>x\<in>set (take n (drop at b)). vic_4k x then 1 else run)"
proof (induction n arbitrary: at run)
  case 0
  then show ?case by simp
next
  case (Suc n)
  then show ?case
    by (simp del: video_loop.simps add: video_loop_step take_drop_Suc)
qed

lemma standard_timing_width: "fst (standard_timing d) < 3840"
proof -
  have "d AND 0xFF \<le> 0xFF" by (rule word_and_le1)
  then have "unat (d AND 0xFF) \<le> 255" by (simp add: word_le_nat_alt)
  then have "unat ((d AND 0xFF) + 0x1F) = unat (d AND 0xFF) + 31" by (simp add: unat_add_no_wrap)
  moreover have "unat (((d AND 0xFF) + 0x1F) * 8) = unat ((d AND 0xFF) + 0x1F) * unat (8 :: u16)"
    using calculation \<open>unat (d AND 0xFF) \<le> 255\<close> by (intro unat_mult_no_wrap) simp
  ultimately have "unat (((d AND 0xFF) + 0x1F) * 8) < 3840"
    using \<open>unat (d AND 0xFF) \<le> 255\<close> by simp
  then have "((d AND 0xFF) + 0x1F) * 8 < 3840" by (simp add: word_less_nat_alt)
  then show ?thesis by (simp only: standard_timing_def Let_def fst_conv)
qed

lemma rd16_ok: "at + 2 \<le> length b \<Longrightarrow> rd16 b at = Inr (ucast (b ! at) OR push_bit 8 (ucast (b ! (at + 1))))"
  by (simp add: rd16_def)

lemma standard_loop_eq: "at + 2 * n \<le> length b \<Longrightarrow> standard_loop b at n run = Inr run"
proof (induction b at n run rule: standard_loop.induct)
  case (1 b at run)
  then show ?case by simp
next
  case (2 b at n run)
  obtain h v r where t: "standard_timing (ucast (b ! at) OR push_bit 8 (ucast (b ! (at + 1)))) = (h, v, r)"
    by (metis prod_cases3)
  then have "\<not> 3840 \<le> h" using standard_timing_width [of "ucast (b ! at) OR push_bit 8 (ucast (b ! (at + 1)))"] by simp
  with 2 t show ?case by (simp add: rd16_ok)
qed

section \<open>Detailed timings\<close>

lemma nibble_bounds:
  "unat (x AND 0xF0 :: u8) \<le> 240" "unat (x AND 0x0F :: u8) \<le> 15"
  using word_and_le1 [of x "0xF0"] word_and_le1 [of x "0x0F"] by (simp_all add: word_le_nat_alt)

lemma unat_hi_active:
  "unat (push_bit 4 (ucast (x AND 0xF0 :: u8)) + ucast (y :: u8) :: u16) = unat (x AND 0xF0) * 16 + unat y"
proof -
  have u: "unat (ucast z :: u16) = unat z" for z :: u8 by (simp add: unat_ucast_up)
  have p: "unat (push_bit 4 (ucast (x AND 0xF0)) :: u16) = unat (x AND 0xF0) * 16"
    using nibble_bounds(1) [of x] unat_mult_no_wrap [of "ucast (x AND 0xF0) :: u16" 16]
    by (simp add: push_bit_eq_mult u)
  then show ?thesis
    using nibble_bounds(1) [of x] unat_lt_2_8 [of y]
    by (subst unat_add_no_wrap) (simp_all add: u)
qed

lemma unat_hi_blank:
  "unat (push_bit 8 (ucast (x AND 0x0F :: u8)) + ucast (y :: u8) :: u16) = unat (x AND 0x0F) * 256 + unat y"
proof -
  have u: "unat (ucast z :: u16) = unat z" for z :: u8 by (simp add: unat_ucast_up)
  have p: "unat (push_bit 8 (ucast (x AND 0x0F)) :: u16) = unat (x AND 0x0F) * 256"
    using nibble_bounds(2) [of x] unat_mult_no_wrap [of "ucast (x AND 0x0F) :: u16" 256]
    by (simp add: push_bit_eq_mult u)
  then show ?thesis
    using nibble_bounds(2) [of x] unat_lt_2_8 [of y]
    by (subst unat_add_no_wrap) (simp_all add: u)
qed

lemma timing_fields_bounded:
  "unat (dt_HorActive (decode_timing d)) \<le> 4095" "unat (dt_HorBlanking (decode_timing d)) \<le> 4095"
  "unat (dt_VerActive (decode_timing d)) \<le> 4095" "unat (dt_VerBlanking (decode_timing d)) \<le> 4095"
  using nibble_bounds [of "d ! 4"] nibble_bounds [of "d ! 7"] unat_lt_2_8 [of "d ! 2"] unat_lt_2_8 [of "d ! 3"]
    unat_lt_2_8 [of "d ! 5"] unat_lt_2_8 [of "d ! 6"]
  by (simp_all add: decode_timing_def Let_def unat_hi_active unat_hi_blank)

lemma unat_timing_total:
  "unat (timing_total (decode_timing d)) =
     (unat (dt_HorActive (decode_timing d)) + unat (dt_HorBlanking (decode_timing d))) *
     (unat (dt_VerActive (decode_timing d)) + unat (dt_VerBlanking (decode_timing d)))"
  and timing_total_bound: "unat (timing_total (decode_timing d)) \<le> 67076100"
proof -
  let ?t = "decode_timing d"
  note b = timing_fields_bounded [of d]
  have u: "unat (ucast z :: u32) = unat z" for z :: u16 by (simp add: unat_ucast_up)
  have h: "unat (ucast (dt_HorActive ?t) + ucast (dt_HorBlanking ?t) :: u32) =
      unat (dt_HorActive ?t) + unat (dt_HorBlanking ?t)"
    using b(1,2) by (subst unat_add_no_wrap) (simp_all add: u)
  have v: "unat (ucast (dt_VerActive ?t) + ucast (dt_VerBlanking ?t) :: u32) =
      unat (dt_VerActive ?t) + unat (dt_VerBlanking ?t)"
    using b(3,4) by (subst unat_add_no_wrap) (simp_all add: u)
  have m: "(unat (dt_HorActive ?t) + unat (dt_HorBlanking ?t)) *
      (unat (dt_VerActive ?t) + unat (dt_VerBlanking ?t)) \<le> 8190 * 8190"
    using b by (intro mult_le_mono) simp_all
  then show e: "unat (timing_total ?t) = (unat (dt_HorActive ?t) + unat (dt_HorBlanking ?t)) *
      (unat (dt_VerActive ?t) + unat (dt_VerBlanking ?t))"
    unfolding timing_total_def by (subst unat_mult_no_wrap) (simp_all add: h v)
  show "unat (timing_total ?t) \<le> 67076100" using e m by simp
qed

lemma unat_pixel_clock:
  "unat (dt_PixelClock (decode_timing d)) = unat (ucast (d ! 0) OR push_bit 8 (ucast (d ! 1)) :: u16) * 10000"
  using unat_lt_2_16 [of "ucast (d ! 0) OR push_bit 8 (ucast (d ! 1))"]
  by (simp add: decode_timing_def Let_def unat_mult_no_wrap unat_ucast_up)

lemma unat_push_bit_1: "unat (w :: u32) < 2147483648 \<Longrightarrow> unat (push_bit 1 w) = 2 * unat w"
  using unat_mult_no_wrap [of w 2] by (simp add: push_bit_eq_mult mult.commute)

lemma unat_timing_refresh:
  "unat (timing_refresh (decode_timing d)) =
     ((2 * unat (dt_PixelClock (decode_timing d)) + unat (timing_total (decode_timing d))) div
      (2 * unat (timing_total (decode_timing d)))) mod 65536"
proof -
  let ?t = "decode_timing d"
  have t: "unat (push_bit 1 (timing_total ?t)) = 2 * unat (timing_total ?t)"
    using timing_total_bound [of d] by (intro unat_push_bit_1) simp
  have clk: "unat (dt_PixelClock ?t) \<le> 655350000"
    using unat_lt_2_16 [of "ucast (d ! 0) OR push_bit 8 (ucast (d ! 1))"] by (simp add: unat_pixel_clock)
  then have c: "unat (push_bit 1 (dt_PixelClock ?t)) = 2 * unat (dt_PixelClock ?t)"
    by (intro unat_push_bit_1) simp
  have "unat (push_bit 1 (dt_PixelClock ?t) + timing_total ?t) =
      2 * unat (dt_PixelClock ?t) + unat (timing_total ?t)"
    using clk timing_total_bound [of d] c by (subst unat_add_no_wrap) simp_all
  then show ?thesis
    by (simp only: timing_refresh_def unsigned_ucast_eq take_bit_eq_mod unat_div t) simp
qed

section \<open>Bounds of the walk\<close>

text \<open>
  No HDMI vendor block of the buffer lists the code 5: the 22 bytes from the identifier on hold no 5.
\<close>

definition no_vic5 :: "bytes \<Rightarrow> bool" where
  "no_vic5 b \<longleftrightarrow> (\<forall>k<length b. b ! k = 0x03 \<and> b ! (k + 1) = 0x0C \<and> b ! (k + 2) = 0x00 \<longrightarrow>
                    5 \<notin> set (take 22 (drop k b)))"

lemma detail_ok:
  assumes "at + 18 \<le> length b"
  shows "EDID_ParseDetailDescriptor b at run =
    Inr (if ucast (b ! at) OR push_bit 8 (ucast (b ! (at + 1))) = (0 :: u16)
         then (if b ! (at + 3) = 0xFD \<and> 300 \<le> (ucast (b ! (at + 9)) :: u32) * 10 then 1 else run)
         else detailed_run (decode_timing (take 18 (drop at b))) run)"
  using assms by (simp add: EDID_ParseDetailDescriptor_def rd16_ok standard_loop_eq Let_def)

lemma detail_run: "at + 18 \<le> length b \<Longrightarrow> \<exists>r\<in>{run, 1}. EDID_ParseDetailDescriptor b at run = Inr r"
  by (auto simp: detail_ok detailed_run_def)

lemma take_drop_sub: "set (take n (drop (at + k) b)) \<subseteq> set (take (k + n) (drop at b))"
proof -
  have "take n (drop (at + k) b) = drop k (take (k + n) (drop at b))"
    by (simp add: take_drop ac_simps)
  then show ?thesis using set_drop_subset [of k "take (k + n) (drop at b)"] by simp
qed

lemma vendor_ok:
  assumes "at + 22 \<le> length b" "5 \<notin> set (take 22 (drop at b))"
  shows "\<exists>r\<in>{run, 1}. EDID_ParseVendorSpecificBlock b at run = Inr r"
proof -
  have "\<exists>r\<in>{run, 1}. vic_loop b (at + s) (unat (drop_bit 5 x AND 7)) run = Inr r" if "s \<le> 14" for s and x :: u8
  proof -
    have "drop_bit 5 x AND 7 \<le> 7" by (rule word_and_le1)
    then have n: "unat (drop_bit 5 x AND 7) \<le> 7" by (simp add: word_le_nat_alt)
    have "set (take (unat (drop_bit 5 x AND 7)) (drop (at + s) b)) \<subseteq> set (take (s + unat (drop_bit 5 x AND 7)) (drop at b))"
      by (rule take_drop_sub)
    also have "\<dots> \<subseteq> set (take 22 (drop at b))"
      using n that by (intro set_take_subset_set_take) simp
    finally have "5 \<notin> set (take (unat (drop_bit 5 x AND 7)) (drop (at + s) b))" using assms(2) by blast
    with assms(1) n that show ?thesis by (simp add: vic_loop_eq)
  qed
  from this [of 10] this [of 12] this [of 14] show ?thesis
    using assms(1) by (simp add: EDID_ParseVendorSpecificBlock_def Let_def)
qed

lemma is_oui_ok: "at + 3 \<le> length b \<Longrightarrow> is_oui b at x y z = Inr (b ! at = x \<and> b ! (at + 1) = y \<and> b ! (at + 2) = z)"
  by (simp add: is_oui_def)

lemma data_block_ok:
  assumes "at + 22 \<le> length b" "at + unat len \<le> length b" "no_vic5 b"
  shows "data_block b at ty len ret run = Inr None \<and> ret < 0 \<or>
    (\<exists>ret' run'. data_block b at ty len ret run = Inr (Some (ret', run')) \<and> run' \<in> {run, 1} \<and> ret' \<in> {ret, 0})"
proof -
  have v: "\<exists>r\<in>{run, 1}. EDID_ParseVendorSpecificBlock b at run = Inr r"
    if "b ! at = 3" "b ! (at + 1) = 12" "b ! (at + 2) = 0"
    using assms that by (intro vendor_ok) (auto simp: no_vic5_def)
  show ?thesis
    using assms v by (auto simp: data_block_def is_oui_ok video_loop_eq)
qed

lemma short_loop_ok:
  assumes "length b = 512" "base + 277 \<le> 512" "no_vic5 b"
  shows "\<exists>w. short_loop b base ldo idx ret run = Inr w \<and>
    (case w of Returned r \<Rightarrow> r \<in> {run, 1} | Left i r \<Rightarrow> r \<in> {run, 1})"
  using assms
proof (induction b base ldo idx ret run rule: short_loop.induct)
  case (1 b base ldo idx ret run)
  show ?case
  proof (cases "idx < ldo")
    case False
    then show ?thesis by (simp add: short_loop.simps)
  next
    case True
    let ?x = "b ! (base + unat idx)"
    let ?i = "idx + 1" and ?ty = "drop_bit 5 ?x AND 7" and ?len = "?x AND 0x1F"
    have "base + unat idx < 512" using 1(3) unat_lt_2_8 [of idx] by linarith
    then have x: "rd8 b (base + unat idx) = Inr ?x" using 1(2) by simp
    show ?thesis
    proof (cases "unat ldo < unat ?i + unat ?len")
      case True
      then show ?thesis using \<open>idx < ldo\<close> x by (subst short_loop.simps) (simp add: Let_def)
    next
      case False
      have "data_block b (base + unat ?i) ?ty ?len ret run = Inr None \<and> ret < 0 \<or>
        (\<exists>ret' run'. data_block b (base + unat ?i) ?ty ?len ret run = Inr (Some (ret', run')) \<and>
           run' \<in> {run, 1} \<and> ret' \<in> {ret, 0})"
        using False 1(2-4) unat_lt_2_8 [of ldo] unat_lt_2_8 [of ?i] by (intro data_block_ok) auto
      then show ?thesis
      proof (elim disjE exE conjE)
        assume "data_block b (base + unat ?i) ?ty ?len ret run = Inr None"
        then show ?thesis using \<open>idx < ldo\<close> False x by (subst short_loop.simps) (simp add: Let_def)
      next
        fix ret' run' assume d: "data_block b (base + unat ?i) ?ty ?len ret run = Inr (Some (ret', run'))"
          "run' \<in> {run, 1}"
        from 1(1) [OF \<open>idx < ldo\<close> x refl refl refl False d(1) refl refl 1(2-4)] d
        obtain w where "short_loop b base ldo (?i + ?len) ret' run' = Inr w"
          "case w of Returned r \<Rightarrow> r \<in> {run', 1} | Left i r \<Rightarrow> r \<in> {run', 1}" by blast
        then show ?thesis using \<open>idx < ldo\<close> False x d
          by (subst short_loop.simps) (auto simp: Let_def split: walk.splits)
      qed
    qed
  qed
qed

lemma long_loop_ok:
  assumes "base + 127 \<le> length b"
  shows "\<exists>i r. long_loop b base idx run = Inr (i, r) \<and> r \<in> {run, 1} \<and> \<not> i < 109"
  using assms
proof (induction b base idx run rule: long_loop.induct)
  case (1 b base idx run)
  show ?case
  proof (cases "idx < 109")
    case False
    then show ?thesis by (subst long_loop.simps) simp
  next
    case True
    then have "base + unat idx + 18 \<le> length b" using 1(2) by (simp add: word_less_nat_alt)
    from detail_run [OF this, of run] obtain r where r: "r \<in> {run, 1}"
      "EDID_ParseDetailDescriptor b (base + unat idx) run = Inr r" by blast
    from 1(1) [OF _ r(2) 1(2)] True obtain i r' where
      "long_loop b base (idx + 18) r = Inr (i, r')" "r' \<in> {r, 1}" "\<not> i < 109" by auto
    then show ?thesis using True r by (subst long_loop.simps) auto
  qed
qed

lemma validate_ok:
  "at + 128 \<le> length b \<Longrightarrow> EDID_ValidateBlock1Buffer True b at t0 v0 =
     Inr (if sum_list (take 128 (drop at b)) \<noteq> 0 then (-1, 0xBD, 0xBD)
          else (if b ! at \<noteq> 2 \<or> b ! (at + 1) \<noteq> 3 then -1 else 0, b ! at, b ! (at + 1)))"
  by (simp add: EDID_ValidateBlock1Buffer_def sum_bytes_ok)

section \<open>Encoding data blocks\<close>

text \<open>
  The layout the standard gives a data block: type and length in one byte, then the payload.
\<close>

definition enc_block :: "u8 \<times> bytes \<Rightarrow> bytes" where
  "enc_block blk = (push_bit 5 (fst blk) OR word_of_nat (length (snd blk))) # snd blk"

lemma enc_block_pair: "enc_block (ty, p) = (push_bit 5 ty OR word_of_nat (length p)) # p"
  by (simp add: enc_block_def)

definition wf_block :: "u8 \<times> bytes \<Rightarrow> bool" where
  "wf_block blk \<longleftrightarrow> fst blk < 8 \<and> fst blk \<noteq> 3 \<and> length (snd blk) < 32"

lemma bit_less: assumes "w < (2 ^ k :: u8)" "bit w i" "k \<le> 8" shows "i < k"
proof -
  have "take_bit k w = w" using assms less_mask_eq [of w k] by (simp add: take_bit_eq_mask)
  then show ?thesis using assms(2) by (metis bit_take_bit_iff)
qed
lemma hdr_type: assumes "ty < 8" "n < 32" shows "drop_bit 5 (push_bit 5 ty OR n) AND 7 = (ty :: u8)"
proof -
  have m: "(7 :: u8) = mask 3" by (simp add: mask_eq_exp_minus_1)
  have t: "i < 3" if "bit ty i" for i using bit_less [of ty 3 i] that assms by simp
  have n: "i < 5" if "bit n i" for i using bit_less [of n 5 i] that assms by simp
  show ?thesis unfolding m
    by (rule bit_word_eqI) (use t n in \<open>fastforce simp: bit_simps\<close>)
qed
lemma hdr_len: assumes "n < 32" shows "(push_bit 5 ty OR n) AND 0x1F = (n :: u8)"
proof -
  have m: "(0x1F :: u8) = mask 5" by (simp add: mask_eq_exp_minus_1)
  have n: "i < 5" if "bit n i" for i using bit_less [of n 5 i] that assms by simp
  show ?thesis unfolding m
    by (rule bit_word_eqI) (use n in \<open>fastforce simp: bit_simps\<close>)
qed

lemma length_word: "n < 32 \<Longrightarrow> (word_of_nat n :: u8) < 32 \<and> unat (word_of_nat n :: u8) = n"
  by (simp add: word_less_nat_alt unat_of_nat take_bit_eq_mod)

definition block_run :: "u8 \<times> bytes \<Rightarrow> u8 \<Rightarrow> u8" where
  "block_run blk run = (if fst blk = 2 \<and> (\<exists>x\<in>set (snd blk). vic_4k x) then 1 else run)"

lemma short_loop_encoded:
  assumes "\<forall>blk\<in>set blks. wf_block blk"
    and "take (length (concat (map enc_block blks))) (drop (base + unat idx) b) = concat (map enc_block blks)"
    and "base + unat ldo \<le> length b"
    and "unat idx + length (concat (map enc_block blks)) = unat ldo"
  shows "short_loop b base ldo idx ret run = Inr (Left ldo (fold block_run blks run))"
  using assms
proof (induction blks arbitrary: idx run)
  case Nil
  then have "unat idx = unat ldo" by simp
  then have "idx = ldo" by (simp add: word_unat_eq_iff)
  then show ?case by (simp add: short_loop.simps)
next
  case (Cons blk blks)
  obtain ty p where blk: "blk = (ty, p)" by (cases blk)
  let ?rest = "concat (map enc_block blks)"
  let ?len = "word_of_nat (length p) :: u8"
  have wf: "ty < 8" "ty \<noteq> 3" "length p < 32" using Cons.prems(1) blk by (auto simp: wf_block_def)
  have l: "?len < 32" "unat ?len = length p" using length_word [OF wf(3)] by auto
  have sum: "unat idx + 1 + length p + length ?rest = unat ldo"
    using Cons.prems(4) blk by (simp add: enc_block_pair)
  then have lt: "idx < ldo" by (simp add: word_less_nat_alt)
  have u1: "unat (idx + 1) = unat idx + 1"
    using sum unat_lt_2_8 [of ldo] by (simp add: unat_add_no_wrap)
  have fits: "unat (idx + 1) + unat ?len \<le> unat ldo" using sum l u1 by simp
  have u2: "unat (idx + 1 + ?len) = unat idx + 1 + length p"
    using unat_step(2) [OF lt fits] l by simp
  let ?d = "drop (base + unat idx) b"
  have enc: "take (Suc (length p + length ?rest)) ?d = (push_bit 5 ty OR ?len) # p @ ?rest"
    using Cons.prems(2) blk by (simp add: enc_block_pair)
  have dl: "base + unat idx < length b" using Cons.prems(3) sum by linarith
  then have d: "?d = b ! (base + unat idx) # drop (base + unat (idx + 1)) b"
    by (simp add: u1 Cons_nth_drop_Suc)
  have hd: "b ! (base + unat idx) = push_bit 5 ty OR ?len"
    and tl: "take (length p + length ?rest) (drop (base + unat (idx + 1)) b) = p @ ?rest"
    using enc unfolding d by simp_all
  have p: "take (length p) (drop (base + unat (idx + 1)) b) = p"
    using arg_cong [OF tl, of "take (length p)"] by simp
  have rest: "take (length ?rest) (drop (base + unat (idx + 1 + ?len)) b) = ?rest"
    using arg_cong [OF tl, of "drop (length p)"] unfolding u1 u2 by (simp add: drop_take add_ac)
  have ih: "short_loop b base ldo (idx + 1 + ?len) ret r = Inr (Left ldo (fold block_run blks r))" for r
    using Cons.prems(1,3) rest sum by (intro Cons.IH) (simp_all add: u2)
  have blk_ok: "data_block b (base + unat (idx + 1)) ty ?len ret run = Inr (Some (ret, block_run blk run))"
    using wf l p u1 sum Cons.prems(3) blk
    by (auto simp: data_block_def video_loop_eq block_run_def)
  show ?case
    using lt dl fits blk_ok ih hdr_type [OF wf(1) l(1)] hdr_len [OF l(1), of ty] hd
    by (subst short_loop.simps) (simp add: Let_def)
qed

lemma fold_block_run:
  "fold block_run blks run =
     (if \<exists>blk\<in>set blks. fst blk = 2 \<and> (\<exists>x\<in>set (snd blk). vic_4k x) then 1 else run)"
  by (induction blks arbitrary: run) (auto simp: block_run_def)

section \<open>Properties\<close>

lemma cea_walk_total:
  assumes "length b = 512" "no_vic5 b"
  shows "\<exists>r run'. EDID_ParseCEAExtensionBlockInformation b 0 run = Inr (r, run') \<and>
           r \<in> {0, -1} \<and> run' \<in> {run, 1}"
proof -
  obtain ret tag ver where v: "EDID_ValidateBlock1Buffer True b 128 0 0 = Inr (ret, tag, ver)"
    using validate_ok [of 128 b 0 0] assms(1) by (simp split: if_splits)
  obtain w where w: "short_loop b 128 (b ! 130) 4 ret run = Inr w"
    "case w of Returned r \<Rightarrow> r \<in> {run, 1} | Left i r \<Rightarrow> r \<in> {run, 1}"
    using short_loop_ok [of b 128 "b ! 130" 4 ret run] assms by auto
  have long: "\<exists>i r'. long_loop b 128 (b ! 130) r = Inr (i, r') \<and> r' \<in> {r, 1} \<and> \<not> i < 109" for r
    using long_loop_ok [of 128 b] assms(1) by simp
  have rej: "\<not> header_rejected ret tag ver"
    using v validate_ok [of 128 b 0 0] assms(1) by (auto simp: header_rejected_def split: if_splits)
  have unf: "EDID_ParseCEAExtensionBlockInformation b 0 run =
    (case w of
       Returned run \<Rightarrow> Inr (-1, run)
     | Left idx run \<Rightarrow>
         if idx < b ! 130 then Inr (-1, run)
         else ebind (long_loop b 128 (b ! 130) run) (\<lambda>(idx, run).
                if idx < 0x7F - 18 then Inr (-1, run) else Inr (0, run)))"
    using assms(1) v w(1) rej by (simp add: EDID_ParseCEAExtensionBlockInformation_def)
  show ?thesis
  proof (cases w)
    case (Returned r)
    then show ?thesis using unf w(2) by simp
  next
    case (Left i r)
    then show ?thesis using unf w(2) long [of r] by auto
  qed
qed



text \<open>
  C16: The walk over the short descriptors visits exactly the data blocks that are there: on a buffer that
  holds the encodings of any well-formed blocks (none vendor-specific) it reaches the end of the
  descriptors, and the flag is set exactly if a video block lists one of the codes 93 to 107,
  the 3840x2160 and 4096x2160 formats.
\<close>

theorem cea_walk_blocks:
  assumes "\<forall>blk\<in>set blks. wf_block blk"
    and "b = pre @ concat (map enc_block blks) @ post" "length pre = base + 4"
    and "unat ldo = 4 + length (concat (map enc_block blks))"
  shows "short_loop b base ldo 4 ret run =
    Inr (Left ldo (if \<exists>blk\<in>set blks. fst blk = 2 \<and> (\<exists>x\<in>set (snd blk). vic_4k x) then 1 else run))"
  using short_loop_encoded [of blks base 4 b ldo ret run] assms by (simp add: fold_block_run)

theorem cea_walk_blocks_witness:
  "short_loop ([0, 0, 0, 0] @ concat (map enc_block [(1, [9, 7, 7]), (2, [16, 97, 5]), (4, [1])]) @ [0]) 0 14 4 0 0 =
     Inr (Left 14 1)"
proof -
  let ?blks = "[(1, [9, 7, 7]), (2, [16, 97, 5]), (4, [1])] :: (u8 \<times> bytes) list"
  have "vic_4k 97" by (simp add: vic_4k_def)
  moreover have "\<forall>blk\<in>set ?blks. wf_block blk" by (simp add: wf_block_def)
  ultimately show ?thesis
    using cea_walk_blocks [of ?blks _ "[0, 0, 0, 0]" "[0]" 0 14 0 0] by (simp add: enc_block_def)
qed

text \<open>
  The HDMI code loop reads past its table: over codes that lie in the buffer it faults exactly if one of
  them is 5, which its guard admits and the 5-row table does not have; otherwise it sets the flag
  exactly if a code from 1 to 4 occurs.
\<close>

theorem hdmi_vic_loop_fault:
  assumes "at + n \<le> length b"
  shows "vic_loop b at n run =
     (if 5 \<in> set (take n (drop at b)) then Inl OutOfBounds
      else Inr (if \<exists>v\<in>set (take n (drop at b)). 1 \<le> v \<and> v \<le> 4 then 1 else run))"
  using assms by (rule vic_loop_eq)

theorem hdmi_vic_loop_fault_witness: "vic_loop [1, 5] 0 2 0 = Inl OutOfBounds"
  using hdmi_vic_loop_fault [of 0 2 "[1, 5]" 0] by (simp add: numeral_2_eq_2)

text \<open>
  The timing of a detailed descriptor is computed without wrap-around: the fields have 12 bits, the
  total is the product of the two line totals, and the refresh rate is the pixel clock divided by it,
  rounded to the nearest integer; the divisor is zero only if the total is, which the code excludes.
\<close>

theorem detailed_timing_exact:
  "let t = decode_timing d; tot = (unat (dt_HorActive t) + unat (dt_HorBlanking t)) *
                                  (unat (dt_VerActive t) + unat (dt_VerBlanking t))
   in unat (dt_HorActive t) \<le> 4095 \<and> unat (dt_VerActive t) \<le> 4095 \<and>
      unat (timing_total t) = tot \<and>
      (push_bit 1 (timing_total t) = 0 \<longleftrightarrow> timing_total t = 0) \<and>
      unat (timing_refresh t) = ((2 * unat (dt_PixelClock t) + tot) div (2 * tot)) mod 65536"
proof -
  have z: "push_bit 1 (timing_total (decode_timing d)) = 0 \<longleftrightarrow> timing_total (decode_timing d) = 0"
    using unat_push_bit_1 [of "timing_total (decode_timing d)"] timing_total_bound [of d]
    by (auto simp: unat_eq_zero [symmetric] simp del: push_bit_eq_0_iff)
  show ?thesis
    unfolding Let_def unat_timing_total [symmetric] unat_timing_refresh
    using timing_fields_bounded [of d] z by simp
qed

text \<open>
  A standard-timing descriptor never changes the flag: a standard timing is at most 2288 pixels wide,
  so the 3840 test in its loop cannot succeed.
\<close>

theorem standard_timings_never_4k:
  assumes "at + 18 \<le> length b" "b ! at = 0" "b ! (at + 1) = 0" "b ! (at + 3) = 0xFA"
  shows "EDID_ParseDetailDescriptor b at run = Inr run \<and>
         (\<forall>d. fst (standard_timing d) < 3840)"
  using assms detail_ok [of at b run] standard_timing_width by simp

theorem standard_timings_never_4k_witness:
  "EDID_ParseDetailDescriptor (replicate 3 0 @ [0xFA] @ replicate 14 0xFF) 0 0 = Inr 0"
  using standard_timings_never_4k [of 0 "replicate 3 0 @ [0xFA] @ replicate 14 0xFF" 0]
  by (simp add: numeral_eq_Suc)

text \<open>
  The block validation accepts exactly the blocks whose 128 bytes sum to zero and that carry tag 2 and
  revision 3; the test the caller makes on its outcome therefore never rejects anything, so that
  blocks with a wrong checksum, tag or revision are parsed as well.
\<close>

theorem cea_header_check:
  assumes "at + 128 \<le> length b"
  shows "\<exists>ret tag ver. EDID_ValidateBlock1Buffer True b at t0 v0 = Inr (ret, tag, ver) \<and>
    (ret = 0 \<longleftrightarrow> sum_list (take 128 (drop at b)) = 0 \<and> b ! at = 2 \<and> b ! (at + 1) = 3) \<and>
    \<not> header_rejected ret tag ver"
  using assms by (auto simp: EDID_ValidateBlock1Buffer_def sum_bytes_ok header_rejected_def)

theorem cea_header_check_witness:
  "\<exists>ret tag ver. EDID_ValidateBlock1Buffer True (replicate 128 0) 0 9 9 = Inr (ret, tag, ver) \<and>
    ret \<noteq> 0 \<and> \<not> header_rejected ret tag ver"
  using cea_header_check [of 0 "replicate 128 0" 9 9] by auto

end
