(* ===== verification/UsbDongle.thy ===== *)
theory UsbDongle
  imports UsbTransport Fragments T6Proto CeaEdid
begin

text \<open>
  \<^verbatim>\<open>extracted/.../evdi_t6_1/t6usbdongle.c\<close>: the vendor daemon's command layer over \<^verbatim>\<open>libusb\<close>, with the
  device structure of \<^verbatim>\<open>evdi_t6.h\<close> and the packed structures of \<^verbatim>\<open>t6.h\<close> and \<^verbatim>\<open>t6bulkdef.h\<close>.
  \<open>T6CalculatePixelClock\<close> is a parameter (\<open>pll\<close>) that the theory \<open>PixelClock\<close> instantiates. Uninitialised stack and
  heap memory the code hands to the device is a parameter too (\<open>junk\<close>).
\<close>

section \<open>The device structure\<close>

text \<open>The fields of \<^verbatim>\<open>T6EVDI\<close> that this layer reads or writes.\<close>

record t6evdi =
  t6usbdev :: bool
  fbAddr :: u32
  cmdAddr :: u32
  jpg_rotate :: int
  Width :: u16
  Height :: u16
  disp_interface :: u8
  edid :: bytes
  bRun4K30 :: u8
  dispcaps :: u8

section \<open>Vendor requests without data\<close>

text \<open>
  \<^verbatim>\<open>libusb_control_transfer(dev, 0x40, req, value, index, NULL, 0, ..)\<close>, mapped to 0 or -1. The value
  and index are truncated to 16 bits.
\<close>

definition vendor_set :: "usb_host \<Rightarrow> u8 \<Rightarrow> int \<Rightarrow> int \<Rightarrow> trace \<Rightarrow> int \<times> trace" where
  "vendor_set host req val idx tr =
    (let (ret, tr) = usb_send host (Control 0x40 req (word_of_int val) (word_of_int idx) [] 0) tr
     in (if ret < 0 then -1 else 0, tr))"

definition vendor_set_data :: "usb_host \<Rightarrow> u8 \<Rightarrow> int \<Rightarrow> int \<Rightarrow> bytes \<Rightarrow> trace \<Rightarrow> int \<times> trace" where
  "vendor_set_data host req val idx d tr =
     usb_send host (Control 0x40 req (word_of_int val) (word_of_int idx) d (word_of_nat (length d))) tr"

text \<open>A read of \<open>n\<close> bytes into \<open>buf\<close>.\<close>

definition vendor_get :: "usb_host \<Rightarrow> u8 \<Rightarrow> int \<Rightarrow> int \<Rightarrow> nat \<Rightarrow> bytes \<Rightarrow> trace \<Rightarrow> int \<times> bytes \<times> trace" where
  "vendor_get host req val idx n buf tr =
     usb_recv host (Control 0xC0 req (word_of_int val) (word_of_int idx) [] (word_of_nat n)) n buf tr"

definition VENDOR_REQ_SET_MONITOR_CTRL :: u8 where "VENDOR_REQ_SET_MONITOR_CTRL = 0x03"
definition VENDOR_REQ_SET_CURSOR1_POS :: u8 where "VENDOR_REQ_SET_CURSOR1_POS = 0x04"
definition VENDOR_REQ_SET_CURSOR1_STATE :: u8 where "VENDOR_REQ_SET_CURSOR1_STATE = 0x05"
definition VENDOR_REQ_SET_CURSOR2_POS :: u8 where "VENDOR_REQ_SET_CURSOR2_POS = 0x06"
definition VENDOR_REQ_SET_CURSOR2_STATE :: u8 where "VENDOR_REQ_SET_CURSOR2_STATE = 0x07"
definition VENDOR_REQ_SET_CURSOR1_SHAPE :: u8 where "VENDOR_REQ_SET_CURSOR1_SHAPE = 0x10"
definition VENDOR_REQ_SET_CURSOR2_SHAPE :: u8 where "VENDOR_REQ_SET_CURSOR2_SHAPE = 0x11"
definition VENDOR_REQ_SET_RESOLUTION_DETAIL_TIMING :: u8 where "VENDOR_REQ_SET_RESOLUTION_DETAIL_TIMING = 0x12"
definition VENDOR_REQ_SET_CANCEL_BULK_OUT :: u8 where "VENDOR_REQ_SET_CANCEL_BULK_OUT = 0x14"
definition VENDOR_REQ_SET_SOFTWARE_READY :: u8 where "VENDOR_REQ_SET_SOFTWARE_READY = 0x31"
definition VENDOR_REQ_GET_EDID :: u8 where "VENDOR_REQ_GET_EDID = 0x80"
definition VENDOR_REQ_GET_RESOLUTION_TABLE_NUM :: u8 where "VENDOR_REQ_GET_RESOLUTION_TABLE_NUM = 0x84"
definition VENDOR_REQ_QUERY_MONITOR_CONNECTION_STATUS :: u8 where
  "VENDOR_REQ_QUERY_MONITOR_CONNECTION_STATUS = 0x87"
definition VENDOR_REQ_QUERY_VIDEO_RAM_SIZE :: u8 where "VENDOR_REQ_QUERY_VIDEO_RAM_SIZE = 0x88"
definition VENDOR_REQ_GET_RESOLUTION_TIMING_TABLE :: u8 where "VENDOR_REQ_GET_RESOLUTION_TIMING_TABLE = 0x89"
definition VENDOR_REQ_AUD_GET_ENGINE_STATE :: u8 where "VENDOR_REQ_AUD_GET_ENGINE_STATE = 0xA4"
definition VENDOR_REQ_AUD_SET_ENGINE_STATE :: u8 where "VENDOR_REQ_AUD_SET_ENGINE_STATE = 0x24"
definition VENDOR_REQ_GET_VERSION :: u8 where "VENDOR_REQ_GET_VERSION = 0xB0"
definition VENDOR_REQ_QUERY_SECTION_DATA :: u8 where "VENDOR_REQ_QUERY_SECTION_DATA = 0xB3"
definition EP_BLK_OUT_ADDR :: u8 where "EP_BLK_OUT_ADDR = 0x02"
definition EP_INT_IN_ADDR :: u8 where "EP_INT_IN_ADDR = 0x83"

lemmas vendor_reqs =
  VENDOR_REQ_SET_MONITOR_CTRL_def VENDOR_REQ_SET_CURSOR1_POS_def VENDOR_REQ_SET_CURSOR1_STATE_def
  VENDOR_REQ_SET_CURSOR2_POS_def VENDOR_REQ_SET_CURSOR2_STATE_def VENDOR_REQ_SET_CURSOR1_SHAPE_def
  VENDOR_REQ_SET_CURSOR2_SHAPE_def VENDOR_REQ_SET_RESOLUTION_DETAIL_TIMING_def
  VENDOR_REQ_SET_CANCEL_BULK_OUT_def VENDOR_REQ_SET_SOFTWARE_READY_def VENDOR_REQ_GET_EDID_def

definition t6_libusb_set_monitor_power :: "usb_host \<Rightarrow> t6evdi \<Rightarrow> int \<Rightarrow> trace \<Rightarrow> int \<times> trace" where
  "t6_libusb_set_monitor_power host dev on tr =
     vendor_set host VENDOR_REQ_SET_MONITOR_CTRL (uint (disp_interface dev)) on tr"

definition t6_libusb_set_monitor_power2 :: "usb_host \<Rightarrow> int \<Rightarrow> trace \<Rightarrow> int \<times> trace" where
  "t6_libusb_set_monitor_power2 host on tr = vendor_set host VENDOR_REQ_SET_MONITOR_CTRL 0 on tr"

definition t6_libusb_donglereset :: "usb_host \<Rightarrow> trace \<Rightarrow> trace" where
  "t6_libusb_donglereset host tr =
     snd (usb_send host (Control 0x40 VENDOR_REQ_SET_CANCEL_BULK_OUT 0 0 [] 0) tr)"

definition t6_libusb_donglereset2 :: "usb_host \<Rightarrow> trace \<Rightarrow> trace" where
  "t6_libusb_donglereset2 host tr =
     snd (usb_send host (Control 0x40 VENDOR_REQ_SET_CANCEL_BULK_OUT 0 0 [] 0) tr)"

definition t6_libusb_set_softready :: "usb_host \<Rightarrow> t6evdi \<Rightarrow> trace \<Rightarrow> int \<times> trace" where
  "t6_libusb_set_softready host dev tr =
     vendor_set host VENDOR_REQ_SET_SOFTWARE_READY (uint (disp_interface dev)) 0 tr"

definition t6_libusb_set_touch :: "usb_host \<Rightarrow> int \<Rightarrow> trace \<Rightarrow> int \<times> trace" where
  "t6_libusb_set_touch host on tr = vendor_set host 0x16 1 on tr"

definition t6_libusb_set_brightness :: "usb_host \<Rightarrow> int \<Rightarrow> trace \<Rightarrow> int \<times> trace" where
  "t6_libusb_set_brightness host bvalue tr = vendor_set host 0x18 bvalue 0 tr"

definition t6_libusb_set_custom :: "usb_host \<Rightarrow> trace \<Rightarrow> int \<times> trace" where
  "t6_libusb_set_custom host tr = vendor_set host 0x1e 0 0 tr"

definition t6_libusb_set_rotate :: "usb_host \<Rightarrow> int \<Rightarrow> trace \<Rightarrow> int \<times> trace" where
  "t6_libusb_set_rotate host rot tr = vendor_set host 0x1f 0 rot tr"

definition t6_set_cousor_onoff :: "usb_host \<Rightarrow> int \<Rightarrow> int \<Rightarrow> trace \<Rightarrow> int \<times> trace" where
  "t6_set_cousor_onoff host on index tr = vendor_set host VENDOR_REQ_SET_CURSOR1_STATE index on tr"

definition t6_set_cousor_pos :: "usb_host \<Rightarrow> int \<Rightarrow> int \<Rightarrow> trace \<Rightarrow> int \<times> trace" where
  "t6_set_cousor_pos host x y tr = vendor_set host VENDOR_REQ_SET_CURSOR1_POS x y tr"

definition t6_libusb_set_cursor_state :: "usb_host \<Rightarrow> int \<Rightarrow> int \<Rightarrow> int \<Rightarrow> trace \<Rightarrow> int \<times> trace" where
  "t6_libusb_set_cursor_state host cur_idx disp_no enable tr =
     vendor_set host (if disp_no = 0 then VENDOR_REQ_SET_CURSOR1_STATE else VENDOR_REQ_SET_CURSOR2_STATE)
       cur_idx enable tr"

text \<open>The 16-bit encoding of a cursor coordinate.\<close>

definition cursor_coord :: "int \<Rightarrow> u16" where
  "cursor_coord x = (if x < 0 then NOT (word_of_int (0 - x)) else word_of_int x)"

definition t6_libusb_set_cursor_postion :: "usb_host \<Rightarrow> int \<Rightarrow> int \<Rightarrow> int \<Rightarrow> trace \<Rightarrow> int \<times> trace" where
  "t6_libusb_set_cursor_postion host x y disp_no tr =
     vendor_set host (if disp_no = 0 then VENDOR_REQ_SET_CURSOR1_POS else VENDOR_REQ_SET_CURSOR2_POS)
       (uint (cursor_coord x)) (uint (cursor_coord y)) tr"

definition t6_libusb_set_usagetime :: "usb_host \<Rightarrow> u32 \<Rightarrow> trace \<Rightarrow> int \<times> trace" where
  "t6_libusb_set_usagetime host mins tr =
    (let (ret, tr) = vendor_set_data host 0x19 0 0 (write_le32 (replicate 4 0) 0 mins) tr
     in (if ret < 0 then -1 else 0, tr))"

section \<open>Scalar queries\<close>

text \<open>A signed char and a signed 32-bit integer read from the front of a buffer.\<close>

definition schar :: "bytes \<Rightarrow> int" where "schar b = sint (b ! 0)"
definition sint32 :: "bytes \<Rightarrow> int" where "sint32 b = sint (read_le32 b 0)"

definition t6_libusb_get_touch :: "usb_host \<Rightarrow> trace \<Rightarrow> int \<times> trace" where
  "t6_libusb_get_touch host tr =
    (let (ret, b, tr) = vendor_get host 0x8b 1 0 1 [0] tr in (if ret < 0 then -1 else schar b, tr))"

definition t6_libusb_get_brightness :: "usb_host \<Rightarrow> trace \<Rightarrow> int \<times> trace" where
  "t6_libusb_get_brightness host tr =
    (let (ret, b, tr) = vendor_get host 0x8c 0 0 1 [0] tr in (if ret < 0 then -1 else schar b, tr))"

definition t6_libusb_get_usagetime :: "usb_host \<Rightarrow> trace \<Rightarrow> int \<times> trace" where
  "t6_libusb_get_usagetime host tr =
    (let (ret, b, tr) = vendor_get host 0x8f 0 0 4 [0, 0, 0, 0] tr in (if ret < 0 then -1 else sint32 b, tr))"

definition t6_libusb_get_version :: "usb_host \<Rightarrow> int \<Rightarrow> trace \<Rightarrow> int \<times> trace" where
  "t6_libusb_get_version host index tr =
    (let (ret, b, tr) = vendor_get host VENDOR_REQ_GET_VERSION 0 index 4 [0xFF, 0xFF, 0xFF, 0xFF] tr
     in (if ret \<le> 0 then -1 else sint32 b, tr))"

definition t6_libusb_get_sn :: "usb_host \<Rightarrow> bytes \<Rightarrow> trace \<Rightarrow> int \<times> bytes \<times> trace" where
  "t6_libusb_get_sn host sn tr =
    (let (ret, sn, tr) = vendor_get host VENDOR_REQ_GET_VERSION 0 5 8 sn tr
     in (if ret \<le> 0 then -1 else 0, sn, tr))"

text \<open>\<open>junk\<close> is the uninitialised variable the answer is read into.\<close>

definition t6_libusb_get_resolution_num :: "usb_host \<Rightarrow> bytes \<Rightarrow> t6evdi \<Rightarrow> trace \<Rightarrow> int \<times> trace" where
  "t6_libusb_get_resolution_num host junk dev tr =
    (let (ret, b, tr) = vendor_get host VENDOR_REQ_GET_RESOLUTION_TABLE_NUM (uint (disp_interface dev)) 0 4 junk tr
     in (if ret < 0 then -1 else sint32 b, tr))"

definition t6_libusb_get_ram_size :: "usb_host \<Rightarrow> u8 \<Rightarrow> trace \<Rightarrow> int \<times> trace" where
  "t6_libusb_get_ram_size host junk tr =
    (let (ret, b, tr) = vendor_get host VENDOR_REQ_QUERY_VIDEO_RAM_SIZE 0 0 1 [junk] tr
     in (if ret < 0 then -1 else uint (b ! 0), tr))"

definition t6_libusb_test :: "usb_host \<Rightarrow> u8 \<Rightarrow> trace \<Rightarrow> int \<times> trace" where
  "t6_libusb_test host junk tr =
    (let (ret, b, tr) = vendor_get host VENDOR_REQ_QUERY_VIDEO_RAM_SIZE 0 0 1 [junk] tr
     in (if ret < 0 then -1 else uint (b ! 0), tr))"

definition t6_libusb_get_monitorstatus2 :: "usb_host \<Rightarrow> int \<Rightarrow> trace \<Rightarrow> int \<times> trace" where
  "t6_libusb_get_monitorstatus2 host intf tr =
    (let (ret, b, tr) = vendor_get host VENDOR_REQ_QUERY_MONITOR_CONNECTION_STATUS intf 0 1 [0] tr
     in (if ret < 0 then -1 else schar b, tr))"

text \<open>A VGA output (bit 0 of its half of \<open>dispcaps\<close>) always counts as connected (0).\<close>

definition is_vga :: "t6evdi \<Rightarrow> bool" where
  "is_vga dev \<longleftrightarrow>
     disp_interface dev = 0 \<and> 0 < dispcaps dev AND 0x01 \<or>
     disp_interface dev = 1 \<and> 0 < drop_bit 4 (dispcaps dev) AND 0x01"

definition t6_libusb_get_monitorstatus :: "usb_host \<Rightarrow> t6evdi \<Rightarrow> trace \<Rightarrow> int \<times> trace" where
  "t6_libusb_get_monitorstatus host dev tr =
    (if is_vga dev then (0, tr)
     else
       let (ret, b, tr) = vendor_get host VENDOR_REQ_QUERY_MONITOR_CONNECTION_STATUS (uint (disp_interface dev)) 0 1 [0] tr
       in (if ret < 0 then -1 else schar b, tr))"

section \<open>The display section of the ROM\<close>

definition sizeof_section_header :: nat where "sizeof_section_header = 0x70"

text \<open>\<open>junk\<close> is the block \<^verbatim>\<open>malloc\<close> returned; a null block makes the code fault on success.\<close>

definition section_header :: "usb_host \<Rightarrow> bytes option \<Rightarrow> trace \<Rightarrow> c_error + bytes option \<times> trace" where
  "section_header host mem tr =
    (case mem of
       None \<Rightarrow> Inl NullDeref
     | Some junk \<Rightarrow>
         let (ret, b, tr) = vendor_get host VENDOR_REQ_QUERY_SECTION_DATA 0 0 sizeof_section_header junk tr
         in Inr (if ret < 0 then None else Some b, tr))"

definition DispFunc :: "bytes \<Rightarrow> u32" where "DispFunc b = read_le32 b 0x54"
definition LinkInterfaces1 :: "bytes \<Rightarrow> u8" where "LinkInterfaces1 b = b ! 0x58 AND 0x0F"
definition LinkInterfaces2 :: "bytes \<Rightarrow> u8" where "LinkInterfaces2 b = b ! 0x5C AND 0x0F"

definition t6_libusb_get_rotate :: "usb_host \<Rightarrow> bytes option \<Rightarrow> trace \<Rightarrow> c_error + int \<times> trace" where
  "t6_libusb_get_rotate host mem tr = ebind (section_header host mem tr) (\<lambda>(r, tr).
     case r of None \<Rightarrow> Inr (0, tr)
     | Some b \<Rightarrow> Inr (uint (drop_bit 4 (DispFunc b) AND 0x0F), tr))"

definition t6_libusb_get_jpegreset :: "usb_host \<Rightarrow> bytes option \<Rightarrow> trace \<Rightarrow> c_error + int \<times> trace" where
  "t6_libusb_get_jpegreset host mem tr = ebind (section_header host mem tr) (\<lambda>(r, tr).
     case r of None \<Rightarrow> Inr (0, tr)
     | Some b \<Rightarrow> Inr (uint (drop_bit 3 (DispFunc b) AND 0x00000001), tr))"

text \<open>The number of displays and, unless the transfer failed, the new value of \<^verbatim>\<open>*dispcap\<close>.\<close>

definition t6_libusb_get_displaysectionheader ::
    "usb_host \<Rightarrow> bytes option \<Rightarrow> u8 \<Rightarrow> trace \<Rightarrow> c_error + int \<times> u8 \<times> trace" where
  "t6_libusb_get_displaysectionheader host mem dispcap tr =
     ebind (section_header host mem tr) (\<lambda>(r, tr).
       case r of None \<Rightarrow> Inr (0, dispcap, tr)
       | Some b \<Rightarrow>
           let l1 = LinkInterfaces1 b; l2 = LinkInterfaces2 b
           in Inr ((if l1 \<noteq> 0 then 1 else 0) + (if l2 \<noteq> 0 then 1 else 0),
                   (l1 AND 0x0f) OR (push_bit 4 l2 AND 0xf0), tr))"

section \<open>Frames\<close>

text \<open>
  The packed structures \<^verbatim>\<open>BULK_CMD_HEADER\<close> and \<^verbatim>\<open>VIDEO_FLIP_HEADER\<close>, zeroed by \<^verbatim>\<open>memset\<close> before
  their fields are set.
\<close>

record bulk_cmd_header =
  Signature :: u32
  PayloadLength :: u32
  PayloadAddress :: u32
  PacketLength :: u32

definition bulk_cmd_bytes :: "bulk_cmd_header \<Rightarrow> bytes" where
  "bulk_cmd_bytes h =
    (let out = replicate 32 0;
         out = write_le32 out 0 (Signature h);
         out = write_le32 out 4 (PayloadLength h);
         out = write_le32 out 8 (PayloadAddress h)
     in write_le32 out 12 (PacketLength h))"

record flip_header =
  Command :: u32
  PayloadSize :: u32
  FenceID :: u32
  TargetFormat :: u32
  Y_RGB_Pitch :: u16
  UV_Pitch :: u16
  Y_RGB_Data_FB_Offset :: u32
  U_UV_Data_Offset :: u32
  V_Data_Offset :: u32
  SourceFormat :: u32
  Flag :: u8

definition flip_header_bytes :: "flip_header \<Rightarrow> bytes" where
  "flip_header_bytes h =
    (let out = replicate 48 0;
         out = write_le32 out 0 (Command h);
         out = write_le32 out 4 (PayloadSize h);
         out = write_le32 out 8 (FenceID h);
         out = write_le32 out 12 (TargetFormat h);
         out = write_le16 out 16 (Y_RGB_Pitch h);
         out = write_le16 out 18 (UV_Pitch h);
         out = write_le32 out 20 (Y_RGB_Data_FB_Offset h);
         out = write_le32 out 24 (U_UV_Data_Offset h);
         out = write_le32 out 28 (V_Data_Offset h);
         out = write_le32 out 32 (SourceFormat h)
     in write_u8 out 47 (Flag h))"

text \<open>The command stays 0 for an interface other than 0 and 1.\<close>

definition flip_command :: "t6evdi \<Rightarrow> u32" where
  "flip_command dev = (if disp_interface dev = 0 then 3 else if disp_interface dev = 1 then 4 else 0)"

definition rotated_size :: "t6evdi \<Rightarrow> u16 \<times> u16" where
  "rotated_size dev =
     (if jpg_rotate dev = 1 \<or> jpg_rotate dev = 3 then (Height dev, Width dev) else (Width dev, Height dev))"

text \<open>\<^verbatim>\<open>(x + a - 1) / a * a\<close> on a 16-bit value promoted to \<^verbatim>\<open>int\<close>.\<close>

definition round_up :: "u32 \<Rightarrow> u32 \<Rightarrow> u32" where
  "round_up x a = (x + (a - 1)) div a * a"

definition jpeg_flip :: "t6evdi \<Rightarrow> int \<Rightarrow> int \<Rightarrow> flip_header" where
  "jpeg_flip dev jpgsize flag =
    (let (w, h) = rotated_size dev;
         len = jpgsize + 48 + 1024;
         VideoDataSize = len - 48;
         Y_BlockSize = round_up (ucast w) 32 * round_up (ucast h) 32 + 1024
     in \<lparr>Command = flip_command dev, PayloadSize = word_of_int VideoDataSize, FenceID = 0,
         TargetFormat = 6,
         Y_RGB_Pitch = ucast (round_up (ucast w) 32), UV_Pitch = ucast (round_up (ucast w) 32),
         Y_RGB_Data_FB_Offset = fbAddr dev, U_UV_Data_Offset = fbAddr dev + Y_BlockSize,
         V_Data_Offset = 0, SourceFormat = 13, Flag = word_of_int flag\<rparr>)"

definition nv12_flip :: "t6evdi \<Rightarrow> int \<Rightarrow> int \<Rightarrow> flip_header" where
  "nv12_flip dev nv12size flag =
    (let (w, h) = rotated_size dev;
         VideoDataSize = nv12size + 1024;
         Y_Pitch = (ucast (round_up (ucast w) 16) :: u16);
         Uv_Pitch = (ucast (round_up (ucast w) 16) :: u16);
         U_StartOffset = (ucast Y_Pitch :: u32) * ucast h;
         base = fbAddr dev + 48
     in \<lparr>Command = flip_command dev, PayloadSize = word_of_int VideoDataSize, FenceID = 0,
         TargetFormat = 6, Y_RGB_Pitch = Y_Pitch, UV_Pitch = Uv_Pitch,
         Y_RGB_Data_FB_Offset = base, U_UV_Data_Offset = base + U_StartOffset, V_Data_Offset = base,
         SourceFormat = 6, Flag = word_of_int flag\<rparr>)"

definition yv12_flip :: "t6evdi \<Rightarrow> int \<Rightarrow> int \<Rightarrow> flip_header" where
  "yv12_flip dev yv12size flag =
    (let (w, h) = rotated_size dev;
         VideoDataSize = yv12size + 1024;
         Y_Pitch = (ucast (round_up (ucast w) 16) :: u16);
         Uv_Pitch = (ucast (round_up (ucast (w div 2)) 16) :: u16);
         U_StartOffset = (ucast Y_Pitch :: u32) * ucast h;
         V_StartOffset = U_StartOffset + ucast Uv_Pitch * ucast h div 2;
         base = fbAddr dev + 48
     in \<lparr>Command = flip_command dev, PayloadSize = word_of_int VideoDataSize, FenceID = 0,
         TargetFormat = 4, Y_RGB_Pitch = Y_Pitch, UV_Pitch = Uv_Pitch,
         Y_RGB_Data_FB_Offset = base, U_UV_Data_Offset = base + U_StartOffset,
         V_Data_Offset = base + V_StartOffset, SourceFormat = 4, Flag = word_of_int flag\<rparr>)"

definition rgb24_flip :: "t6evdi \<Rightarrow> int \<Rightarrow> int \<Rightarrow> flip_header" where
  "rgb24_flip dev fbaddr datasize =
    (let (w, h) = rotated_size dev
     in \<lparr>Command = flip_command dev, PayloadSize = word_of_int datasize, FenceID = 0,
         TargetFormat = 9, Y_RGB_Pitch = w * 3, UV_Pitch = 0,
         Y_RGB_Data_FB_Offset = word_of_int fbaddr + 48, U_UV_Data_Offset = 0,
         V_Data_Offset = 0, SourceFormat = 9, Flag = 0\<rparr>)"

text \<open>The bulk command that announces \<open>len\<close> bytes for the device address \<open>addr\<close>.\<close>

definition announce :: "u32 \<Rightarrow> int \<Rightarrow> bytes" where
  "announce addr len = bulk_cmd_bytes
     \<lparr>Signature = 0, PayloadLength = word_of_int len, PayloadAddress = addr, PacketLength = word_of_int len\<rparr>"

text \<open>
  The two zero-copy senders: the caller's buffer starts with 48 bytes for the header, and the transfer
  takes \<open>len\<close> bytes from it.
\<close>

definition send_in_place ::
    "usb_host \<Rightarrow> u32 \<Rightarrow> flip_header \<Rightarrow> bytes \<Rightarrow> int \<Rightarrow> trace \<Rightarrow> c_error + int \<times> bytes \<times> trace" where
  "send_in_place host addr hdr img len tr =
    (let (ret, tr) = usb_send host (BulkOut EP_BLK_OUT_ADDR (announce addr len)) tr
     in if ret < 0 then Inr (-1, img, tr)
        else if length img < 48 \<or> length img < nat len then Inl OutOfBounds
        else
          let img = write_bytes img 0 (flip_header_bytes hdr);
              (ret, tr) = usb_send host (BulkOut EP_BLK_OUT_ADDR (take (nat len) img)) tr
          in if ret < 0 then Inr (-1, img, t6_libusb_donglereset host tr)
             else Inr (0, img, tr))"

definition t6_libusb_FilpYV12Frame ::
    "usb_host \<Rightarrow> t6evdi \<Rightarrow> bytes \<Rightarrow> int \<Rightarrow> int \<Rightarrow> trace \<Rightarrow> c_error + int \<times> bytes \<times> trace" where
  "t6_libusb_FilpYV12Frame host dev yv12image yv12size flag tr =
     send_in_place host (fbAddr dev) (yv12_flip dev yv12size flag) yv12image (yv12size + 48 + 1024) tr"

definition t6_libusb_FilpNV12Frame ::
    "usb_host \<Rightarrow> t6evdi \<Rightarrow> bytes \<Rightarrow> int \<Rightarrow> int \<Rightarrow> trace \<Rightarrow> c_error + int \<times> bytes \<times> trace" where
  "t6_libusb_FilpNV12Frame host dev nv12image nv12size flag tr =
     send_in_place host (fbAddr dev) (nv12_flip dev nv12size flag) nv12image (nv12size + 48 + 1024) tr"

text \<open>\<open>mem\<close> is whether the unchecked \<^verbatim>\<open>malloc\<close> succeeds; \<open>jpgimage\<close> holds the \<open>jpgsize\<close> bytes copied.\<close>

definition t6_libusb_FilpJpegFrame ::
    "usb_host \<Rightarrow> bool \<Rightarrow> t6evdi \<Rightarrow> bytes \<Rightarrow> int \<Rightarrow> trace \<Rightarrow> c_error + int \<times> trace" where
  "t6_libusb_FilpJpegFrame host mem dev jpgimage flag tr =
    (let jpgsize = int (length jpgimage);
         len = jpgsize + 48 + 1024;
         (ret, tr) = usb_send host (BulkOut EP_BLK_OUT_ADDR (announce (cmdAddr dev) len)) tr
     in if ret < 0 then Inr (-1, tr)
        else if \<not> mem then Inl NullDeref
        else
          let videobuf = replicate (nat len) 0;
              videobuf = write_bytes videobuf 0 (flip_header_bytes (jpeg_flip dev jpgsize flag));
              videobuf = write_bytes videobuf 48 jpgimage;
              (ret, tr) = usb_send host (BulkOut EP_BLK_OUT_ADDR videobuf) tr
          in if ret < 0 then Inr (-1, t6_libusb_donglereset host tr)
             else Inr (0, tr))"

definition t6_libusb_Rgb24_full_block ::
    "usb_host \<Rightarrow> bool \<Rightarrow> t6evdi \<Rightarrow> int \<Rightarrow> trace \<Rightarrow> c_error + int \<times> trace" where
  "t6_libusb_Rgb24_full_block host mem dev fbaddr tr =
    (let datasize = uint (Width dev) * uint (Height dev) * 3;
         videodatasize = 48 + datasize
     in if \<not> mem then Inl NullDeref
        else
          let videobuf = replicate (nat videodatasize) 0;
              (ret, tr) = usb_send host (BulkOut EP_BLK_OUT_ADDR (announce (word_of_int fbaddr) videodatasize)) tr
          in if ret < 0 then Inr (-1, tr)
             else
               let videobuf = write_bytes videobuf 0 (flip_header_bytes (rgb24_flip dev fbaddr datasize));
                   (ret, tr) = usb_send host (BulkOut EP_BLK_OUT_ADDR videobuf) tr
               in Inr (if ret < 0 then -1 else 0, tr))"

definition t6_libusb_SendAudio :: "usb_host \<Rightarrow> bytes \<Rightarrow> trace \<Rightarrow> int \<times> trace" where
  "t6_libusb_SendAudio host data tr =
    (let len = int (length data);
         hd = bulk_cmd_bytes \<lparr>Signature = 3, PayloadLength = word_of_int len, PayloadAddress = 0,
                              PacketLength = word_of_int len\<rparr>;
         (ret, tr) = usb_send host (BulkOut EP_BLK_OUT_ADDR hd) tr
     in if ret < 0 then (-1, t6_libusb_donglereset host tr)
        else
          let (ret, tr) = usb_send host (BulkOut EP_BLK_OUT_ADDR data) tr
          in if ret < 0 then (-1, t6_libusb_donglereset host tr) else (0, tr))"

section \<open>Audio engine\<close>

definition t6_libusb_get_AudioEngineStatus ::
    "usb_host \<Rightarrow> bytes \<Rightarrow> bytes \<Rightarrow> trace \<Rightarrow> int \<times> bytes \<times> trace" where
  "t6_libusb_get_AudioEngineStatus host junk setEngine tr =
    (let (ret, aud, tr) = vendor_get host VENDOR_REQ_AUD_GET_ENGINE_STATE 0 0 16 junk tr
     in if ret < 0 then (-1, setEngine, tr)
        else
          let e = write_u8 setEngine 0 0x01;
              e = write_le32 e 12 (read_le32 aud 12);
              e = write_le16 e 2 (read_le16 aud 2);
              e = write_le32 e 8 9600
          in (ret, e, tr))"

definition t6_libusb_set_AudioEngineStatus :: "usb_host \<Rightarrow> bytes \<Rightarrow> trace \<Rightarrow> int \<times> trace" where
  "t6_libusb_set_AudioEngineStatus host junk tr =
    (let (ret, e, tr) = t6_libusb_get_AudioEngineStatus host junk (replicate 16 0) tr
     in if ret < 0 then (-1, tr)
        else
          let (ret, tr) = vendor_set_data host VENDOR_REQ_AUD_SET_ENGINE_STATE 0 0 e tr
          in (if ret < 0 then -1 else 0, tr))"

section \<open>Resolutions\<close>

record resolution =
  HorAddrTime :: u16
  VerAddrTime :: u16
  Frequency :: u8
  PixelClock :: u32

definition sizeof_resolution :: nat where "sizeof_resolution = 32"
definition res_buffer_size :: nat where "res_buffer_size = 4096"

definition resolution_at :: "bytes \<Rightarrow> nat \<Rightarrow> resolution" where
  "resolution_at b i = (let k = sizeof_resolution * i in
     \<lparr>HorAddrTime = read_le16 b (k + 8), VerAddrTime = read_le16 b (k + 16), Frequency = b ! (k + 4),
      PixelClock = read_le32 b k\<rparr>)"

text \<open>
  The table is read into a 4096-byte array on the stack; the length asked for is what the device
  announced, truncated to 16 bits. An answer longer than the array is out of bounds. The result is
  the number of entries with the array, or \<open>None\<close> for the early \<^verbatim>\<open>return -1\<close>.
\<close>

definition read_resolutions ::
    "usb_host \<Rightarrow> bytes \<Rightarrow> bytes \<Rightarrow> t6evdi \<Rightarrow> trace \<Rightarrow> c_error + (int \<times> bytes) option \<times> trace" where
  "read_resolutions host junk4 junk dev tr =
    (let (r_number, tr) = t6_libusb_get_resolution_num host junk4 dev tr
     in if r_number < 0 then Inr (None, tr)
        else
          let wlen = word_of_int (r_number * int sizeof_resolution) :: u16;
              x = Control 0xC0 VENDOR_REQ_GET_RESOLUTION_TIMING_TABLE (ucast (disp_interface dev)) 0 [] wlen;
              (ret, d) = host tr x; d = take (unat wlen) d; tr = tr @ [x]
          in if res_buffer_size < length d then Inl OutOfBounds
             else if ret < 0 then Inr (None, tr)
             else Inr (Some (r_number, d @ drop (length d) junk), tr))"

definition res_in_buffer :: "nat \<Rightarrow> bool" where
  "res_in_buffer i \<longleftrightarrow> sizeof_resolution * i + sizeof_resolution \<le> res_buffer_size"

fun find_4k :: "bytes \<Rightarrow> nat \<Rightarrow> nat \<Rightarrow> c_error + int" where
  "find_4k b i 0 = Inr 0"
| "find_4k b i (Suc n) =
    (if \<not> res_in_buffer i then Inl OutOfBounds
     else
       let r = resolution_at b i
       in if 3840 \<le> HorAddrTime r \<and> 2160 \<le> VerAddrTime r \<and> Frequency r = 30 then Inr 1
          else find_4k b (i + 1) n)"

definition t6_libusb_get_4K_capbability ::
    "usb_host \<Rightarrow> bytes \<Rightarrow> bytes \<Rightarrow> t6evdi \<Rightarrow> trace \<Rightarrow> c_error + int \<times> trace" where
  "t6_libusb_get_4K_capbability host junk4 junk dev tr =
     ebind (read_resolutions host junk4 junk dev tr) (\<lambda>(r, tr).
       case r of None \<Rightarrow> Inr (-1, tr)
       | Some (n, b) \<Rightarrow> ebind (find_4k b 0 (nat n)) (\<lambda>v. Inr (v, tr)))"

fun find_resolution :: "bytes \<Rightarrow> int \<Rightarrow> int \<Rightarrow> int \<Rightarrow> nat \<Rightarrow> nat \<Rightarrow> c_error + nat option" where
  "find_resolution b w h fps i 0 = Inr None"
| "find_resolution b w h fps i (Suc n) =
    (if \<not> res_in_buffer i then Inl OutOfBounds
     else
       let r = resolution_at b i
       in if w = uint (HorAddrTime r) \<and> h = uint (VerAddrTime r) \<and> fps = uint (Frequency r) then Inr (Some i)
          else find_resolution b w h fps (i + 1) n)"

text \<open>
  The entry that is copied out, 32 bytes, after the rotation and the PLL values are patched in. \<open>pll clk
  freq\<close> is the result of \<^verbatim>\<open>T6CalculatePixelClock\<close>: \<open>(N, P, Q, VideoSelect)\<close>, or \<open>None\<close> when it fails.
\<close>

type_synonym pll = "u32 \<Rightarrow> int \<Rightarrow> (u64 \<times> u64 \<times> u64 \<times> u64) option"

definition patch_resolution :: "pll \<Rightarrow> bool \<Rightarrow> int \<Rightarrow> int \<Rightarrow> int \<Rightarrow> bytes \<Rightarrow> bytes" where
  "patch_resolution pll rotated w h ver e =
    (let e = (if rotated then write_le16 (write_le16 e 8 (word_of_int w)) 16 (word_of_int h) else e);
         cmd = (if ver = 0 then 48 else 40)
     in case pll (read_le32 e 0) cmd of
          None \<Rightarrow> e
        | Some (N, P, Q, VideoSelect) \<Rightarrow>
            write_u8 (write_u8 (write_le16 (write_le16 e 0x16 (ucast P)) 0x18 (ucast Q)) 0x1A (ucast N))
              0x1B (ucast VideoSelect))"

text \<open>The return value with the contents of \<^verbatim>\<open>*myres\<close>, \<open>None\<close> if it was not written.\<close>

definition t6_libusb_get_resolution_timing ::
    "usb_host \<Rightarrow> pll \<Rightarrow> bytes \<Rightarrow> bytes \<Rightarrow> t6evdi \<Rightarrow> int \<Rightarrow> int \<Rightarrow> int \<Rightarrow> trace \<Rightarrow>
     c_error + int \<times> bytes option \<times> trace" where
  "t6_libusb_get_resolution_timing host pll junk4 junk dev w h fps tr =
     ebind (read_resolutions host junk4 junk dev tr) (\<lambda>(r, tr).
       case r of None \<Rightarrow> Inr (-1, None, tr)
       | Some (n, b) \<Rightarrow>
           let rotated = (jpg_rotate dev = 1 \<or> jpg_rotate dev = 3);
               (dw, dh) = (if rotated then (h, w) else (w, h))
           in ebind (find_resolution b dw dh fps 0 (nat n)) (\<lambda>m.
                case m of None \<Rightarrow> Inr (0, None, tr)
                | Some i \<Rightarrow>
                    let (ver, tr) = t6_libusb_get_version host 0 tr;
                        e = take sizeof_resolution (drop (sizeof_resolution * i) b)
                    in Inr (0, Some (patch_resolution pll rotated w h ver e), tr)))"

text \<open>
  Without a matching entry \<^verbatim>\<open>myres\<close> is sent as it is, uninitialised.
\<close>

definition t6_libusb_set_resolution ::
    "usb_host \<Rightarrow> pll \<Rightarrow> bytes \<Rightarrow> bytes \<Rightarrow> t6evdi \<Rightarrow> int \<Rightarrow> int \<Rightarrow> int \<Rightarrow> trace \<Rightarrow> c_error + int \<times> trace" where
  "t6_libusb_set_resolution host pll junk4 junk dev w h fps tr =
     ebind (t6_libusb_get_resolution_timing host pll junk4 junk dev w h fps tr) (\<lambda>(ret, myres, tr).
       if ret < 0 then Inr (-1, tr)
       else case myres of
         None \<Rightarrow> Inl Uninitialised
       | Some e \<Rightarrow>
           let (ret, tr) = vendor_set_data host VENDOR_REQ_SET_RESOLUTION_DETAIL_TIMING
                             (uint (disp_interface dev)) 0 e tr
           in if ret < 0 then Inr (-1, tr) else Inr (t6_libusb_set_softready host dev tr))"

section \<open>EDID\<close>

definition generic_edid :: bytes where
  "generic_edid =
    [0, 255, 255, 255, 255, 255, 255, 0, 52, 116, 115, 36, 1, 1, 1, 1,
     50, 20, 1, 3, 104, 48, 27, 120, 42, 230, 117, 164, 86, 79, 158, 39,
     15, 80, 84, 191, 239, 128, 179, 0, 169, 64, 149, 0, 129, 64, 129, 128,
     149, 15, 113, 79, 144, 64, 2, 58, 128, 24, 113, 56, 45, 64, 88, 44,
     69, 0, 222, 13, 17, 0, 0, 30, 0, 0, 0, 255, 0, 49, 48, 49,
     50, 65, 50, 57, 54, 48, 49, 55, 57, 49, 0, 0, 0, 253, 0, 55,
     76, 30, 82, 17, 0, 10, 32, 32, 32, 32, 32, 32, 0, 0, 0, 252,
     0, 71, 101, 110, 101, 114, 105, 99, 50, 49, 46, 53, 39, 39, 0, 167]"

definition EDID_4k_bin :: bytes where
  "EDID_4k_bin =
    [0, 255, 255, 255, 255, 255, 255, 0, 52, 116, 69, 16, 1, 0, 0, 0,
     12, 34, 1, 3, 128, 61, 35, 120, 42, 19, 96, 151, 88, 87, 145, 38,
     30, 80, 84, 45, 207, 0, 113, 79, 129, 0, 129, 192, 129, 128, 149, 0,
     169, 192, 179, 0, 1, 1, 4, 116, 0, 48, 242, 112, 90, 128, 176, 88,
     138, 0, 222, 13, 17, 0, 0, 30, 2, 58, 128, 24, 113, 56, 45, 64,
     88, 44, 69, 0, 222, 13, 17, 0, 0, 30, 0, 0, 0, 253, 0, 30,
     75, 30, 130, 30, 0, 10, 32, 32, 32, 32, 32, 32, 0, 0, 0, 252,
     0, 71, 101, 110, 101, 114, 105, 99, 10, 32, 32, 32, 32, 32, 1, 65,
     2, 3, 10, 0, 101, 3, 12, 0, 0, 0, 0, 0, 0, 0, 0, 0,
     0, 0, 0, 0, 0, 0, 0, 0, 0, 0, 0, 0, 0, 0, 0, 0,
     0, 0, 0, 0, 0, 0, 0, 0, 0, 0, 0, 0, 0, 0, 0, 0,
     0, 0, 0, 0, 0, 0, 0, 0, 0, 0, 0, 0, 0, 0, 0, 0,
     0, 0, 0, 0, 0, 0, 0, 0, 0, 0, 0, 0, 0, 0, 0, 0,
     0, 0, 0, 0, 0, 0, 0, 0, 0, 0, 0, 0, 0, 0, 0, 0,
     0, 0, 0, 0, 0, 0, 0, 0, 0, 0, 0, 0, 0, 0, 0, 0,
     0, 0, 0, 0, 0, 0, 0, 0, 0, 0, 0, 0, 0, 0, 0, 125]"

definition EDID_Header_Check :: "bytes \<Rightarrow> int" where
  "EDID_Header_Check b =
    (if b ! 0 \<noteq> 0x00 \<or> b ! 1 \<noteq> 0xFF \<or> b ! 2 \<noteq> 0xFF \<or> b ! 3 \<noteq> 0xFF \<or> b ! 4 \<noteq> 0xFF \<or> b ! 5 \<noteq> 0xFF \<or>
        b ! 6 \<noteq> 0xFF \<or> b ! 7 \<noteq> 0x00 then -1 else 0)"

definition EDID_Version_Check :: "bytes \<Rightarrow> int" where
  "EDID_Version_Check b =
    (if b ! 0x12 \<noteq> 0x01 then -1
     else if b ! 0x13 < 3 \<and> b ! 0x18 AND 0x02 = 0 then -1
     else 0)"

fun checksum_loop :: "bytes \<Rightarrow> nat \<Rightarrow> nat \<Rightarrow> int \<Rightarrow> int" where
  "checksum_loop b i 0 acc = acc"
| "checksum_loop b i (Suc n) acc = checksum_loop b (i + 1) n ((acc + uint (b ! i)) mod 256)"

definition EDID_CheckSum :: "bytes \<Rightarrow> int" where
  "EDID_CheckSum b = checksum_loop b 0 128 0"

definition t6_vga_force_edid :: "t6evdi \<Rightarrow> int \<times> t6evdi" where
  "t6_vga_force_edid dev =
    (if is_vga dev then (128, dev\<lparr>edid := write_bytes (edid dev) 0 generic_edid\<rparr>) else (0, dev))"

text \<open>Extension blocks are read one by one; the loop stops at the first short or failed read.\<close>

fun ext_loop :: "usb_host \<Rightarrow> t6evdi \<Rightarrow> int \<Rightarrow> nat list \<Rightarrow> trace \<Rightarrow> int \<times> t6evdi \<times> trace" where
  "ext_loop host dev sz [] tr = (sz, dev, tr)"
| "ext_loop host dev sz (i # is) tr =
    (let (ret, blk, tr) = vendor_get host VENDOR_REQ_GET_EDID (128 * int i) (uint (disp_interface dev)) 128
                            (take 128 (drop (128 * i) (edid dev))) tr;
         dev = dev\<lparr>edid := write_bytes (edid dev) (128 * i) blk\<rparr>
     in if ret = 128 then ext_loop host dev (sz + 128) is tr else (sz, dev, tr))"

definition t6_libusb_get_edid :: "usb_host \<Rightarrow> t6evdi \<Rightarrow> trace \<Rightarrow> int \<times> t6evdi \<times> trace" where
  "t6_libusb_get_edid host dev tr =
    (if \<not> t6usbdev dev then (-1, dev, tr)
     else
       let (ret, blk, tr) = vendor_get host VENDOR_REQ_GET_EDID 0 (uint (disp_interface dev)) 128
                              (take 128 (edid dev)) tr;
           dev = dev\<lparr>edid := write_bytes (edid dev) 0 blk\<rparr>;
           forced = (let (n, d) = t6_vga_force_edid dev in (n, d, tr))
       in if ret < 0 then (-1, dev, tr)
          else if ret < 128 then forced
          else if EDID_CheckSum (edid dev) \<noteq> 0 then forced
          else if EDID_Header_Check (edid dev) \<noteq> 0 then forced
          else if EDID_Version_Check (edid dev) \<noteq> 0 then forced
          else ext_loop host dev 128 (filter (\<lambda>i. i \<le> unat (edid dev ! 126)) [1, 2, 3]) tr)"

fun detail_loop :: "bytes \<Rightarrow> nat list \<Rightarrow> u8 \<Rightarrow> c_error + u8" where
  "detail_loop b [] run = Inr run"
| "detail_loop b (i # is) run =
     ebind (EDID_ParseDetailDescriptor b (0x36 + i * 18) run) (\<lambda>run. detail_loop b is run)"

definition LIBUSB_SPEED_SUPER :: int where "LIBUSB_SPEED_SUPER = 4"

text \<open>
  \<open>speed\<close> is what \<^verbatim>\<open>libusb_get_device_speed\<close> reports, \<open>run\<close> the caller's \<^verbatim>\<open>*bRun4K30\<close>. The result is the
  new size of the EDID, the flag, and the device.
\<close>

definition t6_revise_edid ::
    "usb_host \<Rightarrow> bytes \<Rightarrow> bytes \<Rightarrow> int \<Rightarrow> t6evdi \<Rightarrow> int \<Rightarrow> u8 \<Rightarrow> trace \<Rightarrow>
     c_error + int \<times> u8 \<times> t6evdi \<times> trace" where
  "t6_revise_edid host junk4 junk speed dev edid_size run tr =
     ebind (detail_loop (edid dev) [0, 1, 2, 3] run) (\<lambda>run.
     ebind (if 128 < edid_size
            then ebind (EDID_ParseCEAExtensionBlockInformation (edid dev) 0 run) (\<lambda>(ret, run). Inr run)
            else Inr run) (\<lambda>run.
       if run = 0 then Inr (edid_size, run, dev, tr)
       else ebind (t6_libusb_get_4K_capbability host junk4 junk dev tr) (\<lambda>(cap, tr).
         if cap \<noteq> 0 \<and> LIBUSB_SPEED_SUPER \<le> speed
         then Inr (256, run, dev\<lparr>edid := write_bytes (edid dev) 0 EDID_4k_bin\<rparr>, tr)
         else Inr (128, 0, dev\<lparr>edid := write_bytes (edid dev) 0 generic_edid\<rparr>, tr))))"

section \<open>Cursor shapes\<close>

text \<open>The older sender: pages of 512 bytes, then the remainder; \<open>None\<close> is the uninitialised \<^verbatim>\<open>ret\<close>.\<close>

fun cursor_pages :: "usb_host \<Rightarrow> bytes \<Rightarrow> int \<Rightarrow> nat \<Rightarrow> nat \<Rightarrow> int option \<Rightarrow> trace \<Rightarrow> nat \<times> int option \<times> trace" where
  "cursor_pages host img index ofs 0 ret tr = (ofs, ret, tr)"
| "cursor_pages host img index ofs (Suc page) ret tr =
    (let (ret, tr) = vendor_set_data host VENDOR_REQ_SET_CURSOR1_SHAPE index (int ofs)
                       (take 512 (drop ofs img)) tr
     in if ret < 0 then (ofs, Some ret, tr)
        else cursor_pages host img index (ofs + 512) page (Some ret) tr)"

definition t6_set_cousor_image :: "usb_host \<Rightarrow> bytes \<Rightarrow> int \<Rightarrow> trace \<Rightarrow> c_error + int \<times> trace" where
  "t6_set_cousor_image host img index tr =
    (let len = length img;
         (ofs, ret, tr) = cursor_pages host img index 0 (len div 512) None tr;
         (ret, tr) =
           (if 0 < len mod 512 then
              let (ret, tr) = vendor_set_data host VENDOR_REQ_SET_CURSOR1_SHAPE index (int ofs)
                                (take (len mod 512) (drop ofs img)) tr
              in (Some ret, tr)
            else (ret, tr))
     in case ret of None \<Rightarrow> Inl Uninitialised
        | Some r \<Rightarrow> Inr (if r < 0 then -1 else 0, tr))"

definition MAX_CTRL_TX_SIZE :: nat where "MAX_CTRL_TX_SIZE = 4096"

definition tx_len :: "nat \<Rightarrow> nat \<Rightarrow> nat" where
  "tx_len total_len ofs =
     (if MAX_CTRL_TX_SIZE \<le> total_len - ofs then MAX_CTRL_TX_SIZE else total_len - ofs)"

text \<open>The \<^verbatim>\<open>do .. while\<close> loop; a failed transfer leaves it.\<close>

function shape_loop :: "usb_host \<Rightarrow> u8 \<Rightarrow> int \<Rightarrow> bytes \<Rightarrow> nat \<Rightarrow> trace \<Rightarrow> int \<times> trace" where
  "shape_loop host req idx d ofs tr =
    (let n = tx_len (length d) ofs;
         (ret, tr) = vendor_set_data host req idx (int ofs) (take n (drop ofs d)) tr
     in if ret < 0 then (ret, tr)
        else if ofs + n < length d then shape_loop host req idx d (ofs + n) tr
        else (ret, tr))"
  by pat_completeness auto

termination shape_loop
  by (relation "measure (\<lambda>(host, req, idx, d, ofs, tr). length d - ofs)")
    (auto simp: tx_len_def MAX_CTRL_TX_SIZE_def)

declare shape_loop.simps [simp del]

definition cursor_shape_bytes :: "int \<Rightarrow> int \<Rightarrow> bytes \<Rightarrow> bytes" where
  "cursor_shape_bytes w h data =
    (let b = replicate 8 0;
         b = write_le16 b 0 1;
         b = write_le16 b 2 (word_of_int w);
         b = write_le16 b 4 (word_of_int h);
         b = write_le16 b 6 (word_of_int (w * 4))
     in b @ data)"

definition t6_libusb_set_cursor_shape ::
    "usb_host \<Rightarrow> bool \<Rightarrow> int \<Rightarrow> int \<Rightarrow> int \<Rightarrow> int \<Rightarrow> bytes \<Rightarrow> trace \<Rightarrow> int \<times> trace" where
  "t6_libusb_set_cursor_shape host mem cur_idx disp_no w h data tr =
    (if \<not> mem then (-1, tr)
     else
       let req = (if disp_no = 0 then VENDOR_REQ_SET_CURSOR1_SHAPE else VENDOR_REQ_SET_CURSOR2_SHAPE);
           (ret, tr) = shape_loop host req cur_idx (cursor_shape_bytes w h data) 0 tr
       in (if ret < 0 then -1 else 0, tr))"

section \<open>Interrupts and firmware update\<close>

definition t6_libusb_get_interrupt :: "usb_host \<Rightarrow> bytes \<Rightarrow> trace \<Rightarrow> int \<times> bytes \<times> trace" where
  "t6_libusb_get_interrupt host data tr =
    (let (ret, d, tr) = usb_recv host (ReadIn EP_INT_IN_ADDR (length data)) (length data) data tr
     in (if ret < 0 then ret else 0, d, tr))"

definition t6_libusb_get_interrupt2 :: "usb_host \<Rightarrow> bytes \<Rightarrow> trace \<Rightarrow> int \<times> bytes \<times> trace" where
  "t6_libusb_get_interrupt2 host data tr =
    (let (ret, d, tr) = usb_recv host (ReadIn EP_INT_IN_ADDR (length data)) (length data) data tr
     in (if ret < 0 then -1 else 0, d, tr))"

text \<open>The one the hotplug thread reads its events with.\<close>

definition t6_libusb_get_interrupt3 :: "usb_host \<Rightarrow> bytes \<Rightarrow> trace \<Rightarrow> int \<times> bytes \<times> trace" where
  "t6_libusb_get_interrupt3 host data tr =
    (let (ret, d, tr) = usb_recv host (ReadIn EP_INT_IN_ADDR (length data)) (length data) data tr
     in (if ret < 0 then ret else 0, d, tr))"

text \<open>
  \<open>rsvd\<close> are the three bytes of the header that are never set. The two bulk transfers must succeed and
  carry everything: \<open>xfer\<close> gives the number of bytes transferred.
\<close>

definition rom_header :: "bytes \<Rightarrow> int \<Rightarrow> bytes" where
  "rom_header rsvd len =
    (let out = replicate 32 0;
         out = write_le32 out 0 5;
         out = write_le32 out 4 (word_of_int len);
         out = write_le32 out 8 0;
         out = write_le32 out 12 (word_of_int len);
         out = write_le32 out 16 0;
         out = write_u8 out 20 0;
         out = write_bytes out 21 (take 3 rsvd);
         out = write_u8 out 24 0x02;
         out = write_u8 out 25 0x00;
         out = write_le16 out 26 0x0500
     in write_le32 out 28 0)"

definition t6_write_rom_date ::
    "usb_host \<Rightarrow> (trace \<Rightarrow> usb_xfer \<Rightarrow> int) \<Rightarrow> bytes \<Rightarrow> bytes \<Rightarrow> trace \<Rightarrow> int \<times> trace" where
  "t6_write_rom_date host xfer rsvd buf tr =
    (let len = int (length buf);
         x = BulkOut EP_BLK_OUT_ADDR (rom_header rsvd len); n = xfer tr x;
         (ret, tr) = usb_send host x tr
     in if ret < 0 \<or> n \<noteq> 32 then (-1, tr)
        else
          let x = BulkOut EP_BLK_OUT_ADDR buf; n = xfer tr x;
              (ret, tr) = usb_send host x tr
          in if ret < 0 \<or> n \<noteq> len then (-1, tr) else (0, tr))"

text \<open>
  \<^verbatim>\<open>ShowRomMsg\<close> over the answers the interrupt endpoint gives in turn; \<open>None\<close> when it still waits after
  them. What it reports: a failed read, a packet without a function, the end of the update, or an
  unknown event.
\<close>

datatype rom_end = ReadFailed | NoFunction | Finished | UnknownEvent u8

fun ShowRomMsg :: "(int \<times> bytes) list \<Rightarrow> rom_end option" where
  "ShowRomMsg [] = None"
| "ShowRomMsg ((ret, rdata) # rest) =
    (if ret < 0 then Some ReadFailed
     else
       let FuncMask = rdata ! 0; RomEvent = rdata ! 0x2C
       in if FuncMask = 0 then Some NoFunction
          else if FuncMask \<noteq> 0x80 then ShowRomMsg rest
          else if RomEvent = 0x00 then Some Finished
          else if RomEvent = 0x02 \<or> RomEvent = 0x03 \<or> RomEvent = 0x04 \<or> RomEvent = 0x11 then ShowRomMsg rest
          else Some (UnknownEvent RomEvent))"

section \<open>Agreement with the protocol library\<close>

lemma bulk_cmd_bytes_eq:
  "bulk_cmd_bytes h = t6_write_bulk_dma_header
     \<lparr>signature = Signature h, payload_length = PayloadLength h, payload_address = PayloadAddress h,
      packet_size = PacketLength h, packet_offset = 0, packet_flags = 0,
      packet_reserved = replicate 3 0, function_specific = replicate 8 0\<rparr>"
proof -
  let ?b = "write_le32 (write_le32 (write_le32 (write_le32 (replicate 32 0) 0 (Signature h))
    4 (PayloadLength h)) 8 (PayloadAddress h)) 12 (PacketLength h)"
  have a: "write_le32 ?b 16 0 = ?b"
    by (rule write_le32_zero) (auto simp: wire write_le32_def)
  have b: "write_u8 ?b 20 0 = ?b"
    unfolding write_u8_def
    by (rule list_update_same_conv [THEN iffD2]) (auto simp: wire write_le32_def)
  have c: "write_bytes ?b 24 (replicate 8 0) = ?b"
    by (rule write_zeros_end) (auto simp: wire write_le32_def)
  show ?thesis
    by (simp only: bulk_cmd_bytes_def t6_write_bulk_dma_header_def Let_def T6_BULK_DMA_HEADER_SIZE_def
        t6_bulk_dma_header.select_convs a b c)
qed

lemma announce_eq:
  "announce addr len = t6_build_display_bulk_header (word_of_int len) addr (word_of_int len) 0 False"
  by (simp add: announce_def bulk_cmd_bytes_eq t6_build_display_bulk_header_def zero_bulk_dma_header_def
      T6_SIGNATURE_DISPLAY_def T6_PACKET_FLAG_NONE_def)

lemma flip_header_bytes_eq:
  "flip_header_bytes h = t6_write_video_flip_header
     \<lparr>command = Command h, payload_size = PayloadSize h, fence_id = FenceID h,
      target_format = TargetFormat h, y_rgb_pitch = Y_RGB_Pitch h, uv_pitch = UV_Pitch h,
      y_rgb_data_fb_offset = Y_RGB_Data_FB_Offset h, u_uv_data_offset = U_UV_Data_Offset h,
      v_data_offset = V_Data_Offset h, source_format = SourceFormat h, padding = replicate 11 0,
      hdr_flags = Flag h\<rparr>"
  by (simp add: flip_header_bytes_def t6_write_video_flip_header_def T6_VIDEO_FLIP_HEADER_SIZE_def)

lemma length_bulk_cmd_bytes [wire]: "length (bulk_cmd_bytes h) = 32"
  by (simp add: bulk_cmd_bytes_def wire Let_def)

lemma length_flip_header_bytes [wire]: "length (flip_header_bytes h) = 48"
  by (simp add: flip_header_bytes_def wire Let_def)

lemma ucast_up_down [simp]: "ucast (ucast (z :: u16) :: u32) = z"
  by (rule bit_word_eqI) (auto simp: bit_simps dest: bit_imp_le_length)

lemma unat_round_up:
  assumes "0 < unat a" "unat x + unat a \<le> 4294967296"
  shows "unat (round_up x a) = (unat x + unat a - 1) div unat a * unat a"
proof -
  have a1: "unat (a - 1) = unat a - 1" using assms(1) by (intro unat_minus_one) (auto simp: unat_gt_0)
  have s: "unat (x + (a - 1)) = unat x + unat a - 1"
    using assms a1 by (subst unat_add_no_wrap) simp_all
  have "(unat x + unat a - 1) div unat a * unat a \<le> unat x + unat a - 1" by simp
  also have "\<dots> < 2 ^ 32" using assms by simp
  finally show ?thesis
    unfolding round_up_def by (subst unat_mult_no_wrap) (simp_all add: unat_div s)
qed

lemma round_up_align:
  assumes "unat (w :: u16) + unat (a :: u16) \<le> 65536" "0 < unat a"
  shows "(ucast (round_up (ucast w) (ucast a)) :: u16) = align_u16 w a"
    and "round_up (ucast w) (ucast a) = (ucast (align_u16 w a) :: u32)"
proof -
  have u: "unat (ucast z :: u32) = unat z" for z :: u16 by (simp add: unat_ucast_up)
  have r: "unat (round_up (ucast w) (ucast a)) = (unat w + unat a - 1) div unat a * unat a"
    using assms by (subst unat_round_up) (simp_all add: u)
  then have e: "unat (round_up (ucast w) (ucast a)) = unat (align_u16 w a)"
    using assms by (simp add: align_u16_no_wrap)
  then show "round_up (ucast w) (ucast a) = (ucast (align_u16 w a) :: u32)"
    by (simp add: word_unat_eq_iff u)
  then show "(ucast (round_up (ucast w) (ucast a)) :: u16) = align_u16 w a"
    by simp
qed

lemma u8_less_2: "(x :: u8) < 2 \<Longrightarrow> x = 0 \<or> x = 1"
  by (simp add: word_less_nat_alt word_unat_eq_iff less_2_cases_iff)

lemma jpeg_flip_lib:
  assumes "disp_interface dev < 2" "unat (fst (rotated_size dev)) \<le> 65504" "unat (snd (rotated_size dev)) \<le> 65504"
  shows "flip_header_bytes (jpeg_flip dev n flag) =
    t6_write_video_flip_header (t6_make_jpeg_flip_header (disp_interface dev) (word_of_int (n + 1024))
      (fst (rotated_size dev)) (snd (rotated_size dev)) (cmdAddr dev) (fbAddr dev) (word_of_int flag))"
proof -
  obtain w h where wh: "rotated_size dev = (w, h)" by (cases "rotated_size dev")
  have c: "flip_command dev = (if disp_interface dev = 0 then 3 else 4)"
    using u8_less_2 [OF assms(1)] by (auto simp: flip_command_def)
  have "ucast (32 :: u16) = (32 :: u32)" by simp
  then have r: "ucast (round_up (ucast w) 32) = align_u16 w 32" "round_up (ucast w) 32 = ucast (align_u16 w 32)"
    "round_up (ucast h) 32 = ucast (align_u16 h 32)"
    using round_up_align [of w 32] round_up_align [of h 32] assms(2,3) wh by simp_all
  show ?thesis
    by (simp add: flip_header_bytes_eq jpeg_flip_def wh c r t6_make_jpeg_flip_header_def Let_def
        zero_video_flip_header_def T6_VIDEO_CMD_FLIP_PRIMARY_def T6_VIDEO_CMD_FLIP_SECONDARY_def
        T6_VIDEO_COLOR_NV12_def T6_VIDEO_COLOR_JPEG_def add.commute [of 1024])
qed

lemma nv12_flip_lib:
  assumes "disp_interface dev < 2" "unat (fst (rotated_size dev)) \<le> 65520"
  shows "flip_header_bytes (nv12_flip dev n flag) =
    t6_write_video_flip_header ((t6_make_nv12_flip_header (disp_interface dev) (word_of_int (n + 1024))
      (fst (rotated_size dev)) (snd (rotated_size dev)) (fbAddr dev) (word_of_int flag))
        \<lparr>v_data_offset := fbAddr dev + 48\<rparr>)"
proof -
  obtain w h where wh: "rotated_size dev = (w, h)" by (cases "rotated_size dev")
  have c: "flip_command dev = (if disp_interface dev = 0 then 3 else 4)"
    using u8_less_2 [OF assms(1)] by (auto simp: flip_command_def)
  have "ucast (16 :: u16) = (16 :: u32)" by simp
  then have r: "ucast (round_up (ucast w) 16) = align_u16 w 16" "round_up (ucast w) 16 = ucast (align_u16 w 16)"
    using round_up_align [of w 16] assms(2) wh by simp_all
  show ?thesis
    by (simp add: flip_header_bytes_eq nv12_flip_def wh c r t6_make_nv12_flip_header_def Let_def
        zero_video_flip_header_def T6_VIDEO_CMD_FLIP_PRIMARY_def T6_VIDEO_CMD_FLIP_SECONDARY_def
        T6_VIDEO_COLOR_NV12_def T6_VIDEO_FLIP_HEADER_SIZE_def)
qed

section \<open>Cursor shape chunks\<close>

interpretation txfrag: fragmenter "\<lambda>P M. M = MAX_CTRL_TX_SIZE" "\<lambda>P M. (P + M - 1) div M" "\<lambda>P M i. i * M"
  "\<lambda>P M i. tx_len P (i * M)" "\<lambda>P M i. i * M + tx_len P (i * M) < P"
proof unfold_locales
  fix P M i :: nat assume M: "M = MAX_CTRL_TX_SIZE"
  then show pos: "0 < M" by (simp add: MAX_CTRL_TX_SIZE_def)
  then show "i < (P + M - 1) div M \<longleftrightarrow> i * M < P" by (rule less_ceil_div_iff)
  assume "i * M < P"
  with M show "tx_len P (i * M) = min M (P - i * M)" by (simp add: tx_len_def min_def)
  with M \<open>i * M < P\<close> show "i * M + tx_len P (i * M) < P \<longleftrightarrow> Suc i * M < P"
    by (auto simp: min_def)
qed simp

definition chunk_xfer :: "u8 \<Rightarrow> int \<Rightarrow> bytes \<Rightarrow> nat \<Rightarrow> usb_xfer" where
  "chunk_xfer req idx d i =
    (let ofs = i * MAX_CTRL_TX_SIZE; c = take (tx_len (length d) ofs) (drop ofs d)
     in Control 0x40 req (word_of_int idx) (word_of_nat ofs) c (word_of_nat (length c)))"

lemma shape_loop_trace:
  assumes "\<And>tr x. 0 \<le> fst (host tr x)" "i * MAX_CTRL_TX_SIZE < length d"
  shows "\<exists>ret. 0 \<le> ret \<and> shape_loop host req idx d (i * MAX_CTRL_TX_SIZE) tr =
    (ret, tr @ map (chunk_xfer req idx d) [i..<(length d + MAX_CTRL_TX_SIZE - 1) div MAX_CTRL_TX_SIZE])"
  using assms(2)
proof (induction "(length d + MAX_CTRL_TX_SIZE - 1) div MAX_CTRL_TX_SIZE - i" arbitrary: i tr)
  case 0
  then show ?case using txfrag.count_law [of MAX_CTRL_TX_SIZE i "length d"] by simp
next
  case (Suc k)
  let ?M = MAX_CTRL_TX_SIZE and ?n = "(length d + MAX_CTRL_TX_SIZE - 1) div MAX_CTRL_TX_SIZE"
  let ?x = "chunk_xfer req idx d i"
  have i: "i < ?n" using Suc.prems txfrag.count_law [of ?M i "length d"] by simp
  have send: "vendor_set_data host req idx (int (i * ?M)) (take (tx_len (length d) (i * ?M)) (drop (i * ?M) d)) tr =
      (fst (host tr ?x), tr @ [?x])"
    by (simp add: vendor_set_data_def usb_send_def chunk_xfer_def Let_def)
  show ?case
  proof (cases "Suc i * ?M < length d")
    case True
    then have more: "i * ?M + tx_len (length d) (i * ?M) = Suc i * ?M"
      by (simp add: tx_len_def)
    have "Suc i < ?n" using True txfrag.count_law [of ?M "Suc i" "length d"] by simp
    with Suc.hyps(2) have "k = ?n - Suc i" by simp
    from Suc.hyps(1) [OF this True] obtain ret where
      "0 \<le> ret" "shape_loop host req idx d (Suc i * ?M) (tr @ [?x]) =
         (ret, (tr @ [?x]) @ map (chunk_xfer req idx d) [Suc i..<?n])" by blast
    moreover have "map (chunk_xfer req idx d) [i..<?n] = ?x # map (chunk_xfer req idx d) [Suc i..<?n]"
      using i by (simp add: upt_conv_Cons)
    moreover have "shape_loop host req idx d (i * ?M) tr = shape_loop host req idx d (Suc i * ?M) (tr @ [?x])"
      using send assms(1) [of tr ?x] True
      by (subst shape_loop.simps) (simp only: Let_def more [symmetric], simp add: not_less more)
    ultimately show ?thesis by simp
  next
    case False
    then have "\<not> i * ?M + tx_len (length d) (i * ?M) < length d"
      using txfrag.more_law [of ?M i "length d"] Suc.prems by simp
    moreover have "?n = Suc i"
      using False i txfrag.count_law [of ?M "Suc i" "length d"] by simp
    ultimately show ?thesis
      using send assms(1) by (subst shape_loop.simps) (simp add: not_less Let_def)
  qed
qed

section \<open>EDID buffers\<close>

lemma checksum_loop_append:
  "i + n \<le> length b \<Longrightarrow> checksum_loop (b @ c) i n acc = checksum_loop b i n acc"
  by (induction b i n acc rule: checksum_loop.induct) (simp_all add: nth_append)

lemma checksum_loop_cong:
  "(\<And>j. i \<le> j \<Longrightarrow> j < i + n \<Longrightarrow> b ! j = c ! j) \<Longrightarrow> checksum_loop b i n acc = checksum_loop c i n acc"
  by (induction b i n acc rule: checksum_loop.induct) simp_all

definition block0_ok :: "bytes \<Rightarrow> bool" where
  "block0_ok b \<longleftrightarrow> EDID_CheckSum b = 0 \<and> EDID_Header_Check b = 0 \<and> EDID_Version_Check b = 0"

lemma block0_ok_cong:
  assumes "\<And>j. j < 128 \<Longrightarrow> b ! j = c ! j"
  shows "block0_ok b = block0_ok c"
proof -
  have "EDID_CheckSum b = EDID_CheckSum c"
    unfolding EDID_CheckSum_def using assms by (intro checksum_loop_cong) simp
  with assms show ?thesis by (simp add: block0_ok_def EDID_Header_Check_def EDID_Version_Check_def)
qed

lemma generic_edid_ok: "block0_ok generic_edid" and length_generic_edid: "length generic_edid = 128"
  by code_simp+

lemma fourk_edid_ok: "block0_ok EDID_4k_bin" and length_fourk_edid: "length EDID_4k_bin = 256"
  and fourk_edid_ext: "checksum_loop EDID_4k_bin 128 128 0 = 0 \<and> EDID_4k_bin ! 126 = 1"
  by code_simp+

lemma write_front_nth: "j < length src \<Longrightarrow> write_bytes out 0 src ! j = src ! j"
  by (simp add: write_bytes_def nth_append)

lemma force_edid_spec:
  assumes "length (edid dev) = 512" "t6_vga_force_edid dev = (n, dev')"
  shows "length (edid dev') = 512 \<and> (n = 0 \<or> n = 128 \<and> block0_ok (edid dev'))"
proof -
  have "block0_ok (write_bytes (edid dev) 0 generic_edid) = block0_ok generic_edid"
    by (rule block0_ok_cong) (simp add: write_front_nth length_generic_edid)
  with assms show ?thesis
    by (auto simp: t6_vga_force_edid_def generic_edid_ok wire length_generic_edid split: if_splits)
qed

lemma vendor_get_length:
  "vendor_get host req val idx n buf tr = (ret, d, tr') \<Longrightarrow> n \<le> length buf \<Longrightarrow> length d = length buf"
  unfolding vendor_get_def by (rule length_usb_recv)

lemma ext_loop_spec:
  assumes "length (edid dev) = 512" "set is \<subseteq> {1, 2, 3}" "ext_loop host dev sz is tr = (n, dev', tr')"
  shows "length (edid dev') = 512 \<and> n \<in> {sz + 128 * int k |k. k \<le> length is} \<and>
         (\<forall>j<128. edid dev' ! j = edid dev ! j)"
  using assms
proof (induction "is" arbitrary: dev sz tr)
  case Nil
  then show ?case by auto
next
  case (Cons i "is")
  obtain ret blk t where g: "vendor_get host VENDOR_REQ_GET_EDID (128 * int i) (uint (disp_interface dev)) 128
      (take 128 (drop (128 * i) (edid dev))) tr = (ret, blk, t)"
    by (metis prod_cases3)
  have i: "1 \<le> i" "i \<le> 3" using Cons.prems(2) by auto
  then have l: "length blk = 128" using vendor_get_length [OF g] Cons.prems(1) by simp
  let ?d = "dev\<lparr>edid := write_bytes (edid dev) (128 * i) blk\<rparr>"
  have d: "length (edid ?d) = 512" "\<forall>j<128. edid ?d ! j = edid dev ! j"
    using i l Cons.prems(1) by (auto simp: wire write_bytes_nth)
  show ?case
  proof (cases "ret = 128")
    case False
    then show ?thesis using Cons.prems(3) g d by (auto intro: exI [of _ 0])
  next
    case True
    then have "ext_loop host ?d (sz + 128) is t = (n, dev', tr')" using Cons.prems(3) g by simp
    from Cons.IH [OF d(1) _ this] Cons.prems(2) obtain k where
      "length (edid dev') = 512" "n = sz + 128 + 128 * int k" "k \<le> length is"
      "\<forall>j<128. edid dev' ! j = edid ?d ! j" by auto
    then show ?thesis using d(2) by (auto intro!: exI [of _ "Suc k"])
  qed
qed

section \<open>Resolution tables\<close>

lemma find_resolution_spec:
  assumes "i + n \<le> 128"
  shows "find_resolution b w h fps i n = Inr (find (\<lambda>k. w = uint (HorAddrTime (resolution_at b k)) \<and>
     h = uint (VerAddrTime (resolution_at b k)) \<and> fps = uint (Frequency (resolution_at b k))) [i..<i + n])"
  using assms
proof (induction b w h fps i n rule: find_resolution.induct)
  case (2 b w h fps i n)
  have "res_in_buffer i"
    using 2(2) by (simp add: res_in_buffer_def sizeof_resolution_def res_buffer_size_def)
  moreover have "[i..<i + Suc n] = i # [i + 1..<i + 1 + n]" by (simp add: upt_conv_Cons del: upt_Suc)
  ultimately show ?case using 2 by (simp add: Let_def)
qed simp

lemma find_4k_spec:
  "i + n \<le> 128 \<Longrightarrow> find_4k b i n = Inr (if \<exists>k\<in>{i..<i + n}. 3840 \<le> HorAddrTime (resolution_at b k) \<and>
     2160 \<le> VerAddrTime (resolution_at b k) \<and> Frequency (resolution_at b k) = 30 then 1 else 0)"
proof (induction b i n rule: find_4k.induct)
  case (2 b i n)
  have "res_in_buffer i"
    using 2(2) by (simp add: res_in_buffer_def sizeof_resolution_def res_buffer_size_def)
  moreover have "{i..<i + Suc n} = insert i {i + 1..<i + 1 + n}" by auto
  ultimately show ?case using 2 by (auto simp: Let_def)
qed simp

section \<open>Properties\<close>

text \<open>
  C21: The vendor daemon and the portable protocol library speak the same wire format. Sending a JPEG frame
  makes exactly two bulk transfers: the library's display bulk header for the command address, and the
  library's JPEG flip header followed by the image and 1024 zero bytes, the announced length being
  the length of the second transfer; if the second transfer fails, a cancel request follows.
\<close>

theorem jpeg_frame_wire:
  fixes img :: bytes and flag :: int
  assumes "disp_interface dev < 2" "rotated_size dev = (w, h)" "unat w \<le> 65504" "unat h \<le> 65504"
  defines "n \<equiv> int (length img)"
  defines "ann \<equiv> t6_build_display_bulk_header (word_of_int (n + 1072)) (cmdAddr dev) (word_of_int (n + 1072)) 0 False"
    and "frame \<equiv> t6_write_video_flip_header (t6_make_jpeg_flip_header (disp_interface dev) (word_of_int (n + 1024))
        w h (cmdAddr dev) (fbAddr dev) (word_of_int flag)) @ img @ replicate 1024 0"
  assumes "0 \<le> fst (host tr (BulkOut 2 ann))"
  shows "int (length frame) = n + 1072 \<and>
    t6_libusb_FilpJpegFrame host True dev img flag tr =
       Inr (if 0 \<le> fst (host (tr @ [BulkOut 2 ann]) (BulkOut 2 frame))
            then (0, tr @ [BulkOut 2 ann, BulkOut 2 frame])
            else (-1, tr @ [BulkOut 2 ann, BulkOut 2 frame, Control 0x40 0x14 0 0 [] 0]))"
proof -
  let ?fh = "flip_header_bytes (jpeg_flip dev n flag)"
  have fh: "?fh = t6_write_video_flip_header (t6_make_jpeg_flip_header (disp_interface dev) (word_of_int (n + 1024))
        w h (cmdAddr dev) (fbAddr dev) (word_of_int flag))"
    using jpeg_flip_lib [OF assms(1), of n flag] assms(2-4) by simp
  have len: "nat (n + 48 + 1024) = length img + 1072" by (simp add: n_def)
  have buf: "write_bytes (write_bytes (replicate (nat (n + 48 + 1024)) 0) 0 ?fh) 48 img = frame"
    unfolding len frame_def fh [symmetric] by (simp add: write_bytes_def wire)
  have "int (length frame) = n + 1072" by (simp add: frame_def n_def wire)
  moreover have "announce (cmdAddr dev) (n + 48 + 1024) = ann" by (simp add: ann_def announce_eq add.commute)
  ultimately show ?thesis
    using buf assms(8) by (simp add: t6_libusb_FilpJpegFrame_def usb_send_def Let_def t6_libusb_donglereset_def
        vendor_reqs EP_BLK_OUT_ADDR_def n_def [symmetric] not_less)
qed

definition sample_t6 :: t6evdi where
  "sample_t6 = \<lparr>t6usbdev = True, fbAddr = 0x30, cmdAddr = 0x60, jpg_rotate = 0, Width = 1280, Height = 720,
     disp_interface = 0, edid = replicate 512 0, bRun4K30 = 0, dispcaps = 2\<rparr>"

theorem jpeg_frame_wire_witness:
  "\<exists>tr'. t6_libusb_FilpJpegFrame (\<lambda>tr x. (0, [])) True sample_t6 [1, 2, 3] 0 [] = Inr (0, tr')"
  using jpeg_frame_wire [where dev = sample_t6 and w = 1280 and h = 720 and host = "\<lambda>tr x. (0, [])"
      and img = "[1, 2, 3]" and flag = 0 and tr = "[]"]
  by (auto simp: sample_t6_def rotated_size_def)

text \<open>
  Cursor images reach the device whole, in order, as control transfers of at most 4096 bytes: on a host
  that accepts every transfer, chunk \<open>i\<close> carries the bytes at \<open>4096 * i\<close>, and the chunks concatenate to
  the 8-byte shape header followed by the pixels. Each transfer names its offset exactly if the
  whole image has at most 65536 bytes, since the offset travels in a 16-bit index.
\<close>

theorem cursor_shape_chunks:
  fixes data :: bytes and w h disp_no :: int
  assumes "\<And>tr x. 0 \<le> fst (host tr x)"
  defines "d \<equiv> cursor_shape_bytes w h data"
  defines "n \<equiv> (length d + 4095) div 4096"
    and "req \<equiv> (if disp_no = 0 then 0x10 else 0x11)"
  shows "t6_libusb_set_cursor_shape host True cur_idx disp_no w h data tr =
      (0, tr @ map (chunk_xfer req cur_idx d) [0..<n]) \<and>
    concat (map (\<lambda>i. wData (chunk_xfer req cur_idx d i)) [0..<n]) = d \<and>
    (\<forall>i<n. wLength (chunk_xfer req cur_idx d i) \<noteq> 0 \<and> wLength (chunk_xfer req cur_idx d i) \<le> 4096) \<and>
    ((\<forall>i<n. unat (wIndex (chunk_xfer req cur_idx d i)) = i * 4096) \<longleftrightarrow> length d \<le> 65536)"
proof (intro conjI allI impI)
  let ?M = MAX_CTRL_TX_SIZE
  have M: "?M = 4096" by (simp add: MAX_CTRL_TX_SIZE_def)
  have n: "(length d + ?M - 1) div ?M = n" by (simp add: n_def M)
  have pos: "0 * ?M < length d" by (simp add: d_def cursor_shape_bytes_def wire Let_def)
  have "\<exists>ret. 0 \<le> ret \<and> shape_loop host req cur_idx d (0 * ?M) tr = (ret, tr @ map (chunk_xfer req cur_idx d) [0..<n])"
    using shape_loop_trace [where host = host and tr = tr and req = req and idx = cur_idx, OF assms(1) pos]
    unfolding n by simp
  then show "t6_libusb_set_cursor_shape host True cur_idx disp_no w h data tr =
      (0, tr @ map (chunk_xfer req cur_idx d) [0..<n])"
    by (auto simp: t6_libusb_set_cursor_shape_def d_def req_def vendor_reqs Let_def)
  show "concat (map (\<lambda>i. wData (chunk_xfer req cur_idx d i)) [0..<n]) = d"
    using txfrag.reassembly [where P = "length d" and M = ?M and buf = d] unfolding n by (simp add: chunk_xfer_def Let_def)
  have c: "i * 4096 < length d" if "i < n" for i
    using less_ceil_div_iff [of 4096 i "length d"] that by (simp add: n_def add.commute)
  have cl: "length (take (tx_len (length d) (i * ?M)) (drop (i * ?M) d)) = min 4096 (length d - i * 4096)" for i
    by (auto simp: tx_len_def M min_def)
  fix i assume i: "i < n"
  have w: "unat (wLength (chunk_xfer req cur_idx d i)) = min 4096 (length d - i * 4096)"
    using cl [of i] by (simp add: chunk_xfer_def Let_def unat_of_nat take_bit_eq_mod)
  then show "wLength (chunk_xfer req cur_idx d i) \<noteq> 0" using c [OF i] by (auto simp: unat_gt_0 [symmetric])
  show "wLength (chunk_xfer req cur_idx d i) \<le> 4096" using w by (simp add: word_le_nat_alt)
next
  let ?M = MAX_CTRL_TX_SIZE
  have M: "?M = 4096" by (simp add: MAX_CTRL_TX_SIZE_def)
  have idx: "unat (wIndex (chunk_xfer req cur_idx d i)) = i * 4096 mod 65536" for i
    by (simp only: chunk_xfer_def Let_def usb_xfer.sel M unat_of_nat) simp
  have cnt: "i < n \<longleftrightarrow> i * 4096 < length d" for i
    using less_ceil_div_iff [of 4096 i "length d"] by (simp add: n_def add.commute)
  show "(\<forall>i<n. unat (wIndex (chunk_xfer req cur_idx d i)) = i * 4096) \<longleftrightarrow> length d \<le> 65536"
  proof
    assume "\<forall>i<n. unat (wIndex (chunk_xfer req cur_idx d i)) = i * 4096"
    then have "\<not> 16 < n" using idx [of 16] by fastforce
    then show "length d \<le> 65536" using cnt [of 16] by simp
  next
    assume "length d \<le> 65536"
    then show "\<forall>i<n. unat (wIndex (chunk_xfer req cur_idx d i)) = i * 4096"
      using cnt idx by (auto simp: mod_less)
  qed
qed

theorem cursor_shape_chunks_witness:
  "fst (t6_libusb_set_cursor_shape (\<lambda>tr x. (0, [])) True 0 0 128 128 (replicate 65536 0) []) = 0 \<and>
   \<not> (\<forall>i<17. unat (wIndex (chunk_xfer 0x10 0 (cursor_shape_bytes 128 128 (replicate 65536 0)) i)) = i * 4096)"
  using cursor_shape_chunks [where host = "\<lambda>tr x. (0, [])" and w = 128 and h = 128
      and data = "replicate 65536 0" and disp_no = 0 and cur_idx = 0 and tr = "[]"]
  by (simp add: cursor_shape_bytes_def wire Let_def)

text \<open>
  A cursor position is sent right for non-negative coordinates and one too small for negative ones: the
  device receives, as a signed 16-bit number, \<open>x\<close> for \<open>0 \<le> x < 32768\<close> and \<open>x - 1\<close> for \<open>-32768 < x < 0\<close>.
\<close>

theorem cursor_position_encoding:
  assumes "-32768 < x" "x < 32768"
  shows "sint (cursor_coord x) = (if x < 0 then x - 1 else x)"
proof -
  have "cursor_coord x = word_of_int (if x < 0 then x - 1 else x)"
  proof -
    have "NOT (word_of_int (- x) :: u16) = word_of_int (x - 1)"
      by (simp add: not_eq_complement)
    then show ?thesis by (simp add: cursor_coord_def)
  qed
  moreover have "sint (word_of_int k :: u16) = k" if "-32768 \<le> k" "k < 32768" for k
    using that by (simp add: signed_of_int signed_take_bit_int_eq_self)
  ultimately show ?thesis using assms by simp
qed

theorem cursor_position_encoding_witness: "sint (cursor_coord (-1)) = -2"
  using cursor_position_encoding [of "-1"] by simp

text \<open>
  What \<^verbatim>\<open>t6_libusb_get_edid\<close> hands on. The EDID buffer keeps its 512 bytes; the result is -1, 0, or 128
  to 512 in steps of 128; and in the last case block 0 of the buffer, read from the monitor or
  forced for a VGA output, has a zero checksum, the EDID header and a supported version.
\<close>

theorem get_edid_valid:
  assumes "length (edid dev) = 512" "t6_libusb_get_edid host dev tr = (n, dev', tr')"
  shows "length (edid dev') = 512 \<and> n \<in> {-1, 0, 128, 256, 384, 512} \<and>
         (128 \<le> n \<longrightarrow> block0_ok (edid dev'))"
proof (cases "t6usbdev dev")
  case False
  then show ?thesis using assms by (simp add: t6_libusb_get_edid_def)
next
  case True
  obtain ret blk t where g: "vendor_get host VENDOR_REQ_GET_EDID 0 (uint (disp_interface dev)) 128
      (take 128 (edid dev)) tr = (ret, blk, t)" by (metis prod_cases3)
  let ?d = "dev\<lparr>edid := write_bytes (edid dev) 0 blk\<rparr>"
  have "length blk = 128" using vendor_get_length [OF g] assms(1) by simp
  then have l: "length (edid ?d) = 512" using assms(1) by (simp add: wire)
  obtain fn fd where f: "t6_vga_force_edid ?d = (fn, fd)" by (cases "t6_vga_force_edid ?d")
  note fs = force_edid_spec [OF l f]
  show ?thesis
  proof (cases "0 \<le> ret \<and> 128 \<le> ret \<and> block0_ok (edid ?d)")
    case False
    then show ?thesis
      using assms(2) True g f fs l
      by (auto simp: t6_libusb_get_edid_def block0_ok_def Let_def split: if_splits)
  next
    case ok: True
    define js where "js = filter (\<lambda>i. i \<le> unat (edid ?d ! 126)) [1, 2, 3 :: nat]"
    have js: "set js \<subseteq> {1, 2, 3}" "length js \<le> 3" by (auto simp: js_def)
    have "ext_loop host ?d 128 js t = (n, dev', tr')"
      using assms(2) True g f ok by (simp add: t6_libusb_get_edid_def block0_ok_def Let_def js_def)
    from ext_loop_spec [OF l js(1) this] js(2) obtain k where k: "length (edid dev') = 512"
      "n = 128 + 128 * int k" "k \<le> 3"
      "\<forall>j<128. edid dev' ! j = edid ?d ! j" by auto
    have "block0_ok (edid dev')" using block0_ok_cong [of "edid dev'" "edid ?d"] k(4) ok by blast
    moreover have "k = 0 \<or> k = 1 \<or> k = 2 \<or> k = 3" using k(3) by linarith
    ultimately show ?thesis using k by auto
  qed
qed

theorem get_edid_valid_witness:
  "\<exists>n dev' tr'. t6_libusb_get_edid (\<lambda>tr x. (128, generic_edid)) sample_t6 [] = (n, dev', tr') \<and>
     n \<in> {-1, 0, 128, 256, 384, 512} \<and> length (edid dev') = 512"
proof -
  obtain n dev' tr' where r: "t6_libusb_get_edid (\<lambda>tr x. (128, generic_edid)) sample_t6 [] = (n, dev', tr')"
    by (metis prod_cases3)
  then show ?thesis using get_edid_valid [OF _ r] by (auto simp: sample_t6_def)
qed

definition res_matches :: "bytes \<Rightarrow> t6evdi \<Rightarrow> int \<Rightarrow> int \<Rightarrow> int \<Rightarrow> nat \<Rightarrow> bool" where
  "res_matches b dev w h fps k \<longleftrightarrow>
    (let r = resolution_at b k; rot = (jpg_rotate dev = 1 \<or> jpg_rotate dev = 3)
     in (if rot then h else w) = uint (HorAddrTime r) \<and> (if rot then w else h) = uint (VerAddrTime r) \<and>
        fps = uint (Frequency r))"

lemma read_resolutions_ok:
  assumes "length junk = 4096" "t6_libusb_get_resolution_num host junk4 dev tr = (n, tr1)" "n \<le> 128"
  shows "\<exists>r tr2. read_resolutions host junk4 junk dev tr = Inr (r, tr2) \<and>
    (\<forall>m b. r = Some (m, b) \<longrightarrow> m = n \<and> 0 \<le> n \<and> length b = 4096)"
proof (cases "n < 0")
  case True
  then show ?thesis using assms(2) by (simp add: read_resolutions_def)
next
  case False
  let ?wlen = "word_of_int (n * int sizeof_resolution) :: u16"
  let ?x = "Control 0xC0 VENDOR_REQ_GET_RESOLUTION_TIMING_TABLE (ucast (disp_interface dev)) 0 [] ?wlen"
  obtain ret d where h: "host tr1 ?x = (ret, d)" by (cases "host tr1 ?x")
  have u: "unat ?wlen = nat (n * 32)"
  proof -
    have "uint ?wlen = (n * 32) mod 65536"
      by (simp only: uint_word_of_int sizeof_resolution_def) simp
    also have "\<dots> = n * 32" using False assms(3) by simp
    finally show ?thesis by (simp add: unat_eq_nat_uint)
  qed
  have "length (take (unat ?wlen) d) \<le> 4096" using u assms(3) by simp
  then show ?thesis
    using False assms(1,2) h by (auto simp: read_resolutions_def Let_def res_buffer_size_def)
qed

text \<open>
  Setting a resolution. With a table of at most 128 entries, which the 4096-byte stack buffer holds, no
  read leaves the buffer. If an entry has the requested size (swapped when the image is rotated by 90
  or 270 degrees) and rate, the first such entry, 32 bytes with the PLL values patched in, is sent and
  then the software-ready request; if none has, the code sends an uninitialised structure.
\<close>

theorem set_resolution_sends_entry:
  assumes "t6_libusb_get_resolution_num host junk4 dev tr = (n, tr1)" "n \<le> 128" "length junk = 4096"
  shows "\<exists>r tr2. read_resolutions host junk4 junk dev tr = Inr (r, tr2) \<and>
    t6_libusb_set_resolution host pll junk4 junk dev w h fps tr =
      (case r of
         None \<Rightarrow> Inr (-1, tr2)
       | Some (m, b) \<Rightarrow>
           (case find (res_matches b dev w h fps) [0..<nat m] of
              None \<Rightarrow> Inl Uninitialised
            | Some i \<Rightarrow>
                let (ver, tr3) = t6_libusb_get_version host 0 tr2;
                    e = patch_resolution pll (jpg_rotate dev = 1 \<or> jpg_rotate dev = 3) w h ver
                          (take 32 (drop (32 * i) b));
                    (ret, tr4) = vendor_set_data host 0x12 (uint (disp_interface dev)) 0 e tr3
                in if ret < 0 then Inr (-1, tr4) else Inr (t6_libusb_set_softready host dev tr4)))"
proof -
  obtain r tr2 where r: "read_resolutions host junk4 junk dev tr = Inr (r, tr2)"
    "\<forall>m b. r = Some (m, b) \<longrightarrow> m = n \<and> 0 \<le> n \<and> length b = 4096"
    using read_resolutions_ok [OF assms(3,1,2)] by blast
  show ?thesis
  proof (cases r)
    case None
    then show ?thesis
      using r by (simp add: t6_libusb_set_resolution_def t6_libusb_get_resolution_timing_def)
  next
    case (Some x)
    then obtain m b where mb: "r = Some (m, b)" by (cases x) auto
    then have m: "nat m \<le> 128" using r(2) assms(2) by simp
    let ?rot = "jpg_rotate dev = 1 \<or> jpg_rotate dev = 3"
    have "find_resolution b (if ?rot then h else w) (if ?rot then w else h) fps 0 (nat m) =
        Inr (find (res_matches b dev w h fps) [0..<nat m])"
      using find_resolution_spec [where i = 0 and n = "nat m"] m
      by (simp add: res_matches_def [abs_def] Let_def)
    then show ?thesis
      using r(1) mb
      by (auto simp: t6_libusb_set_resolution_def t6_libusb_get_resolution_timing_def Let_def vendor_reqs
          sizeof_resolution_def split: option.splits prod.splits)
  qed
qed

theorem set_resolution_sends_entry_witness:
  "\<exists>r tr2. read_resolutions (\<lambda>tr x. (0, [0, 0, 0, 0])) [0, 0, 0, 0] (replicate 4096 0) sample_t6 [] = Inr (r, tr2) \<and>
     t6_libusb_set_resolution (\<lambda>tr x. (0, [0, 0, 0, 0])) (\<lambda>_ _. None) [0, 0, 0, 0] (replicate 4096 0) sample_t6 640 480 60 [] =
       Inl Uninitialised"
proof -
  let ?h = "\<lambda>(tr :: trace) (x :: usb_xfer). (0 :: int, [0, 0, 0, 0] :: bytes)"
  obtain tr1 where n: "t6_libusb_get_resolution_num ?h [0, 0, 0, 0] sample_t6 [] = (0, tr1)"
    by (simp add: t6_libusb_get_resolution_num_def vendor_get_def usb_recv_def Let_def sint32_def read_le32_def)
  have "read_resolutions ?h [0, 0, 0, 0] (replicate 4096 0) sample_t6 [] =
      Inr (Some (0, replicate 4096 0), tr1 @ [Control 0xC0 0x89 0 0 [] 0])"
    using n by (simp add: read_resolutions_def res_buffer_size_def sample_t6_def
        VENDOR_REQ_GET_RESOLUTION_TIMING_TABLE_def)
  with set_resolution_sends_entry [OF n, of "replicate 4096 0" "\<lambda>_ _. None" 640 480 60] show ?thesis by simp
qed

section \<open>Revising the EDID\<close>

lemma detail_loop_run:
  "length b = 512 \<Longrightarrow> set is \<subseteq> {0, 1, 2, 3} \<Longrightarrow> \<exists>r. detail_loop b is run = Inr r"
proof (induction "is" arbitrary: run)
  case (Cons i "is")
  then have "0x36 + i * 18 + 18 \<le> length b" by auto
  from detail_run [OF this, of run] obtain r where "EDID_ParseDetailDescriptor b (0x36 + i * 18) run = Inr r" by blast
  with Cons show ?case by simp
qed simp

lemma fourk_in_front: "length b = 512 \<Longrightarrow> block0_ok (write_bytes b 0 EDID_4k_bin) \<and>
    take 256 (write_bytes b 0 EDID_4k_bin) = EDID_4k_bin"
proof -
  have "block0_ok (write_bytes b 0 EDID_4k_bin) = block0_ok EDID_4k_bin"
    by (rule block0_ok_cong) (simp add: write_front_nth length_fourk_edid)
  then show ?thesis by (simp add: fourk_edid_ok write_bytes_def length_fourk_edid)
qed

lemma generic_in_front: "length b = 512 \<Longrightarrow> block0_ok (write_bytes b 0 generic_edid) \<and>
    take 128 (write_bytes b 0 generic_edid) = generic_edid"
proof -
  have "block0_ok (write_bytes b 0 generic_edid) = block0_ok generic_edid"
    by (rule block0_ok_cong) (simp add: write_front_nth length_generic_edid)
  then show ?thesis by (simp add: generic_edid_ok write_bytes_def length_generic_edid)
qed

text \<open>
  Revising the EDID. Whatever the monitor sent (short of HDMI code 5) the revision does not fault in the
  EDID; its outcome is one of three: no 4K support found, and size and EDID unchanged; the built-in
  4K EDID with the flag kept set, only on a super-speed link with a capability answer other than 0;
  or the built-in 1080p EDID with the flag cleared. Both built-in EDIDs are valid.
\<close>

theorem revise_edid_outcome:
  assumes "length (edid dev) = 512" "no_vic5 (edid dev)" "length junk = 4096"
    and "\<And>tr. fst (t6_libusb_get_resolution_num host junk4 dev tr) \<le> 128"
  shows "\<exists>n run' dev' tr'. t6_revise_edid host junk4 junk speed dev edid_size run tr = Inr (n, run', dev', tr') \<and>
    length (edid dev') = 512 \<and>
    (run' = 0 \<and> n = edid_size \<and> dev' = dev \<and> tr' = tr \<or>
     run' \<noteq> 0 \<and> n = 256 \<and> 4 \<le> speed \<and> take 256 (edid dev') = EDID_4k_bin \<and> block0_ok (edid dev') \<and>
       (\<exists>cap. cap \<noteq> 0 \<and> t6_libusb_get_4K_capbability host junk4 junk dev tr = Inr (cap, tr')) \<or>
     run' = 0 \<and> n = 128 \<and> take 128 (edid dev') = generic_edid \<and> block0_ok (edid dev'))"
proof -
  obtain r1 where r1: "detail_loop (edid dev) [0, 1, 2, 3] run = Inr r1"
    using detail_loop_run [OF assms(1), of "[0, 1, 2, 3]" run] by auto
  obtain k r where "EDID_ParseCEAExtensionBlockInformation (edid dev) 0 r1 = Inr (k, r)"
    using cea_walk_total [OF assms(1,2)] by blast
  then obtain r2 where r2: "(if 128 < edid_size
      then ebind (EDID_ParseCEAExtensionBlockInformation (edid dev) 0 r1) (\<lambda>(ret, run). Inr run)
      else Inr r1) = Inr r2" by (cases "128 < edid_size") simp_all
  obtain cap t where cap: "t6_libusb_get_4K_capbability host junk4 junk dev tr = Inr (cap, t)"
  proof -
    obtain n t1 where n: "t6_libusb_get_resolution_num host junk4 dev tr = (n, t1)"
      by (cases "t6_libusb_get_resolution_num host junk4 dev tr")
    with assms(4) [of tr] have le: "n \<le> 128" by simp
    from read_resolutions_ok [OF assms(3) n le] obtain q t2 where q:
      "read_resolutions host junk4 junk dev tr = Inr (q, t2)"
      "\<forall>m b. q = Some (m, b) \<longrightarrow> m = n \<and> 0 \<le> n \<and> length b = 4096" by blast
    show ?thesis
    proof (cases q)
      case None
      then show ?thesis using q that by (simp add: t6_libusb_get_4K_capbability_def)
    next
      case (Some x)
      then obtain m b where "q = Some (m, b)" by (cases x) auto
      then show ?thesis using q le find_4k_spec [of 0 "nat m" b] that
        by (simp add: t6_libusb_get_4K_capbability_def)
    qed
  qed
  show ?thesis
  proof (cases "r2 = 0")
    case True
    then show ?thesis using r1 r2 assms(1) by (simp add: t6_revise_edid_def)
  next
    case False
    then show ?thesis
      using r1 r2 cap assms(1) fourk_in_front [OF assms(1)] generic_in_front [OF assms(1)]
      by (auto simp: t6_revise_edid_def LIBUSB_SPEED_SUPER_def wire length_fourk_edid length_generic_edid)
  qed
qed

theorem revise_edid_outcome_witness:
  "\<exists>n run' dev' tr'. t6_revise_edid (\<lambda>tr x. (-1, [])) [0, 0, 0, 0] (replicate 4096 0) 4 sample_t6 256 1 [] =
     Inr (n, run', dev', tr') \<and> length (edid dev') = 512"
  using revise_edid_outcome [of sample_t6 "replicate 4096 0" "\<lambda>tr x. (-1, [])" "[0, 0, 0, 0]" 4 256 1 "[]"]
  by (fastforce simp: sample_t6_def no_vic5_def t6_libusb_get_resolution_num_def vendor_get_def usb_recv_def Let_def)

text \<open>A failed capability query counts as support: its -1 is not 0.\<close>

lemma failed_query_counts_as_4k:
  "(\<And>tr x. host tr x = (-1, [])) \<Longrightarrow> t6_libusb_get_4K_capbability host junk4 junk dev tr = Inr (-1, snd (t6_libusb_get_resolution_num host junk4 dev tr))"
  by (simp add: t6_libusb_get_4K_capbability_def read_resolutions_def t6_libusb_get_resolution_num_def
      vendor_get_def usb_recv_def Let_def)

text \<open>
  The firmware progress loop ends at the first packet that carries no function, the update's end, an
  unknown event, or a failed read, and at nothing else: packets of other functions and progress
  reports are skipped.
\<close>

theorem rom_message_loop:
  "ShowRomMsg ps = None \<longleftrightarrow>
     (\<forall>(ret, d)\<in>set ps. 0 \<le> ret \<and> d ! 0 \<noteq> 0 \<and> (d ! 0 = 0x80 \<longrightarrow> d ! 0x2C \<in> {0x02, 0x03, 0x04, 0x11}))"
  by (induction ps rule: ShowRomMsg.induct) (auto simp: Let_def split: if_splits)

theorem rom_message_loop_witness:
  "ShowRomMsg [(0, replicate 64 4), (0, 0x80 # replicate 63 2)] = None"
  using rom_message_loop [of "[(0, replicate 64 4), (0, 0x80 # replicate 63 2)]"] by simp

end
