(* ===== verification/EvdiFb.thy ===== *)
theory EvdiFb
  imports WireBytes
begin

text \<open>
  Framebuffers and their memory in the \<^verbatim>\<open>evdi\<close> kernel module (\<^verbatim>\<open>evdi_drm_drv.h\<close>, \<^verbatim>\<open>evdi_fb.c\<close>), and the
  two kernel services through which the painter and the cursor move pixels: a read of the kernel
  mapping of a buffer object, and \<^verbatim>\<open>copy_to_user\<close>.

  \<^item> The kernel mapping \<^verbatim>\<open>obj->vmapping\<close> is the byte list it addresses, \<open>None\<close> when it is not mapped; a
    read past its end is an error.
  \<^item> The buffer of the caller is a function from offsets to bytes. \<^verbatim>\<open>copy_to_user\<close> answers with the number
    of bytes it could not copy, which the parameter \<open>nc\<close> (destination and length) decides; the bytes
    before them are copied.
  \<^item> \<open>c_int\<close> is the conversion to a C \<^verbatim>\<open>int\<close>, which wraps in the kernel's build.
\<close>

record evdi_gem_object =
  obj_size :: nat
  vmapping :: "bytes option"
  import_attach :: bool

record evdi_framebuffer =
  fb_id :: nat
  fb_width :: u32
  fb_height :: u32
  fb_pitch :: u32
  fb_offset :: u32
  fb_cpp :: u8
  fb_format :: u32
  fb_obj :: evdi_gem_object
  fb_active :: bool
  is_from_xe :: bool

section \<open>C integers\<close>

definition c_int :: "int \<Rightarrow> int" where
  "c_int x = signed_take_bit 31 x"

lemma c_int_id [simp]: "- 2147483648 \<le> x \<Longrightarrow> x < 2147483648 \<Longrightarrow> c_int x = x"
  by (simp add: c_int_def signed_take_bit_int_eq_self)

lemma c_int_bounds: "- 2147483648 \<le> c_int x" "c_int x < 2147483648"
  using signed_take_bit_int_greater_eq_minus_exp [of 31 x] signed_take_bit_int_less_exp [of 31 x]
  by (simp_all add: c_int_def)

section \<open>Kernel mapping and user memory\<close>

type_synonym user_mem = "int \<Rightarrow> u8"
type_synonym uaccess = "int \<Rightarrow> nat \<Rightarrow> nat"

definition vm_read :: "bytes \<Rightarrow> int \<Rightarrow> int \<Rightarrow> c_error + bytes" where
  "vm_read vm off n =
    (if 0 \<le> off \<and> 0 \<le> n \<and> off + n \<le> int (length vm)
     then Inr (take (nat n) (drop (nat off) vm)) else Inl OutOfBounds)"

definition user_write :: "int \<Rightarrow> bytes \<Rightarrow> user_mem \<Rightarrow> user_mem" where
  "user_write dst src mem =
    (\<lambda>a. if dst \<le> a \<and> a < dst + int (length src) then src ! nat (a - dst) else mem a)"

definition copy_to_user :: "uaccess \<Rightarrow> int \<Rightarrow> bytes \<Rightarrow> user_mem \<Rightarrow> nat \<times> user_mem" where
  "copy_to_user nc dst src mem =
    (let k = min (length src) (nc dst (length src))
     in (k, user_write dst (take (length src - k) src) mem))"

lemma vm_read_eq_Inr:
  "vm_read vm off n = Inr b \<longleftrightarrow>
   0 \<le> off \<and> 0 \<le> n \<and> off + n \<le> int (length vm) \<and> b = take (nat n) (drop (nat off) vm)"
  by (auto simp: vm_read_def)

lemma vm_read_nth:
  "vm_read vm off n = Inr b \<Longrightarrow> int i < n \<Longrightarrow> b ! i = vm ! nat (off + int i)"
  by (auto simp: vm_read_eq_Inr nth_append nat_add_distrib)

lemma vm_read_length: "vm_read vm off n = Inr b \<Longrightarrow> int (length b) = n"
  by (auto simp: vm_read_eq_Inr)

lemma copy_to_user_ok: "copy_to_user nc dst src mem = (0, mem') \<Longrightarrow> mem' = user_write dst src mem"
  by (cases "length src \<le> nc dst (length src)") (auto simp: copy_to_user_def Let_def)

section \<open>Creating a framebuffer\<close>

text \<open>
  \<^verbatim>\<open>evdi_fb_user_fb_create\<close>: 32 bits per pixel, a known handle, and an object at least as large as the
  page-aligned size, which is computed in 32 bits. \<open>bpp\<close> is the answer of \<^verbatim>\<open>evdi_fb_get_bpp\<close>, \<open>lookup\<close> that of
  \<^verbatim>\<open>drm_gem_object_lookup\<close>, which takes a reference on the object, \<open>alloc\<close> says whether \<^verbatim>\<open>kzalloc\<close>
  succeeds, \<open>init\<close> is what \<^verbatim>\<open>evdi_framebuffer_init\<close> returns and \<open>xe\<close> what \<^verbatim>\<open>is_xe_gem\<close> says. The result comes
  with the references still held on the object.
\<close>

record mode_fb_cmd2 =
  mode_width :: u32
  mode_height :: u32
  mode_format :: u32
  mode_pitch :: u32
  mode_offset :: u32

definition fb_size :: "mode_fb_cmd2 \<Rightarrow> u32" where
  "fb_size mode_cmd = ((mode_offset mode_cmd + mode_pitch mode_cmd * mode_height mode_cmd) + 4095) AND NOT 4095"

definition evdi_fb_user_fb_create ::
    "int \<Rightarrow> evdi_gem_object option \<Rightarrow> nat option \<Rightarrow> int \<Rightarrow> bool \<Rightarrow> mode_fb_cmd2 \<Rightarrow> (int + evdi_framebuffer) \<times> nat" where
  "evdi_fb_user_fb_create bpp lookup alloc init xe mode_cmd =
    (if bpp \<noteq> 32 then (Inl (- EINVAL), 0)
     else case lookup of
       None \<Rightarrow> (Inl (- ENOENT), 0)
     | Some gem \<Rightarrow>
        if obj_size gem < unat (fb_size mode_cmd) then (Inl (- ENOMEM), 0)
        else case alloc of
          None \<Rightarrow> (Inl (- ENOMEM), 0)
        | Some new_id \<Rightarrow>
            if init \<noteq> 0 then (Inl (- EINVAL), 0)
            else (Inr \<lparr>fb_id = new_id, fb_width = mode_width mode_cmd, fb_height = mode_height mode_cmd,
                       fb_pitch = mode_pitch mode_cmd, fb_offset = mode_offset mode_cmd, fb_cpp = 4,
                       fb_format = mode_format mode_cmd, fb_obj = gem, fb_active = False,
                       is_from_xe = xe\<rparr>, 1))"

text \<open>An accepted framebuffer lies inside its object, unless the 32-bit size wrapped.\<close>

definition fb_inside :: "evdi_framebuffer \<Rightarrow> bool" where
  "fb_inside efb \<longleftrightarrow>
    unat (fb_offset efb) + unat (fb_pitch efb) * unat (fb_height efb) \<le> obj_size (fb_obj efb)"

lemma page_align:
  fixes x :: u32
  assumes "unat x + 4095 < 4294967296"
  shows "unat x \<le> unat ((x + 4095) AND NOT 4095)"
proof -
  have m: "(4095 :: u32) = mask 12" by (simp add: mask_eq_exp_minus_1)
  have "(x + 4095) AND NOT 4095 = push_bit 12 (drop_bit 12 (x + 4095))"
    unfolding m by (rule bit_word_eqI) (auto simp: bit_and_iff bit_not_iff bit_mask_iff bit_push_bit_iff bit_drop_bit_eq)
  also have "\<dots> = ((x + 4095) div 4096) * 4096"
    by (simp add: drop_bit_eq_div push_bit_eq_mult)
  finally have eq: "(x + 4095) AND NOT 4095 = ((x + 4095) div 4096) * 4096" .
  have add: "unat (x + 4095) = unat x + 4095" using assms by (subst unat_add_no_wrap) simp_all
  have div: "unat ((x + 4095) div 4096) = (unat x + 4095) div 4096" by (simp add: word_div_unat add)
  have "(unat x + 4095) div 4096 * 4096 \<le> unat x + 4095" by simp
  then have "unat (((x + 4095) div 4096) * 4096) = (unat x + 4095) div 4096 * 4096"
    using assms by (subst unat_mult_no_wrap) (simp_all only: div, simp_all)
  then show ?thesis unfolding eq using ceil_div_mult_ge [of 4096 "unat x"] by simp
qed

text \<open>
  Creating a framebuffer either fails with an error and leaves no reference on the object, or
  succeeds with exactly one, a 32-bit format and the caller's geometry; and unless the page-aligned size
  wraps in 32 bits the framebuffer lies inside its object, so that the painter reads inside it.
\<close>

theorem fb_create_sound:
  assumes "evdi_fb_user_fb_create bpp lookup alloc init xe mode_cmd = (r, n)"
    and "unat (mode_offset mode_cmd) + unat (mode_pitch mode_cmd) * unat (mode_height mode_cmd) + 4095 < 4294967296"
  shows "(\<forall>e. r = Inl e \<longrightarrow> n = 0 \<and> e < 0) \<and>
    (\<forall>efb. r = Inr efb \<longrightarrow> n = 1 \<and> bpp = 32 \<and> lookup = Some (fb_obj efb) \<and>
      fb_width efb = mode_width mode_cmd \<and> fb_height efb = mode_height mode_cmd \<and> fb_inside efb)"
proof (rule conjI; intro allI impI)
  fix e assume "r = Inl e"
  then show "n = 0 \<and> e < 0"
    using assms(1) by (auto simp: evdi_fb_user_fb_create_def errno_defs split: if_splits option.splits)
next
  fix efb assume r: "r = Inr efb"
  then obtain g where g: "lookup = Some g" "\<not> obj_size g < unat (fb_size mode_cmd)" "n = 1" "bpp = 32"
    "fb_obj efb = g" "fb_width efb = mode_width mode_cmd" "fb_height efb = mode_height mode_cmd"
    "fb_pitch efb = mode_pitch mode_cmd" "fb_offset efb = mode_offset mode_cmd"
    using assms(1) by (auto simp: evdi_fb_user_fb_create_def split: if_splits option.splits)
  have p: "unat (mode_pitch mode_cmd * mode_height mode_cmd) = unat (mode_pitch mode_cmd) * unat (mode_height mode_cmd)"
    using assms(2) by (intro unat_mult_no_wrap) simp
  have s: "unat (mode_offset mode_cmd + mode_pitch mode_cmd * mode_height mode_cmd) =
      unat (mode_offset mode_cmd) + unat (mode_pitch mode_cmd) * unat (mode_height mode_cmd)"
    using assms(2) p by (subst unat_add_no_wrap) simp_all
  have "fb_inside efb"
    using page_align [of "mode_offset mode_cmd + mode_pitch mode_cmd * mode_height mode_cmd"] assms(2) g
    unfolding s fb_size_def fb_inside_def by simp
  then show "n = 1 \<and> bpp = 32 \<and> lookup = Some (fb_obj efb) \<and>
      fb_width efb = mode_width mode_cmd \<and> fb_height efb = mode_height mode_cmd \<and> fb_inside efb"
    using g by simp
qed

theorem fb_create_sound_witness:
  "fb_inside (projr (fst (evdi_fb_user_fb_create 32 (Some \<lparr>obj_size = 8192, vmapping = None, import_attach = False\<rparr>)
      (Some 1) 0 False \<lparr>mode_width = 32, mode_height = 32, mode_format = 0, mode_pitch = 256, mode_offset = 0\<rparr>)))"
proof -
  let ?g = "\<lparr>obj_size = 8192, vmapping = None, import_attach = False\<rparr>"
  let ?c = "\<lparr>mode_width = 32, mode_height = 32, mode_format = 0, mode_pitch = 256, mode_offset = 0\<rparr>"
  obtain efb where e: "evdi_fb_user_fb_create 32 (Some ?g) (Some 1) 0 False ?c = (Inr efb, 1)"
    by (simp add: evdi_fb_user_fb_create_def fb_size_def)
  then show ?thesis using fb_create_sound [OF e] by simp
qed

text \<open>
  The alignment itself can wrap: a size in the last page below 4 GiB becomes 0, and an object of any size
  is accepted for it.
\<close>

lemma fb_create_align_wraps:
  "\<exists>efb. evdi_fb_user_fb_create 32 (Some \<lparr>obj_size = 4096, vmapping = None, import_attach = False\<rparr>) (Some 1) 0 False
      \<lparr>mode_width = 1, mode_height = 2, mode_format = 0, mode_pitch = 0x7fffffff, mode_offset = 0\<rparr> = (Inr efb, 1) \<and>
    \<not> fb_inside efb"
  by (simp add: evdi_fb_user_fb_create_def fb_size_def fb_inside_def)

section \<open>Where a pixel is\<close>

text \<open>
  What the users of a mapped framebuffer rely on: its rows are inside the mapping, a row holds its
  pixels, and the sizes are those of a display (DRM's limits are far below). And what a caller's buffer
  needs: rows that hold the pixels, and offsets that are \<^verbatim>\<open>int\<close>s.
\<close>

definition fb_mapped :: "evdi_framebuffer \<Rightarrow> bytes \<Rightarrow> bool" where
  "fb_mapped efb vm \<longleftrightarrow>
    uint (fb_width efb) \<le> 32767 \<and> uint (fb_height efb) \<le> 32767 \<and>
    4 * uint (fb_width efb) \<le> uint (fb_pitch efb) \<and> 4 dvd uint (fb_pitch efb) \<and>
    uint (fb_offset efb) + uint (fb_pitch efb) * uint (fb_height efb) \<le> int (length vm) \<and>
    int (length vm) < 2147483648"

definition user_buf_ok :: "evdi_framebuffer \<Rightarrow> int \<Rightarrow> bool" where
  "user_buf_ok efb strd \<longleftrightarrow> 4 * uint (fb_width efb) \<le> strd \<and> strd * uint (fb_height efb) < 2147483648"

definition fb_pixel :: "evdi_framebuffer \<Rightarrow> bytes \<Rightarrow> int \<Rightarrow> int \<Rightarrow> bytes" where
  "fb_pixel efb vm x y =
    take 4 (drop (nat (uint (fb_offset efb) + uint (fb_pitch efb) * y + 4 * x)) vm)"

text \<open>Rows that hold their pixels do not overlap.\<close>

lemma row_offset_le:
  fixes p y h x w :: int
  assumes "y < h" "x < w" "4 * w \<le> p" "0 \<le> y" "0 \<le> w"
  shows "p * y + 4 * x + 4 \<le> p * h"
proof -
  have "p * y + p \<le> p * h"
    using mult_left_mono [of "y + 1" h p] assms by (simp add: algebra_simps)
  then show ?thesis using assms by linarith
qed

lemma pixel_offset_eq:
  fixes s x y x' y' w :: int
  assumes "4 * w \<le> s" "0 \<le> x" "x < w" "0 \<le> x'" "x' < w" "0 \<le> i" "i < 4"
  shows "s * y' + 4 * x' \<le> s * y + 4 * x + i \<and> s * y + 4 * x + i < s * y' + 4 * x' + 4 \<longleftrightarrow> x = x' \<and> y = y'"
proof (cases y y' rule: linorder_cases)
  case less
  then have "s * y + s \<le> s * y'"
    using mult_left_mono [of "y + 1" y' s] assms by (simp add: algebra_simps)
  then show ?thesis using less assms by auto
next
  case greater
  then have "s * y' + s \<le> s * y"
    using mult_left_mono [of "y' + 1" y s] assms by (simp add: algebra_simps)
  then show ?thesis using greater assms by auto
qed (use assms in auto)

lemma row_offset_eq:
  fixes s x y y' w :: int
  assumes "4 * w \<le> s" "0 \<le> x" "x < w" "0 \<le> a" "b \<le> w" "0 \<le> i" "i < 4"
  shows "s * y' + 4 * a \<le> s * y + 4 * x + i \<and> s * y + 4 * x + i < s * y' + 4 * a + 4 * (b - a) \<longleftrightarrow>
         y = y' \<and> a \<le> x \<and> x < b"
proof (cases y y' rule: linorder_cases)
  case less
  then have "s * y + s \<le> s * y'"
    using mult_left_mono [of "y + 1" y' s] assms by (simp add: algebra_simps)
  then show ?thesis using less assms by auto
next
  case greater
  then have "s * y' + s \<le> s * y"
    using mult_left_mono [of "y' + 1" y s] assms by (simp add: algebra_simps)
  then show ?thesis using greater assms by auto
qed (use assms in auto)

lemma user_offset_bounds:
  assumes "user_buf_ok efb s" "0 \<le> x" "x < uint (fb_width efb)" "0 \<le> y" "y < uint (fb_height efb)"
  shows "0 \<le> s * y + 4 * x" "s * y + 4 * x + 4 \<le> 2147483647"
  using row_offset_le [of y "uint (fb_height efb)" x "uint (fb_width efb)" s] assms
  by (auto simp: user_buf_ok_def)

lemma fb_offset_bounds:
  assumes "fb_mapped efb vm" "0 \<le> x" "x < uint (fb_width efb)" "0 \<le> y" "y < uint (fb_height efb)"
  shows "0 \<le> uint (fb_pitch efb) * y + 4 * x"
    "uint (fb_offset efb) + uint (fb_pitch efb) * y + 4 * x + 4 \<le> int (length vm)"
  using row_offset_le [of y "uint (fb_height efb)" x "uint (fb_width efb)" "uint (fb_pitch efb)"] assms
  by (auto simp: fb_mapped_def)

end
