(* ===== verification/EvdiRects.thy ===== *)
theory EvdiRects
  imports EvdiFb
begin

text \<open>
  The dirty rectangles of the \<^verbatim>\<open>evdi\<close> kernel module: \<^verbatim>\<open>evdi_painter.c\<close> (expansion, merging,
  collapsing) and \<^verbatim>\<open>evdi_framebuffer_sanitize_rect\<close> of \<^verbatim>\<open>evdi_fb.c\<close>. The C array with its counter is the
  list of its first \<^verbatim>\<open>*count\<close> elements. Coordinates are \<^verbatim>\<open>unsigned short\<close>; areas are C \<^verbatim>\<open>int\<close>s, which
  wrap in the kernel's build (it disables overflow optimisation), so they are 32-bit words compared
  as signed numbers.

  The locale \<open>rect_compactor\<close> is the contract both reductions of the list offer the painter: no pixel
  is lost, every property closed under expansion is kept, and the list does not grow.
\<close>

section \<open>Rectangles\<close>

record drm_clip_rect =
  x1 :: u16
  y1 :: u16
  x2 :: u16
  y2 :: u16

definition expand_rect :: "drm_clip_rect \<Rightarrow> drm_clip_rect \<Rightarrow> drm_clip_rect" where
  "expand_rect a b = \<lparr>x1 = min (x1 a) (x1 b), y1 = min (y1 a) (y1 b),
                      x2 = max (x2 a) (x2 b), y2 = max (y2 a) (y2 b)\<rparr>"

definition rect_area :: "drm_clip_rect \<Rightarrow> 32 word" where
  "rect_area r = (ucast (x2 r) - ucast (x1 r)) * (ucast (y2 r) - ucast (y1 r))"

text \<open>The inner loop of \<^verbatim>\<open>merge_dirty_rects\<close>, with its repass from \<open>a + 1\<close> after each merge.\<close>

function merge_inner :: "nat \<Rightarrow> nat \<Rightarrow> drm_clip_rect list \<Rightarrow> drm_clip_rect list" where
  "merge_inner a b rects =
    (if b < length rects then
       let bounding_rect = expand_rect (rects ! a) (rects ! b)
       in if sint (rect_area bounding_rect) \<le> sint (rect_area (rects ! a) + rect_area (rects ! b))
          then merge_inner a (a + 1) (butlast (rects[a := bounding_rect, b := rects ! (length rects - 1)]))
          else merge_inner a (b + 1) rects
     else rects)"
  by pat_completeness auto
termination by (relation "measures [\<lambda>(a, b, rects). length rects, \<lambda>(a, b, rects). length rects - b]") auto

declare merge_inner.simps [simp del]

lemma length_merge_inner: "length (merge_inner a b rects) \<le> length rects"
proof (induction a b rects rule: merge_inner.induct)
  case (1 a b rects)
  then show ?case by (subst merge_inner.simps) (auto simp: Let_def)
qed

function merge_outer :: "nat \<Rightarrow> drm_clip_rect list \<Rightarrow> drm_clip_rect list" where
  "merge_outer a rects =
    (if a + 1 < length rects then merge_outer (a + 1) (merge_inner a (a + 1) rects) else rects)"
  by pat_completeness auto
termination
proof (relation "measure (\<lambda>(a, rects). length rects - a)", goal_cases)
  case (2 a rects)
  then show ?case using length_merge_inner [of a "a + 1" rects] by auto
qed simp

declare merge_outer.simps [simp del]

definition merge_dirty_rects :: "drm_clip_rect list \<Rightarrow> drm_clip_rect list" where
  "merge_dirty_rects rects = merge_outer 0 rects"

text \<open>\<^verbatim>\<open>collapse_dirty_rects\<close> is called on a non-empty array.\<close>

definition collapse_dirty_rects :: "drm_clip_rect list \<Rightarrow> drm_clip_rect list" where
  "collapse_dirty_rects rects = [fold (\<lambda>r acc. expand_rect acc r) (tl rects) (hd rects)]"

definition evdi_framebuffer_sanitize_rect :: "evdi_framebuffer \<Rightarrow> drm_clip_rect \<Rightarrow> drm_clip_rect" where
  "evdi_framebuffer_sanitize_rect fb dirty_rect =
    (let rect = dirty_rect;
         rect = (if x2 rect < x1 rect then rect\<lparr>x1 := x2 rect, x2 := x1 rect\<rparr> else rect);
         rect = (if y2 rect < y1 rect then rect\<lparr>y1 := y2 rect, y2 := y1 rect\<rparr> else rect);
         rect = (if fb_width fb < ucast (x1 rect) then rect\<lparr>x1 := ucast (fb_width fb)\<rparr> else rect);
         rect = (if fb_height fb < ucast (y1 rect) then rect\<lparr>y1 := ucast (fb_height fb)\<rparr> else rect);
         rect = (if fb_width fb < ucast (x2 rect) then rect\<lparr>x2 := ucast (fb_width fb)\<rparr> else rect)
     in (if fb_height fb < ucast (y2 rect) then rect\<lparr>y2 := ucast (fb_height fb)\<rparr> else rect))"

section \<open>Pixels covered\<close>

definition in_rect :: "drm_clip_rect \<Rightarrow> u16 \<times> u16 \<Rightarrow> bool" where
  "in_rect r p \<longleftrightarrow> x1 r \<le> fst p \<and> fst p < x2 r \<and> y1 r \<le> snd p \<and> snd p < y2 r"

definition covered :: "drm_clip_rect list \<Rightarrow> u16 \<times> u16 \<Rightarrow> bool" where
  "covered rs p \<longleftrightarrow> (\<exists>r\<in>set rs. in_rect r p)"

definition expand_closed :: "(drm_clip_rect \<Rightarrow> bool) \<Rightarrow> bool" where
  "expand_closed P \<longleftrightarrow> (\<forall>a b. P a \<longrightarrow> P b \<longrightarrow> P (expand_rect a b))"

lemma in_expand: "in_rect a p \<or> in_rect b p \<Longrightarrow> in_rect (expand_rect a b) p"
  by (auto simp: in_rect_def expand_rect_def min_le_iff_disj less_max_iff_disj)

definition rect_ok :: "evdi_framebuffer \<Rightarrow> drm_clip_rect \<Rightarrow> bool" where
  "rect_ok fb r \<longleftrightarrow> x1 r \<le> x2 r \<and> y1 r \<le> y2 r \<and>
     unat (x2 r) \<le> unat (fb_width fb) \<and> unat (y2 r) \<le> unat (fb_height fb)"

text \<open>A coordinate clipped to a 32-bit bound.\<close>

lemma clip16:
  "unat (if w < ucast x then ucast w else x) = min (unat x) (unat w)" for x :: u16 and w :: u32
proof (cases "unat w < unat x")
  case True
  then have w: "w < ucast x" by (simp add: word_less_nat_alt unat_ucast_up)
  have "unat w < 65536" using True unat_lt_2_16 [of x] by simp
  then have "unat (ucast w :: u16) = unat w"
    by (simp add: unsigned_ucast_eq take_bit_nat_eq_self_iff)
  with w True show ?thesis by simp
next
  case False
  then have "\<not> w < ucast x" by (simp add: word_less_nat_alt unat_ucast_up)
  then show ?thesis using False by simp
qed

lemma sanitize_fields:
  "unat (x1 (evdi_framebuffer_sanitize_rect fb r)) = min (min (unat (x1 r)) (unat (x2 r))) (unat (fb_width fb))"
  "unat (x2 (evdi_framebuffer_sanitize_rect fb r)) = min (max (unat (x1 r)) (unat (x2 r))) (unat (fb_width fb))"
  "unat (y1 (evdi_framebuffer_sanitize_rect fb r)) = min (min (unat (y1 r)) (unat (y2 r))) (unat (fb_height fb))"
  "unat (y2 (evdi_framebuffer_sanitize_rect fb r)) = min (max (unat (y1 r)) (unat (y2 r))) (unat (fb_height fb))"
  using clip16 [of "fb_width fb" "x1 r"] clip16 [of "fb_width fb" "x2 r"]
    clip16 [of "fb_height fb" "y1 r"] clip16 [of "fb_height fb" "y2 r"]
  by (simp_all add: evdi_framebuffer_sanitize_rect_def Let_def word_less_nat_alt [of "_ :: u16"] min_def max_def
      split: if_splits)

lemma sanitize_ok: "rect_ok fb (evdi_framebuffer_sanitize_rect fb r)"
  by (auto simp: rect_ok_def word_le_nat_alt sanitize_fields min_def max_def)

lemma sanitize_in:
  assumes "x1 r \<le> x2 r" "y1 r \<le> y2 r"
  shows "in_rect (evdi_framebuffer_sanitize_rect fb r) p \<longleftrightarrow>
    in_rect r p \<and> unat (fst p) < unat (fb_width fb) \<and> unat (snd p) < unat (fb_height fb)"
  using assms by (auto simp: in_rect_def word_le_nat_alt word_less_nat_alt sanitize_fields)

lemma rect_ok_closed: "expand_closed (rect_ok fb)"
  by (auto simp: expand_closed_def expand_rect_def rect_ok_def min_def max_def)

definition rect_wf :: "drm_clip_rect \<Rightarrow> bool" where
  "rect_wf r \<longleftrightarrow> x1 r \<le> x2 r \<and> y1 r \<le> y2 r"

lemma rect_ok_wf: "rect_ok fb r \<Longrightarrow> rect_wf r"
  by (simp add: rect_ok_def rect_wf_def)

lemma rect_wf_closed: "expand_closed rect_wf"
  by (auto simp: expand_closed_def expand_rect_def rect_wf_def min_def max_def)

lemma covered_Cons [simp]: "covered (r # rs) p \<longleftrightarrow> in_rect r p \<or> covered rs p"
  by (simp add: covered_def)

lemma covered_append [simp]: "covered (rs @ qs) p \<longleftrightarrow> covered rs p \<or> covered qs p"
  by (auto simp: covered_def)

lemma covered_iff_nth: "covered rs p \<longleftrightarrow> (\<exists>i<length rs. in_rect (rs ! i) p)"
  unfolding covered_def by (metis in_set_conv_nth)

locale rect_compactor =
  fixes f :: "drm_clip_rect list \<Rightarrow> drm_clip_rect list"
  assumes covers_law: "rs \<noteq> [] \<Longrightarrow> covered rs p \<Longrightarrow> covered (f rs) p"
    and closed_law: "rs \<noteq> [] \<Longrightarrow> expand_closed P \<Longrightarrow> \<forall>r\<in>set rs. P r \<Longrightarrow> \<forall>r\<in>set (f rs). P r"
    and length_law: "rs \<noteq> [] \<Longrightarrow> length (f rs) \<le> length rs"
    and nonempty_law: "rs \<noteq> [] \<Longrightarrow> f rs \<noteq> []"
begin

text \<open>What a caller gets that reduces only when it must: the same contract.\<close>

lemma guarded_covers: "(c \<longrightarrow> rs \<noteq> []) \<Longrightarrow> covered rs p \<Longrightarrow> covered (if c then f rs else rs) p"
  using covers_law by auto

lemma guarded_closed:
  "(c \<longrightarrow> rs \<noteq> []) \<Longrightarrow> expand_closed P \<Longrightarrow> \<forall>r\<in>set rs. P r \<Longrightarrow> \<forall>r\<in>set (if c then f rs else rs). P r"
  using closed_law by (metis (full_types))

lemma guarded_length: "(c \<longrightarrow> rs \<noteq> []) \<Longrightarrow> length (if c then f rs else rs) \<le> length rs"
  using length_law by auto

lemma guarded_nonempty: "(c \<longrightarrow> rs \<noteq> []) \<Longrightarrow> (if c then f rs else rs) = [] \<longleftrightarrow> rs = []"
  using nonempty_law by auto

end

lemma merge_step_covers:
  assumes "a < b" "b < length rs" "covered rs p"
  shows "covered (butlast (rs[a := expand_rect (rs ! a) (rs ! b), b := rs ! (length rs - 1)])) p"
proof -
  let ?n = "length rs - 1"
  let ?rs = "butlast (rs[a := expand_rect (rs ! a) (rs ! b), b := rs ! ?n])"
  have len: "length ?rs = ?n" by simp
  have nth: "?rs ! i = (if i = b then rs ! ?n else if i = a then expand_rect (rs ! a) (rs ! b) else rs ! i)"
    if "i < ?n" for i
    using that assms by (simp add: nth_butlast nth_list_update)
  from assms(3) obtain i where i: "i < length rs" "in_rect (rs ! i) p" by (auto simp: covered_iff_nth)
  show ?thesis
  proof (cases "i = a \<or> i = b")
    case True
    then have "in_rect (?rs ! a) p" "a < ?n" using i nth [of a] assms by (auto intro: in_expand)
    then show ?thesis unfolding covered_iff_nth len by blast
  next
    case False
    show ?thesis
    proof (cases "i = ?n")
      case True
      then have "b < ?n" using False assms by linarith
      then have "in_rect (?rs ! b) p" using nth [of b] True i by simp
      with \<open>b < ?n\<close> show ?thesis unfolding covered_iff_nth len by blast
    next
      case ne: False
      then have "i < ?n" using i by linarith
      then have "in_rect (?rs ! i) p" using nth [of i] False i by simp
      with \<open>i < ?n\<close> show ?thesis unfolding covered_iff_nth len by blast
    qed
  qed
qed

lemma merge_inner_covers: "a < b \<Longrightarrow> covered rs p \<Longrightarrow> covered (merge_inner a b rs) p"
proof (induction a b rs rule: merge_inner.induct)
  case (1 a b rs)
  then show ?case
    using merge_step_covers [of a b rs p] by (subst merge_inner.simps) (auto simp: Let_def)
qed

lemma merge_outer_covers: "covered rs p \<Longrightarrow> covered (merge_outer a rs) p"
proof (induction a rs rule: merge_outer.induct)
  case (1 a rs)
  then show ?case
    using merge_inner_covers [of a "a + 1" rs p] by (subst merge_outer.simps) auto
qed

lemma merge_inner_closed:
  "expand_closed P \<Longrightarrow> a < b \<Longrightarrow> \<forall>r\<in>set rs. P r \<Longrightarrow> \<forall>r\<in>set (merge_inner a b rs). P r"
proof (induction a b rs rule: merge_inner.induct)
  case (1 a b rs)
  let ?rs = "butlast (rs[a := expand_rect (rs ! a) (rs ! b), b := rs ! (length rs - 1)])"
  have "\<forall>r\<in>set ?rs. P r" if b: "b < length rs"
  proof
    fix r assume "r \<in> set ?rs"
    then have "r \<in> insert (rs ! (length rs - 1)) (insert (expand_rect (rs ! a) (rs ! b)) (set rs))"
      using set_update_subset_insert [of "rs[a := expand_rect (rs ! a) (rs ! b)]" b "rs ! (length rs - 1)"]
        set_update_subset_insert [of rs a "expand_rect (rs ! a) (rs ! b)"]
      by (auto dest: in_set_butlastD)
    moreover have "P (rs ! a)" "P (rs ! b)" "P (rs ! (length rs - 1))"
      using 1(5) b 1(4) by auto
    ultimately show "P r" using 1(3) 1(5) by (auto simp: expand_closed_def)
  qed
  then show ?case using 1 by (subst merge_inner.simps) (auto simp: Let_def)
qed

lemma merge_outer_closed:
  "expand_closed P \<Longrightarrow> \<forall>r\<in>set rs. P r \<Longrightarrow> \<forall>r\<in>set (merge_outer a rs). P r"
proof (induction a rs rule: merge_outer.induct)
  case (1 a rs)
  then show ?case
    using merge_inner_closed [of P a "a + 1" rs] by (subst merge_outer.simps) auto
qed

lemma length_merge_outer: "length (merge_outer a rs) \<le> length rs"
proof (induction a rs rule: merge_outer.induct)
  case (1 a rs)
  then show ?case
    using length_merge_inner [of a "a + 1" rs] by (subst merge_outer.simps) auto
qed

lemma merge_inner_nonempty: "a < b \<Longrightarrow> a < length rs \<Longrightarrow> a < length (merge_inner a b rs)"
proof (induction a b rs rule: merge_inner.induct)
  case (1 a b rs)
  then show ?case by (subst merge_inner.simps) (auto simp: Let_def)
qed

lemma merge_outer_nonempty: "rs \<noteq> [] \<Longrightarrow> merge_outer a rs \<noteq> []"
proof (induction a rs rule: merge_outer.induct)
  case (1 a rs)
  have "merge_inner a (a + 1) rs \<noteq> []" if "a + 1 < length rs"
    using merge_inner_nonempty [of a "a + 1" rs] that by force
  with 1 show ?case by (subst merge_outer.simps) auto
qed

lemma fold_expand_covers:
  "in_rect acc p \<or> covered rs p \<Longrightarrow> in_rect (fold (\<lambda>r acc. expand_rect acc r) rs acc) p"
  by (induction rs arbitrary: acc) (auto intro: in_expand simp: covered_def)

lemma fold_expand_closed:
  "expand_closed P \<Longrightarrow> P acc \<Longrightarrow> \<forall>r\<in>set rs. P r \<Longrightarrow> P (fold (\<lambda>r acc. expand_rect acc r) rs acc)"
  by (induction rs arbitrary: acc) (auto simp: expand_closed_def)

interpretation merge: rect_compactor merge_dirty_rects
proof unfold_locales
  fix rs P assume "expand_closed P" "\<forall>r\<in>set rs. P r"
  then show "\<forall>r\<in>set (merge_dirty_rects rs). P r"
    unfolding merge_dirty_rects_def by (rule merge_outer_closed)
qed (simp_all add: merge_dirty_rects_def merge_outer_covers length_merge_outer merge_outer_nonempty)

interpretation collapse: rect_compactor collapse_dirty_rects
proof unfold_locales
  fix rs p assume "rs \<noteq> []" "covered rs p"
  then have "in_rect (hd rs) p \<or> covered (tl rs) p" by (cases rs) auto
  then show "covered (collapse_dirty_rects rs) p"
    by (simp add: collapse_dirty_rects_def covered_def [of "[_]"] fold_expand_covers)
next
  fix rs P assume "rs \<noteq> []" "expand_closed P" "\<forall>r\<in>set rs. P r"
  then show "\<forall>r\<in>set (collapse_dirty_rects rs). P r"
    by (cases rs) (simp_all add: collapse_dirty_rects_def fold_expand_closed)
qed (simp_all add: collapse_dirty_rects_def Suc_leI)

lemma merge_Nil [simp]: "merge_dirty_rects [] = []"
  using length_merge_outer [of 0 "[]"] by (simp add: merge_dirty_rects_def)

section \<open>Merging pays\<close>

text \<open>The pixels a list of rectangles asks to be copied, counted with multiplicity.\<close>

definition pixels :: "drm_clip_rect \<Rightarrow> int" where
  "pixels r = (uint (x2 r) - uint (x1 r)) * (uint (y2 r) - uint (y1 r))"

definition total_pixels :: "drm_clip_rect list \<Rightarrow> int" where
  "total_pixels rs = (\<Sum>r\<leftarrow>rs. pixels r)"

text \<open>In a frame of less than \<open>2 ^ 30\<close> pixels the C areas do not wrap, nor does the sum of two.\<close>

lemma pixels_bounds:
  assumes "rect_ok fb r" "uint (fb_width fb) * uint (fb_height fb) < 1073741824"
  shows "0 \<le> pixels r" "pixels r < 1073741824"
proof -
  have b: "uint (x1 r) \<le> uint (x2 r)" "uint (y1 r) \<le> uint (y2 r)" "uint (x2 r) \<le> uint (fb_width fb)"
    "uint (y2 r) \<le> uint (fb_height fb)" "0 \<le> uint (x1 r)" "0 \<le> uint (y1 r)"
    using assms(1) by (auto simp: rect_ok_def word_le_def unat_eq_nat_uint nat_le_eq_zle simp del: nat_uint_eq)
  show "0 \<le> pixels r" using b by (simp add: pixels_def)
  have "pixels r \<le> uint (fb_width fb) * uint (fb_height fb)"
  proof -
    have d: "uint (x2 r) - uint (x1 r) \<le> uint (fb_width fb)" "uint (y2 r) - uint (y1 r) \<le> uint (fb_height fb)"
      "0 \<le> uint (fb_width fb)" "0 \<le> uint (y2 r) - uint (y1 r)"
      using b by linarith+
    show ?thesis unfolding pixels_def by (rule mult_mono [OF d])
  qed
  then show "pixels r < 1073741824" using assms(2) by linarith
qed

lemma sint_area:
  assumes "rect_ok fb a" "rect_ok fb b" "uint (fb_width fb) * uint (fb_height fb) < 1073741824"
  shows "sint (rect_area a) = pixels a" "sint (rect_area a + rect_area b) = pixels a + pixels b"
proof -
  have w: "rect_area r = word_of_int (pixels r)" for r
    by (simp add: rect_area_def pixels_def flip: word_of_int_uint)
  have s: "0 \<le> k \<Longrightarrow> k < 2147483648 \<Longrightarrow> sint (word_of_int k :: 32 word) = k" for k
    by (simp add: signed_of_int signed_take_bit_int_eq_self)
  note ba = pixels_bounds [OF assms(1,3)] and bb = pixels_bounds [OF assms(2,3)]
  show "sint (rect_area a) = pixels a" unfolding w using ba by (intro s) auto
  have "rect_area a + rect_area b = word_of_int (pixels a + pixels b)" by (simp add: w)
  then show "sint (rect_area a + rect_area b) = pixels a + pixels b"
    using ba bb by (simp only:) (intro s; linarith)
qed

lemma total_pixels_step:
  assumes "a < b" "b < length rs" "pixels m \<le> pixels (rs ! a) + pixels (rs ! b)"
  shows "total_pixels (butlast (rs[a := m, b := rs ! (length rs - 1)])) \<le> total_pixels rs"
proof -
  let ?l = "length rs - 1"
  let ?qs = "rs[a := m, b := rs ! ?l]"
  have upd: "total_pixels (xs[i := x]) = total_pixels xs - pixels (xs ! i) + pixels x" if "i < length xs" for xs i x
    using that by (induction xs arbitrary: i) (auto simp: total_pixels_def split: nat.splits)
  have split: "total_pixels ?qs = total_pixels (butlast ?qs) + pixels (last ?qs)"
  proof -
    have "?qs \<noteq> []" using assms by auto
    then have "?qs = butlast ?qs @ [last ?qs]" by simp
    then have "total_pixels ?qs = total_pixels (butlast ?qs @ [last ?qs])" by simp
    then show ?thesis by (simp add: total_pixels_def)
  qed
  have last: "last ?qs = rs ! ?l"
    using assms by (subst last_conv_nth) (auto simp: nth_list_update)
  have "total_pixels ?qs = total_pixels rs - pixels (rs ! a) + pixels m - pixels (rs ! b) + pixels (rs ! ?l)"
    using assms by (simp add: upd)
  then show ?thesis using split [unfolded last] assms(3) by linarith
qed

lemma merge_inner_total:
  assumes "uint (fb_width fb) * uint (fb_height fb) < 1073741824" "a < b" "\<forall>r\<in>set rs. rect_ok fb r"
  shows "total_pixels (merge_inner a b rs) \<le> total_pixels rs"
  using assms
proof (induction a b rs rule: merge_inner.induct)
  case (1 a b rs)
  let ?m = "expand_rect (rs ! a) (rs ! b)"
  let ?rs = "butlast (rs[a := ?m, b := rs ! (length rs - 1)])"
  show ?case
  proof (cases "b < length rs")
    case False
    then show ?thesis by (subst merge_inner.simps) simp
  next
    case b: True
    have ok: "rect_ok fb (rs ! a)" "rect_ok fb (rs ! b)" "rect_ok fb (rs ! (length rs - 1))"
      using 1(5) b 1(4) by auto
    then have okm: "rect_ok fb ?m" using rect_ok_closed by (auto simp: expand_closed_def)
    note ar = sint_area(1) [OF okm okm 1(3)] sint_area(2) [OF ok(1,2) 1(3)]
    have "\<forall>r\<in>set ?rs. rect_ok fb r"
    proof
      fix r assume "r \<in> set ?rs"
      then have "r \<in> insert (rs ! (length rs - 1)) (insert ?m (set rs))"
        using set_update_subset_insert [of "rs[a := ?m]" b "rs ! (length rs - 1)"] set_update_subset_insert [of rs a ?m]
        by (auto dest: in_set_butlastD)
      then show "rect_ok fb r" using ok okm 1(5) by auto
    qed
    moreover have "pixels ?m \<le> pixels (rs ! a) + pixels (rs ! b) \<Longrightarrow> total_pixels ?rs \<le> total_pixels rs"
      by (rule total_pixels_step [OF 1(4) b])
    ultimately show ?thesis
      using 1 b ar by (subst merge_inner.simps) (auto simp: Let_def)
  qed
qed

text \<open>
  Merging the dirty rectangles never makes the daemon copy more: for rectangles inside a frame of
  fewer than \<open>2 ^ 30\<close> pixels, the merged rectangles are inside the frame, cover every pixel that was
  covered, are no more in number, and their areas sum to at most the sum of the areas before.
\<close>

theorem merge_pays:
  assumes "uint (fb_width fb) * uint (fb_height fb) < 1073741824" "\<forall>r\<in>set rs. rect_ok fb r"
  shows "total_pixels (merge_dirty_rects rs) \<le> total_pixels rs \<and>
    length (merge_dirty_rects rs) \<le> length rs \<and> (\<forall>r\<in>set (merge_dirty_rects rs). rect_ok fb r) \<and>
    (\<forall>p. covered rs p \<longrightarrow> covered (merge_dirty_rects rs) p)"
proof -
  have outer: "total_pixels (merge_outer a rs) \<le> total_pixels rs" if "\<forall>r\<in>set rs. rect_ok fb r" for a rs
    using that
  proof (induction a rs rule: merge_outer.induct)
    case (1 a rs)
    have "total_pixels (merge_inner a (a + 1) rs) \<le> total_pixels rs"
      by (rule merge_inner_total [OF assms(1) _ 1(2)]) simp
    moreover have "\<forall>r\<in>set (merge_inner a (a + 1) rs). rect_ok fb r"
      by (rule merge_inner_closed [OF rect_ok_closed _ 1(2)]) simp
    ultimately show ?case using 1(1) by (subst merge_outer.simps) auto
  qed
  have "total_pixels (merge_dirty_rects rs) \<le> total_pixels rs"
    unfolding merge_dirty_rects_def by (rule outer [OF assms(2)])
  then show ?thesis
    using merge.length_law [of rs] merge.closed_law [OF _ rect_ok_closed assms(2)] merge.covers_law [of rs] assms(2)
    by (cases "rs = []") simp_all
qed

theorem merge_pays_witness:
  "total_pixels (merge_dirty_rects [\<lparr>x1 = 0, y1 = 0, x2 = 2, y2 = 2\<rparr>, \<lparr>x1 = 1, y1 = 0, x2 = 3, y2 = 2\<rparr>]) \<le> 8"
  using merge_pays [of "\<lparr>fb_id = 1, fb_width = 3, fb_height = 2, fb_pitch = 12, fb_offset = 0, fb_cpp = 4,
     fb_format = 0, fb_obj = \<lparr>obj_size = 24, vmapping = None, import_attach = False\<rparr>, fb_active = True, is_from_xe = False\<rparr>"
     "[\<lparr>x1 = 0, y1 = 0, x2 = 2, y2 = 2\<rparr>, \<lparr>x1 = 1, y1 = 0, x2 = 3, y2 = 2\<rparr>]"]
  by (simp add: rect_ok_def total_pixels_def pixels_def)

end
