(* ===== verification/EvdiCursor.thy ===== *)
theory EvdiCursor
  imports EvdiFb
begin

text \<open>
  The software cursor of the \<^verbatim>\<open>evdi\<close> kernel module (\<^verbatim>\<open>evdi_cursor.c\<close>): its state, its reference on the
  image object, and the blending of the image into the caller's copy of the framebuffer. A C
  pointer to the image object is its identity; the number of references each object has is the map
  \<open>refs\<close>, which the operations take and return. The mutex protects each operation as a whole, so an
  operation is one function.
\<close>

section \<open>State\<close>

record cursor_gem =
  gem_id :: nat
  gem :: evdi_gem_object

record evdi_cursor =
  enabled :: bool
  cur_x :: "32 word"
  cur_y :: "32 word"
  cur_width :: u32
  cur_height :: u32
  hot_x :: "32 word"
  hot_y :: "32 word"
  pixel_format :: u32
  stride :: u32
  cur_obj :: "cursor_gem option"

type_synonym refs = "nat \<Rightarrow> int"

definition drm_gem_object_get :: "nat \<Rightarrow> refs \<Rightarrow> refs" where
  "drm_gem_object_get i refs = refs(i := refs i + 1)"

definition drm_gem_object_put :: "nat \<Rightarrow> refs \<Rightarrow> refs" where
  "drm_gem_object_put i refs = refs(i := refs i - 1)"

text \<open>\<^verbatim>\<open>kzalloc\<close> gives a cursor of zeros.\<close>

definition evdi_cursor_zero :: evdi_cursor where
  "evdi_cursor_zero = \<lparr>enabled = False, cur_x = 0, cur_y = 0, cur_width = 0, cur_height = 0, hot_x = 0,
     hot_y = 0, pixel_format = 0, stride = 0, cur_obj = None\<rparr>"

definition evdi_cursor_init :: "bool \<Rightarrow> evdi_cursor option \<Rightarrow> int \<times> evdi_cursor option" where
  "evdi_cursor_init alloc cursor =
    (case cursor of Some c \<Rightarrow> (- EINVAL, Some c)
     | None \<Rightarrow> if alloc then (0, Some evdi_cursor_zero) else (- ENOMEM, None))"

definition evdi_cursor_set_gem :: "cursor_gem option \<Rightarrow> evdi_cursor \<times> refs \<Rightarrow> evdi_cursor \<times> refs" where
  "evdi_cursor_set_gem ob = (\<lambda>(cursor, refs).
    (let refs = (case ob of Some g \<Rightarrow> drm_gem_object_get (gem_id g) refs | None \<Rightarrow> refs);
         refs = (case cur_obj cursor of Some g \<Rightarrow> drm_gem_object_put (gem_id g) refs | None \<Rightarrow> refs)
     in (cursor\<lparr>cur_obj := ob\<rparr>, refs)))"

definition evdi_cursor_free :: "evdi_cursor option \<times> refs \<Rightarrow> evdi_cursor option \<times> refs" where
  "evdi_cursor_free = (\<lambda>(cursor, refs).
    (case cursor of None \<Rightarrow> (None, refs)
     | Some c \<Rightarrow> (None, snd (evdi_cursor_set_gem None (c, refs)))))"

definition evdi_cursor_enable :: "bool \<Rightarrow> evdi_cursor \<times> refs \<Rightarrow> evdi_cursor \<times> refs" where
  "evdi_cursor_enable enable = (\<lambda>(cursor, refs).
    (let cursor = cursor\<lparr>enabled := enable\<rparr>
     in if \<not> enable then evdi_cursor_set_gem None (cursor, refs) else (cursor, refs)))"

text \<open>
  \<open>vmap\<close> is the outcome of \<^verbatim>\<open>evdi_gem_vmap\<close>: its code, and the mapping it leaves behind.
\<close>

definition evdi_cursor_set ::
    "int \<times> bytes option \<Rightarrow> cursor_gem option \<Rightarrow> u32 \<Rightarrow> u32 \<Rightarrow> 32 word \<Rightarrow> 32 word \<Rightarrow> u32 \<Rightarrow> u32 \<Rightarrow>
     evdi_cursor \<times> refs \<Rightarrow> evdi_cursor \<times> refs" where
  "evdi_cursor_set vmap ob width height hx hy format strd = (\<lambda>(cursor, refs).
    (let (err, ob) = (case ob of
             Some g \<Rightarrow> if vmapping (gem g) = None then (fst vmap, Some (g\<lparr>gem := (gem g)\<lparr>vmapping := snd vmap\<rparr>\<rparr>))
                       else (0, Some g)
           | None \<Rightarrow> (0, None));
         ob = (if err \<noteq> 0 then None else ob)
     in evdi_cursor_set_gem ob
          (cursor\<lparr>enabled := (ob \<noteq> None), cur_width := width, cur_height := height, hot_x := hx, hot_y := hy,
                  pixel_format := format, stride := strd\<rparr>, refs)))"

definition evdi_cursor_move :: "32 word \<Rightarrow> 32 word \<Rightarrow> evdi_cursor \<Rightarrow> evdi_cursor" where
  "evdi_cursor_move x y cursor = cursor\<lparr>cur_x := x, cur_y := y\<rparr>"

section \<open>Blending\<close>

definition blend_component :: "u32 \<Rightarrow> u32 \<Rightarrow> u32 \<Rightarrow> u32" where
  "blend_component pixel blend alpha =
    (let pre_blend = pixel * (255 - alpha) + blend * alpha
     in drop_bit 16 (pre_blend + push_bit 8 (pre_blend + 1)))"

definition blend_alpha :: "u32 \<Rightarrow> u32 \<Rightarrow> u32" where
  "blend_alpha pixel_val32 blend_val32 =
    (let alpha = drop_bit 24 blend_val32
     in blend_component (pixel_val32 AND 0xff) (blend_val32 AND 0xff) alpha OR
        push_bit 8 (blend_component (drop_bit 8 (pixel_val32 AND 0xff00)) (drop_bit 8 (blend_val32 AND 0xff00)) alpha) OR
        push_bit 16 (blend_component (drop_bit 16 (pixel_val32 AND 0xff0000)) (drop_bit 16 (blend_val32 AND 0xff0000)) alpha))"

text \<open>The four bytes of an \<^verbatim>\<open>int\<close> in memory.\<close>

definition le32 :: "u32 \<Rightarrow> bytes" where
  "le32 v = write_le32 (replicate 4 0) 0 v"

definition evdi_cursor_compose_pixel ::
    "uaccess \<Rightarrow> u32 \<Rightarrow> u32 \<Rightarrow> int \<Rightarrow> user_mem \<Rightarrow> nat \<times> user_mem" where
  "evdi_cursor_compose_pixel nc cursor_value fb_value cmd_offset mem =
    copy_to_user nc cmd_offset (le32 (blend_alpha fb_value cursor_value)) mem"

text \<open>
  The body of the two loops at one position, with the coordinates \<open>cx = h_cursor_w + x\<close> and
  \<open>cy = h_cursor_h + y\<close> in the image, which run from 0; the mouse position is computed in \<^verbatim>\<open>int\<close>s. The
  index into the image is an unsigned sum stored in an \<^verbatim>\<open>int\<close>, the one into the framebuffer is unsigned;
  both count 4-byte words.
\<close>

definition compose_at ::
    "uaccess \<Rightarrow> evdi_cursor \<Rightarrow> bytes \<Rightarrow> evdi_framebuffer \<Rightarrow> bytes \<Rightarrow> int \<Rightarrow> nat \<Rightarrow> nat \<Rightarrow> user_mem \<Rightarrow> c_error + (int \<times> user_mem)" where
  "compose_at nc cursor img efb vm buf_byte_stride cx cy mem =
    (let mouse_pix_x = c_int (sint (cur_x cursor) + int cx);
         mouse_pix_y = c_int (sint (cur_y cursor) + int cy)
     in if \<not> (0 \<le> mouse_pix_x \<and> 0 \<le> mouse_pix_y \<and>
              mouse_pix_x < sint (fb_width efb) \<and> mouse_pix_y < sint (fb_height efb))
        then Inr (0, mem)
        else ebind (vm_read img (4 * sint (word_of_nat cx + word_of_nat cy * cur_width cursor :: u32)) 4) (\<lambda>cb.
             ebind (vm_read vm (uint (fb_offset efb) +
                     4 * uint (drop_bit 2 (fb_pitch efb) * word_of_int mouse_pix_y + word_of_int mouse_pix_x)) 4) (\<lambda>fbb.
             let cmd_offset = sint (word_of_int (buf_byte_stride * mouse_pix_y) + word_of_int mouse_pix_x * 4 :: u32);
                 (k, mem) = evdi_cursor_compose_pixel nc (read_le32 cb 0) (read_le32 fbb 0) cmd_offset mem
             in Inr (if k \<noteq> 0 then - EFAULT else 0, mem))))"

text \<open>The loops: the positions in row order; the first failure ends them.\<close>

definition cursor_positions :: "evdi_cursor \<Rightarrow> (nat \<times> nat) list" where
  "cursor_positions cursor =
    (let h_cursor_w = unat (drop_bit 1 (cur_width cursor)); h_cursor_h = unat (drop_bit 1 (cur_height cursor))
     in [(cx, cy). cy \<leftarrow> [0..<2 * h_cursor_h], cx \<leftarrow> [0..<2 * h_cursor_w]])"

fun compose_loop ::
    "uaccess \<Rightarrow> evdi_cursor \<Rightarrow> bytes \<Rightarrow> evdi_framebuffer \<Rightarrow> bytes \<Rightarrow> int \<Rightarrow> (nat \<times> nat) list \<Rightarrow> user_mem \<Rightarrow> c_error + (int \<times> user_mem)" where
  "compose_loop nc cursor img efb vm strd [] mem = Inr (0, mem)"
| "compose_loop nc cursor img efb vm strd ((cx, cy) # ps) mem =
    ebind (compose_at nc cursor img efb vm strd cx cy mem) (\<lambda>(err, mem).
      if err \<noteq> 0 then Inr (err, mem) else compose_loop nc cursor img efb vm strd ps mem)"

text \<open>
  \<open>bpp\<close> is the answer of \<^verbatim>\<open>drm_format_info\<close> for the cursor's format, in bits per pixel (0 when the format
  is unknown). The product of the size check is 32 bits wide, as in the code.
\<close>

definition evdi_cursor_compose_and_copy ::
    "uaccess \<Rightarrow> nat \<Rightarrow> evdi_cursor \<Rightarrow> evdi_framebuffer \<Rightarrow> bytes \<Rightarrow> int \<Rightarrow> user_mem \<Rightarrow> c_error + (int \<times> user_mem)" where
  "evdi_cursor_compose_and_copy nc bpp cursor efb vm buf_byte_stride mem =
    (if \<not> enabled cursor then Inr (0, mem)
     else case cur_obj cursor of
       None \<Rightarrow> Inr (- EINVAL, mem)
     | Some g \<Rightarrow>
        (case vmapping (gem g) of
           None \<Rightarrow> Inr (- EINVAL, mem)
         | Some img \<Rightarrow>
            if (bpp + 7) div 8 \<noteq> 4 then Inr (- EINVAL, mem)
            else if obj_size (gem g) < unat (cur_width cursor * cur_height cursor * 4) then Inr (- EINVAL, mem)
            else compose_loop nc cursor img efb vm buf_byte_stride (cursor_positions cursor) mem))"

section \<open>The blend is the rounded-down weighted mean\<close>

lemma div_255_by_shift:
  assumes "n \<le> 65279" shows "(257 * n + 256) div 65536 = n div (255 :: nat)"
proof -
  define q r where "q = n div 255" and "r = n mod 255"
  have n: "n = 255 * q + r" and r: "r < 255" by (simp_all add: q_def r_def)
  have q: "q \<le> 256" using assms by (simp add: q_def)
  have "257 * n + 256 = 65536 * q + (257 * r + 256 - q)" using q by (simp add: n)
  moreover have "257 * r + 256 - q < 65536" using r by simp
  ultimately have "(257 * n + 256) div 65536 = q" by simp
  then show ?thesis by (simp add: q_def)
qed

lemma blend_component_exact:
  assumes "unat p \<le> 255" "unat b \<le> 255" "unat a \<le> 255"
  shows "unat (blend_component p b a) = (unat p * (255 - unat a) + unat b * unat a) div 255"
proof -
  let ?pre = "p * (255 - a) + b * a"
  let ?n = "unat p * (255 - unat a) + unat b * unat a"
  have le: "?n \<le> 65025"
  proof -
    have "?n \<le> 255 * (255 - unat a) + 255 * unat a" using assms by (intro add_mono mult_le_mono1) auto
    also have "\<dots> = 65025" using assms by simp
    finally show ?thesis .
  qed
  have s: "unat (255 - a) = 255 - unat a"
    using assms by (subst unat_sub) (simp_all add: word_le_nat_alt)
  have m1: "unat (p * (255 - a)) = unat p * (255 - unat a)"
    using le by (subst unat_mult_no_wrap) (simp_all add: s)
  have m2: "unat (b * a) = unat b * unat a"
    using le by (subst unat_mult_no_wrap) simp_all
  have pre: "unat ?pre = ?n"
    using le by (subst unat_add_no_wrap) (simp_all add: m1 m2)
  have p1: "unat (?pre + 1) = ?n + 1"
    using le by (subst unat_add_no_wrap) (simp_all add: pre)
  have sh: "push_bit 8 (?pre + 1) = (?pre + 1) * 256"
    by (simp add: push_bit_eq_mult)
  have p2: "unat (push_bit 8 (?pre + 1)) = (?n + 1) * 256"
    unfolding sh using le by (subst unat_mult_no_wrap) (simp_all add: p1)
  have p3: "unat (?pre + push_bit 8 (?pre + 1)) = 257 * ?n + 256"
  proof -
    have "m + (m + 1) * 256 < 2 ^ LENGTH(32)" "m + (m + 1) * 256 = 257 * m + 256"
      if "m \<le> 65025" for m :: nat using that by simp_all
    then show ?thesis using le by (subst unat_add_no_wrap) (simp_all only: pre p2)
  qed
  have "unat (blend_component p b a) = unat (?pre + push_bit 8 (?pre + 1)) div 65536"
    unfolding blend_component_def Let_def by (simp add: drop_bit_eq_div unat_div)
  also have "\<dots> = ?n div 255"
    unfolding p3 using le by (intro div_255_by_shift) simp
  finally show ?thesis .
qed

lemma byte_masks:
  "(0xff :: u32) = mask 8" "(0xff00 :: u32) = push_bit 8 (mask 8)" "(0xff0000 :: u32) = push_bit 16 (mask 8)"
  by (simp_all add: mask_eq_exp_minus_1)

lemma bit_u8_ge: "8 \<le> n \<Longrightarrow> \<not> bit (b :: u8) n"
  using bit_imp_le_length [of b n] by auto

lemma bit_u8_lt: "n < 8 \<and> bit (b :: u8) n \<longleftrightarrow> bit b n"
  using bit_u8_ge [of n b] by (cases "n < 8") auto

lemma bit_read_le32:
  "bit (read_le32 b 0) n \<longleftrightarrow>
    (if n < 8 then bit (b ! 0) n else if n < 16 then bit (b ! 1) (n - 8)
     else if n < 24 then bit (b ! 2) (n - 16) else n < 32 \<and> bit (b ! 3) (n - 24))"
  by (auto simp: read_le32_def bit_or_iff bit_push_bit_iff bit_ucast_iff bit_u8_ge numeral_2_eq_2)

lemma read_le32_components:
  "read_le32 b 0 AND 0xff = ucast (b ! 0)" "drop_bit 8 (read_le32 b 0 AND 0xff00) = ucast (b ! 1)"
  "drop_bit 16 (read_le32 b 0 AND 0xff0000) = ucast (b ! 2)" "drop_bit 24 (read_le32 b 0) = ucast (b ! 3)"
  unfolding byte_masks
  by (rule bit_word_eqI;
      simp add: bit_read_le32 bit_and_iff bit_mask_iff bit_push_bit_iff bit_ucast_iff bit_drop_bit_eq bit_u8_ge bit_u8_lt)+

lemma le32_of_bytes:
  "le32 (ucast b0 OR push_bit 8 (ucast b1) OR push_bit 16 (ucast b2)) = [b0, b1, b2, 0]"
  for b0 b1 b2 :: u8
proof -
  let ?v = "ucast b0 OR push_bit 8 (ucast b1) OR push_bit 16 (ucast b2) :: u32"
  have "(ucast (?v AND 0xff) :: u8) = b0" "(ucast (drop_bit 8 ?v AND 0xff) :: u8) = b1"
    "(ucast (drop_bit 16 ?v AND 0xff) :: u8) = b2" "(ucast (drop_bit 24 ?v AND 0xff) :: u8) = 0"
    unfolding byte_masks
    by (rule bit_word_eqI;
        simp add: bit_or_iff bit_and_iff bit_mask_iff bit_push_bit_iff bit_ucast_iff bit_drop_bit_eq bit_u8_ge bit_u8_lt)+
  then show ?thesis by (simp add: le32_def write_le32_def numeral_nat)
qed

lemma blend_alpha_bytes:
  fixes fbb cb :: bytes
  defines "w i \<equiv> (unat (fbb ! i) * (255 - unat (cb ! 3)) + unat (cb ! i) * unat (cb ! 3)) div 255"
  shows "le32 (blend_alpha (read_le32 fbb 0) (read_le32 cb 0)) =
    [word_of_nat (w 0), word_of_nat (w 1), word_of_nat (w 2), 0]"
proof -
  have le: "unat x \<le> 255" for x :: u8 using unat_lt_2_8 [of x] by linarith
  have comp: "blend_component (ucast x) (ucast y) (ucast a) =
      ucast (word_of_nat ((unat x * (255 - unat a) + unat y * unat a) div 255) :: u8)" for x y a :: u8
  proof -
    let ?n = "(unat x * (255 - unat a) + unat y * unat a) div 255"
    have "unat x * (255 - unat a) + unat y * unat a \<le> 255 * (255 - unat a) + 255 * unat a"
      by (intro add_mono mult_le_mono1 le)
    also have "\<dots> = 65025" using le [of a] by simp
    finally have n: "?n \<le> 255" by simp
    have "unat (blend_component (ucast x) (ucast y) (ucast a)) = ?n"
      using le by (subst blend_component_exact) (simp_all add: unat_ucast_up)
    moreover have "unat (ucast (word_of_nat ?n :: u8) :: u32) = ?n"
      using n by (subst unat_ucast_up) (simp_all add: unat_of_nat)
    ultimately show ?thesis by (simp only: word_unat_eq_iff)
  qed
  show ?thesis
    unfolding blend_alpha_def Let_def read_le32_components comp w_def by (rule le32_of_bytes)
qed

section \<open>Composing the cursor\<close>

text \<open>
  A cursor image that is read correctly: the size check passes without wrapping, the mapping has the
  bytes of the object, and the position leaves room for the image in an \<^verbatim>\<open>int\<close>.
\<close>

definition image_ok :: "evdi_cursor \<Rightarrow> bytes \<Rightarrow> bool" where
  "image_ok cursor img \<longleftrightarrow>
    4 * (unat (cur_width cursor) * unat (cur_height cursor)) \<le> length img \<and>
    unat (cur_width cursor) * unat (cur_height cursor) < 536870912 \<and>
    sint (cur_x cursor) + int (unat (cur_width cursor)) < 2147483648 \<and>
    sint (cur_y cursor) + int (unat (cur_height cursor)) < 2147483648"

definition cursor_at :: "evdi_cursor \<Rightarrow> int \<Rightarrow> int \<Rightarrow> nat \<times> nat \<Rightarrow> bool" where
  "cursor_at cursor x y c \<longleftrightarrow> x = sint (cur_x cursor) + int (fst c) \<and> y = sint (cur_y cursor) + int (snd c)"

definition blended :: "evdi_cursor \<Rightarrow> bytes \<Rightarrow> evdi_framebuffer \<Rightarrow> bytes \<Rightarrow> nat \<Rightarrow> nat \<Rightarrow> bytes" where
  "blended cursor img efb vm cx cy =
    le32 (blend_alpha
      (read_le32 (fb_pixel efb vm (sint (cur_x cursor) + int cx) (sint (cur_y cursor) + int cy)) 0)
      (read_le32 (take 4 (drop (4 * (cx + cy * unat (cur_width cursor))) img)) 0))"

definition in_frame :: "evdi_framebuffer \<Rightarrow> int \<Rightarrow> int \<Rightarrow> bool" where
  "in_frame efb x y \<longleftrightarrow> 0 \<le> x \<and> x < uint (fb_width efb) \<and> 0 \<le> y \<and> y < uint (fb_height efb)"

lemma length_le32 [simp]: "length (le32 v) = 4"
  by (simp add: le32_def wire)

lemma sint_of_nat_32: "n < 2147483648 \<Longrightarrow> sint (word_of_nat n :: u32) = int n"
  by (simp add: signed_of_nat signed_take_bit_int_eq_self)

lemma sint_of_int_32: "- 2147483648 \<le> k \<Longrightarrow> k < 2147483648 \<Longrightarrow> sint (word_of_int k :: u32) = k"
  by (simp add: signed_of_int signed_take_bit_int_eq_self)

lemma uint_of_int_32: "0 \<le> k \<Longrightarrow> k < 4294967296 \<Longrightarrow> uint (word_of_int k :: u32) = k"
  by (simp add: unsigned_of_int take_bit_int_eq_self)

lemma sint_u32_small: "uint (w :: u32) \<le> 32767 \<Longrightarrow> sint w = uint w"
proof -
  assume "uint w \<le> 32767"
  moreover have "0 \<le> uint w" by simp
  ultimately have "- 2147483648 \<le> uint w" "uint w < 2147483648" by linarith+
  then have "sint (word_of_int (uint w) :: u32) = uint w" by (rule sint_of_int_32)
  then show ?thesis by simp
qed

lemma image_index:
  assumes "image_ok cursor img" "cx < unat (cur_width cursor)" "cy < unat (cur_height cursor)"
  shows "sint (word_of_nat cx + word_of_nat cy * cur_width cursor :: u32) = int (cx + cy * unat (cur_width cursor))"
    "4 * int (cx + cy * unat (cur_width cursor)) + 4 \<le> int (length img)"
proof -
  let ?w = "unat (cur_width cursor)"
  have "cx + cy * ?w < (cy + 1) * ?w" using assms(2) by simp
  also have "\<dots> \<le> unat (cur_height cursor) * ?w" using assms(3) by (intro mult_le_mono1) simp
  finally have lt: "cx + cy * ?w < ?w * unat (cur_height cursor)" by (simp add: mult.commute)
  have "word_of_nat cx + word_of_nat cy * cur_width cursor = (word_of_nat (cx + cy * ?w) :: u32)" by simp
  moreover have "cx + cy * ?w < 2147483648" using lt assms(1) by (simp add: image_ok_def)
  ultimately show "sint (word_of_nat cx + word_of_nat cy * cur_width cursor :: u32) = int (cx + cy * ?w)"
    by (simp only: sint_of_nat_32)
  show "4 * int (cx + cy * ?w) + 4 \<le> int (length img)"
  proof -
    have "4 * (?w * unat (cur_height cursor)) \<le> length img"
      using assms(1) unfolding image_ok_def by blast
    moreover have "a < b \<Longrightarrow> 4 * b \<le> l \<Longrightarrow> 4 * a + 4 \<le> l" for a b l :: nat by linarith
    ultimately have "4 * (cx + cy * ?w) + 4 \<le> length img" using lt by blast
    then have "int (4 * (cx + cy * ?w) + 4) \<le> int (length img)" by (simp only: of_nat_le_iff)
    then show ?thesis by (simp only: of_nat_add of_nat_mult of_nat_numeral)
  qed
qed

lemma fb_index:
  assumes "fb_mapped efb vm" "in_frame efb x y"
  shows "uint (fb_offset efb) + 4 * uint (drop_bit 2 (fb_pitch efb) * word_of_int y + word_of_int x :: u32) =
         uint (fb_offset efb) + uint (fb_pitch efb) * y + 4 * x"
proof -
  let ?q = "uint (fb_pitch efb) div 4"
  have q: "uint (fb_pitch efb) = 4 * ?q" using assms(1) by (simp add: fb_mapped_def)
  have "drop_bit 2 (fb_pitch efb) = word_of_int ?q"
    by (simp add: drop_bit_eq_div word_div_def)
  then have e: "drop_bit 2 (fb_pitch efb) * word_of_int y + word_of_int x = (word_of_int (?q * y + x) :: u32)"
    by simp
  have b: "0 \<le> uint (fb_pitch efb) * y + 4 * x"
    "uint (fb_offset efb) + uint (fb_pitch efb) * y + 4 * x + 4 \<le> int (length vm)" "int (length vm) < 2147483648"
    using fb_offset_bounds [of efb vm x y] assms by (auto simp: in_frame_def fb_mapped_def)
  have p: "uint (fb_pitch efb) * y = 4 * (?q * y)" by (subst q) simp
  have "0 \<le> uint (fb_offset efb)" by simp
  then have "0 \<le> ?q * y + x" "?q * y + x < 4294967296" using b p by linarith+
  then show ?thesis unfolding e by (simp only: uint_of_int_32 p) simp
qed

lemma compose_at_out:
  assumes "image_ok cursor img" "fb_mapped efb vm" "cx < unat (cur_width cursor)" "cy < unat (cur_height cursor)"
    "\<not> in_frame efb (sint (cur_x cursor) + int cx) (sint (cur_y cursor) + int cy)"
  shows "compose_at nc cursor img efb vm s cx cy mem = Inr (0, mem)"
proof -
  have "sint (cur_x cursor) + int cx < 2147483648" "sint (cur_y cursor) + int cy < 2147483648"
    "- 2147483648 \<le> sint (cur_x cursor) + int cx" "- 2147483648 \<le> sint (cur_y cursor) + int cy"
  proof -
    have "int cx < int (unat (cur_width cursor))" "int cy < int (unat (cur_height cursor))"
      using assms(3,4) by (simp_all only: of_nat_less_iff)
    moreover have "sint (cur_x cursor) + int (unat (cur_width cursor)) < 2147483648"
      "sint (cur_y cursor) + int (unat (cur_height cursor)) < 2147483648"
      using assms(1) unfolding image_ok_def by blast+
    moreover have "- 2147483648 \<le> sint (cur_x cursor)" "- 2147483648 \<le> sint (cur_y cursor)"
      using sint_ge [of "cur_x cursor"] sint_ge [of "cur_y cursor"] by simp_all
    ultimately show "sint (cur_x cursor) + int cx < 2147483648" "sint (cur_y cursor) + int cy < 2147483648"
      "- 2147483648 \<le> sint (cur_x cursor) + int cx" "- 2147483648 \<le> sint (cur_y cursor) + int cy"
      by linarith+
  qed
  then show ?thesis
    using assms(2,5) by (auto simp: compose_at_def Let_def sint_u32_small fb_mapped_def in_frame_def)
qed

lemma compose_at_in:
  assumes ok: "image_ok cursor img" "fb_mapped efb vm" "user_buf_ok efb s"
    and c: "cx < unat (cur_width cursor)" "cy < unat (cur_height cursor)"
    and x: "x = sint (cur_x cursor) + int cx" and y: "y = sint (cur_y cursor) + int cy"
    and fr: "in_frame efb x y"
  shows "compose_at nc cursor img efb vm s cx cy mem =
    (let (k, mem) = copy_to_user nc (s * y + 4 * x) (blended cursor img efb vm cx cy) mem
     in Inr (if k \<noteq> 0 then - EFAULT else 0, mem))"
proof -
  have small: "x < 32767" "y < 32767" "0 \<le> x" "0 \<le> y"
    using fr ok(2) by (auto simp: in_frame_def fb_mapped_def)
  have g: "\<not> \<not> (0 \<le> x \<and> 0 \<le> y \<and> x < sint (fb_width efb) \<and> y < sint (fb_height efb))"
    using fr ok(2) by (simp add: in_frame_def fb_mapped_def sint_u32_small)
  have off: "0 \<le> s * y + 4 * x" "s * y + 4 * x + 4 \<le> 2147483647"
    using user_offset_bounds [OF ok(3)] fr by (auto simp: in_frame_def)
  have "(word_of_int (s * y) + word_of_int x * 4 :: u32) = word_of_int (s * y + 4 * x)"
    by (simp add: mult.commute)
  then have o': "sint (word_of_int (s * y) + word_of_int x * 4 :: u32) = s * y + 4 * x"
    using off by (simp only: sint_of_int_32)
  have i: "vm_read img (4 * int (cx + cy * unat (cur_width cursor))) 4 =
      Inr (take 4 (drop (4 * (cx + cy * unat (cur_width cursor))) img))"
    using image_index(2) [OF ok(1) c] unfolding vm_read_eq_Inr by (auto simp: nat_mult_distrib nat_add_distrib)
  have f: "vm_read vm (uint (fb_offset efb) + uint (fb_pitch efb) * y + 4 * x) 4 = Inr (fb_pixel efb vm x y)"
    using fb_offset_bounds [OF ok(2)] fr unfolding vm_read_eq_Inr fb_pixel_def in_frame_def by auto
  have cx: "c_int x = x" "c_int y = y" using small by simp_all
  show ?thesis
    unfolding compose_at_def Let_def x [symmetric] y [symmetric] cx image_index(1) [OF ok(1) c] fb_index [OF ok(2) fr] i f o'
      ebind_simps if_not_P [OF g] evdi_cursor_compose_pixel_def blended_def ..
qed

lemma compose_at_cases:
  assumes ok: "image_ok cursor img" "fb_mapped efb vm" "user_buf_ok efb s"
    and c: "cx < unat (cur_width cursor)" "cy < unat (cur_height cursor)"
  obtains err mem' where "compose_at nc cursor img efb vm s cx cy mem = Inr (err, mem')" "err \<in> {0, - EFAULT}"
    "err = 0 \<Longrightarrow> in_frame efb x y \<Longrightarrow> 0 \<le> i \<Longrightarrow> i < 4 \<Longrightarrow>
       mem' (s * y + 4 * x + i) =
         (if cursor_at cursor x y (cx, cy) then blended cursor img efb vm cx cy ! nat i
          else mem (s * y + 4 * x + i))"
proof (cases "in_frame efb (sint (cur_x cursor) + int cx) (sint (cur_y cursor) + int cy)")
  case False
  show ?thesis
    by (rule that [of 0 mem]) (use compose_at_out [OF ok(1,2) c False] False in \<open>auto simp: cursor_at_def\<close>)
next
  case True
  let ?x = "sint (cur_x cursor) + int cx" and ?y = "sint (cur_y cursor) + int cy"
  obtain k mem' where cp: "copy_to_user nc (s * ?y + 4 * ?x) (blended cursor img efb vm cx cy) mem = (k, mem')"
    by (metis surj_pair)
  have at: "compose_at nc cursor img efb vm s cx cy mem = Inr (if k \<noteq> 0 then - EFAULT else 0, mem')"
    unfolding compose_at_in [OF ok c refl refl True] cp by simp
  have px: "mem' (s * y + 4 * x + i) =
      (if cursor_at cursor x y (cx, cy) then blended cursor img efb vm cx cy ! nat i else mem (s * y + 4 * x + i))"
    if "(if k \<noteq> 0 then - EFAULT else 0) = 0" "in_frame efb x y" "0 \<le> i" "i < 4"
  proof -
    have mem': "mem' = user_write (s * ?y + 4 * ?x) (blended cursor img efb vm cx cy) mem"
      using that(1) cp copy_to_user_ok by (auto simp: EFAULT_def split: if_splits)
    have "s * ?y + 4 * ?x \<le> s * y + 4 * x + i \<and> s * y + 4 * x + i < s * ?y + 4 * ?x + 4 \<longleftrightarrow> x = ?x \<and> y = ?y"
      using pixel_offset_eq [of "uint (fb_width efb)" s x ?x i ?y y] ok(3) True that(2-4)
      unfolding in_frame_def user_buf_ok_def by blast
    then show ?thesis
      unfolding mem' user_write_def cursor_at_def by (auto simp: blended_def)
  qed
  show ?thesis by (rule that [OF at _ px]) auto
qed

lemma compose_loop_cases:
  assumes ok: "image_ok cursor img" "fb_mapped efb vm" "user_buf_ok efb s"
    and ps: "\<forall>(cx, cy)\<in>set ps. cx < unat (cur_width cursor) \<and> cy < unat (cur_height cursor)"
  shows "\<exists>err mem'. compose_loop nc cursor img efb vm s ps mem = Inr (err, mem') \<and> err \<in> {0, - EFAULT} \<and>
    (err = 0 \<longrightarrow> in_frame efb x y \<longrightarrow> 0 \<le> i \<longrightarrow> i < 4 \<longrightarrow>
      (\<forall>c\<in>set ps. cursor_at cursor x y c \<longrightarrow> mem' (s * y + 4 * x + i) = blended cursor img efb vm (fst c) (snd c) ! nat i) \<and>
      ((\<forall>c\<in>set ps. \<not> cursor_at cursor x y c) \<longrightarrow> mem' (s * y + 4 * x + i) = mem (s * y + 4 * x + i)))"
  using ps
proof (induction ps arbitrary: mem)
  case Nil
  then show ?case by simp
next
  case (Cons c ps)
  obtain cx cy where c: "c = (cx, cy)" by (cases c)
  have lt: "cx < unat (cur_width cursor)" "cy < unat (cur_height cursor)" using Cons.prems c by auto
  obtain err mem1 where at: "compose_at nc cursor img efb vm s cx cy mem = Inr (err, mem1)" "err \<in> {0, - EFAULT}"
    and px: "err = 0 \<Longrightarrow> in_frame efb x y \<Longrightarrow> 0 \<le> i \<Longrightarrow> i < 4 \<Longrightarrow>
       mem1 (s * y + 4 * x + i) =
         (if cursor_at cursor x y (cx, cy) then blended cursor img efb vm cx cy ! nat i
          else mem (s * y + 4 * x + i))"
    by (rule compose_at_cases [OF ok lt, of nc mem x y i]) blast
  show ?case
  proof (cases "err = 0")
    case False
    then show ?thesis using at c by auto
  next
    case True
    have uniq: "cursor_at cursor x y (cx, cy) \<Longrightarrow> cursor_at cursor x y c' \<Longrightarrow> c' = (cx, cy)" for c'
      by (cases c') (simp add: cursor_at_def)
    have "\<forall>(cx, cy)\<in>set ps. cx < unat (cur_width cursor) \<and> cy < unat (cur_height cursor)"
      using Cons.prems by simp
    from Cons.IH [OF this, of mem1] obtain err' mem' where IH:
      "compose_loop nc cursor img efb vm s ps mem1 = Inr (err', mem')" "err' \<in> {0, - EFAULT}"
      "err' = 0 \<Longrightarrow> in_frame efb x y \<Longrightarrow> 0 \<le> i \<Longrightarrow> i < 4 \<Longrightarrow>
      (\<forall>c\<in>set ps. cursor_at cursor x y c \<longrightarrow> mem' (s * y + 4 * x + i) = blended cursor img efb vm (fst c) (snd c) ! nat i) \<and>
      ((\<forall>c\<in>set ps. \<not> cursor_at cursor x y c) \<longrightarrow> mem' (s * y + 4 * x + i) = mem1 (s * y + 4 * x + i))"
      by blast
    show ?thesis
    proof (intro exI conjI impI)
      show "compose_loop nc cursor img efb vm s (c # ps) mem = Inr (err', mem')"
        using at True IH(1) c by simp
    next
      assume p: "err' = 0" "in_frame efb x y" "0 \<le> i" "i < 4"
      note IH3 = IH(3) [OF p] and px' = px [OF True p(2-4)]
      show "\<forall>c\<in>set (c # ps). cursor_at cursor x y c \<longrightarrow>
          mem' (s * y + 4 * x + i) = blended cursor img efb vm (fst c) (snd c) ! nat i"
        using IH3 px' uniq c by (metis fst_conv set_ConsD snd_conv)
      assume "\<forall>c\<in>set (c # ps). \<not> cursor_at cursor x y c"
      then show "mem' (s * y + 4 * x + i) = mem (s * y + 4 * x + i)"
        using IH3 px' c by simp
    qed (fact IH(2))
  qed
qed

lemma set_cursor_positions:
  "(cx, cy) \<in> set (cursor_positions cursor) \<longleftrightarrow>
    cx < 2 * (unat (cur_width cursor) div 2) \<and> cy < 2 * (unat (cur_height cursor) div 2)"
  by (auto simp: cursor_positions_def Let_def drop_bit_eq_div unat_div image_iff)

text \<open>The weighted mean of two pixels, channel by channel, with the weight in byte 3 of the cursor's.\<close>

definition mean_pixel :: "bytes \<Rightarrow> bytes \<Rightarrow> bytes" where
  "mean_pixel F C =
    [word_of_nat ((unat (F ! 0) * (255 - unat (C ! 3)) + unat (C ! 0) * unat (C ! 3)) div 255),
     word_of_nat ((unat (F ! 1) * (255 - unat (C ! 3)) + unat (C ! 1) * unat (C ! 3)) div 255),
     word_of_nat ((unat (F ! 2) * (255 - unat (C ! 3)) + unat (C ! 2) * unat (C ! 3)) div 255), 0]"

definition image_pixel :: "evdi_cursor \<Rightarrow> bytes \<Rightarrow> nat \<times> nat \<Rightarrow> bytes" where
  "image_pixel cursor img c = take 4 (drop (4 * (fst c + snd c * unat (cur_width cursor))) img)"

lemma blended_mean:
  "cursor_at cursor x y c \<Longrightarrow>
   blended cursor img efb vm (fst c) (snd c) = mean_pixel (fb_pixel efb vm x y) (image_pixel cursor img c)"
  by (simp add: blended_def mean_pixel_def image_pixel_def cursor_at_def blend_alpha_bytes)

text \<open>
  C33: For a cursor whose image is mapped and a framebuffer inside its mapping, composing never reads
  outside either, and ends with 0 or \<^verbatim>\<open>-EFAULT\<close>. When it ends with 0, every pixel of the frame that lies
  under the image (its even part: the code draws \<open>2 * (width / 2)\<close> columns and \<open>2 * (height / 2)\<close> rows) holds
  in each colour channel the mean of the framebuffer's and the cursor's value, weighted by the
  cursor's alpha and rounded down, with byte 3 zero; every other pixel of the caller's buffer is as it
  was.
\<close>

theorem cursor_composed:
  assumes "image_ok cursor img" "fb_mapped efb vm" "user_buf_ok efb s"
    and "enabled cursor" "cur_obj cursor = Some g" "vmapping (gem g) = Some img"
    and "obj_size (gem g) = length img" "(bpp + 7) div 8 = 4"
  shows "\<exists>err mem'. evdi_cursor_compose_and_copy nc bpp cursor efb vm s mem = Inr (err, mem') \<and>
    err \<in> {0, - EFAULT} \<and>
    (err = 0 \<longrightarrow> (\<forall>x y i. in_frame efb x y \<and> i < 4 \<longrightarrow>
      (\<forall>c\<in>set (cursor_positions cursor). cursor_at cursor x y c \<longrightarrow>
        mem' (s * y + 4 * x + int i) = mean_pixel (fb_pixel efb vm x y) (image_pixel cursor img c) ! i) \<and>
      ((\<forall>c\<in>set (cursor_positions cursor). \<not> cursor_at cursor x y c) \<longrightarrow>
        mem' (s * y + 4 * x + int i) = mem (s * y + 4 * x + int i))))"
proof -
  have "2 * (unat (cur_width cursor) div 2) \<le> unat (cur_width cursor)"
    "2 * (unat (cur_height cursor) div 2) \<le> unat (cur_height cursor)" by simp_all
  then have ps: "\<forall>(cx, cy)\<in>set (cursor_positions cursor). cx < unat (cur_width cursor) \<and> cy < unat (cur_height cursor)"
    by (auto simp: set_cursor_positions)
  note loop = compose_loop_cases [OF assms(1-3) ps, of nc mem]
  have "unat (cur_width cursor * cur_height cursor) = unat (cur_width cursor) * unat (cur_height cursor)"
    using assms(1) unfolding image_ok_def by (intro unat_mult_no_wrap) simp
  then have "unat (cur_width cursor * cur_height cursor * 4) = 4 * (unat (cur_width cursor) * unat (cur_height cursor))"
    using assms(1) unfolding image_ok_def by (subst unat_mult_no_wrap) (simp_all add: mult.commute)
  then have "\<not> obj_size (gem g) < unat (cur_width cursor * cur_height cursor * 4)"
    using assms(1,7) unfolding image_ok_def by linarith
  then have eq: "evdi_cursor_compose_and_copy nc bpp cursor efb vm s mem =
      compose_loop nc cursor img efb vm s (cursor_positions cursor) mem"
    using assms(4-6,8) by (simp add: evdi_cursor_compose_and_copy_def)
  obtain err mem' where r: "compose_loop nc cursor img efb vm s (cursor_positions cursor) mem = Inr (err, mem')"
    "err \<in> {0, - EFAULT}" using loop [of 0 0 0] by blast
  show ?thesis
    unfolding eq
  proof (intro exI conjI impI allI; (elim conjE)?)
    fix x y i assume p: "err = 0" "in_frame efb x y" "i < (4 :: nat)"
    have px: "(\<forall>c\<in>set (cursor_positions cursor). cursor_at cursor x y c \<longrightarrow>
        mem' (s * y + 4 * x + int i) = blended cursor img efb vm (fst c) (snd c) ! i) \<and>
      ((\<forall>c\<in>set (cursor_positions cursor). \<not> cursor_at cursor x y c) \<longrightarrow>
        mem' (s * y + 4 * x + int i) = mem (s * y + 4 * x + int i))"
      using loop [of x y "int i"] r p by auto
    then show "\<forall>c\<in>set (cursor_positions cursor). cursor_at cursor x y c \<longrightarrow>
        mem' (s * y + 4 * x + int i) = mean_pixel (fb_pixel efb vm x y) (image_pixel cursor img c) ! i"
      by (simp add: blended_mean)
    assume "\<forall>c\<in>set (cursor_positions cursor). \<not> cursor_at cursor x y c"
    then show "mem' (s * y + 4 * x + int i) = mem (s * y + 4 * x + int i)" using px by blast
  qed (use r in auto)
qed

theorem cursor_composed_witness:
  "\<exists>err mem'. evdi_cursor_compose_and_copy (\<lambda>_ _. 0) 32
      (evdi_cursor_zero\<lparr>enabled := True, cur_x := 1, cur_width := 2, cur_height := 2,
         cur_obj := Some \<lparr>gem_id = 7, gem = \<lparr>obj_size = 16, vmapping = Some (replicate 16 0x80), import_attach = False\<rparr>\<rparr>\<rparr>)
      \<lparr>fb_id = 1, fb_width = 3, fb_height = 2, fb_pitch = 12, fb_offset = 0, fb_cpp = 4, fb_format = 0,
       fb_obj = \<lparr>obj_size = 24, vmapping = Some (replicate 24 0xff), import_attach = False\<rparr>,
       fb_active = True, is_from_xe = False\<rparr>
      (replicate 24 0xff) 12 (\<lambda>_. 1) = Inr (err, mem') \<and> err \<in> {0, - EFAULT} \<and>
      (err = 0 \<longrightarrow> mem' 0 = 1 \<and> mem' 4 = 191)"
proof -
  let ?g = "\<lparr>gem_id = 7, gem = \<lparr>obj_size = 16, vmapping = Some (replicate 16 0x80), import_attach = False\<rparr>\<rparr>"
  let ?c = "evdi_cursor_zero\<lparr>enabled := True, cur_x := 1, cur_width := 2, cur_height := 2, cur_obj := Some ?g\<rparr>"
  let ?f = "\<lparr>fb_id = 1, fb_width = 3, fb_height = 2, fb_pitch = 12, fb_offset = 0, fb_cpp = 4, fb_format = 0,
       fb_obj = \<lparr>obj_size = 24, vmapping = Some (replicate 24 0xff), import_attach = False\<rparr>,
       fb_active = True, is_from_xe = False\<rparr>"
  have ps: "set (cursor_positions ?c) = {(0, 0), (1, 0), (0, 1), (1, 1)}"
    by (auto simp: cursor_positions_def drop_bit_eq_div unat_div numeral_2_eq_2)
  have px: "mean_pixel (fb_pixel ?f (replicate 24 0xff) 1 0) (image_pixel ?c (replicate 16 0x80) (0, 0)) ! 0 = 191"
    by (simp add: mean_pixel_def fb_pixel_def image_pixel_def)
  obtain err mem' where r: "evdi_cursor_compose_and_copy (\<lambda>_ _. 0) 32 ?c ?f (replicate 24 0xff) 12 (\<lambda>_. 1) = Inr (err, mem')"
    "err \<in> {0, - EFAULT}"
    and e: "err = 0 \<Longrightarrow> \<forall>x y i. in_frame ?f x y \<and> i < 4 \<longrightarrow>
      (\<forall>c\<in>set (cursor_positions ?c). cursor_at ?c x y c \<longrightarrow>
        mem' (12 * y + 4 * x + int i) = mean_pixel (fb_pixel ?f (replicate 24 0xff) x y) (image_pixel ?c (replicate 16 0x80) c) ! i) \<and>
      ((\<forall>c\<in>set (cursor_positions ?c). \<not> cursor_at ?c x y c) \<longrightarrow> mem' (12 * y + 4 * x + int i) = 1)"
    using cursor_composed [of ?c "replicate 16 0x80" ?f "replicate 24 0xff" 12 ?g 32 "\<lambda>_ _. 0" "\<lambda>_. 1"]
    by (auto simp: image_ok_def fb_mapped_def user_buf_ok_def evdi_cursor_zero_def)
  have "mem' 0 = 1 \<and> mem' 4 = 191" if "err = 0"
    using e [OF that, THEN spec, of 0, THEN spec, of 0, THEN spec, of 0]
      e [OF that, THEN spec, of 1, THEN spec, of 0, THEN spec, of 0] px
    unfolding ps by (simp add: in_frame_def cursor_at_def evdi_cursor_zero_def)
  with r show ?thesis by blast
qed

section \<open>The reference on the image\<close>

definition cursor_holds :: "evdi_cursor \<Rightarrow> nat \<Rightarrow> int" where
  "cursor_holds cursor i = (case cur_obj cursor of Some g \<Rightarrow> if gem_id g = i then 1 else 0 | None \<Rightarrow> 0)"

text \<open>The references that are not the cursor's.\<close>

definition other_refs :: "evdi_cursor \<times> refs \<Rightarrow> nat \<Rightarrow> int" where
  "other_refs = (\<lambda>(cursor, refs) i. refs i - cursor_holds cursor i)"

lemma set_gem_balanced: "other_refs (evdi_cursor_set_gem ob (cursor, refs)) = other_refs (cursor, refs)"
  by (auto simp: fun_eq_iff other_refs_def evdi_cursor_set_gem_def cursor_holds_def
      drm_gem_object_get_def drm_gem_object_put_def split: option.splits)

lemma other_refs_cong: "cur_obj c = cur_obj c' \<Longrightarrow> other_refs (c, r) = other_refs (c', r)"
  by (simp add: other_refs_def cursor_holds_def)

text \<open>
  The cursor holds exactly one reference on the image object it points to and none on any other:
  every operation that changes the image (set, whether the mapping succeeds or fails, enable, disable,
  free) leaves the references of everybody else as they were, and freeing the cursor or disabling it
  leaves it with none. Setting an image that cannot be mapped disables the cursor.
\<close>

theorem cursor_refs_balanced:
  "other_refs (evdi_cursor_set vmap ob w h hx hy fmt strd (cursor, refs)) = other_refs (cursor, refs) \<and>
   other_refs (evdi_cursor_enable en (cursor, refs)) = other_refs (cursor, refs) \<and>
   snd (evdi_cursor_free (Some cursor, refs)) = other_refs (cursor, refs) \<and>
   cur_obj (fst (evdi_cursor_enable False (cursor, refs))) = None \<and>
   enabled (fst (evdi_cursor_set vmap ob w h hx hy fmt strd (cursor, refs))) =
     (\<exists>g. ob = Some g \<and> (vmapping (gem g) \<noteq> None \<or> fst vmap = 0))"
proof (intro conjI)
  show "other_refs (evdi_cursor_set vmap ob w h hx hy fmt strd (cursor, refs)) = other_refs (cursor, refs)"
    by (auto simp: evdi_cursor_set_def Let_def set_gem_balanced intro: other_refs_cong split: option.splits prod.splits)
  show "other_refs (evdi_cursor_enable en (cursor, refs)) = other_refs (cursor, refs)"
    by (auto simp: evdi_cursor_enable_def Let_def set_gem_balanced intro: other_refs_cong)
  have "snd (evdi_cursor_set_gem None (cursor, refs)) = other_refs (evdi_cursor_set_gem None (cursor, refs))"
    by (simp add: other_refs_def cursor_holds_def evdi_cursor_set_gem_def Let_def)
  then show "snd (evdi_cursor_free (Some cursor, refs)) = other_refs (cursor, refs)"
    by (simp add: evdi_cursor_free_def set_gem_balanced)
qed (auto simp: evdi_cursor_enable_def evdi_cursor_set_gem_def evdi_cursor_set_def Let_def split: option.splits)

theorem cursor_refs_balanced_witness:
  "other_refs (evdi_cursor_set (- ENOMEM, None)
      (Some \<lparr>gem_id = 3, gem = \<lparr>obj_size = 4, vmapping = None, import_attach = False\<rparr>\<rparr>) 1 1 0 0 0 4
      (evdi_cursor_zero, \<lambda>_. 2)) = (\<lambda>_. 2) \<and>
   \<not> enabled (fst (evdi_cursor_set (- ENOMEM, None)
      (Some \<lparr>gem_id = 3, gem = \<lparr>obj_size = 4, vmapping = None, import_attach = False\<rparr>\<rparr>) 1 1 0 0 0 4
      (evdi_cursor_zero, \<lambda>_. 2)))"
  using cursor_refs_balanced [of "(- ENOMEM, None)"
      "Some \<lparr>gem_id = 3, gem = \<lparr>obj_size = 4, vmapping = None, import_attach = False\<rparr>\<rparr>" 1 1 0 0 0 4
      evdi_cursor_zero "\<lambda>_. 2"]
  by (simp add: other_refs_def cursor_holds_def evdi_cursor_zero_def ENOMEM_def)

end
