(* ===== verification/EvdiPainter.thy ===== *)
theory EvdiPainter
  imports EvdiRects EvdiCursor
begin

text \<open>
  The painter of the \<^verbatim>\<open>evdi\<close> kernel module (\<^verbatim>\<open>evdi_painter.c\<close>): dirty rectangles, the events for the
  daemon, the pending vertical blank, the connection, and the ioctls through which the daemon asks for
  an update and grabs pixels.

  \<^item> \<open>evdi_painter\<close> is the structure, without its locks: every operation runs under the painter's mutex
    (and the events under the device's event lock), so an operation is one step.
  \<^item> \<open>drm_world\<close> is what the operations do to the rest of the kernel, as a record of it: the events handed
    to a DRM file, the vertical blanks sent, the references on framebuffers, hot-plug notifications and
    blocks of \<^verbatim>\<open>vmalloc\<close> left over. Answers of the kernel are parameters: \<open>reserve\<close> says whether the DRM file
    has room for an event (it depends on what was sent so far), \<open>alloc\<close> whether \<^verbatim>\<open>kzalloc\<close> succeeds.
  \<^item> The \<^verbatim>\<open>painter == NULL\<close> branch of an exported function is the \<open>None\<close> of the device's \<open>painter\<close> field.
\<close>

section \<open>State\<close>

datatype drm_evdi_event =
    UpdateReady
  | Dpms (dpms_mode: int)
  | ModeChanged (mode_hdisplay: int) (mode_vdisplay: int) (mode_vrefresh: int) (mode_bpp: int) (mode_fourcc: u32)
  | CursorSet (set_enabled: bool) (set_hot: "32 word \<times> 32 word") (set_size: "u32 \<times> u32")
      (buffer_handle: u32) (buffer_length: nat) (set_format: u32) (set_stride: u32)
  | CursorMove (move_x: "32 word") (move_y: "32 word")
  | DdcciData (ddcci_bytes: bytes) (ddcci_length: u32) (ddcci_flags: u16) (ddcci_address: u16)

fun event_type :: "drm_evdi_event \<Rightarrow> u32" where
  "event_type UpdateReady = 0x80000000"
| "event_type (Dpms _) = 0x80000001"
| "event_type (ModeChanged _ _ _ _ _) = 0x80000002"
| "event_type (CursorSet _ _ _ _ _ _ _) = 0x80000004"
| "event_type (CursorMove _ _) = 0x80000005"
| "event_type (DdcciData _ _ _ _) = 0x80000006"

record evdi_painter =
  is_connected :: bool
  painter_edid :: "bytes option"
  edid_length :: nat
  dirty_rects :: "drm_clip_rect list"
  scanout_fb :: "evdi_framebuffer option"
  drm_filp :: "nat option"
  has_drm_device :: bool
  was_update_requested :: bool
  needs_full_modeset :: bool
  crtc :: "nat option"
  vblank :: "nat option"
  pending_events :: "drm_evdi_event list"
  work_pending :: bool
  ddcci_response_received :: nat
  ddcci_buffer :: "bytes option"
  ddcci_buffer_length :: u32
  painter_fg_console :: int

record drm_world =
  events_sent :: "(nat \<times> drm_evdi_event) list"
  vblanks_sent :: "(nat \<times> nat) list"
  fb_refs :: refs
  hpd_irqs :: nat
  vmalloc_live :: nat

type_synonym pw = "evdi_painter \<times> drm_world"
type_synonym reserve = "nat \<Rightarrow> (nat \<times> drm_evdi_event) list \<Rightarrow> drm_evdi_event \<Rightarrow> bool"

record evdi_device =
  painter :: "evdi_painter option"
  cursor :: evdi_cursor
  gem_refs :: refs
  cursor_events_enabled :: bool
  pixel_area_limit :: u32
  pixel_per_second_limit :: u32
  i2c_adapter :: bool
  drm :: drm_world

definition MAX_DIRTS :: nat where "MAX_DIRTS = 16"

text \<open>An operation on the painter that exists, and a log line where it does not.\<close>

definition with_painter :: "(pw \<Rightarrow> pw) \<Rightarrow> evdi_device \<Rightarrow> evdi_device" where
  "with_painter f evdi = (case painter evdi of None \<Rightarrow> evdi
     | Some p \<Rightarrow> let (p, w) = f (p, drm evdi) in evdi\<lparr>painter := Some p, drm := w\<rparr>)"

definition drm_framebuffer_get :: "evdi_framebuffer \<Rightarrow> drm_world \<Rightarrow> drm_world" where
  "drm_framebuffer_get efb w = w\<lparr>fb_refs := (fb_refs w)(fb_id efb := fb_refs w (fb_id efb) + 1)\<rparr>"

definition drm_framebuffer_put :: "evdi_framebuffer \<Rightarrow> drm_world \<Rightarrow> drm_world" where
  "drm_framebuffer_put efb w = w\<lparr>fb_refs := (fb_refs w)(fb_id efb := fb_refs w (fb_id efb) - 1)\<rparr>"

section \<open>Events\<close>

definition evdi_painter_is_connected :: "evdi_painter option \<Rightarrow> bool" where
  "evdi_painter_is_connected p = (case p of Some p \<Rightarrow> is_connected p | None \<Rightarrow> False)"

text \<open>It locks the painter before it looks whether there is one.\<close>

definition evdi_painter_get_edid_copy :: "bool \<Rightarrow> evdi_device \<Rightarrow> c_error + bytes option" where
  "evdi_painter_get_edid_copy alloc evdi =
    (case painter evdi of None \<Rightarrow> Inl NullDeref
     | Some p \<Rightarrow>
        (case painter_edid p of
           Some e \<Rightarrow> Inr (if evdi_painter_is_connected (Some p) \<and> edid_length p \<noteq> 0 \<and> alloc
                          then Some (take (edid_length p) e) else None)
         | None \<Rightarrow> Inr None))"

definition is_evdi_event_squashable :: "drm_evdi_event \<Rightarrow> bool" where
  "is_evdi_event_squashable event \<longleftrightarrow> event_type event = 0x80000004 \<or> event_type event = 0x80000005"

definition add_to_pending :: "drm_evdi_event \<Rightarrow> drm_evdi_event list \<Rightarrow> drm_evdi_event list" where
  "add_to_pending event pend =
    (if pend \<noteq> [] \<and> event_type event = event_type (last pend) \<and> is_evdi_event_squashable event
     then butlast pend @ [event] else pend @ [event])"

definition evdi_painter_add_event_to_pending_list :: "drm_evdi_event \<Rightarrow> evdi_painter \<Rightarrow> evdi_painter" where
  "evdi_painter_add_event_to_pending_list event p =
    p\<lparr>pending_events := add_to_pending event (pending_events p)\<rparr>"

fun flush_loop :: "reserve \<Rightarrow> nat \<Rightarrow> drm_evdi_event list \<Rightarrow> (nat \<times> drm_evdi_event) list \<Rightarrow>
    drm_evdi_event list \<times> (nat \<times> drm_evdi_event) list" where
  "flush_loop reserve file [] sent = ([], sent)"
| "flush_loop reserve file (event # pend) sent =
    (if reserve file sent event then flush_loop reserve file pend (sent @ [(file, event)])
     else (event # pend, sent))"

definition evdi_painter_flush_pending_events :: "reserve \<Rightarrow> nat \<Rightarrow> pw \<Rightarrow> bool \<times> pw" where
  "evdi_painter_flush_pending_events reserve file = (\<lambda>(p, w).
    (let (pend, sent) = flush_loop reserve file (pending_events p) (events_sent w)
     in (pend = [], p\<lparr>pending_events := pend\<rparr>, w\<lparr>events_sent := sent\<rparr>)))"

definition evdi_painter_send_event :: "reserve \<Rightarrow> drm_evdi_event option \<Rightarrow> pw \<Rightarrow> pw" where
  "evdi_painter_send_event reserve event = (\<lambda>(p, w).
    (case event of None \<Rightarrow> (p, w)
     | Some event \<Rightarrow>
        (case drm_filp p of None \<Rightarrow> (p, w)
         | Some file \<Rightarrow>
            if \<not> has_drm_device p then (p, w)
            else if \<not> is_connected p then (p, w)
            else
              let p = evdi_painter_add_event_to_pending_list event p
              in if work_pending p then (p, w)
                 else let (flushed_all, p, w) = evdi_painter_flush_pending_events reserve file (p, w)
                      in if flushed_all then (p, w) else (p\<lparr>work_pending := True\<rparr>, w))))"

text \<open>
  The delayed work: no longer pending while it runs. With events pending and no file it would
  dereference the null file.
\<close>

definition evdi_send_events_work :: "reserve \<Rightarrow> pw \<Rightarrow> c_error + pw" where
  "evdi_send_events_work reserve = (\<lambda>(p, w).
    (let p = p\<lparr>work_pending := False\<rparr>
     in case drm_filp p of
          None \<Rightarrow> if pending_events p = [] then Inr (p, w) else Inl NullDeref
        | Some file \<Rightarrow>
            let (flushed_all, p, w) = evdi_painter_flush_pending_events reserve file (p, w)
            in Inr (if flushed_all then (p, w) else (p\<lparr>work_pending := True\<rparr>, w))))"

definition create_update_ready_event :: "bool \<Rightarrow> drm_evdi_event option" where
  "create_update_ready_event alloc = (if alloc then Some UpdateReady else None)"

definition evdi_painter_send_update_ready :: "reserve \<Rightarrow> bool \<Rightarrow> pw \<Rightarrow> pw" where
  "evdi_painter_send_update_ready reserve alloc = evdi_painter_send_event reserve (create_update_ready_event alloc)"

text \<open>
  \<open>handle\<close> gives, for an object, the answer of the handle lookup and, when there is none, the code and
  the handle of \<^verbatim>\<open>drm_gem_handle_create\<close>; a failing one leaves the variable at 0.
\<close>

definition evdi_painter_get_gem_handle :: "(nat \<Rightarrow> u32 \<times> int \<times> u32) \<Rightarrow> cursor_gem option \<Rightarrow> u32" where
  "evdi_painter_get_gem_handle handle ob =
    (case ob of None \<Rightarrow> 0
     | Some g \<Rightarrow> let (found, err, created) = handle (gem_id g)
         in if found \<noteq> 0 then found else if err \<noteq> 0 then 0 else created)"

definition create_cursor_set_event ::
    "bool \<Rightarrow> (nat \<Rightarrow> u32 \<times> int \<times> u32) \<Rightarrow> evdi_cursor \<Rightarrow> drm_evdi_event option" where
  "create_cursor_set_event alloc handle c =
    (if \<not> alloc then None
     else let h = evdi_painter_get_gem_handle handle (cur_obj c);
              len = (case cur_obj c of Some g \<Rightarrow> obj_size (gem g) | None \<Rightarrow> 0)
       in Some (CursorSet (enabled c \<and> h \<noteq> 0) (hot_x c, hot_y c) (cur_width c, cur_height c)
                  h (if h = 0 then 0 else len) (pixel_format c) (EvdiCursor.stride c)))"

definition evdi_painter_send_cursor_set ::
    "reserve \<Rightarrow> bool \<Rightarrow> (nat \<Rightarrow> u32 \<times> int \<times> u32) \<Rightarrow> evdi_cursor \<Rightarrow> pw \<Rightarrow> pw" where
  "evdi_painter_send_cursor_set reserve alloc handle c =
    evdi_painter_send_event reserve (create_cursor_set_event alloc handle c)"

definition create_cursor_move_event :: "bool \<Rightarrow> evdi_cursor \<Rightarrow> drm_evdi_event option" where
  "create_cursor_move_event alloc c = (if alloc then Some (CursorMove (cur_x c) (cur_y c)) else None)"

definition evdi_painter_send_cursor_move :: "reserve \<Rightarrow> bool \<Rightarrow> evdi_cursor \<Rightarrow> pw \<Rightarrow> pw" where
  "evdi_painter_send_cursor_move reserve alloc c =
    evdi_painter_send_event reserve (create_cursor_move_event alloc c)"

definition create_dpms_event :: "bool \<Rightarrow> int \<Rightarrow> drm_evdi_event option" where
  "create_dpms_event alloc dmode = (if alloc then Some (Dpms dmode) else None)"

definition evdi_painter_send_dpms :: "reserve \<Rightarrow> bool \<Rightarrow> int \<Rightarrow> pw \<Rightarrow> pw" where
  "evdi_painter_send_dpms reserve alloc dmode = evdi_painter_send_event reserve (create_dpms_event alloc dmode)"

definition create_mode_changed_event :: "bool \<Rightarrow> drm_display_mode \<Rightarrow> int \<Rightarrow> u32 \<Rightarrow> drm_evdi_event option" where
  "create_mode_changed_event alloc current_mode bits_per_pixel format =
    (if alloc then Some (ModeChanged (uint (hdisplay current_mode)) (uint (vdisplay current_mode)) (vrefresh current_mode)
       bits_per_pixel format) else None)"

definition evdi_painter_send_mode_changed ::
    "reserve \<Rightarrow> bool \<Rightarrow> drm_display_mode \<Rightarrow> int \<Rightarrow> u32 \<Rightarrow> pw \<Rightarrow> pw" where
  "evdi_painter_send_mode_changed reserve alloc current_mode bits_per_pixel format =
    evdi_painter_send_event reserve (create_mode_changed_event alloc current_mode bits_per_pixel format)"

section \<open>Dirty rectangles\<close>

definition evdi_painter_get_num_dirts :: "evdi_painter option \<Rightarrow> nat" where
  "evdi_painter_get_num_dirts p = (case p of None \<Rightarrow> 0 | Some p \<Rightarrow> length (dirty_rects p))"

definition evdi_painter_framebuffer_size :: "evdi_painter option \<Rightarrow> drm_clip_rect" where
  "evdi_painter_framebuffer_size p =
    (case p of None \<Rightarrow> \<lparr>x1 = 0, y1 = 0, x2 = 0, y2 = 0\<rparr>
     | Some p \<Rightarrow> (case scanout_fb p of
          None \<Rightarrow> \<lparr>x1 = 0, y1 = 0, x2 = 0, y2 = 0\<rparr>
        | Some efb \<Rightarrow> \<lparr>x1 = 0, y1 = 0, x2 = ucast (fb_width efb), y2 = ucast (fb_height efb)\<rparr>))"

text \<open>A write at index \<^verbatim>\<open>num_dirts\<close> of the array of \<open>MAX_DIRTS\<close> rectangles.\<close>

definition append_dirty :: "drm_clip_rect \<Rightarrow> drm_clip_rect list \<Rightarrow> c_error + drm_clip_rect list" where
  "append_dirty rect dirts = (if length dirts < MAX_DIRTS then Inr (dirts @ [rect]) else Inl OutOfBounds)"

definition make_room :: "drm_clip_rect list \<Rightarrow> drm_clip_rect list" where
  "make_room dirts =
    (let dirts = (if length dirts = MAX_DIRTS then merge_dirty_rects dirts else dirts)
     in (if length dirts = MAX_DIRTS then collapse_dirty_rects dirts else dirts))"

definition mark_dirty :: "drm_clip_rect \<Rightarrow> evdi_painter \<Rightarrow> c_error + evdi_painter" where
  "mark_dirty dirty_rect p =
    (case scanout_fb p of None \<Rightarrow> Inr p
     | Some efb \<Rightarrow>
        ebind (append_dirty (evdi_framebuffer_sanitize_rect efb dirty_rect) (make_room (dirty_rects p))) (\<lambda>dirts.
        Inr (p\<lparr>dirty_rects := dirts\<rparr>)))"

definition evdi_painter_mark_dirty :: "drm_clip_rect \<Rightarrow> evdi_device \<Rightarrow> c_error + evdi_device" where
  "evdi_painter_mark_dirty dirty_rect evdi =
    (case painter evdi of None \<Rightarrow> Inr evdi
     | Some p \<Rightarrow> ebind (mark_dirty dirty_rect p) (\<lambda>p. Inr (evdi\<lparr>painter := Some p\<rparr>)))"

section \<open>Vertical blanks and update requests\<close>

definition evdi_send_vblank :: "nat option \<Rightarrow> nat option \<Rightarrow> drm_world \<Rightarrow> drm_world" where
  "evdi_send_vblank c v w =
    (case (c, v) of (Some c, Some v) \<Rightarrow> w\<lparr>vblanks_sent := vblanks_sent w @ [(c, v)]\<rparr> | _ \<Rightarrow> w)"

definition evdi_painter_send_vblank :: "pw \<Rightarrow> pw" where
  "evdi_painter_send_vblank = (\<lambda>(p, w).
    (p\<lparr>crtc := None, vblank := None\<rparr>, evdi_send_vblank (crtc p) (vblank p) w))"

definition evdi_painter_set_vblank :: "nat option \<Rightarrow> nat option \<Rightarrow> evdi_device \<Rightarrow> evdi_device" where
  "evdi_painter_set_vblank c v evdi =
    (case painter evdi of
       None \<Rightarrow> evdi\<lparr>drm := evdi_send_vblank c v (drm evdi)\<rparr>
     | Some p \<Rightarrow>
        let (p, w) = evdi_painter_send_vblank (p, drm evdi);
            (p, w) = (if 0 < length (dirty_rects p) \<and> is_connected p then (p\<lparr>crtc := c, vblank := v\<rparr>, w)
                      else (p, evdi_send_vblank c v w))
        in evdi\<lparr>painter := Some p, drm := w\<rparr>)"

text \<open>The build for kernels from 5.10 on: only when there is something to grab.\<close>

definition evdi_painter_send_update_ready_if_needed :: "reserve \<Rightarrow> bool \<Rightarrow> evdi_device \<Rightarrow> evdi_device" where
  "evdi_painter_send_update_ready_if_needed reserve alloc = with_painter (\<lambda>(p, w).
    (if was_update_requested p \<and> dirty_rects p \<noteq> []
     then let (p, w) = evdi_painter_send_update_ready reserve alloc (p, w)
          in (p\<lparr>was_update_requested := False\<rparr>, w)
     else (p, w)))"

definition evdi_painter_request_update_ioctl :: "evdi_device \<Rightarrow> int \<times> evdi_device" where
  "evdi_painter_request_update_ioctl evdi =
    (case painter evdi of None \<Rightarrow> (- ENODEV, evdi)
     | Some p \<Rightarrow>
        if was_update_requested p then (0, evdi)
        else if 0 < length (dirty_rects p) then (1, evdi)
        else (0, evdi\<lparr>painter := Some (p\<lparr>was_update_requested := True\<rparr>)\<rparr>))"

section \<open>Notifications\<close>

definition dpms_notify :: "reserve \<Rightarrow> bool \<Rightarrow> int \<Rightarrow> int \<Rightarrow> pw \<Rightarrow> pw" where
  "dpms_notify reserve alloc fg_console dmode = (\<lambda>(p, w).
    (if \<not> is_connected p then (p, w)
     else let p = (if dmode = 0 then p\<lparr>painter_fg_console := fg_console\<rparr> else p)
          in evdi_painter_send_dpms reserve alloc dmode (p, w)))"

definition evdi_painter_dpms_notify :: "reserve \<Rightarrow> bool \<Rightarrow> int \<Rightarrow> int \<Rightarrow> evdi_device \<Rightarrow> evdi_device" where
  "evdi_painter_dpms_notify reserve alloc fg_console dmode =
    with_painter (dpms_notify reserve alloc fg_console dmode)"

definition evdi_painter_mode_changed_notify :: "reserve \<Rightarrow> bool \<Rightarrow> drm_display_mode \<Rightarrow> evdi_device \<Rightarrow> evdi_device" where
  "evdi_painter_mode_changed_notify reserve alloc new_mode = with_painter (\<lambda>(p, w).
    (case scanout_fb p of None \<Rightarrow> (p, w)
     | Some fb \<Rightarrow>
        let (p, w) = evdi_painter_send_mode_changed reserve alloc new_mode (int (unat (fb_cpp fb)) * 8) (fb_format fb) (p, w)
        in (p\<lparr>needs_full_modeset := False\<rparr>, w)))"

definition evdi_painter_needs_full_modeset :: "evdi_painter option \<Rightarrow> bool" where
  "evdi_painter_needs_full_modeset p = (case p of Some p \<Rightarrow> needs_full_modeset p | None \<Rightarrow> False)"

definition evdi_painter_force_full_modeset :: "evdi_painter option \<Rightarrow> evdi_painter option" where
  "evdi_painter_force_full_modeset p = map_option (\<lambda>p. p\<lparr>needs_full_modeset := True\<rparr>) p"

definition DRM_MODE_DPMS_OFF :: int where "DRM_MODE_DPMS_OFF = 3"

definition evdi_painter_vt_notifier_call :: "reserve \<Rightarrow> bool \<Rightarrow> int \<Rightarrow> pw \<Rightarrow> pw" where
  "evdi_painter_vt_notifier_call reserve alloc fg_console = (\<lambda>(p, w).
    (if is_connected p \<and> fg_console \<noteq> painter_fg_console p \<and> \<not> needs_full_modeset p
     then let (p, w) = dpms_notify reserve alloc fg_console DRM_MODE_DPMS_OFF (p, w)
          in (p\<lparr>needs_full_modeset := True\<rparr>, w)
     else (p, w)))"

section \<open>Connection\<close>

definition evdi_painter_events_cleanup :: "evdi_painter \<Rightarrow> evdi_painter" where
  "evdi_painter_events_cleanup p = p\<lparr>pending_events := [], work_pending := False\<rparr>"

definition drm_helper_hpd_irq_event :: "evdi_device \<Rightarrow> evdi_device" where
  "drm_helper_hpd_irq_event evdi = evdi\<lparr>drm := (drm evdi)\<lparr>hpd_irqs := hpd_irqs (drm evdi) + 1\<rparr>\<rparr>"

definition sizeof_edid :: nat where "sizeof_edid = 128"
definition MAX_EDID_SIZE :: nat where "MAX_EDID_SIZE = 255 * 128 + 128"

text \<open>
  \<open>edid_data\<close> is what \<^verbatim>\<open>copy_from_user\<close> yields, \<open>None\<close> when it faults; \<open>add_i2c\<close> says whether the adapter can be
  allocated and added.
\<close>

definition evdi_painter_connect ::
    "bool \<Rightarrow> bool \<Rightarrow> bytes option \<Rightarrow> nat \<Rightarrow> u32 \<Rightarrow> u32 \<Rightarrow> nat \<Rightarrow> evdi_painter \<Rightarrow> evdi_device \<Rightarrow> int \<times> evdi_device" where
  "evdi_painter_connect alloc add_i2c edid_data len area_limit second_limit file p evdi =
    (if len < sizeof_edid then (- EINVAL, evdi)
     else if MAX_EDID_SIZE < len then (- EINVAL, evdi)
     else if \<not> alloc then (- ENOMEM, evdi)
     else case edid_data of
       None \<Rightarrow> (- EFAULT, evdi)
     | Some new_edid \<Rightarrow>
        (let p = p\<lparr>drm_filp := Some file, edid_length := len, painter_edid := Some new_edid,
                   is_connected := True, needs_full_modeset := True\<rparr>;
             evdi = evdi\<lparr>pixel_area_limit := area_limit, pixel_per_second_limit := second_limit,
                         painter := Some p,
                         i2c_adapter := i2c_adapter evdi \<or> add_i2c\<rparr>
         in (0, drm_helper_hpd_irq_event evdi)))"

definition evdi_painter_disconnect :: "nat \<Rightarrow> evdi_painter \<Rightarrow> evdi_device \<Rightarrow> int \<times> evdi_device" where
  "evdi_painter_disconnect file p evdi =
    (if drm_filp p \<noteq> Some file then (- EFAULT, evdi)
     else
       let w = (case scanout_fb p of Some efb \<Rightarrow> drm_framebuffer_put efb (drm evdi) | None \<Rightarrow> drm evdi);
           p = p\<lparr>scanout_fb := None, is_connected := False\<rparr>;
           p = evdi_painter_events_cleanup p;
           (p, w) = evdi_painter_send_vblank (p, w);
           (c, r) = evdi_cursor_enable False (cursor evdi, gem_refs evdi);
           p = p\<lparr>ddcci_buffer := None, ddcci_buffer_length := 0, drm_filp := None,
                 was_update_requested := False, ddcci_response_received := ddcci_response_received p + 1\<rparr>
       in (0, drm_helper_hpd_irq_event
                (evdi\<lparr>painter := Some p, drm := w, cursor := c, gem_refs := r, i2c_adapter := False,
                      cursor_events_enabled := False\<rparr>)))"

definition evdi_painter_close :: "nat \<Rightarrow> evdi_device \<Rightarrow> evdi_device" where
  "evdi_painter_close file evdi =
    (case painter evdi of None \<Rightarrow> evdi
     | Some p \<Rightarrow> if drm_filp p = Some file then snd (evdi_painter_disconnect file p evdi) else evdi)"

record drm_evdi_connect =
  connected :: bool
  cmd_edid :: "bytes option"
  cmd_edid_length :: nat
  cmd_area_limit :: u32
  cmd_second_limit :: u32

definition evdi_painter_connect_ioctl ::
    "bool \<Rightarrow> bool \<Rightarrow> drm_evdi_connect \<Rightarrow> nat \<Rightarrow> evdi_device \<Rightarrow> int \<times> evdi_device" where
  "evdi_painter_connect_ioctl alloc add_i2c cmd file evdi =
    (case painter evdi of None \<Rightarrow> (- ENODEV, evdi)
     | Some p \<Rightarrow>
        if connected cmd
        then evdi_painter_connect alloc add_i2c (cmd_edid cmd) (cmd_edid_length cmd) (cmd_area_limit cmd)
               (cmd_second_limit cmd) file p evdi
        else evdi_painter_disconnect file p evdi)"

definition evdi_painter_zero :: evdi_painter where
  "evdi_painter_zero = \<lparr>is_connected = False, painter_edid = None, edid_length = 0, dirty_rects = [],
     scanout_fb = None, drm_filp = None, has_drm_device = False, was_update_requested = False,
     needs_full_modeset = False, crtc = None, vblank = None, pending_events = [], work_pending = False,
     ddcci_response_received = 0, ddcci_buffer = None, ddcci_buffer_length = 0, painter_fg_console = 0\<rparr>"

definition evdi_painter_init :: "bool \<Rightarrow> evdi_device \<Rightarrow> int \<times> evdi_device" where
  "evdi_painter_init alloc evdi =
    (if alloc
     then (0, evdi\<lparr>painter := Some (evdi_painter_zero\<lparr>needs_full_modeset := True, has_drm_device := True\<rparr>)\<rparr>)
     else (- ENOMEM, evdi\<lparr>painter := None\<rparr>))"

text \<open>The painter is freed: what is left of it is its effect on the world.\<close>

definition evdi_painter_cleanup :: "evdi_device \<Rightarrow> evdi_device" where
  "evdi_painter_cleanup evdi =
    (case painter evdi of None \<Rightarrow> evdi
     | Some p \<Rightarrow>
        let p = p\<lparr>edid_length := 0, painter_edid := None\<rparr>;
            w = (case scanout_fb p of Some efb \<Rightarrow> drm_framebuffer_put efb (drm evdi) | None \<Rightarrow> drm evdi);
            (p, w) = evdi_painter_send_vblank (p\<lparr>scanout_fb := None\<rparr>, w)
        in evdi\<lparr>painter := None, drm := w\<rparr>)"

text \<open>It takes the new reference before it locks the painter, without looking whether there is one.\<close>

definition evdi_painter_set_scanout_buffer :: "evdi_framebuffer option \<Rightarrow> evdi_device \<Rightarrow> c_error + evdi_device" where
  "evdi_painter_set_scanout_buffer newfb evdi =
    (let w = (case newfb of Some efb \<Rightarrow> drm_framebuffer_get efb (drm evdi) | None \<Rightarrow> drm evdi)
     in case painter evdi of None \<Rightarrow> Inl NullDeref
      | Some p \<Rightarrow>
          let oldfb = scanout_fb p;
              w = (case oldfb of Some efb \<Rightarrow> drm_framebuffer_put efb w | None \<Rightarrow> w)
          in Inr (evdi\<lparr>painter := Some (p\<lparr>scanout_fb := newfb\<rparr>), drm := w\<rparr>))"

section \<open>Grabbing pixels\<close>

text \<open>
  The rows of a rectangle, \<open>n\<close> of them: source and destination advance by their strides. The number of
  bytes is an \<^verbatim>\<open>int\<close> passed as a size, so a negative one cannot be read.
\<close>

fun copy_rows ::
    "uaccess \<Rightarrow> bytes \<Rightarrow> int \<Rightarrow> int \<Rightarrow> int \<Rightarrow> nat \<Rightarrow> int \<Rightarrow> int \<Rightarrow> user_mem \<Rightarrow> c_error + (int \<times> user_mem)" where
  "copy_rows nc vm byte_span pitch buf_byte_stride 0 src dst mem = Inr (0, mem)"
| "copy_rows nc vm byte_span pitch buf_byte_stride (Suc n) src dst mem =
    ebind (vm_read vm src byte_span) (\<lambda>row.
      let (k, mem) = copy_to_user nc dst row mem
      in if k \<noteq> 0 then Inr (- EFAULT, mem)
         else copy_rows nc vm byte_span pitch buf_byte_stride n (src + pitch) (dst + buf_byte_stride) mem)"

fun copy_rects ::
    "uaccess \<Rightarrow> evdi_framebuffer \<Rightarrow> bytes \<Rightarrow> int \<Rightarrow> int \<Rightarrow> int \<Rightarrow> drm_clip_rect list \<Rightarrow> user_mem \<Rightarrow> c_error + (int \<times> user_mem)" where
  "copy_rects nc fb vm buf_byte_stride max_x max_y [] mem = Inr (0, mem)"
| "copy_rects nc fb vm buf_byte_stride max_x max_y (r # rects) mem =
    (let byte_offset = uint (x1 r) * 4;
         byte_span = (uint (x2 r) - uint (x1 r)) * 4;
         src_offset = c_int (uint (fb_offset fb) + uint (fb_pitch fb) * uint (y1 r) + byte_offset);
         dst_offset = c_int (buf_byte_stride * uint (y1 r) + byte_offset);
         y = uint (y2 r) - uint (y1 r)
     in if max_x < uint (x2 r) \<or> max_y < uint (y2 r) then Inr (- EFAULT, mem)
        else ebind (copy_rows nc vm byte_span (uint (fb_pitch fb)) buf_byte_stride (nat y) src_offset dst_offset mem)
          (\<lambda>(err, mem). if err \<noteq> 0 then Inr (err, mem)
            else copy_rects nc fb vm buf_byte_stride max_x max_y rects mem))"

text \<open>
  The variant for buffers of the \<^verbatim>\<open>xe\<close> driver copies the whole frame through a block of \<^verbatim>\<open>vmalloc\<close>; the last
  component of its result is the number of blocks not freed. \<open>valloc\<close> says whether \<^verbatim>\<open>vmalloc\<close> succeeds.
\<close>

fun copy_rows_on_xe ::
    "uaccess \<Rightarrow> evdi_framebuffer \<Rightarrow> bytes \<Rightarrow> int \<Rightarrow> int \<Rightarrow> nat \<Rightarrow> nat \<Rightarrow> user_mem \<Rightarrow> c_error + (int \<times> user_mem)" where
  "copy_rows_on_xe nc fb vm buf_byte_stride byte_span y 0 mem = Inr (0, mem)"
| "copy_rows_on_xe nc fb vm buf_byte_stride byte_span y (Suc n) mem =
    ebind (vm_read vm (c_int (uint (fb_offset fb) + uint (fb_pitch fb) * int y)) byte_span) (\<lambda>row.
      let (k, mem) = copy_to_user nc (c_int (buf_byte_stride * int y)) row mem
      in if k \<noteq> 0 then Inr (- EFAULT, mem)
         else copy_rows_on_xe nc fb vm buf_byte_stride byte_span (y + 1) n mem)"

definition copy_primary_pixels_on_xe ::
    "bool \<Rightarrow> uaccess \<Rightarrow> evdi_framebuffer \<Rightarrow> bytes \<Rightarrow> int \<Rightarrow> int \<Rightarrow> int \<Rightarrow> user_mem \<Rightarrow> c_error + (int \<times> user_mem \<times> nat)" where
  "copy_primary_pixels_on_xe valloc nc fb vm buf_byte_stride max_x max_y mem =
    (let byte_span = c_int (max_x * 4)
     in if \<not> valloc \<and> 0 < max_y \<and> byte_span \<noteq> 0 then Inl NullDeref
        else ebind (copy_rows_on_xe nc fb vm buf_byte_stride byte_span 0 (nat max_y) mem) (\<lambda>(err, mem).
          Inr (err, mem, if err \<noteq> 0 \<and> valloc then 1 else 0)))"

definition copy_primary_pixels ::
    "bool \<Rightarrow> uaccess \<Rightarrow> evdi_framebuffer \<Rightarrow> bytes \<Rightarrow> int \<Rightarrow> drm_clip_rect list \<Rightarrow> int \<Rightarrow> int \<Rightarrow> user_mem \<Rightarrow>
     c_error + (int \<times> user_mem \<times> nat)" where
  "copy_primary_pixels valloc nc fb vm buf_byte_stride rects max_x max_y mem =
    (if is_from_xe fb then copy_primary_pixels_on_xe valloc nc fb vm buf_byte_stride max_x max_y mem
     else ebind (copy_rects nc fb vm buf_byte_stride max_x max_y rects mem) (\<lambda>(err, mem). Inr (err, mem, 0)))"

definition copy_cursor_pixels ::
    "uaccess \<Rightarrow> nat \<Rightarrow> evdi_framebuffer \<Rightarrow> bytes \<Rightarrow> int \<Rightarrow> evdi_cursor \<Rightarrow> user_mem \<Rightarrow> c_error + user_mem" where
  "copy_cursor_pixels nc bpp efb vm buf_byte_stride c mem =
    ebind (evdi_cursor_compose_and_copy nc bpp c efb vm buf_byte_stride mem) (\<lambda>(err, mem). Inr mem)"

text \<open>
  The request of the daemon. \<open>rects\<close> is the caller's array, \<open>None\<close> until it is written. The environment:
  what \<^verbatim>\<open>evdi_gem_vmap\<close> answers and leaves mapped, whether the array can be written, what beginning CPU
  access to an imported buffer answers, the user accesses of the pixels and of the cursor, and the bits
  per pixel of the cursor's format.
\<close>

record drm_evdi_grabpix =
  grab_mode :: nat
  buf_width :: int
  buf_height :: int
  buf_byte_stride :: int
  user_buffer :: user_mem
  num_rects :: int
  rects :: "drm_clip_rect list option"

record grab_env =
  env_vmap :: "int \<times> bytes option"
  env_rects_fault :: bool
  env_begin_access :: int
  env_valloc :: bool
  env_nc :: uaccess
  env_cursor_nc :: uaccess
  env_cursor_bpp :: nat

definition EVDI_GRABPIX_MODE_DIRTY :: nat where "EVDI_GRABPIX_MODE_DIRTY = 1"

text \<open>
  The part after the painter's lock is released, up to the label \<^verbatim>\<open>err_fb\<close>: the code, the request, and the
  blocks not freed.
\<close>

definition grab_pixels ::
    "grab_env \<Rightarrow> evdi_device \<Rightarrow> evdi_framebuffer \<Rightarrow> bytes option \<Rightarrow> drm_clip_rect list \<Rightarrow> drm_evdi_grabpix \<Rightarrow>
     c_error + (int \<times> drm_evdi_grabpix \<times> nat)" where
  "grab_pixels env evdi efb mapping dirts cmd =
    (case mapping of None \<Rightarrow> Inr (- EFAULT, cmd, 0)
     | Some vm \<Rightarrow>
        if word_of_int (buf_width cmd) \<noteq> fb_width efb \<or> word_of_int (buf_height cmd) \<noteq> fb_height efb
        then Inr (- EINVAL, cmd, 0)
        else if env_rects_fault env then Inr (- EFAULT, cmd, 0)
        else
          let cmd = cmd\<lparr>rects := Some dirts\<rparr>
          in if import_attach (fb_obj efb) \<and> env_begin_access env \<noteq> 0 then Inr (- EFAULT, cmd, 0)
             else ebind (copy_primary_pixels (env_valloc env) (env_nc env) efb vm (buf_byte_stride cmd) dirts
                           (buf_width cmd) (buf_height cmd) (user_buffer cmd)) (\<lambda>(err, mem, leak).
               if err = 0 \<and> \<not> cursor_events_enabled evdi
               then ebind (copy_cursor_pixels (env_cursor_nc env) (env_cursor_bpp env) efb vm (buf_byte_stride cmd)
                             (cursor evdi) mem) (\<lambda>mem. Inr (err, cmd\<lparr>user_buffer := mem\<rparr>, leak))
               else Inr (err, cmd\<lparr>user_buffer := mem\<rparr>, leak)))"

text \<open>The rectangles handed out: merged, and collapsed when the caller has too little room.\<close>

definition grab_dirts :: "int \<Rightarrow> drm_clip_rect list \<Rightarrow> drm_clip_rect list" where
  "grab_dirts n dirts =
    (let dirts = merge_dirty_rects dirts
     in if n < int (length dirts) then collapse_dirty_rects dirts else dirts)"

definition evdi_painter_grabpix_ioctl ::
    "grab_env \<Rightarrow> drm_evdi_grabpix \<Rightarrow> evdi_device \<Rightarrow> c_error + (int \<times> drm_evdi_grabpix \<times> evdi_device)" where
  "evdi_painter_grabpix_ioctl env cmd evdi =
    (if grab_mode cmd \<noteq> EVDI_GRABPIX_MODE_DIRTY then Inr (- EINVAL, cmd, evdi)
     else if num_rects cmd < 1 then Inr (- EINVAL, cmd, evdi)
     else case painter evdi of None \<Rightarrow> Inr (- ENODEV, cmd, evdi)
     | Some p \<Rightarrow>
        let dirts = grab_dirts (num_rects cmd) (dirty_rects p);
            p = p\<lparr>dirty_rects := dirts\<rparr>;
            cmd = cmd\<lparr>num_rects := int (length dirts)\<rparr>
        in case scanout_fb p of
          None \<Rightarrow> Inr (- EAGAIN, cmd, evdi\<lparr>painter := Some p\<rparr>)
        | Some efb \<Rightarrow>
            let w = drm_framebuffer_get efb (drm evdi);
                c = crtc p; v = vblank p;
                p = p\<lparr>dirty_rects := [], crtc := None, vblank := None\<rparr>;
                mapping = (case vmapping (fb_obj efb) of Some vm \<Rightarrow> Some vm
                           | None \<Rightarrow> if fst (env_vmap env) = - ENOMEM then None else snd (env_vmap env));
                efb = efb\<lparr>fb_obj := (fb_obj efb)\<lparr>vmapping := mapping\<rparr>\<rparr>;
                p = p\<lparr>scanout_fb := Some efb\<rparr>
            in ebind (grab_pixels env evdi efb mapping dirts cmd) (\<lambda>(err, cmd, leak).
                 let w = evdi_send_vblank c v w;
                     w = drm_framebuffer_put efb w;
                     w = w\<lparr>vmalloc_live := vmalloc_live w + leak\<rparr>
                 in Inr (err, cmd, evdi\<lparr>painter := Some p, drm := w\<rparr>)))"

section \<open>DDC/CI\<close>

record i2c_msg =
  msg_addr :: u16
  msg_flags :: u16
  msg_len :: u16
  msg_buf :: bytes

definition I2C_ADDRESS_DDCCI :: u16 where "I2C_ADDRESS_DDCCI = 0x37"
definition DDCCI_BUFFER_SIZE :: nat where "DDCCI_BUFFER_SIZE = 64"

text \<open>The message has a buffer of at least the length it announces.\<close>

definition create_ddcci_data_event :: "bool \<Rightarrow> i2c_msg \<Rightarrow> drm_evdi_event option" where
  "create_ddcci_data_event alloc msg =
    (if \<not> alloc then None
     else let len = min (unat (msg_len msg)) DDCCI_BUFFER_SIZE
       in Some (DdcciData (write_bytes (replicate DDCCI_BUFFER_SIZE 0) 0 (take len (msg_buf msg)))
                  (word_of_nat len) (msg_flags msg) (msg_addr msg)))"

text \<open>
  \<open>wait\<close> is what happens while the caller sleeps: other operations on the painter, and whether the
  completion came before the timeout.
\<close>

definition evdi_painter_ddcci_data ::
    "reserve \<Rightarrow> bool \<Rightarrow> (pw \<Rightarrow> bool \<times> pw) \<Rightarrow> i2c_msg \<Rightarrow> pw \<Rightarrow> i2c_msg \<times> pw" where
  "evdi_painter_ddcci_data reserve alloc wait msg = (\<lambda>(p, w).
    (let event = create_ddcci_data_event alloc msg;
         p = p\<lparr>ddcci_response_received := 0\<rparr>;
         (completed, p, w) = wait (evdi_painter_send_event reserve event (p, w))
     in if \<not> completed then (msg, p, w)
        else let expected_response_length = min (unat (msg_len msg)) DDCCI_BUFFER_SIZE
          in if expected_response_length \<noteq> unat (ddcci_buffer_length p) then (msg, p, w)
             else case ddcci_buffer p of
               Some b \<Rightarrow> (msg\<lparr>msg_buf := write_bytes (msg_buf msg) 0 (take (unat (ddcci_buffer_length p)) b)\<rparr>, p, w)
             | None \<Rightarrow> (msg, p, w)))"

definition evdi_painter_i2c_data_notify ::
    "reserve \<Rightarrow> bool \<Rightarrow> (pw \<Rightarrow> bool \<times> pw) \<Rightarrow> i2c_msg option \<Rightarrow> evdi_painter option \<times> drm_world \<Rightarrow>
     bool \<times> i2c_msg option \<times> evdi_painter option \<times> drm_world" where
  "evdi_painter_i2c_data_notify reserve alloc wait msg = (\<lambda>(p, w).
    (case p of None \<Rightarrow> (False, msg, p, w)
     | Some p' \<Rightarrow>
        if \<not> evdi_painter_is_connected p then (False, msg, p, w)
        else case msg of None \<Rightarrow> (False, msg, p, w)
        | Some m \<Rightarrow>
            if msg_addr m \<noteq> I2C_ADDRESS_DDCCI then (False, msg, p, w)
            else let (m, p', w) = evdi_painter_ddcci_data reserve alloc wait m (p', w)
                 in (True, Some m, Some p', w)))"

text \<open>\<open>data\<close> is what \<^verbatim>\<open>copy_from_user\<close> yields for the truncated length. The painter is not checked.\<close>

definition evdi_painter_ddcci_response_ioctl ::
    "bool \<Rightarrow> (nat \<Rightarrow> bytes option) \<Rightarrow> u32 \<Rightarrow> evdi_device \<Rightarrow> c_error + (int \<times> evdi_device)" where
  "evdi_painter_ddcci_response_ioctl alloc data len evdi =
    (case painter evdi of None \<Rightarrow> Inl NullDeref
     | Some p \<Rightarrow>
        let p = p\<lparr>ddcci_buffer_length := min len (word_of_nat DDCCI_BUFFER_SIZE), ddcci_buffer := None\<rparr>
        in if \<not> alloc then Inr (- ENOMEM, evdi\<lparr>painter := Some p\<rparr>)
           else case data (unat (ddcci_buffer_length p)) of
             None \<Rightarrow> Inr (- EFAULT, evdi\<lparr>painter := Some p\<rparr>)
           | Some b \<Rightarrow>
               Inr (0, evdi\<lparr>painter := Some (p\<lparr>ddcci_buffer := Some b,
                        ddcci_response_received := ddcci_response_received p + 1\<rparr>)\<rparr>))"

definition evdi_painter_enable_cursor_events_ioctl :: "bool \<Rightarrow> evdi_device \<Rightarrow> int \<times> evdi_device" where
  "evdi_painter_enable_cursor_events_ioctl enable evdi = (0, evdi\<lparr>cursor_events_enabled := enable\<rparr>)"

end
