(* ===== verification/PainterDirty.thy ===== *)
theory PainterDirty
  imports EvdiPainter
begin

text \<open>
  Correctness of the painter's dirty rectangles: no marked pixel is forgotten before it is handed to
  the daemon, the array is never overrun, and a successful grab leaves in the caller's buffer the
  framebuffer's pixels wherever something was dirty. The lemmas on the two reductions are those of
  the contract \<open>rect_compactor\<close>.
\<close>

section \<open>Making room and reducing\<close>

lemma make_room_covers: "covered dirts p \<Longrightarrow> covered (make_room dirts) p"
  unfolding make_room_def Let_def
  by (intro collapse.guarded_covers merge.guarded_covers) (auto simp: MAX_DIRTS_def)

lemma make_room_closed:
  "expand_closed P \<Longrightarrow> \<forall>r\<in>set dirts. P r \<Longrightarrow> \<forall>r\<in>set (make_room dirts). P r"
  unfolding make_room_def Let_def
  by (intro collapse.guarded_closed merge.guarded_closed) (auto simp: MAX_DIRTS_def)

lemma make_room_length: "length dirts \<le> MAX_DIRTS \<Longrightarrow> length (make_room dirts) < MAX_DIRTS"
  using merge.length_law [of dirts]
  by (cases "dirts = []") (auto simp: make_room_def Let_def MAX_DIRTS_def collapse_dirty_rects_def)

lemma grab_dirts_covers: "covered dirts p \<Longrightarrow> covered (grab_dirts n dirts) p"
proof -
  assume c: "covered dirts p"
  then have "dirts \<noteq> []" by (auto simp: covered_def)
  then have "covered (merge_dirty_rects dirts) p" "merge_dirty_rects dirts \<noteq> []"
    using c merge.covers_law merge.nonempty_law by blast+
  then show ?thesis unfolding grab_dirts_def Let_def by (intro collapse.guarded_covers) auto
qed

lemma grab_dirts_closed:
  "expand_closed P \<Longrightarrow> 1 \<le> n \<Longrightarrow> \<forall>r\<in>set dirts. P r \<Longrightarrow> \<forall>r\<in>set (grab_dirts n dirts). P r"
  unfolding grab_dirts_def Let_def using merge.closed_law [of dirts P]
  by (intro collapse.guarded_closed) (cases "dirts = []"; auto)+

lemma grab_dirts_length:
  assumes "1 \<le> n" shows "int (length (grab_dirts n dirts)) \<le> n" "length (grab_dirts n dirts) \<le> length dirts"
proof -
  have m: "length (merge_dirty_rects dirts) \<le> length dirts"
    using merge.length_law [of dirts] by (cases "dirts = []") auto
  show "int (length (grab_dirts n dirts)) \<le> n"
    using assms by (simp add: grab_dirts_def Let_def collapse_dirty_rects_def)
  show "length (grab_dirts n dirts) \<le> length dirts"
    using assms m by (auto simp: grab_dirts_def Let_def collapse_dirty_rects_def)
qed

lemma grab_dirts_Nil: "1 \<le> n \<Longrightarrow> grab_dirts n dirts = [] \<longleftrightarrow> dirts = []"
  using merge.nonempty_law [of dirts] by (auto simp: grab_dirts_def Let_def collapse_dirty_rects_def)

section \<open>Marking\<close>

definition painter_dirty :: "evdi_device \<Rightarrow> drm_clip_rect list" where
  "painter_dirty evdi = (case painter evdi of Some p \<Rightarrow> dirty_rects p | None \<Rightarrow> [])"

lemma mark_dirty_eq:
  assumes "length (dirty_rects p) \<le> MAX_DIRTS"
  shows "mark_dirty r p = Inr (case scanout_fb p of None \<Rightarrow> p
    | Some efb \<Rightarrow> p\<lparr>dirty_rects := make_room (dirty_rects p) @ [evdi_framebuffer_sanitize_rect efb r]\<rparr>)"
  using make_room_length [OF assms] by (simp add: mark_dirty_def append_dirty_def split: option.splits)

text \<open>
  C3: Marking a rectangle dirty never writes past the array of 16 rectangles, for any history of
  marks: with at most 16 rectangles before, there are at most 16 after. No pixel that was dirty is
  forgotten, although the list may be merged or collapsed to make room, and with a scanout buffer every
  pixel of the new rectangle that lies in the buffer is dirty afterwards; all rectangles stay well formed.
\<close>

theorem mark_dirty_sound:
  assumes "painter evdi = Some p" "length (dirty_rects p) \<le> MAX_DIRTS" "\<forall>r\<in>set (dirty_rects p). rect_wf r"
  shows "\<exists>evdi'. evdi_painter_mark_dirty r evdi = Inr evdi' \<and>
    length (painter_dirty evdi') \<le> MAX_DIRTS \<and> (\<forall>r\<in>set (painter_dirty evdi'). rect_wf r) \<and>
    (\<forall>px. covered (dirty_rects p) px \<longrightarrow> covered (painter_dirty evdi') px) \<and>
    (\<forall>efb px. scanout_fb p = Some efb \<and> rect_wf r \<and> in_rect r px \<and>
       unat (fst px) < unat (fb_width efb) \<and> unat (snd px) < unat (fb_height efb) \<longrightarrow>
       covered (painter_dirty evdi') px)"
proof (cases "scanout_fb p")
  case None
  then show ?thesis
    using assms by (simp add: evdi_painter_mark_dirty_def mark_dirty_def painter_dirty_def)
next
  case (Some efb)
  let ?dirts = "make_room (dirty_rects p) @ [evdi_framebuffer_sanitize_rect efb r]"
  have "evdi_painter_mark_dirty r evdi = Inr (evdi\<lparr>painter := Some (p\<lparr>dirty_rects := ?dirts\<rparr>)\<rparr>)"
    using assms Some by (simp add: evdi_painter_mark_dirty_def mark_dirty_eq)
  moreover have "length ?dirts \<le> MAX_DIRTS" using make_room_length [OF assms(2)] by simp
  moreover have "\<forall>r\<in>set ?dirts. rect_wf r"
    using make_room_closed [OF rect_wf_closed assms(3)] rect_ok_wf [OF sanitize_ok] by simp
  moreover have "covered ?dirts px" if "covered (dirty_rects p) px" for px
    using make_room_covers [OF that] by simp
  moreover have "covered ?dirts px" if "rect_wf r" "in_rect r px"
    "unat (fst px) < unat (fb_width efb)" "unat (snd px) < unat (fb_height efb)" for px
    using that sanitize_in [of r efb px] by (simp add: rect_wf_def)
  ultimately show ?thesis using Some by (simp add: painter_dirty_def)
qed

definition demo_gem :: evdi_gem_object where
  "demo_gem = \<lparr>obj_size = 24, vmapping = Some (map word_of_nat [0..<24]), import_attach = False\<rparr>"

definition demo_fb :: evdi_framebuffer where
  "demo_fb = \<lparr>fb_id = 1, fb_width = 3, fb_height = 2, fb_pitch = 12, fb_offset = 0, fb_cpp = 4,
     fb_format = 0x34325258, fb_obj = demo_gem, fb_active = True, is_from_xe = False\<rparr>"

definition demo_world :: drm_world where
  "demo_world = \<lparr>events_sent = [], vblanks_sent = [], fb_refs = (\<lambda>_. 1), hpd_irqs = 0, vmalloc_live = 0\<rparr>"

text \<open>A connected device with a scanout buffer and the rectangles \<open>dirts\<close>.\<close>

definition demo_device :: "drm_clip_rect list \<Rightarrow> evdi_device" where
  "demo_device dirts = \<lparr>painter = Some (evdi_painter_zero\<lparr>is_connected := True, drm_filp := Some 5,
      has_drm_device := True, scanout_fb := Some demo_fb, dirty_rects := dirts,
      painter_edid := Some (replicate 128 0), edid_length := 128\<rparr>),
     cursor = evdi_cursor_zero, gem_refs = (\<lambda>_. 0), cursor_events_enabled = True, pixel_area_limit = 0,
     pixel_per_second_limit = 0, i2c_adapter = True, drm = demo_world\<rparr>"

theorem mark_dirty_sound_witness:
  "\<exists>evdi'. evdi_painter_mark_dirty \<lparr>x1 = 0, y1 = 0, x2 = 2, y2 = 9\<rparr>
      (demo_device (replicate 16 \<lparr>x1 = 0, y1 = 0, x2 = 1, y2 = 1\<rparr>)) = Inr evdi' \<and>
    length (painter_dirty evdi') \<le> MAX_DIRTS \<and> covered (painter_dirty evdi') (0, 0) \<and>
    covered (painter_dirty evdi') (1, 1)"
  using mark_dirty_sound [where evdi = "demo_device (replicate 16 \<lparr>x1 = 0, y1 = 0, x2 = 1, y2 = 1\<rparr>)"
      and r = "\<lparr>x1 = 0, y1 = 0, x2 = 2, y2 = 9\<rparr>", OF _ _ _]
  by (fastforce simp: demo_device_def demo_fb_def MAX_DIRTS_def rect_wf_def in_rect_def covered_def)

section \<open>Copying\<close>

text \<open>\<open>copied\<close>: pixel \<open>(x, y)\<close> of the caller's buffer holds the framebuffer's pixel.\<close>

definition copied :: "evdi_framebuffer \<Rightarrow> bytes \<Rightarrow> int \<Rightarrow> user_mem \<Rightarrow> int \<Rightarrow> int \<Rightarrow> bool" where
  "copied efb vm s mem x y \<longleftrightarrow> (\<forall>i<4. mem (s * y + 4 * x + int i) = fb_pixel efb vm x y ! i)"

definition same_pixel :: "int \<Rightarrow> user_mem \<Rightarrow> user_mem \<Rightarrow> int \<Rightarrow> int \<Rightarrow> bool" where
  "same_pixel s mem mem' x y \<longleftrightarrow> (\<forall>i<4. mem' (s * y + 4 * x + int i) = mem (s * y + 4 * x + int i))"

lemma copied_same: "same_pixel s mem mem' x y \<Longrightarrow> copied efb vm s mem' x y \<longleftrightarrow> copied efb vm s mem x y"
  by (simp add: copied_def same_pixel_def)

lemma same_pixel_trans:
  "same_pixel s a b x y \<Longrightarrow> same_pixel s b c x y \<Longrightarrow> same_pixel s a c x y"
  by (simp add: same_pixel_def)

text \<open>One row.\<close>

lemma row_read:
  assumes "fb_mapped efb vm" "0 \<le> a" "a \<le> b" "b \<le> uint (fb_width efb)" "0 \<le> y" "y < uint (fb_height efb)"
  obtains row where "vm_read vm (uint (fb_offset efb) + uint (fb_pitch efb) * y + a * 4) ((b - a) * 4) = Inr row"
    "int (length row) = (b - a) * 4"
    "\<And>x i. a \<le> x \<Longrightarrow> x < b \<Longrightarrow> i < 4 \<Longrightarrow> row ! nat (4 * (x - a) + int i) = fb_pixel efb vm x y ! i"
proof -
  let ?off = "uint (fb_offset efb) + uint (fb_pitch efb) * y"
  have b: "?off + b * 4 \<le> int (length vm)" "0 \<le> uint (fb_pitch efb) * y" "0 \<le> uint (fb_offset efb)"
    using row_offset_le [of y "uint (fb_height efb)" "b - 1" "uint (fb_width efb)" "uint (fb_pitch efb)"] assms
    by (auto simp: fb_mapped_def)
  then obtain row where row: "vm_read vm (?off + a * 4) ((b - a) * 4) = Inr row"
    using assms(2,3) by (simp add: vm_read_def)
  show ?thesis
  proof (rule that [OF row vm_read_length [OF row]])
    fix x i assume x: "a \<le> x" "x < b" "i < (4 :: nat)"
    have "row ! nat (4 * (x - a) + int i) = vm ! nat (?off + a * 4 + int (nat (4 * (x - a) + int i)))"
      using vm_read_nth [OF row] x by simp
    also have "?off + a * 4 + int (nat (4 * (x - a) + int i)) = ?off + 4 * x + int i"
      using x by simp
    also have "vm ! nat (?off + 4 * x + int i) = fb_pixel efb vm x y ! i"
    proof -
      have "0 \<le> ?off + 4 * x" "?off + 4 * x + 4 \<le> int (length vm)" using b x assms(2) by linarith+
      then show ?thesis using x by (simp add: fb_pixel_def nat_add_distrib)
    qed
    finally show "row ! nat (4 * (x - a) + int i) = fb_pixel efb vm x y ! i" .
  qed
qed

lemma row_written:
  assumes "4 * w \<le> s" "0 \<le> a" "a \<le> b" "b \<le> w" "int (length row) = (b - a) * 4"
    and row: "\<And>x i. a \<le> x \<Longrightarrow> x < b \<Longrightarrow> i < 4 \<Longrightarrow> row ! nat (4 * (x - a) + int i) = fb_pixel efb vm x y0 ! i"
    and x: "0 \<le> x" "x < w"
  shows "if y = y0 \<and> a \<le> x \<and> x < b then copied efb vm s (user_write (s * y0 + a * 4) row mem) x y
         else same_pixel s mem (user_write (s * y0 + a * 4) row mem) x y"
proof -
  have iff: "s * y0 + a * 4 \<le> s * y + 4 * x + int i \<and> s * y + 4 * x + int i < s * y0 + a * 4 + int (length row) \<longleftrightarrow>
      y = y0 \<and> a \<le> x \<and> x < b" if "i < 4" for i
    using row_offset_eq [of w s x a b "int i" y0 y] assms that by (simp add: algebra_simps)
  have ix: "nat (s * y0 + 4 * x + int i - (s * y0 + a * 4)) = nat (4 * (x - a) + int i)" for i
    by (simp add: algebra_simps)
  show ?thesis
    unfolding copied_def same_pixel_def user_write_def
    using iff row by (auto simp only: ix if_True if_False split: if_split)
qed

lemma copy_rows_ok:
  assumes fb: "fb_mapped efb vm" and ab: "0 \<le> a" "a \<le> b" "b \<le> uint (fb_width efb)"
    and y: "0 \<le> y0" "y0 + int n \<le> uint (fb_height efb)"
  shows "\<exists>err mem'. copy_rows nc vm ((b - a) * 4) (uint (fb_pitch efb)) s n
      (uint (fb_offset efb) + uint (fb_pitch efb) * y0 + a * 4) (s * y0 + a * 4) mem = Inr (err, mem') \<and>
    err \<in> {0, - EFAULT} \<and>
    (err = 0 \<longrightarrow> 4 * uint (fb_width efb) \<le> s \<longrightarrow> 0 \<le> x \<longrightarrow> x < uint (fb_width efb) \<longrightarrow>
      (if y0 \<le> y \<and> y < y0 + int n \<and> a \<le> x \<and> x < b then copied efb vm s mem' x y
       else same_pixel s mem mem' x y))"
  using y
proof (induction n arbitrary: y0 mem)
  case 0
  then show ?case by (auto simp: same_pixel_def)
next
  case (Suc n)
  have y0: "0 \<le> y0" "y0 < uint (fb_height efb)" using Suc.prems by auto
  obtain row where row: "vm_read vm (uint (fb_offset efb) + uint (fb_pitch efb) * y0 + a * 4) ((b - a) * 4) = Inr row"
    "int (length row) = (b - a) * 4"
    "\<And>x i. a \<le> x \<Longrightarrow> x < b \<Longrightarrow> i < 4 \<Longrightarrow> row ! nat (4 * (x - a) + int i) = fb_pixel efb vm x y0 ! i"
    by (rule row_read [OF fb ab y0]) blast
  obtain k mem1 where cp: "copy_to_user nc (s * y0 + a * 4) row mem = (k, mem1)" by (metis surj_pair)
  show ?case
  proof (cases "k = 0")
    case False
    then show ?thesis using row(1) cp by (simp add: EFAULT_def)
  next
    case True
    have mem1: "mem1 = user_write (s * y0 + a * 4) row mem" using cp True copy_to_user_ok by blast
    have next_y: "0 \<le> y0 + 1" "y0 + 1 + int n \<le> uint (fb_height efb)" using Suc.prems by auto
    from Suc.IH [OF next_y, of mem1] obtain err mem' where IH:
      "copy_rows nc vm ((b - a) * 4) (uint (fb_pitch efb)) s n
        (uint (fb_offset efb) + uint (fb_pitch efb) * (y0 + 1) + a * 4) (s * (y0 + 1) + a * 4) mem1 = Inr (err, mem')"
      "err \<in> {0, - EFAULT}"
      "err = 0 \<Longrightarrow> 4 * uint (fb_width efb) \<le> s \<Longrightarrow> 0 \<le> x \<Longrightarrow> x < uint (fb_width efb) \<Longrightarrow>
        (if y0 + 1 \<le> y \<and> y < y0 + 1 + int n \<and> a \<le> x \<and> x < b then copied efb vm s mem' x y
         else same_pixel s mem1 mem' x y)"
      by blast
    have e1: "uint (fb_offset efb) + uint (fb_pitch efb) * (y0 + 1) + a * 4 =
        uint (fb_offset efb) + uint (fb_pitch efb) * y0 + a * 4 + uint (fb_pitch efb)"
      and e2: "s * (y0 + 1) + a * 4 = s * y0 + a * 4 + s" by (simp_all add: algebra_simps)
    show ?thesis
    proof (intro exI conjI impI)
      show "copy_rows nc vm ((b - a) * 4) (uint (fb_pitch efb)) s (Suc n)
          (uint (fb_offset efb) + uint (fb_pitch efb) * y0 + a * 4) (s * y0 + a * 4) mem = Inr (err, mem')"
        using IH(1) row(1) cp True by (simp add: e1 e2)
    next
      assume p: "err = 0" "4 * uint (fb_width efb) \<le> s" "0 \<le> x" "x < uint (fb_width efb)"
      have w: "if y = y0 \<and> a \<le> x \<and> x < b then copied efb vm s mem1 x y else same_pixel s mem mem1 x y"
        unfolding mem1 by (rule row_written [OF p(2) ab row(2,3) p(3,4)])
      show "if y0 \<le> y \<and> y < y0 + int (Suc n) \<and> a \<le> x \<and> x < b then copied efb vm s mem' x y
         else same_pixel s mem mem' x y"
        using w IH(3) [OF p] by (auto simp: copied_same intro: same_pixel_trans split: if_splits)
    qed (fact IH(2))
  qed
qed

text \<open>Whatever the destination, the rows are read inside the mapping.\<close>

lemma copy_rows_safe:
  assumes fb: "fb_mapped efb vm" and ab: "0 \<le> a" "a \<le> b" "b \<le> uint (fb_width efb)"
    and y: "0 \<le> y0" "y0 + int n \<le> uint (fb_height efb)"
  shows "\<exists>err mem'. copy_rows nc vm ((b - a) * 4) (uint (fb_pitch efb)) s n
      (uint (fb_offset efb) + uint (fb_pitch efb) * y0 + a * 4) dst mem = Inr (err, mem') \<and> err \<in> {0, - EFAULT}"
  using y
proof (induction n arbitrary: y0 dst mem)
  case (Suc n)
  have y0: "0 \<le> y0" "y0 < uint (fb_height efb)" "0 \<le> y0 + 1" "y0 + 1 + int n \<le> uint (fb_height efb)"
    using Suc.prems by auto
  obtain row where row: "vm_read vm (uint (fb_offset efb) + uint (fb_pitch efb) * y0 + a * 4) ((b - a) * 4) = Inr row"
    by (rule row_read [OF fb ab y0(1,2)]) blast
  obtain k mem1 where cp: "copy_to_user nc dst row mem = (k, mem1)" by (metis surj_pair)
  have e1: "uint (fb_offset efb) + uint (fb_pitch efb) * (y0 + 1) + a * 4 =
      uint (fb_offset efb) + uint (fb_pitch efb) * y0 + a * 4 + uint (fb_pitch efb)" by (simp add: algebra_simps)
  show ?case using Suc.IH [OF y0(3,4), of "dst + s" mem1] row cp by (auto simp: e1)
qed auto

lemma uint_u16_le: "(a :: u16) \<le> b \<longleftrightarrow> uint a \<le> uint b" "(a :: u16) < b \<longleftrightarrow> uint a < uint b"
  by (simp_all add: word_le_def word_less_def)

lemma in_rect_uint:
  "in_rect r px \<longleftrightarrow> uint (y1 r) \<le> uint (snd px) \<and> uint (snd px) < uint (y2 r) \<and>
     uint (x1 r) \<le> uint (fst px) \<and> uint (fst px) < uint (x2 r)"
  by (auto simp: in_rect_def uint_u16_le)

definition px_frame :: "evdi_framebuffer \<Rightarrow> u16 \<times> u16 \<Rightarrow> bool" where
  "px_frame efb px \<longleftrightarrow> uint (fst px) < uint (fb_width efb) \<and> uint (snd px) < uint (fb_height efb)"

definition px_copied :: "evdi_framebuffer \<Rightarrow> bytes \<Rightarrow> int \<Rightarrow> user_mem \<Rightarrow> u16 \<times> u16 \<Rightarrow> bool" where
  "px_copied efb vm s mem px \<longleftrightarrow> copied efb vm s mem (uint (fst px)) (uint (snd px))"

definition px_same :: "int \<Rightarrow> user_mem \<Rightarrow> user_mem \<Rightarrow> u16 \<times> u16 \<Rightarrow> bool" where
  "px_same s mem mem' px \<longleftrightarrow> same_pixel s mem mem' (uint (fst px)) (uint (snd px))"

lemma rect_offsets:
  assumes "fb_mapped efb vm" "rect_wf r" "uint (x2 r) \<le> uint (fb_width efb)" "uint (y2 r) \<le> uint (fb_height efb)"
    "nat (uint (y2 r) - uint (y1 r)) \<noteq> 0"
  shows "c_int (uint (fb_offset efb) + uint (fb_pitch efb) * uint (y1 r) + uint (x1 r) * 4) =
      uint (fb_offset efb) + uint (fb_pitch efb) * uint (y1 r) + uint (x1 r) * 4"
    "user_buf_ok efb s \<Longrightarrow> c_int (s * uint (y1 r) + uint (x1 r) * 4) = s * uint (y1 r) + uint (x1 r) * 4"
proof -
  let ?x = "uint (x1 r)" and ?y = "uint (y1 r)" and ?w = "uint (fb_width efb)" and ?h = "uint (fb_height efb)"
  have xy: "0 \<le> ?x" "?x \<le> ?w" "0 \<le> ?y" "?y < ?h"
    using assms by (auto simp: rect_wf_def uint_u16_le)
  have b: "0 \<le> p * ?y" "p * ?y + 4 * ?x \<le> p * ?h" if "4 * ?w \<le> p" for p
  proof -
    have "0 \<le> ?w" by simp
    then have "0 \<le> p" using that by linarith
    then show "0 \<le> p * ?y" by simp
    show "p * ?y + 4 * ?x \<le> p * ?h"
      using row_offset_le [of ?y ?h "?x - 1" ?w p] xy that by auto
  qed
  have "0 \<le> uint (fb_offset efb)" by simp
  then have "0 \<le> uint (fb_offset efb) + uint (fb_pitch efb) * ?y + ?x * 4"
    "uint (fb_offset efb) + uint (fb_pitch efb) * ?y + ?x * 4 < 2147483648"
    using b [of "uint (fb_pitch efb)"] assms(1) xy unfolding fb_mapped_def by linarith+
  then show "c_int (uint (fb_offset efb) + uint (fb_pitch efb) * ?y + ?x * 4) =
      uint (fb_offset efb) + uint (fb_pitch efb) * ?y + ?x * 4" by (intro c_int_id) linarith+
  show "c_int (s * ?y + ?x * 4) = s * ?y + ?x * 4" if "user_buf_ok efb s"
    using b [of s] xy that unfolding user_buf_ok_def by (intro c_int_id) linarith+
qed

lemma one_rect:
  assumes fb: "fb_mapped efb vm" and r: "rect_wf r" "uint (x2 r) \<le> uint (fb_width efb)" "uint (y2 r) \<le> uint (fb_height efb)"
  shows "\<exists>err mem'. copy_rows nc vm ((uint (x2 r) - uint (x1 r)) * 4) (uint (fb_pitch efb)) s
      (nat (uint (y2 r) - uint (y1 r)))
      (c_int (uint (fb_offset efb) + uint (fb_pitch efb) * uint (y1 r) + uint (x1 r) * 4))
      (c_int (s * uint (y1 r) + uint (x1 r) * 4)) mem = Inr (err, mem') \<and> err \<in> {0, - EFAULT} \<and>
    (err = 0 \<longrightarrow> user_buf_ok efb s \<longrightarrow> px_frame efb px \<longrightarrow>
      (if in_rect r px then px_copied efb vm s mem' px else px_same s mem mem' px))"
proof (cases "nat (uint (y2 r) - uint (y1 r)) = 0")
  case True
  then have "uint (y2 r) \<le> uint (y1 r)" by simp
  then have "\<not> in_rect r px" by (auto simp: in_rect_uint)
  then show ?thesis by (simp add: True px_same_def same_pixel_def)
next
  case False
  note off = rect_offsets [OF fb r False]
  let ?n = "nat (uint (y2 r) - uint (y1 r))"
  have n: "uint (y1 r) + int ?n = uint (y2 r)" using r(1) by (simp add: rect_wf_def uint_u16_le)
  have ab: "0 \<le> uint (x1 r)" "uint (x1 r) \<le> uint (x2 r)" "0 \<le> uint (y1 r)" "uint (y1 r) + int ?n \<le> uint (fb_height efb)"
    using r n by (auto simp: rect_wf_def uint_u16_le)
  show ?thesis
  proof (cases "user_buf_ok efb s")
    case True
    obtain err mem' where c: "copy_rows nc vm ((uint (x2 r) - uint (x1 r)) * 4) (uint (fb_pitch efb)) s ?n
        (uint (fb_offset efb) + uint (fb_pitch efb) * uint (y1 r) + uint (x1 r) * 4)
        (s * uint (y1 r) + uint (x1 r) * 4) mem = Inr (err, mem')" "err \<in> {0, - EFAULT}"
      "err = 0 \<longrightarrow> 4 * uint (fb_width efb) \<le> s \<longrightarrow> 0 \<le> uint (fst px) \<longrightarrow> uint (fst px) < uint (fb_width efb) \<longrightarrow>
        (if in_rect r px then px_copied efb vm s mem' px else px_same s mem mem' px)"
      using copy_rows_ok [OF fb ab(1,2) r(2) ab(3,4), of nc s mem "uint (fst px)" "uint (snd px)"]
      unfolding n in_rect_uint px_copied_def px_same_def by blast
    show ?thesis
      unfolding off(1) off(2) [OF True]
      by (rule exI [of _ err], rule exI [of _ mem']) (use c in \<open>auto simp: px_frame_def user_buf_ok_def\<close>)
  next
    case no: False
    then show ?thesis
      using copy_rows_safe [OF fb ab(1,2) r(2) ab(3,4), of nc s "c_int (s * uint (y1 r) + uint (x1 r) * 4)" mem]
      unfolding off(1) by auto
  qed
qed

lemma copy_rects_ok:
  assumes fb: "fb_mapped efb vm" and rs: "\<forall>r\<in>set rs. rect_wf r"
  shows "\<exists>err mem'. copy_rects nc efb vm s (uint (fb_width efb)) (uint (fb_height efb)) rs mem = Inr (err, mem') \<and>
    err \<in> {0, - EFAULT} \<and>
    (err = 0 \<longrightarrow> (\<forall>r\<in>set rs. rect_ok efb r) \<and> (user_buf_ok efb s \<longrightarrow> px_frame efb px \<longrightarrow>
      (if covered rs px then px_copied efb vm s mem' px else px_same s mem mem' px)))"
  using rs
proof (induction rs arbitrary: mem)
  case Nil
  then show ?case by (simp add: covered_def px_same_def same_pixel_def)
next
  case (Cons r rs)
  show ?case
  proof (cases "uint (fb_width efb) < uint (x2 r) \<or> uint (fb_height efb) < uint (y2 r)")
    case True
    then show ?thesis by (auto simp: Let_def EFAULT_def)
  next
    case False
    then have r: "rect_wf r" "uint (x2 r) \<le> uint (fb_width efb)" "uint (y2 r) \<le> uint (fb_height efb)"
      using Cons.prems by auto
    obtain err mem1 where one: "copy_rows nc vm ((uint (x2 r) - uint (x1 r)) * 4) (uint (fb_pitch efb)) s
        (nat (uint (y2 r) - uint (y1 r)))
        (c_int (uint (fb_offset efb) + uint (fb_pitch efb) * uint (y1 r) + uint (x1 r) * 4))
        (c_int (s * uint (y1 r) + uint (x1 r) * 4)) mem = Inr (err, mem1)" "err \<in> {0, - EFAULT}"
      "err = 0 \<Longrightarrow> user_buf_ok efb s \<Longrightarrow> px_frame efb px \<Longrightarrow>
        (if in_rect r px then px_copied efb vm s mem1 px else px_same s mem mem1 px)"
      using one_rect [OF fb r, of nc s mem px] by blast
    show ?thesis
    proof (cases "err = 0")
      case False
      then show ?thesis using one r by (auto simp: Let_def)
    next
      case True
      have "\<forall>r\<in>set rs. rect_wf r" using Cons.prems by simp
      from Cons.IH [OF this, of mem1] obtain err' mem' where IH:
        "copy_rects nc efb vm s (uint (fb_width efb)) (uint (fb_height efb)) rs mem1 = Inr (err', mem')"
        "err' \<in> {0, - EFAULT}"
        "err' = 0 \<Longrightarrow> (\<forall>r\<in>set rs. rect_ok efb r) \<and> (user_buf_ok efb s \<longrightarrow> px_frame efb px \<longrightarrow>
          (if covered rs px then px_copied efb vm s mem' px else px_same s mem1 mem' px))"
        by blast
      have "rect_ok efb r"
        using r by (simp add: rect_ok_def rect_wf_def unat_eq_nat_uint nat_mono del: nat_uint_eq)
      moreover have "if covered (r # rs) px then px_copied efb vm s mem' px else px_same s mem mem' px"
        if "err' = 0" "user_buf_ok efb s" "px_frame efb px"
        using IH(3) [OF that(1)] one(3) [OF True that(2,3)] that
        by (auto simp: px_copied_def px_same_def copied_same intro: same_pixel_trans split: if_splits)
      ultimately show ?thesis using one(1) True IH r by (auto simp: Let_def)
    qed
  qed
qed

section \<open>Grabbing\<close>

definition int32 :: "int \<Rightarrow> bool" where "int32 x \<longleftrightarrow> - 2147483648 \<le> x \<and> x < 2147483648"

lemma buf_dim: "word_of_int k = (w :: u32) \<Longrightarrow> uint w \<le> 32767 \<Longrightarrow> int32 k \<Longrightarrow> k = uint w"
  using sint_of_int_32 [of k] sint_u32_small [of w] by (auto simp: int32_def)

lemma copy_rows_on_xe_safe:
  assumes fb: "fb_mapped efb vm" and y: "int (y + n) \<le> uint (fb_height efb)"
  shows "\<exists>err mem'. copy_rows_on_xe nc efb vm s (c_int (uint (fb_width efb) * 4)) y n mem = Inr (err, mem')"
  using y
proof (induction n arbitrary: y mem)
  case (Suc n)
  have y: "0 \<le> int y" "int y < uint (fb_height efb)" "int (y + 1 + n) \<le> uint (fb_height efb)"
    using Suc.prems by auto
  have w: "c_int (uint (fb_width efb) * 4) = (uint (fb_width efb) - 0) * 4"
  proof -
    have "0 \<le> uint (fb_width efb)" "uint (fb_width efb) \<le> 32767" using fb by (simp_all add: fb_mapped_def)
    then have "c_int (uint (fb_width efb) * 4) = uint (fb_width efb) * 4" by (intro c_int_id) linarith+
    then show ?thesis by simp
  qed
  obtain row where row: "vm_read vm (uint (fb_offset efb) + uint (fb_pitch efb) * int y + 0 * 4)
      ((uint (fb_width efb) - 0) * 4) = Inr row"
    by (rule row_read [OF fb _ _ _ y(1,2), of 0 "uint (fb_width efb)"]) simp_all
  have "0 \<le> uint (fb_pitch efb) * int y" "0 \<le> uint (fb_offset efb)" by simp_all
  then have off: "c_int (uint (fb_offset efb) + uint (fb_pitch efb) * int y) =
      uint (fb_offset efb) + uint (fb_pitch efb) * int y + 0 * 4"
    using row fb unfolding vm_read_eq_Inr fb_mapped_def by (subst c_int_id) linarith+
  obtain k mem1 where cp: "copy_to_user nc (c_int (s * int y)) row mem = (k, mem1)" by (metis surj_pair)
  show ?case using Suc.IH [OF y(3), of mem1] row cp unfolding copy_rows_on_xe.simps off w by (simp add: Let_def)
qed auto

text \<open>Composing the cursor reads inside both mappings whatever the destination.\<close>

definition cursor_safe :: "evdi_cursor \<Rightarrow> bool" where
  "cursor_safe c \<longleftrightarrow> (\<forall>g img. cur_obj c = Some g \<longrightarrow> vmapping (gem g) = Some img \<longrightarrow>
     length img = obj_size (gem g)) \<and>
    unat (cur_width c) * unat (cur_height c) < 536870912 \<and>
    sint (cur_x c) + int (unat (cur_width c)) < 2147483648 \<and>
    sint (cur_y c) + int (unat (cur_height c)) < 2147483648"

lemma compose_at_safe:
  assumes ok: "image_ok c img" "fb_mapped efb vm"
    and lt: "cx < unat (cur_width c)" "cy < unat (cur_height c)"
  shows "\<exists>err mem'. compose_at nc c img efb vm s cx cy mem = Inr (err, mem')"
proof (cases "in_frame efb (sint (cur_x c) + int cx) (sint (cur_y c) + int cy)")
  case False
  then show ?thesis using compose_at_out [OF ok lt] by blast
next
  case True
  let ?x = "sint (cur_x c) + int cx" and ?y = "sint (cur_y c) + int cy"
  have small: "0 \<le> ?x" "?x \<le> 32767" "0 \<le> ?y" "?y \<le> 32767"
    using True ok(2) by (auto simp: in_frame_def fb_mapped_def)
  have cx: "c_int ?x = ?x" "c_int ?y = ?y" using small by (intro c_int_id; linarith)+
  obtain cb where i: "vm_read img (4 * int (cx + cy * unat (cur_width c))) 4 = Inr cb"
    using image_index(2) [OF ok(1) lt] unfolding vm_read_eq_Inr by auto
  obtain fbb where f: "vm_read vm (uint (fb_offset efb) + uint (fb_pitch efb) * ?y + 4 * ?x) 4 = Inr fbb"
    using fb_offset_bounds [OF ok(2), of ?x ?y] True unfolding vm_read_eq_Inr in_frame_def by auto
  show ?thesis
    unfolding compose_at_def Let_def cx image_index(1) [OF ok(1) lt] fb_index [OF ok(2) True] i f ebind_simps
    by (auto split: prod.splits)
qed

lemma compose_safe:
  assumes "cursor_safe c" "fb_mapped efb vm"
  shows "\<exists>r. evdi_cursor_compose_and_copy nc bpp c efb vm s mem = Inr r"
proof -
  have loop: "\<exists>r. compose_loop nc c img efb vm s ps mem = Inr r"
    if "image_ok c img" "\<forall>(cx, cy)\<in>set ps. cx < unat (cur_width c) \<and> cy < unat (cur_height c)" for img ps mem
    using that(2)
  proof (induction ps arbitrary: mem)
    case (Cons q ps)
    then show ?case
      using compose_at_safe [OF that(1) assms(2), of "fst q" "snd q" nc s mem] by (cases q) fastforce
  qed auto
  have "2 * (unat (cur_width c) div 2) \<le> unat (cur_width c)" "2 * (unat (cur_height c) div 2) \<le> unat (cur_height c)"
    by simp_all
  then have ps: "\<forall>(cx, cy)\<in>set (cursor_positions c). cx < unat (cur_width c) \<and> cy < unat (cur_height c)"
    by (auto simp: set_cursor_positions)
  have prod: "unat (cur_width c * cur_height c) = unat (cur_width c) * unat (cur_height c)"
    using assms(1) unfolding cursor_safe_def by (intro unat_mult_no_wrap) simp
  have sz: "unat (cur_width c * cur_height c * 4) = 4 * (unat (cur_width c) * unat (cur_height c))"
    using assms(1) prod unfolding cursor_safe_def by (subst unat_mult_no_wrap) (simp_all add: mult.commute)
  have "image_ok c img" if "cur_obj c = Some g" "vmapping (gem g) = Some img"
    "\<not> obj_size (gem g) < unat (cur_width c * cur_height c * 4)" for g img
  proof -
    have "4 * (unat (cur_width c) * unat (cur_height c)) \<le> length img"
      using that assms(1) unfolding sz cursor_safe_def by (metis not_less)
    then show ?thesis using assms(1) unfolding image_ok_def cursor_safe_def by blast
  qed
  then show ?thesis
    using loop ps by (auto simp: evdi_cursor_compose_and_copy_def split: option.splits)
qed

lemma grab_pixels_safe:
  assumes "\<And>vm. mapping = Some vm \<Longrightarrow> fb_mapped efb vm" "\<forall>r\<in>set dirts. rect_wf r" "cursor_safe (cursor evdi)"
    "int32 (buf_width cmd)" "int32 (buf_height cmd)" "is_from_xe efb \<Longrightarrow> env_valloc env"
  shows "\<exists>r. grab_pixels env evdi efb mapping dirts cmd = Inr r"
proof (cases "\<exists>vm. mapping = Some vm \<and> word_of_int (buf_width cmd) = fb_width efb \<and> word_of_int (buf_height cmd) = fb_height efb")
  case False
  then show ?thesis by (auto simp: grab_pixels_def split: option.splits)
next
  case True
  then obtain vm where vm: "mapping = Some vm" and fb: "fb_mapped efb vm" using assms(1) by blast
  have w: "buf_width cmd = uint (fb_width efb)" "buf_height cmd = uint (fb_height efb)"
    using True fb assms(4,5) by (auto intro!: buf_dim simp: fb_mapped_def)
  obtain e m l where cp: "copy_primary_pixels (env_valloc env) (env_nc env) efb vm (buf_byte_stride cmd) dirts
      (buf_width cmd) (buf_height cmd) (user_buffer cmd) = Inr (e, m, l)"
  proof (cases "is_from_xe efb")
    case x: True
    then show thesis
      using that copy_rows_on_xe_safe [OF fb, of 0 "nat (uint (fb_height efb))" "env_nc env" "buf_byte_stride cmd" "user_buffer cmd"]
        assms(6) by (auto simp: copy_primary_pixels_def copy_primary_pixels_on_xe_def Let_def w)
  next
    case x: False
    obtain err mem' where "copy_rects (env_nc env) efb vm (buf_byte_stride cmd) (uint (fb_width efb))
        (uint (fb_height efb)) dirts (user_buffer cmd) = Inr (err, mem')"
      using copy_rects_ok [OF fb assms(2), of "env_nc env" "buf_byte_stride cmd" "user_buffer cmd"] by blast
    then show thesis by (intro that [of err mem' 0]) (simp add: copy_primary_pixels_def w x)
  qed
  obtain m' where cur: "copy_cursor_pixels (env_cursor_nc env) (env_cursor_bpp env) efb vm (buf_byte_stride cmd)
      (cursor evdi) m = Inr m'"
    using compose_safe [OF assms(3) fb, of "env_cursor_nc env" "env_cursor_bpp env" "buf_byte_stride cmd" m]
    by (auto simp: copy_cursor_pixels_def)
  have cp': "copy_primary_pixels (env_valloc env) (env_nc env) efb vm (buf_byte_stride (cmd\<lparr>rects := Some dirts\<rparr>)) dirts
      (buf_width (cmd\<lparr>rects := Some dirts\<rparr>)) (buf_height (cmd\<lparr>rects := Some dirts\<rparr>))
      (user_buffer (cmd\<lparr>rects := Some dirts\<rparr>)) = Inr (e, m, l)"
    using cp by simp
  have cur': "copy_cursor_pixels (env_cursor_nc env) (env_cursor_bpp env) efb vm
      (buf_byte_stride (cmd\<lparr>rects := Some dirts\<rparr>)) (cursor evdi) m = Inr m'" using cur by simp
  show ?thesis
    unfolding grab_pixels_def Let_def vm option.case cp' ebind_simps prod.case cur' by simp
qed

text \<open>The ioctl on a painter with a mapped scanout buffer.\<close>

lemma grabpix_eq:
  assumes "painter evdi = Some p" "scanout_fb p = Some efb" "vmapping (fb_obj efb) = Some vm"
    "grab_mode cmd = EVDI_GRABPIX_MODE_DIRTY" "1 \<le> num_rects cmd"
    and dirts: "dirts = grab_dirts (num_rects cmd) (dirty_rects p)"
    and px: "grab_pixels env evdi efb (Some vm) dirts (cmd\<lparr>num_rects := int (length dirts)\<rparr>) = Inr (err, cmd', leak)"
  shows "\<exists>evdi'. evdi_painter_grabpix_ioctl env cmd evdi = Inr (err, cmd', evdi') \<and> painter_dirty evdi' = []"
proof -
  have e: "efb\<lparr>fb_obj := (fb_obj efb)\<lparr>vmapping := Some vm\<rparr>\<rparr> = efb"
    using assms(3) by simp
  show ?thesis
    using assms by (simp add: evdi_painter_grabpix_ioctl_def Let_def painter_dirty_def e)
qed

lemma grabpix_spec:
  assumes "painter evdi = Some p" "scanout_fb p = Some efb" "vmapping (fb_obj efb) = Some vm" "fb_mapped efb vm"
    and "\<forall>r\<in>set (dirty_rects p). rect_wf r" "\<not> is_from_xe efb" "cursor_events_enabled evdi"
    and "grab_mode cmd = EVDI_GRABPIX_MODE_DIRTY" "1 \<le> num_rects cmd" "int32 (buf_width cmd)" "int32 (buf_height cmd)"
  shows "\<exists>err cmd' evdi'. evdi_painter_grabpix_ioctl env cmd evdi = Inr (err, cmd', evdi') \<and>
    painter_dirty evdi' = [] \<and>
    (err = 0 \<longrightarrow> (\<exists>rs. rects cmd' = Some rs \<and> int (length rs) = num_rects cmd' \<and>
      num_rects cmd' \<le> num_rects cmd \<and> (\<forall>r\<in>set rs. rect_ok efb r) \<and>
      (\<forall>px. covered (dirty_rects p) px \<longrightarrow> covered rs px) \<and>
      (user_buf_ok efb (buf_byte_stride cmd) \<longrightarrow> (\<forall>px. px_frame efb px \<longrightarrow>
        (if covered rs px then px_copied efb vm (buf_byte_stride cmd) (user_buffer cmd') px
         else px_same (buf_byte_stride cmd) (user_buffer cmd) (user_buffer cmd') px)))))"
proof -
  let ?rs = "grab_dirts (num_rects cmd) (dirty_rects p)"
  let ?cmd = "cmd\<lparr>num_rects := int (length ?rs)\<rparr>"
  have wf: "\<forall>r\<in>set ?rs. rect_wf r" using assms(5,9) rect_wf_closed grab_dirts_closed by blast
  show ?thesis
  proof (cases "word_of_int (buf_width cmd) = fb_width efb \<and> word_of_int (buf_height cmd) = fb_height efb \<and>
      \<not> env_rects_fault env \<and> \<not> (import_attach (fb_obj efb) \<and> env_begin_access env \<noteq> 0)")
    case False
    then have "\<exists>err cmd'. grab_pixels env evdi efb (Some vm) ?rs ?cmd = Inr (err, cmd', 0) \<and> err \<noteq> 0"
      by (auto simp: grab_pixels_def Let_def EINVAL_def EFAULT_def)
    then show ?thesis
      using grabpix_eq [OF assms(1-3,8,9) refl, of env] by blast
  next
    case True
    then have w: "buf_width cmd = uint (fb_width efb)" "buf_height cmd = uint (fb_height efb)"
      using assms(4,10,11) by (auto intro!: buf_dim simp: fb_mapped_def)
    note rc = copy_rects_ok [OF assms(4) wf, of "env_nc env" "buf_byte_stride cmd" "user_buffer cmd"]
    then obtain err mem' where cp: "copy_rects (env_nc env) efb vm (buf_byte_stride cmd) (uint (fb_width efb))
        (uint (fb_height efb)) ?rs (user_buffer cmd) = Inr (err, mem')" by blast
    have "grab_pixels env evdi efb (Some vm) ?rs ?cmd = Inr (err, ?cmd\<lparr>rects := Some ?rs, user_buffer := mem'\<rparr>, 0)"
      using True assms(6,7) cp w by (auto simp: grab_pixels_def copy_primary_pixels_def Let_def)
    then obtain evdi' where r: "evdi_painter_grabpix_ioctl env cmd evdi =
        Inr (err, ?cmd\<lparr>rects := Some ?rs, user_buffer := mem'\<rparr>, evdi')" "painter_dirty evdi' = []"
      using grabpix_eq [OF assms(1-3,8,9) refl] by blast
    have fin: "err = 0 \<Longrightarrow> (\<forall>r\<in>set ?rs. rect_ok efb r) \<and> (user_buf_ok efb (buf_byte_stride cmd) \<longrightarrow> px_frame efb px \<longrightarrow>
        (if covered ?rs px then px_copied efb vm (buf_byte_stride cmd) mem' px
         else px_same (buf_byte_stride cmd) (user_buffer cmd) mem' px))" for px
      using rc [of px] cp by auto
    show ?thesis
      using r fin grab_dirts_length(1) [OF assms(9), of "dirty_rects p"] grab_dirts_covers by fastforce
  qed
qed


definition demo_cmd :: drm_evdi_grabpix where
  "demo_cmd = \<lparr>grab_mode = 1, buf_width = 3, buf_height = 2, buf_byte_stride = 16, user_buffer = (\<lambda>_. 0),
     num_rects = 4, rects = None\<rparr>"

definition demo_env :: grab_env where
  "demo_env = \<lparr>env_vmap = (0, None), env_rects_fault = False, env_begin_access = 0, env_valloc = True,
     env_nc = (\<lambda>_ _. 0), env_cursor_nc = (\<lambda>_ _. 0), env_cursor_bpp = 32\<rparr>"


end
