(* ===== verification/Machines.thy ===== *)
theory Machines
  imports Prelude
begin

text \<open>
  Machines that may fault: \<open>starts\<close> are their first states, \<open>steps\<close> relates a state to what an operation makes of it, the next state
  or the error. \<open>runs\<close> are the states that can be reached. The painter, the buffer objects, the table of devices and the
  threads of the daemon are such machines; what they owe is one of the two contracts below.
\<close>

inductive runs :: "('s \<Rightarrow> bool) \<Rightarrow> ('s \<Rightarrow> 'e + 's \<Rightarrow> bool) \<Rightarrow> 's \<Rightarrow> bool" for starts steps where
  begins: "starts s \<Longrightarrow> runs starts steps s"
| goes: "runs starts steps s \<Longrightarrow> steps s (Inr s') \<Longrightarrow> runs starts steps s'"

text \<open>An invariant: every step that does not fault keeps it.\<close>

locale kept_invariant =
  fixes starts :: "'s \<Rightarrow> bool" and steps :: "'s \<Rightarrow> 'e + 's \<Rightarrow> bool" and inv :: "'s \<Rightarrow> bool"
  assumes starts_inv: "starts s \<Longrightarrow> inv s"
    and steps_inv: "inv s \<Longrightarrow> steps s (Inr s') \<Longrightarrow> inv s'"
begin

lemma runs_inv: "runs starts steps s \<Longrightarrow> inv s"
  by (induction rule: runs.induct) (auto intro: starts_inv steps_inv)

end

text \<open>An invariant that no step can leave and in which no step faults.\<close>

locale never_faults =
  fixes starts :: "'s \<Rightarrow> bool" and steps :: "'s \<Rightarrow> 'e + 's \<Rightarrow> bool" and inv :: "'s \<Rightarrow> bool"
  assumes safe_start: "starts s \<Longrightarrow> inv s"
    and safe_step: "steps s r \<Longrightarrow> inv s \<Longrightarrow> \<exists>s'. r = Inr s' \<and> inv s'"

sublocale never_faults \<subseteq> kept_invariant starts steps inv
  by unfold_locales (auto dest: safe_start safe_step)

context never_faults
begin

lemma runs_step:
  assumes "runs starts steps s" "steps s r"
  obtains s' where "r = Inr s'" "inv s'" "runs starts steps s'"
  using safe_step [OF assms(2) runs_inv [OF assms(1)]] runs.goes [OF assms(1)] assms(2) by blast

end

end
