(* ===== verification/PainterSteps.thy ===== *)
theory PainterSteps
  imports PainterDirty Machines
begin

text \<open>
  The painter as a state machine: one rule of \<open>device_step\<close> per operation of \<^verbatim>\<open>evdi_painter.c\<close> and of the
  cursor, with every answer of the kernel and every argument of the daemon left open. Its invariant
  holds in every state reachable from the initialisation, and no step can fault.
\<close>

section \<open>Steps\<close>

definition fb_good :: "evdi_framebuffer \<Rightarrow> bool" where
  "fb_good efb \<longleftrightarrow> uint (fb_width efb) \<le> 32767 \<and> uint (fb_height efb) \<le> 32767 \<and>
    4 * uint (fb_width efb) \<le> uint (fb_pitch efb) \<and> 4 dvd uint (fb_pitch efb) \<and>
    uint (fb_offset efb) + uint (fb_pitch efb) * uint (fb_height efb) \<le> int (obj_size (fb_obj efb)) \<and>
    int (obj_size (fb_obj efb)) < 2147483648 \<and>
    (\<forall>vm. vmapping (fb_obj efb) = Some vm \<longrightarrow> length vm = obj_size (fb_obj efb))"

lemma fb_good_mapped: "fb_good efb \<Longrightarrow> vmapping (fb_obj efb) = Some vm \<Longrightarrow> fb_mapped efb vm"
  by (simp add: fb_good_def fb_mapped_def)

definition the_painter :: "evdi_device \<Rightarrow> (pw \<Rightarrow> c_error + pw) \<Rightarrow> c_error + evdi_device" where
  "the_painter d f = (case painter d of None \<Rightarrow> Inr d
     | Some p \<Rightarrow> ebind (f (p, drm d)) (\<lambda>(p, w). Inr (d\<lparr>painter := Some p, drm := w\<rparr>)))"

inductive device_step :: "evdi_device \<Rightarrow> c_error + evdi_device \<Rightarrow> bool" where
  get_edid: "device_step d (ebind (evdi_painter_get_edid_copy alloc d) (\<lambda>_. Inr d))"
| mark: "device_step d (evdi_painter_mark_dirty r d)"
| set_vblank: "device_step d (Inr (evdi_painter_set_vblank c v d))"
| update_ready: "device_step d (Inr (evdi_painter_send_update_ready_if_needed reserve alloc d))"
| request_update: "device_step d (Inr (snd (evdi_painter_request_update_ioctl d)))"
| dpms: "device_step d (Inr (evdi_painter_dpms_notify reserve alloc fg dmode d))"
| mode_changed: "device_step d (Inr (evdi_painter_mode_changed_notify reserve alloc new_mode d))"
| force_modeset: "device_step d (Inr (d\<lparr>painter := evdi_painter_force_full_modeset (painter d)\<rparr>))"
| vt_switch: "device_step d (Inr (with_painter (evdi_painter_vt_notifier_call reserve alloc fg) d))"
| send_cursor_set:
    "device_step d (Inr (with_painter (evdi_painter_send_cursor_set reserve alloc handle (cursor d)) d))"
| send_cursor_move:
    "device_step d (Inr (with_painter (evdi_painter_send_cursor_move reserve alloc (cursor d)) d))"
| work: "device_step d (the_painter d (evdi_send_events_work reserve))"
| connect: "(\<And>e. cmd_edid cmd = Some e \<Longrightarrow> length e = cmd_edid_length cmd) \<Longrightarrow>
    device_step d (Inr (snd (evdi_painter_connect_ioctl alloc add_i2c cmd file d)))"
| close: "device_step d (Inr (evdi_painter_close file d))"
| grab: "(\<And>p efb vm. painter d = Some p \<Longrightarrow> scanout_fb p = Some efb \<Longrightarrow> snd (env_vmap env) = Some vm \<Longrightarrow>
      length vm = obj_size (fb_obj efb)) \<Longrightarrow> env_valloc env \<Longrightarrow> int32 (buf_width cmd) \<Longrightarrow> int32 (buf_height cmd) \<Longrightarrow>
    device_step d (ebind (evdi_painter_grabpix_ioctl env cmd d) (\<lambda>(err, cmd', d'). Inr d'))"
| set_scanout: "(\<And>efb. newfb = Some efb \<Longrightarrow> fb_good efb) \<Longrightarrow>
    device_step d (evdi_painter_set_scanout_buffer newfb d)"
| ddcci_request:
    "device_step d (Inr (case evdi_painter_i2c_data_notify reserve alloc (\<lambda>pw. (False, pw)) msg (painter d, drm d) of
       (_, _, p, w) \<Rightarrow> d\<lparr>painter := p, drm := w\<rparr>))"
| ddcci_response: "(\<And>n b. data n = Some b \<Longrightarrow> length b = n) \<Longrightarrow>
    device_step d (ebind (evdi_painter_ddcci_response_ioctl alloc data len d) (\<lambda>(err, d'). Inr d'))"
| cursor_events: "device_step d (Inr (snd (evdi_painter_enable_cursor_events_ioctl enable d)))"
| cursor_set: "(\<And>g img. ob = Some g \<Longrightarrow>
      (if vmapping (gem g) = None then snd vmap else vmapping (gem g)) = Some img \<Longrightarrow> length img = obj_size (gem g)) \<Longrightarrow>
    unat cw \<le> 8192 \<Longrightarrow> unat ch \<le> 8192 \<Longrightarrow>
    (c, refs) = evdi_cursor_set vmap ob cw ch hx hy fmt strd (cursor d, gem_refs d) \<Longrightarrow>
    device_step d (Inr (d\<lparr>cursor := c, gem_refs := refs\<rparr>))"
| cursor_move: "sint x \<le> 1073741824 \<Longrightarrow> sint y \<le> 1073741824 \<Longrightarrow>
    device_step d (Inr (d\<lparr>cursor := evdi_cursor_move x y (cursor d)\<rparr>))"

inductive device_start :: "evdi_device \<Rightarrow> bool" where
  init: "cursor d = evdi_cursor_zero \<Longrightarrow> evdi_painter_init True d = (0, d') \<Longrightarrow> device_start d'"

abbreviation device_reach :: "evdi_device \<Rightarrow> bool" where
  "device_reach \<equiv> runs device_start device_step"

section \<open>The invariant\<close>

definition painter_ok :: "evdi_painter \<Rightarrow> bool" where
  "painter_ok p \<longleftrightarrow>
    length (dirty_rects p) \<le> MAX_DIRTS \<and> (\<forall>r\<in>set (dirty_rects p). rect_wf r) \<and>
    (work_pending p \<longleftrightarrow> pending_events p \<noteq> []) \<and> (pending_events p \<noteq> [] \<longrightarrow> is_connected p) \<and>
    (is_connected p \<longleftrightarrow> drm_filp p \<noteq> None) \<and> has_drm_device p \<and>
    (\<forall>efb. scanout_fb p = Some efb \<longrightarrow> fb_good efb) \<and>
    (\<forall>e. painter_edid p = Some e \<longrightarrow> length e = edid_length p) \<and>
    unat (ddcci_buffer_length p) \<le> DDCCI_BUFFER_SIZE \<and>
    (\<forall>b. ddcci_buffer p = Some b \<longrightarrow> length b = unat (ddcci_buffer_length p)) \<and>
    (vblank p \<noteq> None \<or> crtc p \<noteq> None \<longrightarrow> is_connected p \<and> dirty_rects p \<noteq> [])"

definition cursor_limits :: "evdi_cursor \<Rightarrow> bool" where
  "cursor_limits c \<longleftrightarrow> unat (cur_width c) \<le> 8192 \<and> unat (cur_height c) \<le> 8192 \<and>
    sint (cur_x c) \<le> 1073741824 \<and> sint (cur_y c) \<le> 1073741824 \<and>
    (\<forall>g img. cur_obj c = Some g \<longrightarrow> vmapping (gem g) = Some img \<longrightarrow> length img = obj_size (gem g))"

definition device_inv :: "evdi_device \<Rightarrow> bool" where
  "device_inv d \<longleftrightarrow> (\<exists>p. painter d = Some p \<and> painter_ok p) \<and> cursor_limits (cursor d)"

lemma cursor_limits_safe: "cursor_limits c \<Longrightarrow> cursor_safe c"
proof -
  assume c: "cursor_limits c"
  have "unat (cur_width c) * unat (cur_height c) \<le> 8192 * 8192"
    using c by (intro mult_le_mono) (auto simp: cursor_limits_def)
  moreover have "int (unat (cur_width c)) \<le> 8192" "int (unat (cur_height c)) \<le> 8192"
    using c unfolding cursor_limits_def by linarith+
  ultimately show ?thesis using c unfolding cursor_limits_def cursor_safe_def by auto
qed

subsection \<open>Events\<close>

lemma add_to_pending_nonempty [simp]: "add_to_pending e pend \<noteq> []"
  by (simp add: add_to_pending_def)

text \<open>A send changes the pending list, the work and the sent events only.\<close>

lemma send_event_shape:
  assumes "painter_ok p" "evdi_painter_send_event reserve e (p, w) = (p', w')"
  obtains pend wk sent where "p' = p\<lparr>pending_events := pend, work_pending := wk\<rparr>" "w' = w\<lparr>events_sent := sent\<rparr>"
    "wk \<longleftrightarrow> pend \<noteq> []" "pend \<noteq> [] \<longrightarrow> is_connected p"
proof -
  have "\<exists>pend wk sent. p' = p\<lparr>pending_events := pend, work_pending := wk\<rparr> \<and> w' = w\<lparr>events_sent := sent\<rparr> \<and>
    (wk \<longleftrightarrow> pend \<noteq> []) \<and> (pend \<noteq> [] \<longrightarrow> is_connected p)"
  proof (cases "\<exists>ev f. e = Some ev \<and> drm_filp p = Some f")
    case False
    then have "p' = p \<and> w' = w" using assms(2) by (auto simp: evdi_painter_send_event_def split: option.splits)
    then show ?thesis using assms(1)
      by (intro exI [of _ "pending_events p"] exI [of _ "work_pending p"] exI [of _ "events_sent w"])
         (auto simp: painter_ok_def)
  next
    case True
    then obtain ev f where e: "e = Some ev" "drm_filp p = Some f" by blast
    then have conn: "is_connected p" "has_drm_device p" using assms(1) by (auto simp: painter_ok_def)
    show ?thesis
    proof (cases "work_pending p")
      case True
      then show ?thesis
        using assms(2) e conn
        by (intro exI [of _ "add_to_pending ev (pending_events p)"] exI [of _ True] exI [of _ "events_sent w"])
           (auto simp: evdi_painter_send_event_def evdi_painter_add_event_to_pending_list_def Let_def)
    next
      case False
      obtain pend sent where "flush_loop reserve f (add_to_pending ev (pending_events p)) (events_sent w) = (pend, sent)"
        by (metis surj_pair)
      then show ?thesis
        using assms(2) e conn False
        by (intro exI [of _ pend] exI [of _ "pend \<noteq> []"] exI [of _ sent])
           (auto simp: evdi_painter_send_event_def evdi_painter_add_event_to_pending_list_def
             evdi_painter_flush_pending_events_def Let_def split: if_splits)
    qed
  qed
  then show thesis using that by blast
qed

lemma painter_ok_pending:
  "painter_ok p \<Longrightarrow> (wk \<longleftrightarrow> pend \<noteq> []) \<Longrightarrow> (pend \<noteq> [] \<longrightarrow> is_connected p) \<Longrightarrow>
   painter_ok (p\<lparr>pending_events := pend, work_pending := wk\<rparr>)"
  by (auto simp: painter_ok_def)

lemma painter_ok_send:
  assumes "painter_ok p" "evdi_painter_send_event reserve e (p, w) = (p', w')"
  shows "painter_ok p'"
  by (rule send_event_shape [OF assms]) (simp add: painter_ok_pending assms(1))

lemma painter_ok_fst_send: "painter_ok p \<Longrightarrow> painter_ok (fst (evdi_painter_send_event reserve e (p, w)))"
  using painter_ok_send [of p reserve e w] by (metis prod.collapse)

lemma painter_ok_work:
  assumes "painter_ok p"
  obtains p' w' where "evdi_send_events_work reserve (p, w) = Inr (p', w')" "painter_ok p'"
proof (cases "drm_filp p")
  case None
  then have "pending_events p = []" using assms by (auto simp: painter_ok_def)
  then show ?thesis
    using that [of "p\<lparr>pending_events := [], work_pending := False\<rparr>" w] None assms painter_ok_pending [of p False "[]"]
    by (simp add: evdi_send_events_work_def Let_def)
next
  case (Some f)
  obtain pend sent where fl: "flush_loop reserve f (pending_events p) (events_sent w) = (pend, sent)"
    by (metis surj_pair)
  have "is_connected p" using Some assms by (auto simp: painter_ok_def)
  then have "painter_ok (p\<lparr>pending_events := pend, work_pending := (pend \<noteq> [])\<rparr>)"
    using assms by (intro painter_ok_pending) auto
  then show ?thesis
    using that [of "p\<lparr>pending_events := pend, work_pending := (pend \<noteq> [])\<rparr>" "w\<lparr>events_sent := sent\<rparr>"] Some fl
    by (cases "pend = []") (simp_all add: evdi_send_events_work_def evdi_painter_flush_pending_events_def Let_def)
qed

subsection \<open>Operations on the painter\<close>

lemma inv_with_painter:
  "device_inv d \<Longrightarrow> (\<And>p w. painter_ok p \<Longrightarrow> painter_ok (fst (f (p, w)))) \<Longrightarrow> device_inv (with_painter f d)"
  by (auto simp: device_inv_def with_painter_def Let_def split: prod.splits) (metis fst_conv)

lemma inv_painter: "device_inv d \<Longrightarrow> painter_ok p \<Longrightarrow> device_inv (d\<lparr>painter := Some p, drm := w\<rparr>)"
  by (simp add: device_inv_def)

lemma inv_obtain:
  assumes "device_inv d" obtains p where "painter d = Some p" "painter_ok p"
  using assms by (auto simp: device_inv_def)

lemma inv_mark:
  assumes "device_inv d"
  shows "\<exists>d'. evdi_painter_mark_dirty r d = Inr d' \<and> device_inv d'"
proof -
  obtain p where p: "painter d = Some p" "painter_ok p" by (rule inv_obtain [OF assms])
  then have len: "length (dirty_rects p) \<le> MAX_DIRTS" "\<forall>r\<in>set (dirty_rects p). rect_wf r"
    by (simp_all add: painter_ok_def)
  have "\<forall>q\<in>set (make_room (dirty_rects p)). rect_wf q" by (rule make_room_closed [OF rect_wf_closed len(2)])
  then have "painter_ok (p\<lparr>dirty_rects := make_room (dirty_rects p) @ [evdi_framebuffer_sanitize_rect efb r]\<rparr>)" for efb
    using p(2) make_room_length [OF len(1)] rect_ok_wf [OF sanitize_ok] by (auto simp: painter_ok_def)
  then show ?thesis
    using p assms mark_dirty_eq [OF len(1), of r]
    by (cases "scanout_fb p") (auto simp: evdi_painter_mark_dirty_def device_inv_def)
qed

lemma inv_set_vblank: "device_inv d \<Longrightarrow> device_inv (evdi_painter_set_vblank c v d)"
  by (auto simp: device_inv_def evdi_painter_set_vblank_def evdi_painter_send_vblank_def Let_def painter_ok_def)

lemma inv_update_ready: "device_inv d \<Longrightarrow> device_inv (evdi_painter_send_update_ready_if_needed reserve alloc d)"
  unfolding evdi_painter_send_update_ready_if_needed_def
proof (erule inv_with_painter)
  fix p w assume ok: "painter_ok p"
  obtain p' w' where s: "evdi_painter_send_event reserve (create_update_ready_event alloc) (p, w) = (p', w')"
    by (metis surj_pair)
  have "painter_ok (p'\<lparr>was_update_requested := False\<rparr>)"
    using painter_ok_send [OF ok s] by (auto simp: painter_ok_def)
  then show "painter_ok (fst (case (p, w) of (p, w) \<Rightarrow>
      if was_update_requested p \<and> dirty_rects p \<noteq> []
      then let (p, w) = evdi_painter_send_update_ready reserve alloc (p, w) in (p\<lparr>was_update_requested := False\<rparr>, w)
      else (p, w)))"
    using ok by (simp add: evdi_painter_send_update_ready_def s)
qed

lemma inv_request_update: "device_inv d \<Longrightarrow> device_inv (snd (evdi_painter_request_update_ioctl d))"
  by (auto simp: device_inv_def evdi_painter_request_update_ioctl_def painter_ok_def)

lemma painter_ok_dpms: "painter_ok p \<Longrightarrow> painter_ok (fst (dpms_notify reserve alloc fg dmode (p, w)))"
proof -
  assume ok: "painter_ok p"
  then have "painter_ok (if dmode = 0 then p\<lparr>painter_fg_console := fg\<rparr> else p)" by (auto simp: painter_ok_def)
  then show ?thesis
    using ok by (auto simp: dpms_notify_def evdi_painter_send_dpms_def Let_def intro: painter_ok_fst_send)
qed

lemma painter_ok_modeset: "painter_ok p \<Longrightarrow> painter_ok (p\<lparr>needs_full_modeset := b\<rparr>)"
  by (auto simp: painter_ok_def)

lemma painter_ok_vt: "painter_ok p \<Longrightarrow> painter_ok (fst (evdi_painter_vt_notifier_call reserve alloc fg (p, w)))"
  using painter_ok_dpms [of p reserve alloc fg DRM_MODE_DPMS_OFF w]
  by (auto simp: evdi_painter_vt_notifier_call_def painter_ok_modeset split: prod.splits)

lemma inv_mode_changed: "device_inv d \<Longrightarrow> device_inv (evdi_painter_mode_changed_notify reserve alloc new_mode d)"
  unfolding evdi_painter_mode_changed_notify_def
proof (erule inv_with_painter)
  fix p w assume ok: "painter_ok p"
  have "painter_ok (fst (evdi_painter_send_event reserve ev (p, w)))" for ev by (rule painter_ok_fst_send [OF ok])
  then show "painter_ok (fst (case (p, w) of (p, w) \<Rightarrow> case scanout_fb p of None \<Rightarrow> (p, w)
     | Some fb \<Rightarrow>
        let (p, w) = evdi_painter_send_mode_changed reserve alloc new_mode (int (unat (fb_cpp fb)) * 8) (fb_format fb) (p, w)
        in (p\<lparr>needs_full_modeset := False\<rparr>, w)))"
    using ok by (auto simp: evdi_painter_send_mode_changed_def painter_ok_modeset split: option.splits prod.splits)
       (metis fst_conv painter_ok_modeset)
qed

lemma inv_connect:
  assumes "device_inv d" "\<And>e. cmd_edid cmd = Some e \<Longrightarrow> length e = cmd_edid_length cmd"
  shows "device_inv (snd (evdi_painter_connect_ioctl alloc add_i2c cmd f d))"
proof -
  obtain p where p: "painter d = Some p" "painter_ok p" by (rule inv_obtain [OF assms(1)])
  have "device_inv (snd (evdi_painter_connect alloc add_i2c (cmd_edid cmd) (cmd_edid_length cmd) a b f p d))" for a b
    using assms p by (auto simp: evdi_painter_connect_def Let_def drm_helper_hpd_irq_event_def device_inv_def painter_ok_def
        split: option.splits)
  moreover have "device_inv (snd (evdi_painter_disconnect f p d))"
    using assms(1) p by (auto simp: evdi_painter_disconnect_def Let_def drm_helper_hpd_irq_event_def device_inv_def painter_ok_def
        evdi_painter_events_cleanup_def evdi_painter_send_vblank_def evdi_cursor_enable_def evdi_cursor_set_gem_def
        cursor_limits_def)
  ultimately show ?thesis using p by (simp add: evdi_painter_connect_ioctl_def)
qed

lemma inv_close: "device_inv d \<Longrightarrow> device_inv (evdi_painter_close f d)"
  using inv_connect [of d "\<lparr>connected = False, cmd_edid = None, cmd_edid_length = 0, cmd_area_limit = 0, cmd_second_limit = 0\<rparr>"]
  by (auto simp: evdi_painter_close_def evdi_painter_connect_ioctl_def split: option.splits)

lemma inv_set_scanout:
  assumes "device_inv d" "\<And>efb. newfb = Some efb \<Longrightarrow> fb_good efb"
  shows "\<exists>d'. evdi_painter_set_scanout_buffer newfb d = Inr d' \<and> device_inv d'"
proof -
  obtain p where p: "painter d = Some p" "painter_ok p" by (rule inv_obtain [OF assms(1)])
  have "painter_ok (p\<lparr>scanout_fb := newfb\<rparr>)" using p(2) assms(2) by (auto simp: painter_ok_def)
  then show ?thesis using p(1) assms(1) by (simp add: evdi_painter_set_scanout_buffer_def Let_def inv_painter)
qed

lemma fb_good_mapping:
  "fb_good efb \<Longrightarrow> (\<And>vm. m = Some vm \<Longrightarrow> length vm = obj_size (fb_obj efb)) \<Longrightarrow>
   fb_good (efb\<lparr>fb_obj := (fb_obj efb)\<lparr>vmapping := m\<rparr>\<rparr>)"
  by (simp add: fb_good_def)

lemma inv_grab:
  assumes inv: "device_inv d"
    and vmap: "\<And>p efb vm. painter d = Some p \<Longrightarrow> scanout_fb p = Some efb \<Longrightarrow> snd (env_vmap env) = Some vm \<Longrightarrow>
      length vm = obj_size (fb_obj efb)"
    and env: "env_valloc env" "int32 (buf_width cmd)" "int32 (buf_height cmd)"
  shows "\<exists>err cmd' d'. evdi_painter_grabpix_ioctl env cmd d = Inr (err, cmd', d') \<and> device_inv d'"
proof -
  obtain p where p: "painter d = Some p" "painter_ok p" by (rule inv_obtain [OF inv])
  show ?thesis
  proof (cases "grab_mode cmd = EVDI_GRABPIX_MODE_DIRTY \<and> 1 \<le> num_rects cmd")
    case False
    then show ?thesis using inv by (auto simp: evdi_painter_grabpix_ioctl_def)
  next
    case True
    let ?rs = "grab_dirts (num_rects cmd) (dirty_rects p)"
    let ?cmd = "cmd\<lparr>num_rects := int (length ?rs)\<rparr>"
    have n: "1 \<le> num_rects cmd" using True by simp
    have wf: "\<forall>r\<in>set ?rs. rect_wf r" and len: "length ?rs \<le> MAX_DIRTS"
      using p(2) grab_dirts_closed [OF rect_wf_closed n] grab_dirts_length(2) [OF n, of "dirty_rects p"]
      by (auto simp: painter_ok_def)
    show ?thesis
    proof (cases "scanout_fb p")
      case None
      have "painter_ok (p\<lparr>dirty_rects := ?rs\<rparr>)"
        using p(2) wf len grab_dirts_Nil [OF n, of "dirty_rects p"] by (auto simp: painter_ok_def)
      then show ?thesis
        using True p(1) None inv_painter [OF inv, of _ "drm d"] inv
        by (simp add: evdi_painter_grabpix_ioctl_def Let_def device_inv_def)
    next
      case (Some efb)
      let ?m = "case vmapping (fb_obj efb) of Some vm \<Rightarrow> Some vm
                 | None \<Rightarrow> if fst (env_vmap env) = - ENOMEM then None else snd (env_vmap env)"
      let ?efb = "efb\<lparr>fb_obj := (fb_obj efb)\<lparr>vmapping := ?m\<rparr>\<rparr>"
      have good: "fb_good efb" using p(2) Some by (simp add: painter_ok_def)
      have m: "length vm = obj_size (fb_obj efb)" if "?m = Some vm" for vm
        using that good vmap [OF p(1) Some] by (auto simp: fb_good_def split: option.splits if_splits)
      have good': "fb_good ?efb" by (rule fb_good_mapping [OF good m])
      have mapped: "fb_mapped ?efb vm" if "?m = Some vm" for vm
        using fb_good_mapped [OF good'] that by simp
      have c: "cursor_safe (cursor d)" using inv cursor_limits_safe by (simp add: device_inv_def)
      obtain err cmd' leak where gp: "grab_pixels env d ?efb ?m ?rs ?cmd = Inr (err, cmd', leak)"
        using grab_pixels_safe [OF mapped wf c, of ?m ?cmd env] env by auto
      have "painter_ok (p\<lparr>dirty_rects := [], crtc := None, vblank := None, scanout_fb := Some ?efb\<rparr>)"
        using p(2) good' by (auto simp: painter_ok_def)
      then show ?thesis
        using True p(1) Some gp inv by (simp add: evdi_painter_grabpix_ioctl_def Let_def device_inv_def)
    qed
  qed
qed

lemma inv_ddcci_request:
  assumes "device_inv d"
  shows "device_inv (case evdi_painter_i2c_data_notify reserve alloc (\<lambda>pw. (False, pw)) msg (painter d, drm d) of
       (_, _, p, w) \<Rightarrow> d\<lparr>painter := p, drm := w\<rparr>)"
proof -
  obtain p where p: "painter d = Some p" "painter_ok p" by (rule inv_obtain [OF assms])
  have ok: "painter_ok (p\<lparr>ddcci_response_received := 0\<rparr>)" using p(2) by (auto simp: painter_ok_def)
  have "painter_ok (fst (evdi_painter_send_event reserve e (p\<lparr>ddcci_response_received := 0\<rparr>, drm d)))" for e
    by (rule painter_ok_fst_send [OF ok])
  then show ?thesis
    using p assms
    by (auto simp: evdi_painter_i2c_data_notify_def evdi_painter_ddcci_data_def Let_def device_inv_def
        split: option.splits prod.splits) (metis fst_conv)+
qed

lemma inv_ddcci_response:
  assumes "device_inv d" "\<And>n b. data n = Some b \<Longrightarrow> length b = n"
  shows "\<exists>err d'. evdi_painter_ddcci_response_ioctl alloc data len d = Inr (err, d') \<and> device_inv d'"
proof -
  obtain p where p: "painter d = Some p" "painter_ok p" by (rule inv_obtain [OF assms(1)])
  have "unat (min len (word_of_nat DDCCI_BUFFER_SIZE)) \<le> DDCCI_BUFFER_SIZE"
    by (simp add: DDCCI_BUFFER_SIZE_def min_def word_le_nat_alt)
  then show ?thesis
    using p assms
    by (auto simp: evdi_painter_ddcci_response_ioctl_def Let_def device_inv_def painter_ok_def split: option.splits)
qed

section \<open>No step faults\<close>

lemma step_inv:
  assumes "device_step d r" "device_inv d"
  shows "\<exists>d'. r = Inr d' \<and> device_inv d'"
  using assms
proof (cases rule: device_step.cases)
  case (get_edid alloc)
  then show ?thesis using assms(2) by (auto simp: evdi_painter_get_edid_copy_def device_inv_def split: option.splits)
next
  case (mark r)
  then show ?thesis using inv_mark [OF assms(2)] by simp
next
  case (force_modeset)
  then show ?thesis using assms(2) by (auto simp: device_inv_def evdi_painter_force_full_modeset_def painter_ok_modeset)
next
  case (work reserve)
  obtain p where p: "painter d = Some p" "painter_ok p" by (rule inv_obtain [OF assms(2)])
  obtain p' w' where "evdi_send_events_work reserve (p, drm d) = Inr (p', w')" "painter_ok p'"
    by (rule painter_ok_work [OF p(2)])
  then show ?thesis using work p(1) assms(2) by (simp add: the_painter_def inv_painter)
next
  case (grab env cmd)
  obtain err cmd' d' where "evdi_painter_grabpix_ioctl env cmd d = Inr (err, cmd', d')" "device_inv d'"
    using inv_grab [OF assms(2) _ grab(3-5)] grab(2) by blast
  then show ?thesis using grab(1) by simp
next
  case (set_scanout newfb)
  then show ?thesis using inv_set_scanout [OF assms(2), of newfb] by simp
next
  case (ddcci_response data alloc len)
  obtain err d' where "evdi_painter_ddcci_response_ioctl alloc data len d = Inr (err, d')" "device_inv d'"
    using inv_ddcci_response [OF assms(2) ddcci_response(2)] by blast
  then show ?thesis using ddcci_response(1) by simp
next
  case (cursor_set ob vmap cw ch c refs hx hy fmt strd)
  have "cursor_limits c"
    using cursor_set(2-5) assms(2)
    by (auto simp: evdi_cursor_set_def evdi_cursor_set_gem_def Let_def cursor_limits_def device_inv_def
        split: option.splits if_splits)
  then show ?thesis using cursor_set(1) assms(2) by (simp add: device_inv_def)
next
  case (cursor_move x y)
  then show ?thesis using assms(2) by (simp add: device_inv_def cursor_limits_def evdi_cursor_move_def)
next
  case (cursor_events enable)
  then show ?thesis using assms(2) by (simp add: device_inv_def evdi_painter_enable_cursor_events_ioctl_def)
qed (use assms(2) in \<open>simp_all add: inv_set_vblank inv_update_ready inv_request_update evdi_painter_dpms_notify_def
    inv_with_painter painter_ok_dpms painter_ok_vt inv_mode_changed evdi_painter_send_cursor_set_def
    evdi_painter_send_cursor_move_def painter_ok_fst_send inv_connect inv_close inv_ddcci_request\<close>)

lemma start_inv: "device_start d \<Longrightarrow> device_inv d"
  by (auto elim!: device_start.cases simp: evdi_painter_init_def device_inv_def painter_ok_def evdi_painter_zero_def
      cursor_limits_def evdi_cursor_zero_def DDCCI_BUFFER_SIZE_def)

interpretation dev: never_faults device_start device_step device_inv
  by unfold_locales (auto intro: start_inv step_inv)


definition demo_connect :: drm_evdi_connect where
  "demo_connect = \<lparr>connected = True, cmd_edid = Some (replicate 128 0), cmd_edid_length = 128,
     cmd_area_limit = 0, cmd_second_limit = 0\<rparr>"

lemma demo_fb_good: "fb_good demo_fb"
  by (simp add: fb_good_def demo_fb_def demo_gem_def)

definition demo_start :: evdi_device where
  "demo_start = snd (evdi_painter_init True ((demo_device [])\<lparr>painter := None\<rparr>))"

lemma demo_start_reach: "device_reach demo_start"
  by (rule runs.begins, rule device_start.init [of "(demo_device [])\<lparr>painter := None\<rparr>"])
     (simp_all add: demo_start_def demo_device_def evdi_painter_init_def)


end
