(* ===== verification/PainterEvents.thy ===== *)
theory PainterEvents
  imports PainterSteps "HOL-Library.Sublist"
begin

text \<open>
  What the painter owes the rest of the system: events reach the daemon in order, a vertical blank is
  sent exactly once, references on framebuffers balance, a requested update is announced, and a DDC/CI
  reply is copied into the message and nowhere else.
\<close>

section \<open>Events reach the daemon in order\<close>

text \<open>A history of sends (\<open>Some event\<close>) and runs of the delayed work (\<open>None\<close>), each with its own answers of DRM.\<close>

fun ev_run :: "(reserve \<times> drm_evdi_event option) list \<Rightarrow> pw \<Rightarrow> c_error + pw" where
  "ev_run [] s = Inr s"
| "ev_run ((reserve, Some event) # xs) s = ev_run xs (evdi_painter_send_event reserve (Some event) s)"
| "ev_run ((reserve, None) # xs) s = ebind (evdi_send_events_work reserve s) (ev_run xs)"

definition submitted :: "(reserve \<times> drm_evdi_event option) list \<Rightarrow> drm_evdi_event list" where
  "submitted xs = List.map_filter snd xs"

lemma submitted_simps [simp]:
  "submitted [] = []" "submitted ((r, Some e) # xs) = e # submitted xs" "submitted ((r, None) # xs) = submitted xs"
  by (simp_all add: submitted_def map_filter_simps)

abbreviation "steady \<equiv> filter (\<lambda>e. \<not> is_evdi_event_squashable e)"

text \<open>What is queued represents what was submitted.\<close>

definition represents :: "drm_evdi_event list \<Rightarrow> drm_evdi_event list \<Rightarrow> bool" where
  "represents q s \<longleftrightarrow> subseq q s \<and> steady q = steady s \<and> (s \<noteq> [] \<longrightarrow> q \<noteq> [] \<and> last q = last s)"

lemma represents_add:
  assumes "represents (d @ pend) s"
  shows "represents (d @ add_to_pending e pend) (s @ [e])"
proof (cases "pend \<noteq> [] \<and> event_type e = event_type (last pend) \<and> is_evdi_event_squashable e")
  case True
  then have sq: "is_evdi_event_squashable (last pend)"
    unfolding is_evdi_event_squashable_def by metis
  have p: "pend = butlast pend @ [last pend]" using True by simp
  have "subseq (d @ butlast pend) (d @ pend)"
    by (intro prefix_imp_subseq) (simp add: prefixeq_butlast)
  then have "subseq ((d @ butlast pend) @ [e]) (s @ [e])"
    using assms subseq_order.order_trans by (intro list_emb_append_mono) (auto simp: represents_def)
  moreover have "steady (d @ butlast pend @ [e]) = steady (s @ [e])"
  proof -
    have "steady pend = steady (butlast pend)" by (subst p) (simp add: sq)
    then show ?thesis using assms by (simp add: represents_def)
  qed
  ultimately show ?thesis using True by (simp add: represents_def add_to_pending_def)
next
  case False
  then show ?thesis
    using assms by (auto simp: represents_def add_to_pending_def simp flip: append_assoc)
qed

lemma flush_loop_split:
  "flush_loop reserve f pend sent = (pend', sent') \<Longrightarrow> \<exists>d. sent' = sent @ map (Pair f) d \<and> pend = d @ pend'"
proof (induction pend arbitrary: sent)
  case (Cons e pend)
  show ?case
  proof (cases "reserve f sent e")
    case True
    then obtain d where "sent' = (sent @ [(f, e)]) @ map (Pair f) d \<and> pend = d @ pend'"
      using Cons.prems Cons.IH [of "sent @ [(f, e)]"] by auto
    then show ?thesis by (intro exI [of _ "e # d"]) simp
  next
    case False
    then show ?thesis using Cons.prems by (intro exI [of _ "[]"]) simp
  qed
qed simp

lemma flush_loop_room: "flush_loop (\<lambda>_ _ _. True) f pend sent = ([], sent @ map (Pair f) pend)"
  by (induction pend arbitrary: sent) simp_all

text \<open>The events of the file \<open>f\<close> since \<open>sent0\<close>, and the painter connected to it.\<close>

definition ev_inv :: "nat \<Rightarrow> (nat \<times> drm_evdi_event) list \<Rightarrow> drm_evdi_event list \<Rightarrow> pw \<Rightarrow> bool" where
  "ev_inv f sent0 s = (\<lambda>(p, w). drm_filp p = Some f \<and> is_connected p \<and> has_drm_device p \<and>
    (\<exists>d. events_sent w = sent0 @ map (Pair f) d \<and> represents (d @ pending_events p) s))"

lemma ev_inv_flush:
  assumes "ev_inv f sent0 s (p, w)" "evdi_painter_flush_pending_events reserve f (p, w) = (fin, p', w')"
  shows "ev_inv f sent0 s (p', w')" "drm_filp p' = Some f" "is_connected p'" "has_drm_device p'"
    "ev_inv f sent0 s (p'\<lparr>work_pending := b\<rparr>, w')"
proof -
  obtain pend' sent' where fl: "flush_loop reserve f (pending_events p) (events_sent w) = (pend', sent')"
    by (metis surj_pair)
  then obtain d where d: "sent' = events_sent w @ map (Pair f) d" "pending_events p = d @ pend'"
    using flush_loop_split by blast
  obtain d0 where d0: "events_sent w = sent0 @ map (Pair f) d0" "represents (d0 @ pending_events p) s"
    using assms(1) by (auto simp: ev_inv_def)
  have e: "p' = p\<lparr>pending_events := pend'\<rparr>" "w' = w\<lparr>events_sent := sent'\<rparr>"
    using assms(2) fl by (auto simp: evdi_painter_flush_pending_events_def)
  have "\<exists>da. sent0 @ map (Pair f) d0 @ map (Pair f) d = sent0 @ map (Pair f) da \<and> represents (da @ pend') s"
    using d0(2) d(2) by (intro exI [of _ "d0 @ d"]) simp
  then show "ev_inv f sent0 s (p', w')" "ev_inv f sent0 s (p'\<lparr>work_pending := b\<rparr>, w')"
    using assms(1) d0(1) d(1) by (auto simp: ev_inv_def e)
  show "drm_filp p' = Some f" "is_connected p'" "has_drm_device p'" using assms(1) by (auto simp: ev_inv_def e)
qed

lemma ev_inv_send:
  assumes "ev_inv f sent0 s (p, w)"
  shows "ev_inv f sent0 (s @ [e]) (evdi_painter_send_event reserve (Some e) (p, w))"
proof -
  have c: "drm_filp p = Some f" "is_connected p" "has_drm_device p" using assms by (auto simp: ev_inv_def)
  have add: "ev_inv f sent0 (s @ [e]) (evdi_painter_add_event_to_pending_list e p, w)"
    using assms represents_add by (fastforce simp: ev_inv_def evdi_painter_add_event_to_pending_list_def)
  obtain fin p' w' where fl: "evdi_painter_flush_pending_events reserve f
      (evdi_painter_add_event_to_pending_list e p, w) = (fin, p', w')" by (metis surj_pair)
  have "work_pending (evdi_painter_add_event_to_pending_list e p) = work_pending p"
    by (simp add: evdi_painter_add_event_to_pending_list_def)
  then show ?thesis
    using add ev_inv_flush [OF add fl] c by (simp add: evdi_painter_send_event_def Let_def fl)
qed

lemma ev_inv_work:
  assumes "ev_inv f sent0 s (p, w)"
  obtains s' where "evdi_send_events_work reserve (p, w) = Inr s'" "ev_inv f sent0 s s'"
proof -
  have i: "ev_inv f sent0 s (p\<lparr>work_pending := False\<rparr>, w)" using assms by (simp add: ev_inv_def)
  obtain fin p' w' where fl: "evdi_painter_flush_pending_events reserve f (p\<lparr>work_pending := False\<rparr>, w) = (fin, p', w')"
    by (metis surj_pair)
  have "drm_filp p = Some f" using assms by (simp add: ev_inv_def)
  then show ?thesis
    using that [of "if fin then (p', w') else (p'\<lparr>work_pending := True\<rparr>, w')"] ev_inv_flush [OF i fl]
    by (simp add: evdi_send_events_work_def Let_def fl)
qed

lemma ev_inv_run:
  "ev_inv f sent0 s pw \<Longrightarrow> \<exists>pw'. ev_run xs pw = Inr pw' \<and> ev_inv f sent0 (s @ submitted xs) pw'"
proof (induction xs arbitrary: s pw)
  case (Cons x xs)
  obtain r ev where x: "x = (r, ev)" by (cases x)
  obtain p w where pw: "pw = (p, w)" by (cases pw)
  show ?case
  proof (cases ev)
    case None
    obtain s' where "evdi_send_events_work r (p, w) = Inr s'" "ev_inv f sent0 s s'"
      using ev_inv_work Cons.prems pw by blast
    then show ?thesis using Cons.IH [of s s'] x None pw by simp
  next
    case (Some e)
    then show ?thesis
      using Cons.IH [OF ev_inv_send [of f sent0 s p w e r]] Cons.prems x pw by simp
  qed
qed simp

text \<open>
  C7: For every history of events and runs of the delayed work on a connected painter, and whatever
  room the daemon's file has at each attempt, the events delivered to the file followed by those still
  pending are a subsequence of the events submitted, in order; no event other than a cursor event is
  missing or duplicated; the newest event is never the one dropped. Nothing is lost for good: one run of
  the work with room delivers all that is pending, in order, and leaves no work scheduled.
\<close>

theorem events_in_order:
  assumes "drm_filp p = Some f" "is_connected p" "has_drm_device p" "pending_events p = []"
  shows "\<exists>p' w' d. ev_run xs (p, w) = Inr (p', w') \<and> events_sent w' = events_sent w @ map (Pair f) d \<and>
    subseq (d @ pending_events p') (submitted xs) \<and>
    steady (d @ pending_events p') = steady (submitted xs) \<and>
    (submitted xs \<noteq> [] \<longrightarrow> last (d @ pending_events p') = last (submitted xs)) \<and>
    (\<exists>p'' w''. evdi_send_events_work (\<lambda>_ _ _. True) (p', w') = Inr (p'', w'') \<and>
      events_sent w'' = events_sent w @ map (Pair f) (d @ pending_events p') \<and>
      pending_events p'' = [] \<and> \<not> work_pending p'')"
proof -
  have "ev_inv f (events_sent w) [] (p, w)"
    using assms by (auto simp: ev_inv_def represents_def)
  then obtain p' w' where run: "ev_run xs (p, w) = Inr (p', w')" "ev_inv f (events_sent w) (submitted xs) (p', w')"
    using ev_inv_run [of f "events_sent w" "[]" "(p, w)" xs] by auto
  then obtain d where "events_sent w' = events_sent w @ map (Pair f) d"
    "represents (d @ pending_events p') (submitted xs)" "drm_filp p' = Some f"
    by (auto simp: ev_inv_def)
  then show ?thesis
    using run(1) by (auto simp: represents_def evdi_send_events_work_def evdi_painter_flush_pending_events_def
        flush_loop_room Let_def)
qed

theorem events_in_order_witness:
  "\<exists>p' w' d. ev_run [(\<lambda>_ sent _. length sent < 1, Some UpdateReady), (\<lambda>_ sent _. length sent < 1, Some (CursorMove 1 1)),
       (\<lambda>_ sent _. length sent < 1, Some (CursorMove 2 2)), (\<lambda>_ _ _. True, None)]
      (evdi_painter_zero\<lparr>is_connected := True, drm_filp := Some 5, has_drm_device := True\<rparr>, demo_world) = Inr (p', w') \<and>
    events_sent w' = map (Pair 5) d \<and> last (d @ pending_events p') = CursorMove 2 2"
  using events_in_order [of "evdi_painter_zero\<lparr>is_connected := True, drm_filp := Some 5, has_drm_device := True\<rparr>" 5
      "[(\<lambda>_ sent _. length sent < 1, Some UpdateReady), (\<lambda>_ sent _. length sent < 1, Some (CursorMove 1 1)),
       (\<lambda>_ sent _. length sent < 1, Some (CursorMove 2 2)), (\<lambda>_ _ _. True, None)]" demo_world]
  by (fastforce simp: evdi_painter_zero_def demo_world_def)

section \<open>Vertical blanks and references\<close>

fun vb :: "nat option \<Rightarrow> nat option \<Rightarrow> (nat \<times> nat) list" where
  "vb (Some c) (Some v) = [(c, v)]"
| "vb _ _ = []"

text \<open>Every vertical blank handed to the painter so far: sent, or held.\<close>

definition vblanks :: "evdi_device \<Rightarrow> (nat \<times> nat) list" where
  "vblanks d = vblanks_sent (drm d) @ (case painter d of Some p \<Rightarrow> vb (crtc p) (vblank p) | None \<Rightarrow> [])"

lemma vb_None [simp]: "vb None v = []" "vb c None = []"
  by (cases c; simp)+

lemma send_vblank_world [simp]:
  "vblanks_sent (evdi_send_vblank c v w) = vblanks_sent w @ vb c v" "fb_refs (evdi_send_vblank c v w) = fb_refs w"
  by (auto simp: evdi_send_vblank_def split: option.splits)

lemma fb_get_put_world [simp]:
  "vblanks_sent (drm_framebuffer_get efb w) = vblanks_sent w" "vblanks_sent (drm_framebuffer_put efb w) = vblanks_sent w"
  "fb_refs (drm_framebuffer_get efb w) i = fb_refs w i + (if fb_id efb = i then 1 else 0)"
  "fb_refs (drm_framebuffer_put efb w) i = fb_refs w i - (if fb_id efb = i then 1 else 0)"
  by (auto simp: drm_framebuffer_get_def drm_framebuffer_put_def)

definition holds_fb :: "evdi_painter \<Rightarrow> nat \<Rightarrow> int" where
  "holds_fb p i = (case scanout_fb p of Some efb \<Rightarrow> if fb_id efb = i then 1 else 0 | None \<Rightarrow> 0)"

text \<open>The references on a framebuffer that are not the painter's.\<close>

definition foreign_refs :: "evdi_device \<Rightarrow> nat \<Rightarrow> int" where
  "foreign_refs d i = fb_refs (drm d) i - (case painter d of Some p \<Rightarrow> holds_fb p i | None \<Rightarrow> 0)"

definition quiet :: "pw \<Rightarrow> pw \<Rightarrow> bool" where
  "quiet = (\<lambda>(p, w) (p', w'). vblanks_sent w' = vblanks_sent w \<and> fb_refs w' = fb_refs w \<and>
    crtc p' = crtc p \<and> vblank p' = vblank p \<and> scanout_fb p' = scanout_fb p)"

lemma quiet_refl [simp]: "quiet pw pw"
  by (cases pw) (simp add: quiet_def)

lemma quiet_send: "quiet pw (evdi_painter_send_event reserve e pw)"
  by (cases pw) (auto simp: quiet_def evdi_painter_send_event_def evdi_painter_add_event_to_pending_list_def
      evdi_painter_flush_pending_events_def Let_def split: option.splits prod.splits)

lemma quiet_work: "evdi_send_events_work reserve pw = Inr pw' \<Longrightarrow> quiet pw pw'"
  by (cases pw) (auto simp: quiet_def evdi_send_events_work_def evdi_painter_flush_pending_events_def Let_def
      split: option.splits prod.splits if_splits)

text \<open>A new painter and world with the same totals.\<close>

lemma frame_painter:
  "painter d = Some p \<Longrightarrow> vblanks_sent w' @ vb (crtc p') (vblank p') = vblanks_sent (drm d) @ vb (crtc p) (vblank p) \<Longrightarrow>
   (\<And>i. fb_refs w' i - holds_fb p' i = fb_refs (drm d) i - holds_fb p i) \<Longrightarrow>
   vblanks (d\<lparr>painter := Some p', drm := w'\<rparr>) = vblanks d \<and>
   foreign_refs (d\<lparr>painter := Some p', drm := w'\<rparr>) = foreign_refs d"
  by (simp add: vblanks_def foreign_refs_def fun_eq_iff)

lemma frame_cong:
  "painter d = painter d' \<Longrightarrow> drm d = drm d' \<Longrightarrow> vblanks d = vblanks d' \<and> foreign_refs d = foreign_refs d'"
  by (simp add: vblanks_def foreign_refs_def fun_eq_iff)

lemma quiet_same:
  "painter d = Some p \<Longrightarrow> quiet (p, drm d) (p', w') \<Longrightarrow>
   vblanks (d\<lparr>painter := Some p', drm := w'\<rparr>) = vblanks d \<and>
   foreign_refs (d\<lparr>painter := Some p', drm := w'\<rparr>) = foreign_refs d"
  by (rule frame_painter) (simp_all add: quiet_def holds_fb_def)

lemma quiet_with:
  assumes "\<And>p w. quiet (p, w) (f (p, w))"
  shows "vblanks (with_painter f d) = vblanks d \<and> foreign_refs (with_painter f d) = foreign_refs d"
proof (cases "painter d")
  case (Some p)
  obtain p' w' where f: "f (p, drm d) = (p', w')" by (metis surj_pair)
  then have "quiet (p, drm d) (p', w')" using assms [of p "drm d"] by simp
  then show ?thesis using quiet_same [OF Some] f Some by (simp add: with_painter_def)
qed (simp add: with_painter_def)

lemma quiet_modify:
  "quiet pw (p', w') \<Longrightarrow> quiet pw (p'\<lparr>was_update_requested := b\<rparr>, w')"
  "quiet pw (p', w') \<Longrightarrow> quiet pw (p'\<lparr>needs_full_modeset := b\<rparr>, w')"
  "quiet (p\<lparr>painter_fg_console := g\<rparr>, w) pw' = quiet (p, w) pw'"
  "quiet (p\<lparr>ddcci_response_received := n\<rparr>, w) pw' = quiet (p, w) pw'"
  by (cases pw; auto simp: quiet_def)+

lemma quiet_dpms: "quiet (p, w) (dpms_notify reserve alloc fg dmode (p, w))"
  using quiet_send [of "(p\<lparr>painter_fg_console := fg\<rparr>, w)"] quiet_send [of "(p, w)"]
  by (auto simp: dpms_notify_def evdi_painter_send_dpms_def Let_def quiet_modify)

lemma set_vblank_frame:
  "vblanks (evdi_painter_set_vblank c v d) = vblanks d @ vb c v \<and>
   foreign_refs (evdi_painter_set_vblank c v d) = foreign_refs d"
  by (cases "painter d")
     (simp_all add: evdi_painter_set_vblank_def evdi_painter_send_vblank_def vblanks_def foreign_refs_def holds_fb_def
       fun_eq_iff Let_def)

lemma disconnect_frame:
  assumes "painter d = Some p"
  shows "vblanks (snd (evdi_painter_disconnect f p d)) = vblanks d \<and>
    foreign_refs (snd (evdi_painter_disconnect f p d)) = foreign_refs d"
proof (cases "drm_filp p = Some f")
  case True
  then show ?thesis
    using assms
    by (cases "scanout_fb p")
       (simp_all add: evdi_painter_disconnect_def Let_def drm_helper_hpd_irq_event_def evdi_painter_events_cleanup_def
        evdi_painter_send_vblank_def vblanks_def foreign_refs_def holds_fb_def fun_eq_iff split: prod.splits)
qed (simp add: evdi_painter_disconnect_def)

lemma connect_frame:
  "vblanks (snd (evdi_painter_connect_ioctl alloc add_i2c cmd f d)) = vblanks d \<and>
   foreign_refs (snd (evdi_painter_connect_ioctl alloc add_i2c cmd f d)) = foreign_refs d"
proof (cases "painter d")
  case (Some p)
  have "vblanks (snd (evdi_painter_connect alloc add_i2c e l a b f p d)) = vblanks d \<and>
    foreign_refs (snd (evdi_painter_connect alloc add_i2c e l a b f p d)) = foreign_refs d" for e l a b
    using Some by (cases e) (simp_all add: evdi_painter_connect_def Let_def drm_helper_hpd_irq_event_def vblanks_def
        foreign_refs_def holds_fb_def fun_eq_iff)
  then show ?thesis using Some disconnect_frame [OF Some] by (simp add: evdi_painter_connect_ioctl_def)
qed (simp add: evdi_painter_connect_ioctl_def)

lemma grab_frame:
  assumes "evdi_painter_grabpix_ioctl env cmd d = Inr (err, cmd', d')"
  shows "vblanks d' = vblanks d \<and> foreign_refs d' = foreign_refs d"
proof (cases "grab_mode cmd = EVDI_GRABPIX_MODE_DIRTY \<and> 1 \<le> num_rects cmd \<and> painter d \<noteq> None")
  case False
  then have "d' = d" using assms by (auto simp: evdi_painter_grabpix_ioctl_def split: if_splits)
  then show ?thesis by simp
next
  case True
  then obtain p where p: "painter d = Some p" by blast
  show ?thesis
  proof (cases "scanout_fb p")
    case None
    then have "d' = d\<lparr>painter := Some (p\<lparr>dirty_rects := grab_dirts (num_rects cmd) (dirty_rects p)\<rparr>)\<rparr>"
      using assms True p by (simp add: evdi_painter_grabpix_ioctl_def Let_def)
    then show ?thesis
      using p by (simp add: vblanks_def foreign_refs_def holds_fb_def fun_eq_iff)
  next
    case (Some efb)
    obtain m leak where d': "d' = d\<lparr>painter := Some (p\<lparr>dirty_rects := [], crtc := None, vblank := None,
          scanout_fb := Some (efb\<lparr>fb_obj := (fb_obj efb)\<lparr>vmapping := m\<rparr>\<rparr>)\<rparr>),
        drm := (drm_framebuffer_put (efb\<lparr>fb_obj := (fb_obj efb)\<lparr>vmapping := m\<rparr>\<rparr>)
          (evdi_send_vblank (crtc p) (vblank p) (drm_framebuffer_get efb (drm d))))
          \<lparr>vmalloc_live := vmalloc_live (drm d) + leak\<rparr>\<rparr>"
      using assms True p Some
      by (auto simp: evdi_painter_grabpix_ioctl_def Let_def ebind_eq_Inr drm_framebuffer_get_def
          drm_framebuffer_put_def evdi_send_vblank_def split: option.splits)
    show ?thesis unfolding d' by (rule frame_painter [OF p]) (simp_all add: holds_fb_def Some)
  qed
qed

lemma ddcci_frame:
  "(case evdi_painter_i2c_data_notify reserve alloc (\<lambda>pw. (False, pw)) msg (painter d, drm d) of
     (_, _, p, w) \<Rightarrow> vblanks (d\<lparr>painter := p, drm := w\<rparr>) = vblanks d \<and>
       foreign_refs (d\<lparr>painter := p, drm := w\<rparr>) = foreign_refs d)"
proof (cases "\<exists>p m. painter d = Some p \<and> is_connected p \<and> msg = Some m \<and> msg_addr m = I2C_ADDRESS_DDCCI")
  case True
  then obtain p m where p: "painter d = Some p" "is_connected p" "msg = Some m" "msg_addr m = I2C_ADDRESS_DDCCI" by blast
  obtain p' w' where s: "evdi_painter_send_event reserve (create_ddcci_data_event alloc m)
      (p\<lparr>ddcci_response_received := 0\<rparr>, drm d) = (p', w')" by (metis surj_pair)
  then have "quiet (p, drm d) (p', w')"
    using quiet_send [of "(p\<lparr>ddcci_response_received := 0\<rparr>, drm d)" reserve "create_ddcci_data_event alloc m"]
    by (simp add: quiet_modify)
  then show ?thesis
    using quiet_same [OF p(1)] p s
    by (simp add: evdi_painter_i2c_data_notify_def evdi_painter_is_connected_def evdi_painter_ddcci_data_def Let_def)
next
  case False
  then show ?thesis
    by (auto simp: evdi_painter_i2c_data_notify_def evdi_painter_is_connected_def vblanks_def foreign_refs_def
        split: option.splits)
qed

text \<open>What one step does to the totals.\<close>

lemma step_frame:
  assumes "device_step d (Inr d')"
  shows "foreign_refs d' = foreign_refs d \<and>
    (vblanks d' = vblanks d \<or> (\<exists>c v. d' = evdi_painter_set_vblank (Some c) (Some v) d \<and> vblanks d' = vblanks d @ [(c, v)]))"
  using assms
proof (cases rule: device_step.cases)
  case (set_vblank c v)
  then show ?thesis using set_vblank_frame [of c v d] by (cases c; cases v) auto
next
  case (mark r)
  from mark [symmetric] show ?thesis
    by (auto simp: evdi_painter_mark_dirty_def mark_dirty_def ebind_eq_Inr vblanks_def foreign_refs_def holds_fb_def
        fun_eq_iff split: option.splits)
next
  case (update_ready reserve alloc)
  have "quiet (p, w) (case (p, w) of (p, w) \<Rightarrow>
      if was_update_requested p \<and> dirty_rects p \<noteq> []
      then let (p, w) = evdi_painter_send_update_ready reserve alloc (p, w) in (p\<lparr>was_update_requested := False\<rparr>, w)
      else (p, w))" for p w
    using quiet_send [of "(p, w)" reserve "create_update_ready_event alloc"]
    by (auto simp: evdi_painter_send_update_ready_def quiet_modify split: prod.splits)
  then show ?thesis using update_ready quiet_with by (simp add: evdi_painter_send_update_ready_if_needed_def)
next
  case request_update
  then show ?thesis
    by (auto simp: evdi_painter_request_update_ioctl_def vblanks_def foreign_refs_def holds_fb_def fun_eq_iff
        split: option.splits)
next
  case (mode_changed reserve alloc new_mode)
  have "quiet (p, w) (case (p, w) of (p, w) \<Rightarrow> case scanout_fb p of None \<Rightarrow> (p, w)
     | Some fb \<Rightarrow>
        let (p, w) = evdi_painter_send_mode_changed reserve alloc new_mode (int (unat (fb_cpp fb)) * 8) (fb_format fb) (p, w)
        in (p\<lparr>needs_full_modeset := False\<rparr>, w))" for p w
    using quiet_send [of "(p, w)" reserve]
    by (auto simp: evdi_painter_send_mode_changed_def split: option.splits prod.splits) (metis quiet_modify(2))
  then show ?thesis using mode_changed quiet_with by (simp add: evdi_painter_mode_changed_notify_def)
next
  case force_modeset
  then show ?thesis
    by (auto simp: evdi_painter_force_full_modeset_def vblanks_def foreign_refs_def holds_fb_def fun_eq_iff
        split: option.splits)
next
  case (vt_switch reserve alloc fg)
  have "quiet (p, w) (evdi_painter_vt_notifier_call reserve alloc fg (p, w))" for p w
    using quiet_dpms [of p w reserve alloc fg DRM_MODE_DPMS_OFF]
    by (auto simp: evdi_painter_vt_notifier_call_def quiet_modify split: prod.splits)
  then show ?thesis using vt_switch quiet_with by simp
next
  case (work reserve)
  from work [symmetric] show ?thesis
    using quiet_work quiet_same by (auto simp: the_painter_def ebind_eq_Inr split: option.splits prod.splits)
next
  case (close f)
  then show ?thesis using disconnect_frame by (auto simp: evdi_painter_close_def split: option.splits)
next
  case (grab env cmd)
  from grab(1) [symmetric] show ?thesis using grab_frame by (auto simp: ebind_eq_Inr)
next
  case (set_scanout newfb)
  from set_scanout(1) [symmetric] obtain p where p: "painter d = Some p"
    by (auto simp: evdi_painter_set_scanout_buffer_def Let_def split: option.splits)
  with set_scanout(1) [symmetric] show ?thesis
    by (cases newfb; cases "scanout_fb p")
       (simp_all add: evdi_painter_set_scanout_buffer_def Let_def vblanks_def foreign_refs_def holds_fb_def fun_eq_iff,
        auto simp: foreign_refs_def holds_fb_def vblanks_def)
next
  case (ddcci_request reserve alloc msg)
  then show ?thesis using ddcci_frame [where reserve = reserve and alloc = alloc and msg = msg and d = d] by (auto split: prod.splits)
next
  case (ddcci_response data alloc len)
  from ddcci_response(1) [symmetric] show ?thesis
    by (auto simp: ebind_eq_Inr evdi_painter_ddcci_response_ioctl_def Let_def vblanks_def foreign_refs_def holds_fb_def
        fun_eq_iff split: option.splits if_splits)
next
  case (cursor_events enable)
  then show ?thesis by (auto simp: evdi_painter_enable_cursor_events_ioctl_def vblanks_def foreign_refs_def fun_eq_iff)
next
  case (cursor_set ob vmap cw ch c refs hx hy fmt strd)
  then show ?thesis by (auto simp: vblanks_def foreign_refs_def fun_eq_iff)
next
  case (cursor_move x y)
  then show ?thesis by (auto simp: vblanks_def foreign_refs_def fun_eq_iff)
next
  case (get_edid alloc)
  from get_edid [symmetric] show ?thesis by (auto simp: ebind_eq_Inr)
qed (auto simp: evdi_painter_dpms_notify_def evdi_painter_send_cursor_set_def evdi_painter_send_cursor_move_def
    quiet_with quiet_dpms quiet_send connect_frame ebind_eq_Inr)

text \<open>
  A vertical blank handed to the painter is sent exactly once. In every reachable state and for
  every step, the sequence of vertical blanks sent so far followed by the one held is extended by exactly
  the blank of a \<^verbatim>\<open>evdi_painter_set_vblank\<close> with both a CRTC and an event, and by nothing else; and whenever
  the device is disconnected or nothing is dirty, none is held: all have been sent.
\<close>

theorem vblank_exactly_once:
  assumes "device_reach d" "device_step d (Inr d')"
  shows "(vblanks d' = vblanks d \<or>
      (\<exists>c v. d' = evdi_painter_set_vblank (Some c) (Some v) d \<and> vblanks d' = vblanks d @ [(c, v)])) \<and>
    (\<forall>p'. painter d' = Some p' \<and> (\<not> is_connected p' \<or> dirty_rects p' = []) \<longrightarrow> vblanks d' = vblanks_sent (drm d'))"
proof
  show "vblanks d' = vblanks d \<or>
      (\<exists>c v. d' = evdi_painter_set_vblank (Some c) (Some v) d \<and> vblanks d' = vblanks d @ [(c, v)])"
    using step_frame [OF assms(2)] by blast
  have "device_inv d'" using dev.runs_inv [OF runs.goes [OF assms]] .
  then obtain q where q: "painter d' = Some q" "painter_ok q" by (auto simp: device_inv_def)
  have "crtc q = None" if "\<not> is_connected q \<or> dirty_rects q = []" using q(2) that by (auto simp: painter_ok_def)
  then show "\<forall>p'. painter d' = Some p' \<and> (\<not> is_connected p' \<or> dirty_rects p' = []) \<longrightarrow> vblanks d' = vblanks_sent (drm d')"
    using q(1) by (auto simp: vblanks_def)
qed

theorem vblank_exactly_once_witness:
  "vblanks (evdi_painter_set_vblank (Some 1) (Some 2) demo_start) = [(1, 2)] \<and>
   vblanks (evdi_painter_set_vblank (Some 1) (Some 2) demo_start) =
   vblanks_sent (drm (evdi_painter_set_vblank (Some 1) (Some 2) demo_start))"
proof -
  have "\<exists>p'. painter (evdi_painter_set_vblank (Some 1) (Some 2) demo_start) = Some p' \<and> \<not> is_connected p'"
    "vblanks demo_start = []"
    by (auto simp: demo_start_def evdi_painter_init_def evdi_painter_set_vblank_def evdi_painter_send_vblank_def
        evdi_painter_zero_def Let_def vblanks_def demo_device_def demo_world_def)
  then show ?thesis
    using vblank_exactly_once [OF demo_start_reach device_step.set_vblank [of demo_start "Some 1" "Some 2"]]
      set_vblank_frame [of "Some 1" "Some 2" demo_start] by auto
qed

text \<open>
  The painter holds exactly one reference on its scanout buffer and none on any other framebuffer:
  every step leaves the references of everybody else as they were, whether it replaces the buffer,
  disconnects, or grabs pixels from it successfully or not; and tearing the painter down gives back its
  last reference.
\<close>

theorem fb_refs_balanced:
  assumes "device_step d (Inr d')"
  shows "foreign_refs d' = foreign_refs d \<and> fb_refs (drm (evdi_painter_cleanup d')) = foreign_refs d"
proof -
  have "fb_refs (drm (evdi_painter_cleanup d')) = foreign_refs d'"
    by (auto simp: evdi_painter_cleanup_def evdi_painter_send_vblank_def foreign_refs_def holds_fb_def fun_eq_iff Let_def
        split: option.splits)
  then show ?thesis using step_frame [OF assms] by simp
qed

theorem fb_refs_balanced_witness:
  "\<exists>d'. evdi_painter_set_scanout_buffer (Some demo_fb) demo_start = Inr d' \<and> fb_refs (drm d') 1 = 2 \<and>
    fb_refs (drm (evdi_painter_cleanup d')) = (\<lambda>_. 1)"
proof -
  obtain d' where d': "evdi_painter_set_scanout_buffer (Some demo_fb) demo_start = Inr d'" "fb_refs (drm d') 1 = 2"
    by (simp add: evdi_painter_set_scanout_buffer_def demo_start_def evdi_painter_init_def Let_def
        evdi_painter_zero_def demo_device_def demo_world_def demo_fb_def)
  have "device_step demo_start (evdi_painter_set_scanout_buffer (Some demo_fb) demo_start)"
    by (rule device_step.set_scanout) (simp add: demo_fb_good)
  then have "fb_refs (drm (evdi_painter_cleanup d')) = foreign_refs demo_start"
    using fb_refs_balanced [of demo_start d'] d' by simp
  moreover have "foreign_refs demo_start = (\<lambda>_. 1)"
    by (simp add: fun_eq_iff foreign_refs_def holds_fb_def demo_start_def evdi_painter_init_def evdi_painter_zero_def
        demo_device_def demo_world_def)
  ultimately show ?thesis using d' by simp
qed

section \<open>A requested update is announced\<close>

text \<open>
  The update protocol loses no wake-up. On a connected painter with a scanout buffer, a request
  while something is dirty answers 1 and changes nothing; a request while nothing is dirty answers 0, and
  then the next marked rectangle followed by \<^verbatim>\<open>evdi_painter_send_update_ready_if_needed\<close> hands exactly one
  update-ready event to the daemon's queue, after everything already there, and clears the request; the
  call repeated announces nothing more.
\<close>

theorem update_announced:
  assumes "painter d = Some p" "is_connected p" "drm_filp p = Some f" "has_drm_device p" "scanout_fb p = Some efb"
    and "\<not> was_update_requested p"
  shows "(dirty_rects p \<noteq> [] \<longrightarrow> evdi_painter_request_update_ioctl d = (1, d)) \<and>
    (dirty_rects p = [] \<longrightarrow> (\<exists>d1 d2 p3. evdi_painter_request_update_ioctl d = (0, d1) \<and>
      evdi_painter_mark_dirty r d1 = Inr d2 \<and>
      painter (evdi_painter_send_update_ready_if_needed reserve True d2) = Some p3 \<and>
      \<not> was_update_requested p3 \<and>
      events_sent (drm (evdi_painter_send_update_ready_if_needed reserve True d2)) @ map (Pair f) (pending_events p3) =
        events_sent (drm d) @ map (Pair f) (pending_events p @ [UpdateReady]) \<and>
      evdi_painter_send_update_ready_if_needed reserve' True (evdi_painter_send_update_ready_if_needed reserve True d2) =
        evdi_painter_send_update_ready_if_needed reserve True d2))"
proof (intro conjI impI)
  assume "dirty_rects p \<noteq> []"
  then show "evdi_painter_request_update_ioctl d = (1, d)" using assms by (simp add: evdi_painter_request_update_ioctl_def)
next
  assume nil: "dirty_rects p = []"
  let ?p1 = "p\<lparr>was_update_requested := True\<rparr>"
  let ?p2 = "?p1\<lparr>dirty_rects := make_room [] @ [evdi_framebuffer_sanitize_rect efb r]\<rparr>"
  let ?d1 = "d\<lparr>painter := Some ?p1\<rparr>"
  let ?d2 = "?d1\<lparr>painter := Some ?p2\<rparr>"
  have req: "evdi_painter_request_update_ioctl d = (0, ?d1)"
    using assms nil by (simp add: evdi_painter_request_update_ioctl_def)
  have mk: "evdi_painter_mark_dirty r ?d1 = Inr ?d2"
    using assms(5) nil mark_dirty_eq [of ?p1 r] by (simp add: evdi_painter_mark_dirty_def)
  obtain p' w' where s: "evdi_painter_send_event reserve (Some UpdateReady) (?p2, drm d) = (p', w')" by (metis surj_pair)
  have add: "add_to_pending UpdateReady pend = pend @ [UpdateReady]" for pend
    by (simp add: add_to_pending_def is_evdi_event_squashable_def)
  have q: "events_sent w' @ map (Pair f) (pending_events p') =
      events_sent (drm d) @ map (Pair f) (pending_events p @ [UpdateReady])"
  proof (cases "work_pending p")
    case True
    then show ?thesis
      using s assms by (auto simp: evdi_painter_send_event_def evdi_painter_add_event_to_pending_list_def add Let_def)
  next
    case False
    obtain pend sent where fl: "flush_loop reserve f (pending_events p @ [UpdateReady]) (events_sent (drm d)) = (pend, sent)"
      by (metis surj_pair)
    then obtain e where e: "sent = events_sent (drm d) @ map (Pair f) e" "pending_events p @ [UpdateReady] = e @ pend"
      using flush_loop_split by blast
    have "events_sent w' = sent" "pending_events p' = pend"
      using s assms False fl
      by (auto simp: evdi_painter_send_event_def evdi_painter_add_event_to_pending_list_def add Let_def
          evdi_painter_flush_pending_events_def split: if_splits)
    then show ?thesis by (simp only: e map_append append_assoc)
  qed
  have ready: "evdi_painter_send_update_ready_if_needed reserve True ?d2 =
      ?d2\<lparr>painter := Some (p'\<lparr>was_update_requested := False\<rparr>), drm := w'\<rparr>"
    using s by (simp add: evdi_painter_send_update_ready_if_needed_def with_painter_def evdi_painter_send_update_ready_def
        create_update_ready_event_def)
  show "\<exists>d1 d2 p3. evdi_painter_request_update_ioctl d = (0, d1) \<and>
      evdi_painter_mark_dirty r d1 = Inr d2 \<and>
      painter (evdi_painter_send_update_ready_if_needed reserve True d2) = Some p3 \<and>
      \<not> was_update_requested p3 \<and>
      events_sent (drm (evdi_painter_send_update_ready_if_needed reserve True d2)) @ map (Pair f) (pending_events p3) =
        events_sent (drm d) @ map (Pair f) (pending_events p @ [UpdateReady]) \<and>
      evdi_painter_send_update_ready_if_needed reserve' True (evdi_painter_send_update_ready_if_needed reserve True d2) =
        evdi_painter_send_update_ready_if_needed reserve True d2"
    by (rule exI [of _ ?d1], rule exI [of _ ?d2], rule exI [of _ "p'\<lparr>was_update_requested := False\<rparr>"], unfold ready)
       (use q req mk in \<open>simp add: evdi_painter_send_update_ready_if_needed_def with_painter_def\<close>)
qed

theorem update_announced_witness:
  "\<exists>d1 d2 p3. evdi_painter_request_update_ioctl (demo_device []) = (0, d1) \<and>
    evdi_painter_mark_dirty \<lparr>x1 = 0, y1 = 0, x2 = 1, y2 = 1\<rparr> d1 = Inr d2 \<and>
    painter (evdi_painter_send_update_ready_if_needed (\<lambda>_ _ _. True) True d2) = Some p3 \<and>
    events_sent (drm (evdi_painter_send_update_ready_if_needed (\<lambda>_ _ _. True) True d2)) @ map (Pair 5) (pending_events p3) =
      [(5, UpdateReady)]"
proof -
  let ?p = "the (painter (demo_device []))"
  have h: "painter (demo_device []) = Some ?p" "is_connected ?p" "drm_filp ?p = Some 5" "has_drm_device ?p"
    "scanout_fb ?p = Some demo_fb" "\<not> was_update_requested ?p" "dirty_rects ?p = []"
    "events_sent (drm (demo_device [])) @ map (Pair 5) (pending_events ?p @ [UpdateReady]) = [(5, UpdateReady)]"
    by (simp_all add: demo_device_def demo_world_def evdi_painter_zero_def)
  show ?thesis
    using update_announced [OF h(1-6), of "\<lparr>x1 = 0, y1 = 0, x2 = 1, y2 = 1\<rparr>" "\<lambda>_ _ _. True" "\<lambda>_ _ _. True"] h(7,8)
    by metis
qed

section \<open>DDC/CI\<close>

text \<open>
  A DDC/CI exchange keeps to its buffers. The event carries the first 64 bytes of the message at
  most, zero filled, with their number. Whatever happens while the caller sleeps, afterwards the message
  keeps its address, flags and buffer length; its buffer is overwritten, from the start and for the
  length the daemon announced, exactly when the reply came in time, has a buffer, and is as long as the
  message (or 64 bytes for a longer one); otherwise it is untouched.
\<close>

theorem ddcci_exchange:
  assumes "length (msg_buf m) = unat (msg_len m)" "evdi_painter_ddcci_data reserve alloc wait m (p, w) = (m', p', w')"
    and "wait (evdi_painter_send_event reserve (create_ddcci_data_event alloc m) (p\<lparr>ddcci_response_received := 0\<rparr>, w)) =
      (completed, p', w')" "painter_ok p'"
  shows "create_ddcci_data_event True m = Some (DdcciData
      (take 64 (msg_buf m) @ replicate (64 - length (msg_buf m)) 0)
      (word_of_nat (min (length (msg_buf m)) 64)) (msg_flags m) (msg_addr m)) \<and>
    m' = (case ddcci_buffer p' of
        Some b \<Rightarrow> if completed \<and> length b = min (length (msg_buf m)) 64
          then m\<lparr>msg_buf := b @ drop (length b) (msg_buf m)\<rparr> else m
      | None \<Rightarrow> m)"
proof
  have 64: "DDCCI_BUFFER_SIZE = 64" by (simp add: DDCCI_BUFFER_SIZE_def)
  show "create_ddcci_data_event True m = Some (DdcciData
      (take 64 (msg_buf m) @ replicate (64 - length (msg_buf m)) 0)
      (word_of_nat (min (length (msg_buf m)) 64)) (msg_flags m) (msg_addr m))"
    using assms(1) by (simp add: create_ddcci_data_event_def 64 write_bytes_def min_def)
  show "m' = (case ddcci_buffer p' of
        Some b \<Rightarrow> if completed \<and> length b = min (length (msg_buf m)) 64
          then m\<lparr>msg_buf := b @ drop (length b) (msg_buf m)\<rparr> else m
      | None \<Rightarrow> m)"
    using assms(2,3,4)
    by (auto simp: evdi_painter_ddcci_data_def Let_def 64 painter_ok_def write_bytes_def assms(1)
        split: option.splits if_splits)
qed

theorem ddcci_exchange_witness:
  "\<exists>m'. fst (evdi_painter_ddcci_data (\<lambda>_ _ _. True) True
      (\<lambda>(p, w). (True, p\<lparr>ddcci_buffer := Some [7, 8], ddcci_buffer_length := 2\<rparr>, w))
      \<lparr>msg_addr = 0x37, msg_flags = 1, msg_len = 2, msg_buf = [0, 0]\<rparr>
      (the (painter (demo_device [])), demo_world)) = m' \<and> msg_buf m' = [7, 8]"
proof -
  let ?m = "\<lparr>msg_addr = 0x37, msg_flags = 1, msg_len = 2, msg_buf = [0, 0]\<rparr>"
  let ?wait = "\<lambda>(p, w :: drm_world). (True, p\<lparr>ddcci_buffer := Some [7, 8 :: u8], ddcci_buffer_length := 2 :: u32\<rparr>, w)"
  obtain m' p' w' where r: "evdi_painter_ddcci_data (\<lambda>_ _ _. True) True ?wait ?m (the (painter (demo_device [])), demo_world) =
      (m', p', w')" by (metis surj_pair)
  let ?p = "(the (painter (demo_device [])))\<lparr>ddcci_response_received := 0\<rparr>"
  have ok: "painter_ok ?p"
    by (simp add: demo_device_def evdi_painter_zero_def painter_ok_def DDCCI_BUFFER_SIZE_def demo_fb_good)
  obtain q u where s: "evdi_painter_send_event (\<lambda>_ _ _. True) (create_ddcci_data_event True ?m) (?p, demo_world) = (q, u)"
    by (metis surj_pair)
  have q: "painter_ok (q\<lparr>ddcci_buffer := Some [7, 8], ddcci_buffer_length := 2\<rparr>)"
    using painter_ok_send [OF ok s] by (auto simp: painter_ok_def DDCCI_BUFFER_SIZE_def)
  have "wait = ?wait \<Longrightarrow> p' = q\<lparr>ddcci_buffer := Some [7, 8], ddcci_buffer_length := 2\<rparr> \<and> w' = u" for wait
    using r s by (auto simp: evdi_painter_ddcci_data_def Let_def DDCCI_BUFFER_SIZE_def)
  then have pw: "p' = q\<lparr>ddcci_buffer := Some [7, 8], ddcci_buffer_length := 2\<rparr>" "w' = u" by blast+
  have "msg_buf m' = [7, 8]"
    using ddcci_exchange [OF _ r, of True] s q pw by simp
  then show ?thesis using r by simp
qed

section \<open>Failing grabs\<close>

text \<open>
  How a grab that cannot succeed ends. An unknown mode or a caller without room for a rectangle is
  refused before anything is touched. Without a scanout buffer the answer is \<^verbatim>\<open>-EAGAIN\<close> and every dirty pixel
  stays dirty. But a caller with a buffer of the wrong size, the usual case right after a mode change, is
  refused with \<^verbatim>\<open>-EINVAL\<close> after the dirty rectangles have been cleared: what was dirty is forgotten, and the
  caller's array of rectangles is not written.
\<close>

theorem grabpix_errors:
  assumes "painter d = Some p"
  shows "(grab_mode cmd \<noteq> 1 \<or> num_rects cmd < 1 \<longrightarrow> evdi_painter_grabpix_ioctl env cmd d = Inr (- EINVAL, cmd, d)) \<and>
    (grab_mode cmd = 1 \<and> 1 \<le> num_rects cmd \<and> scanout_fb p = None \<longrightarrow>
      (\<exists>cmd' d'. evdi_painter_grabpix_ioctl env cmd d = Inr (- EAGAIN, cmd', d') \<and> rects cmd' = rects cmd \<and>
        (\<forall>px. covered (dirty_rects p) px \<longrightarrow> covered (painter_dirty d') px))) \<and>
    (\<forall>efb vm. grab_mode cmd = 1 \<and> 1 \<le> num_rects cmd \<and> scanout_fb p = Some efb \<and> vmapping (fb_obj efb) = Some vm \<and>
      word_of_int (buf_width cmd) \<noteq> fb_width efb \<longrightarrow>
      (\<exists>cmd' d'. evdi_painter_grabpix_ioctl env cmd d = Inr (- EINVAL, cmd', d') \<and> rects cmd' = rects cmd \<and>
        painter_dirty d' = []))"
proof (intro conjI impI allI)
  assume "grab_mode cmd \<noteq> 1 \<or> num_rects cmd < 1"
  then show "evdi_painter_grabpix_ioctl env cmd d = Inr (- EINVAL, cmd, d)"
    by (auto simp: evdi_painter_grabpix_ioctl_def EVDI_GRABPIX_MODE_DIRTY_def)
next
  assume a: "grab_mode cmd = 1 \<and> 1 \<le> num_rects cmd \<and> scanout_fb p = None"
  then show "\<exists>cmd' d'. evdi_painter_grabpix_ioctl env cmd d = Inr (- EAGAIN, cmd', d') \<and> rects cmd' = rects cmd \<and>
        (\<forall>px. covered (dirty_rects p) px \<longrightarrow> covered (painter_dirty d') px)"
    using assms grab_dirts_covers
    by (simp add: evdi_painter_grabpix_ioctl_def EVDI_GRABPIX_MODE_DIRTY_def Let_def painter_dirty_def)
next
  fix efb vm
  assume a: "grab_mode cmd = 1 \<and> 1 \<le> num_rects cmd \<and> scanout_fb p = Some efb \<and> vmapping (fb_obj efb) = Some vm \<and>
      word_of_int (buf_width cmd) \<noteq> fb_width efb"
  let ?rs = "grab_dirts (num_rects cmd) (dirty_rects p)"
  have "grab_pixels env d efb (Some vm) ?rs (cmd\<lparr>num_rects := int (length ?rs)\<rparr>) =
      Inr (- EINVAL, cmd\<lparr>num_rects := int (length ?rs)\<rparr>, 0)"
    using a by (simp add: grab_pixels_def)
  then show "\<exists>cmd' d'. evdi_painter_grabpix_ioctl env cmd d = Inr (- EINVAL, cmd', d') \<and> rects cmd' = rects cmd \<and>
        painter_dirty d' = []"
    using grabpix_eq [OF assms, of efb vm cmd ?rs env] a by (fastforce simp: EVDI_GRABPIX_MODE_DIRTY_def)
qed

theorem grabpix_errors_witness:
  "\<exists>cmd' d'. evdi_painter_grabpix_ioctl demo_env (demo_cmd\<lparr>buf_width := 4\<rparr>)
      (demo_device [\<lparr>x1 = 0, y1 = 0, x2 = 1, y2 = 1\<rparr>]) = Inr (- EINVAL, cmd', d') \<and> rects cmd' = None \<and>
    painter_dirty d' = []"
proof -
  let ?d = "demo_device [\<lparr>x1 = 0, y1 = 0, x2 = 1, y2 = 1\<rparr>]"
  have h: "painter ?d = Some (the (painter ?d))" "scanout_fb (the (painter ?d)) = Some demo_fb"
    "\<exists>vm. vmapping (fb_obj demo_fb) = Some vm" "fb_width demo_fb = 3"
    by (simp_all add: demo_device_def demo_fb_def demo_gem_def)
  have c: "grab_mode (demo_cmd\<lparr>buf_width := 4\<rparr>) = 1" "1 \<le> num_rects (demo_cmd\<lparr>buf_width := 4\<rparr>)"
    "word_of_int (buf_width (demo_cmd\<lparr>buf_width := 4\<rparr>)) \<noteq> (3 :: u32)" "rects (demo_cmd\<lparr>buf_width := 4\<rparr>) = None"
    by (simp_all add: demo_cmd_def)
  show ?thesis
    using grabpix_errors [OF h(1), of "demo_cmd\<lparr>buf_width := 4\<rparr>" demo_env] h(2-4) c by metis
qed

end
