(* ===== verification/EvdiLib.thy ===== *)
theory EvdiLib
  imports EvdiPainter "HOL-Library.Sublist" "HOL-Library.Char_ord"
begin

text \<open>
  The user-space library of \<^verbatim>\<open>evdi\<close> (\<^verbatim>\<open>library/evdi_lib.c\<close>, \<^verbatim>\<open>library/evdi_procfs.c\<close>): ioctls with
  their retry, the registry of framebuffers, the table of cards in use, opening a device, grabbing
  pixels, and the dispatch of the events read from the device.

  \<^item> The kernel is a parameter: \<open>sys\<close> answers an ioctl, changing a kernel state of any type \<open>'k\<close>. The loop
    of \<^verbatim>\<open>drm_ioctl\<close> may run forever, so its result, and that of everything that uses it, is an \<open>option\<close>:
    \<open>None\<close> is a call that does not return.
  \<^item> What the library reads of the file system (directory listings, links, the sysfs and proc trees) is
    the parameter \<open>fs_env\<close>; paths are strings cut like \<^verbatim>\<open>snprintf\<close> cuts them.
  \<^item> A handle is the identity of its context; 0 is \<^verbatim>\<open>EVDI_INVALID_HANDLE\<close>.
\<close>

section \<open>State\<close>

record evdi_buffer =
  buffer_id :: int
  buffer_addr :: ptr
  buffer_width :: int
  buffer_height :: int
  buffer_stride :: int

record evdi_device_context =
  fd :: int
  bufferToUpdate :: int
  frameBuffersList :: "evdi_buffer list"
  device_index :: int

definition EVDI_USAGE_LEN :: nat where "EVDI_USAGE_LEN = 64"
definition EVDI_INVALID_DEVICE_INDEX :: int where "EVDI_INVALID_DEVICE_INDEX = - 1"

record 'k lib_state =
  kern :: 'k
  contexts :: "nat \<Rightarrow> evdi_device_context option"
  card_usage :: "nat list"

section \<open>Ioctls\<close>

datatype drm_request =
    AUTH_MAGIC u32
  | DROP_MASTER
  | VERSION
  | EVDI_CONNECT bool int "bytes option" nat u32 u32
  | EVDI_REQUEST_UPDATE
  | EVDI_GRABPIX drm_evdi_grabpix
  | EVDI_DDCCI_RESPONSE bytes u32 bool
  | EVDI_ENABLE_CURSOR_EVENTS bool
  | MODE_MAP_DUMB u32

datatype drm_reply =
    NoReply
  | VersionReply string int int int
  | GrabReply drm_evdi_grabpix
  | MapReply nat

text \<open>An answer: the return value, \<^verbatim>\<open>errno\<close>, what the kernel wrote through the pointer, the new state.\<close>

type_synonym 'k sys_ioctl = "int \<Rightarrow> drm_request \<Rightarrow> 'k \<Rightarrow> int \<times> int \<times> drm_reply \<times> 'k"

text \<open>
  A call that was interrupted is made again, with the argument as the kernel left it: the request of a grab is
  read and written, so a repeated one asks for as many rectangles as the last answer had.
\<close>

fun asked_again :: "drm_request \<Rightarrow> drm_reply \<Rightarrow> drm_request" where
  "asked_again (EVDI_GRABPIX cmd) (GrabReply cmd') = EVDI_GRABPIX cmd'"
| "asked_again req _ = req"

partial_function (option) drm_ioctl ::
    "'k sys_ioctl \<Rightarrow> int \<Rightarrow> drm_request \<Rightarrow> 'k \<Rightarrow> (int \<times> int \<times> drm_reply \<times> 'k) option" where
  "drm_ioctl sys fdn req k =
    (case sys fdn req k of (ret, err, reply, k') \<Rightarrow>
       if ret = - 1 \<and> (err = EINTR \<or> err = EAGAIN) then drm_ioctl sys fdn (asked_again req reply) k'
       else Some (ret, err, reply, k'))"

definition drm_auth_magic :: "'k sys_ioctl \<Rightarrow> int \<Rightarrow> u32 \<Rightarrow> 'k \<Rightarrow> (int \<times> 'k) option" where
  "drm_auth_magic sys fdn magic k =
    map_option (\<lambda>(ret, err, reply, k). (if ret \<noteq> 0 then - err else 0, k)) (drm_ioctl sys fdn (AUTH_MAGIC magic) k)"

definition drm_is_master :: "'k sys_ioctl \<Rightarrow> int \<Rightarrow> 'k \<Rightarrow> (bool \<times> 'k) option" where
  "drm_is_master sys fdn k = map_option (\<lambda>(r, k). (r \<noteq> - EACCES, k)) (drm_auth_magic sys fdn 0 k)"

text \<open>\<^verbatim>\<open>do_ioctl\<close> adds a log line.\<close>

definition do_ioctl :: "'k sys_ioctl \<Rightarrow> int \<Rightarrow> drm_request \<Rightarrow> 'k \<Rightarrow> (int \<times> drm_reply \<times> 'k) option" where
  "do_ioctl sys fdn req k = map_option (\<lambda>(ret, err, reply, k). (ret, reply, k)) (drm_ioctl sys fdn req k)"

section \<open>The registry of framebuffers\<close>

text \<open>The linked list of nodes is the list of their buffers; a context is checked by \<^verbatim>\<open>assert\<close>.\<close>

primrec find_node :: "evdi_buffer list \<Rightarrow> int \<Rightarrow> evdi_buffer option" where
  "find_node [] i = None"
| "find_node (node # nodes) i = (if buffer_id node = i then Some node else find_node nodes i)"

definition findBuffer :: "evdi_device_context option \<Rightarrow> int \<Rightarrow> c_error + evdi_buffer option" where
  "findBuffer context i = (case context of None \<Rightarrow> Inl AssertFailed | Some c \<Rightarrow> Inr (find_node (frameBuffersList c) i))"

text \<open>
  The new node goes to the end. \<open>alloc\<close> says whether \<^verbatim>\<open>calloc\<close> succeeds: the assertion that follows tests the
  address of the link, not the node, so a failure is a write through a null pointer.
\<close>

definition addFrameBuffer :: "bool \<Rightarrow> evdi_buffer \<Rightarrow> evdi_device_context \<Rightarrow> c_error + evdi_device_context" where
  "addFrameBuffer alloc frame_buffer c =
    (if alloc then Inr (c\<lparr>frameBuffersList := frameBuffersList c @ [frame_buffer]\<rparr>) else Inl NullDeref)"

primrec remove_nodes :: "int option \<Rightarrow> evdi_buffer list \<Rightarrow> evdi_buffer list" where
  "remove_nodes i [] = []"
| "remove_nodes i (current # nodes) =
    (if i = None \<or> Some (buffer_id current) = i then remove_nodes i nodes else current # remove_nodes i nodes)"

definition removeFrameBuffer :: "int option \<Rightarrow> evdi_device_context \<Rightarrow> evdi_device_context" where
  "removeFrameBuffer i c = c\<lparr>frameBuffersList := remove_nodes i (frameBuffersList c)\<rparr>"

definition evdi_register_buffer ::
    "bool \<Rightarrow> evdi_buffer \<Rightarrow> evdi_device_context option \<Rightarrow> c_error + evdi_device_context" where
  "evdi_register_buffer alloc buffer handle =
    (case handle of None \<Rightarrow> Inl AssertFailed
     | Some c \<Rightarrow>
        ebind (findBuffer handle (buffer_id buffer)) (\<lambda>found.
          if found \<noteq> None then Inl AssertFailed else addFrameBuffer alloc buffer c))"

definition evdi_unregister_buffer :: "int \<Rightarrow> evdi_device_context option \<Rightarrow> c_error + evdi_device_context" where
  "evdi_unregister_buffer i handle =
    (case handle of None \<Rightarrow> Inl AssertFailed
     | Some c \<Rightarrow>
        ebind (findBuffer handle i) (\<lambda>found.
          if found = None then Inl AssertFailed else Inr (removeFrameBuffer (Some i) c)))"

section \<open>The requests\<close>

definition evdi_connect2 ::
    "'k sys_ioctl \<Rightarrow> evdi_device_context \<Rightarrow> bytes option \<Rightarrow> nat \<Rightarrow> u32 \<Rightarrow> u32 \<Rightarrow> 'k \<Rightarrow> 'k option" where
  "evdi_connect2 sys handle edid len area_limit second_limit k =
    map_option (\<lambda>(ret, reply, k). k)
      (do_ioctl sys (fd handle) (EVDI_CONNECT True (device_index handle) edid len area_limit second_limit) k)"

definition evdi_connect ::
    "'k sys_ioctl \<Rightarrow> evdi_device_context \<Rightarrow> bytes option \<Rightarrow> nat \<Rightarrow> u32 \<Rightarrow> 'k \<Rightarrow> 'k option" where
  "evdi_connect sys handle edid len sku_area_limit k =
    evdi_connect2 sys handle edid len sku_area_limit (sku_area_limit * 60) k"

definition evdi_disconnect :: "'k sys_ioctl \<Rightarrow> evdi_device_context \<Rightarrow> 'k \<Rightarrow> 'k option" where
  "evdi_disconnect sys handle k =
    map_option (\<lambda>(ret, reply, k). k) (do_ioctl sys (fd handle) (EVDI_CONNECT False 0 None 0 0 0) k)"

definition evdi_enable_cursor_events :: "'k sys_ioctl \<Rightarrow> evdi_device_context \<Rightarrow> bool \<Rightarrow> 'k \<Rightarrow> 'k option" where
  "evdi_enable_cursor_events sys handle enable k =
    map_option (\<lambda>(ret, reply, k). k) (do_ioctl sys (fd handle) (EVDI_ENABLE_CURSOR_EVENTS enable) k)"

definition evdi_ddcci_response ::
    "'k sys_ioctl \<Rightarrow> evdi_device_context \<Rightarrow> bytes \<Rightarrow> u32 \<Rightarrow> bool \<Rightarrow> 'k \<Rightarrow> 'k option" where
  "evdi_ddcci_response sys handle buffer len result k =
    map_option (\<lambda>(ret, reply, k). k) (do_ioctl sys (fd handle) (EVDI_DDCCI_RESPONSE buffer len result) k)"

text \<open>The context with the buffer to update, and whether to grab immediately.\<close>

definition evdi_request_update ::
    "'k sys_ioctl \<Rightarrow> evdi_device_context option \<Rightarrow> int \<Rightarrow> 'k \<Rightarrow> (c_error + (bool \<times> evdi_device_context \<times> 'k)) option" where
  "evdi_request_update sys handle i k =
    (case handle of None \<Rightarrow> Some (Inl AssertFailed)
     | Some c \<Rightarrow>
        let c = c\<lparr>bufferToUpdate := i\<rparr>
        in map_option (\<lambda>(ret, reply, k). Inr (ret = 1, c, k)) (do_ioctl sys (fd c) EVDI_REQUEST_UPDATE k))"

record evdi_rect =
  ev_x1 :: int
  ev_y1 :: int
  ev_x2 :: int
  ev_y2 :: int

definition to_evdi_rect :: "drm_clip_rect \<Rightarrow> evdi_rect" where
  "to_evdi_rect r = \<lparr>ev_x1 = uint (x1 r), ev_y1 = uint (y1 r), ev_x2 = uint (x2 r), ev_y2 = uint (y2 r)\<rparr>"

text \<open>
  The memory of the process is a map from the addresses of buffers to their contents. \<open>out\<close> is the caller's
  array; writing past its end, or reading past the 16 rectangles handed to the kernel, is an error.
  The kernel leaves its array of zero rectangles alone when it reports none.
\<close>

type_synonym heap = "ptr \<Rightarrow> user_mem"

definition evdi_grab_pixels ::
    "'k sys_ioctl \<Rightarrow> evdi_device_context option \<Rightarrow> evdi_rect list \<Rightarrow> heap \<Rightarrow> 'k \<Rightarrow>
     (c_error + (evdi_rect list \<times> int \<times> heap \<times> 'k)) option" where
  "evdi_grab_pixels sys handle out heap k =
    (case handle of None \<Rightarrow> Some (Inl NullDeref)
     | Some c \<Rightarrow>
        (case find_node (frameBuffersList c) (bufferToUpdate c) of
           None \<Rightarrow> Some (Inr (out, 0, heap, k))
         | Some b \<Rightarrow>
            let grab = \<lparr>grab_mode = EVDI_GRABPIX_MODE_DIRTY, buf_width = buffer_width b, buf_height = buffer_height b,
                        buf_byte_stride = buffer_stride b, user_buffer = heap (buffer_addr b),
                        num_rects = int MAX_DIRTS, rects = None\<rparr>
            in map_option (\<lambda>(ret, reply, k).
                 let grab = (case reply of GrabReply g \<Rightarrow> g | _ \<Rightarrow> grab);
                     heap = heap(buffer_addr b := user_buffer grab);
                     zeros = (\<lambda>n. replicate n \<lparr>x1 = 0, y1 = 0, x2 = 0, y2 = 0\<rparr>);
                     kernelDirts = (case rects grab of Some rs \<Rightarrow> rs @ zeros (MAX_DIRTS - length rs) | None \<Rightarrow> zeros MAX_DIRTS);
                     n = nat (num_rects grab)
                 in if ret \<noteq> 0 then Inr (out, 0, heap, k)
                    else if length out < n \<or> length kernelDirts < n then Inl OutOfBounds
                    else Inr (map to_evdi_rect (take n kernelDirts) @ drop n out, num_rects grab, heap, k))
               (do_ioctl sys (fd c) (EVDI_GRABPIX grab) k)))"

section \<open>The file system\<close>

text \<open>
  Listings are the names \<^verbatim>\<open>readdir\<close> yields, \<open>None\<close> when the directory cannot be opened; \<open>link_target\<close> is
  \<^verbatim>\<open>readlink\<close>; \<open>pid_maps\<close> holds the chunks \<^verbatim>\<open>fgets\<close> reads from a process's \<^verbatim>\<open>maps\<close>; \<open>pid_stat_name\<close> the second
  word of its \<^verbatim>\<open>stat\<close> file, at most six characters. \<open>ptr_diff\<close> is the value of a subtraction of pointers into
  different objects, which C does not define.
\<close>

record fs_env =
  listing :: "string \<Rightarrow> string list option"
  link_target :: "string \<Rightarrow> string option"
  path_exists :: "string \<Rightarrow> bool"
  pid_maps :: "string \<Rightarrow> string list option"
  pid_stat_name :: "string \<Rightarrow> string option"
  getpid :: int
  ptr_diff :: nat

definition PATH_MAX :: nat where "PATH_MAX = 4096"

definition snprintf :: "nat \<Rightarrow> string \<Rightarrow> string" where
  "snprintf n s = take (n - 1) s"

definition strstr :: "string \<Rightarrow> string \<Rightarrow> bool" where
  "strstr s sub = sublist sub s"

fun decimal :: "int \<Rightarrow> string \<Rightarrow> int" where
  "decimal acc [] = acc"
| "decimal acc (c # cs) = (if CHR ''0'' \<le> c \<and> c \<le> CHR ''9'' then decimal (acc * 10 + int (of_char c) - 48) cs else acc)"

text \<open>\<^verbatim>\<open>strtol(s, NULL, 10)\<close> and \<^verbatim>\<open>atoi\<close>: blanks, a sign, digits; the value saturates in a \<^verbatim>\<open>long\<close> and is cut to an \<^verbatim>\<open>int\<close>.\<close>

definition strtol :: "string \<Rightarrow> int" where
  "strtol s =
    (let s = dropWhile (\<lambda>c. c \<in> {CHR '' '', CHR 0x09, CHR 0x0A, CHR 0x0B, CHR 0x0C, CHR 0x0D}) s;
         v = (case s of [] \<Rightarrow> 0
              | c # cs \<Rightarrow> if c = CHR ''-'' then - decimal 0 cs else if c = CHR ''+'' then decimal 0 cs else decimal 0 s)
     in c_int (max (- 9223372036854775808) (min 9223372036854775807 v)))"

definition device_exists :: "fs_env \<Rightarrow> string \<Rightarrow> bool" where
  "device_exists fs device = path_exists fs (snprintf PATH_MAX (''/dev/dri/card'' @ device))"

definition does_path_links_to :: "fs_env \<Rightarrow> string \<Rightarrow> string \<Rightarrow> bool" where
  "does_path_links_to fs link substr =
    (case link_target fs link of None \<Rightarrow> False
     | Some real_path \<Rightarrow> strstr (take (PATH_MAX - 1) real_path) substr)"

definition process_opened_device :: "fs_env \<Rightarrow> string \<Rightarrow> string \<Rightarrow> bool" where
  "process_opened_device fs pid device_file_path =
    (case pid_maps fs pid of None \<Rightarrow> False
     | Some chunks \<Rightarrow> list_ex (\<lambda>line. strstr line device_file_path) chunks)"

definition process_opened_files :: "fs_env \<Rightarrow> string \<Rightarrow> string \<Rightarrow> bool" where
  "process_opened_files fs pid device_file_path =
    (case listing fs (snprintf PATH_MAX (''/proc/'' @ pid @ ''/fd'')) of None \<Rightarrow> False
     | Some entries \<Rightarrow> list_ex (\<lambda>d_name.
         does_path_links_to fs (snprintf PATH_MAX (''/proc/'' @ pid @ ''/fd/'' @ d_name)) device_file_path) entries)"

definition is_numeric :: "string \<Rightarrow> bool" where
  "is_numeric str = (case str of [] \<Rightarrow> False | c # _ \<Rightarrow> CHR ''0'' \<le> c \<and> c \<le> CHR ''9'')"

definition device_has_master :: "fs_env \<Rightarrow> string \<Rightarrow> bool" where
  "device_has_master fs device_file_path =
    (case listing fs ''/proc'' of None \<Rightarrow> False
     | Some entries \<Rightarrow> list_ex (\<lambda>d_name. is_numeric d_name \<and> getpid fs \<noteq> strtol d_name \<and>
         (process_opened_files fs d_name device_file_path \<or> process_opened_device fs d_name device_file_path)) entries)"

definition is_name_Xorg :: "string \<Rightarrow> bool" where
  "is_name_Xorg nam = strstr nam ''Xorg''"

definition is_Xorg :: "fs_env \<Rightarrow> string \<Rightarrow> bool" where
  "is_Xorg fs pid = (case pid_stat_name fs pid of None \<Rightarrow> False | Some nam \<Rightarrow> is_name_Xorg (take 6 nam))"

definition is_Xorg_process_folder :: "fs_env \<Rightarrow> string \<Rightarrow> bool" where
  "is_Xorg_process_folder fs folder_name \<longleftrightarrow> is_numeric folder_name \<and> is_Xorg fs folder_name"

definition Xorg_running :: "fs_env \<Rightarrow> bool" where
  "Xorg_running fs = (case listing fs ''/proc'' of None \<Rightarrow> False
     | Some entries \<Rightarrow> list_ex (is_Xorg_process_folder fs) entries)"

text \<open>Polling at most 51 times; \<open>poll i\<close> is what the \<open>i\<close>th look says. The result has the number of sleeps.\<close>

fun wait_loop :: "(nat \<Rightarrow> bool) \<Rightarrow> nat \<Rightarrow> nat \<Rightarrow> bool \<times> nat" where
  "wait_loop poll i 0 = (poll i, i)"
| "wait_loop poll i (Suc cnt) = (if poll i then (True, i) else wait_loop poll (i + 1) cnt)"

definition wait_for_master :: "(nat \<Rightarrow> fs_env) \<Rightarrow> string \<Rightarrow> bool \<times> nat" where
  "wait_for_master fs device_path = wait_loop (\<lambda>i. device_has_master (fs i) device_path) 0 50"

section \<open>Which card\<close>

definition get_drm_device_index :: "fs_env \<Rightarrow> string \<Rightarrow> int" where
  "get_drm_device_index fs evdi_sysfs_drm_dir =
    (case listing fs evdi_sysfs_drm_dir of None \<Rightarrow> EVDI_INVALID_DEVICE_INDEX
     | Some entries \<Rightarrow> fold (\<lambda>d_name dev_index.
         if take 4 d_name = ''card'' then strtol (drop 4 d_name) else dev_index) entries EVDI_INVALID_DEVICE_INDEX)"

definition strnlen :: "string \<Rightarrow> nat \<Rightarrow> nat" where
  "strnlen s n = min (length s) n"

text \<open>
  The parent is given as its text and a length. The last component of the link is found with \<^verbatim>\<open>strrchr\<close>,
  which yields a null pointer where there is no slash; the bound of \<^verbatim>\<open>strnlen\<close> is computed from a
  subtraction of unrelated pointers, modulo \<open>2 ^ 64\<close>.
\<close>

definition last_component :: "string \<Rightarrow> string option" where
  "last_component p = (if CHR ''/'' \<in> set p then Some (rev (takeWhile (\<lambda>c. c \<noteq> CHR ''/'') (rev p))) else None)"

definition is_correct_parent_device ::
    "fs_env \<Rightarrow> string \<Rightarrow> nat \<Rightarrow> string option \<Rightarrow> nat \<Rightarrow> c_error + bool" where
  "is_correct_parent_device fs dirname dirname_maxlen parent_device parent_length =
    (let link_path = snprintf (min (PATH_MAX - 7) dirname_maxlen) (dirname @ ''/device'')
     in case parent_device of
          None \<Rightarrow> Inr (\<not> path_exists fs link_path)
        | Some parent \<Rightarrow>
            (case link_target fs link_path of None \<Rightarrow> Inr False
             | Some target \<Rightarrow>
                if PATH_MAX \<le> length target then Inr False
                else if parent_length < 2 then Inr False
                else case last_component target of None \<Rightarrow> Inl NullDeref
                | Some token \<Rightarrow>
                    let len = strnlen token ((parent_length + 2 ^ 64 - ptr_diff fs mod 2 ^ 64) mod 2 ^ 64)
                    in Inr (parent_length = len \<and> take len token = take len parent)))"

fun find_unused_loop ::
    "fs_env \<Rightarrow> nat list \<Rightarrow> string option \<Rightarrow> nat \<Rightarrow> string list \<Rightarrow> c_error + int" where
  "find_unused_loop fs usage parent_device len [] = Inr EVDI_INVALID_DEVICE_INDEX"
| "find_unused_loop fs usage parent_device len (d_name # entries) =
    (if take 4 d_name \<noteq> ''evdi'' then find_unused_loop fs usage parent_device len entries
     else
       let evdi_path = snprintf PATH_MAX (''/sys/bus/platform/devices'' @ ''/'' @ d_name)
       in ebind (is_correct_parent_device fs evdi_path PATH_MAX parent_device len) (\<lambda>ok.
          if \<not> ok then find_unused_loop fs usage parent_device len entries
          else
            let dev_index = get_drm_device_index fs
                  (snprintf (PATH_MAX - strnlen evdi_path PATH_MAX) (evdi_path @ ''/drm''))
            in if \<not> (dev_index < int EVDI_USAGE_LEN \<and> 0 \<le> dev_index) then Inl AssertFailed
               else if usage ! nat dev_index = 0 then Inr dev_index
               else find_unused_loop fs usage parent_device len entries))"

definition find_unused_card_for :: "fs_env \<Rightarrow> nat list \<Rightarrow> string option \<Rightarrow> nat \<Rightarrow> c_error + int" where
  "find_unused_card_for fs usage parent_device len =
    (case listing fs ''/sys/bus/platform/devices'' of None \<Rightarrow> Inr EVDI_INVALID_DEVICE_INDEX
     | Some entries \<Rightarrow> find_unused_loop fs usage parent_device len entries)"

text \<open>\<open>fs'\<close> is the file system after the write that asks for another card.\<close>

definition get_generic_device :: "fs_env \<Rightarrow> fs_env \<Rightarrow> nat list \<Rightarrow> c_error + int" where
  "get_generic_device fs fs' usage =
    ebind (find_unused_card_for fs usage None 0) (\<lambda>i.
      if i = EVDI_INVALID_DEVICE_INDEX then find_unused_card_for fs' usage None 0 else Inr i)"

definition get_device_attached_to_usb :: "fs_env \<Rightarrow> fs_env \<Rightarrow> nat list \<Rightarrow> string \<Rightarrow> nat \<Rightarrow> c_error + int" where
  "get_device_attached_to_usb fs fs' usage sysfs_parent_device len =
    (if len < 4 then Inr EVDI_INVALID_DEVICE_INDEX
     else
       let parent_device = drop 4 sysfs_parent_device; parent_length = len - 4
       in ebind (find_unused_card_for fs usage (Some parent_device) parent_length) (\<lambda>i.
          if i = EVDI_INVALID_DEVICE_INDEX then find_unused_card_for fs' usage (Some parent_device) parent_length
          else Inr i))"

datatype evdi_device_status = AVAILABLE | UNRECOGNIZED | NOT_PRESENT

text \<open>\<open>device\<close> is the number in decimal.\<close>

definition evdi_device_to_platform :: "fs_env \<Rightarrow> string \<Rightarrow> evdi_device_status" where
  "evdi_device_to_platform fs device =
    (if \<not> device_exists fs device then NOT_PRESENT
     else case listing fs ''/sys/bus/platform/devices'' of None \<Rightarrow> NOT_PRESENT
     | Some entries \<Rightarrow>
        if list_ex (\<lambda>d_name. take 4 d_name = ''evdi'' \<and>
             (let path = snprintf PATH_MAX (''/sys/bus/platform/devices/'' @ d_name)
              in path_exists fs (snprintf PATH_MAX (path @ ''/drm/card'' @ device)))) entries
        then AVAILABLE else UNRECOGNIZED)"

definition evdi_check_device :: "fs_env \<Rightarrow> string \<Rightarrow> evdi_device_status" where
  "evdi_check_device fs device = evdi_device_to_platform fs device"

section \<open>Opening and closing\<close>

record 'k sys_calls =
  sys_ioctl :: "'k sys_ioctl"
  sys_open :: "string \<Rightarrow> 'k \<Rightarrow> int \<times> 'k"
  sys_close :: "int \<Rightarrow> 'k \<Rightarrow> 'k"
  sys_mmap :: "int \<Rightarrow> nat \<Rightarrow> nat \<Rightarrow> 'k \<Rightarrow> bytes option"

definition is_evdi_compatible :: "'k sys_calls \<Rightarrow> int \<Rightarrow> 'k \<Rightarrow> (bool \<times> 'k) option" where
  "is_evdi_compatible sys fdn k =
    map_option (\<lambda>(ret, reply, k).
      (case reply of VersionReply nam major minor patch \<Rightarrow> ret = 0 \<and> major = 1 \<and> 9 \<le> minor | _ \<Rightarrow> False, k))
      (do_ioctl (sys_ioctl sys) fdn VERSION k)"

definition is_evdi :: "'k sys_calls \<Rightarrow> int \<Rightarrow> 'k \<Rightarrow> (bool \<times> 'k) option" where
  "is_evdi sys fdn k =
    map_option (\<lambda>(ret, reply, k).
      (case reply of VersionReply nam major minor patch \<Rightarrow> ret = 0 \<and> nam = ''evdi'' | _ \<Rightarrow> False, k))
      (do_ioctl (sys_ioctl sys) fdn VERSION k)"

definition open_as_slave :: "'k sys_calls \<Rightarrow> string \<Rightarrow> 'k \<Rightarrow> (int \<times> 'k) option" where
  "open_as_slave sys device_path k =
    (case sys_open sys device_path k of (fdn, k) \<Rightarrow>
     if fdn < 0 then Some (- 1, k)
     else Option.bind (drm_is_master (sys_ioctl sys) fdn k) (\<lambda>(master, k).
          Option.bind (if master then map_option (\<lambda>(ret, err, reply, k). (ret, k)) (drm_ioctl (sys_ioctl sys) fdn DROP_MASTER k)
                       else Some (0, k)) (\<lambda>(err, k).
          if err < 0 then Some (err, sys_close sys fdn k)
          else Option.bind (drm_is_master (sys_ioctl sys) fdn k) (\<lambda>(master, k).
            Some (if master then (- 1, sys_close sys fdn k) else (fdn, k))))))"

fun wait_for_device_loop :: "'k sys_calls \<Rightarrow> string \<Rightarrow> nat \<Rightarrow> 'k \<Rightarrow> (int \<times> 'k) option" where
  "wait_for_device_loop sys device_path 0 k = open_as_slave sys device_path k"
| "wait_for_device_loop sys device_path (Suc cnt) k =
    Option.bind (open_as_slave sys device_path k) (\<lambda>(fdn, k).
      if fdn < 0 then wait_for_device_loop sys device_path cnt k else Some (fdn, k))"

definition wait_for_device :: "'k sys_calls \<Rightarrow> string \<Rightarrow> 'k \<Rightarrow> (int \<times> 'k) option" where
  "wait_for_device sys device_path k = wait_for_device_loop sys device_path 50 k"

text \<open>Waiting for another master changes nothing but time.\<close>

definition open_device :: "'k sys_calls \<Rightarrow> string \<Rightarrow> 'k \<Rightarrow> (int \<times> 'k) option" where
  "open_device sys device k =
    Option.bind (wait_for_device sys (snprintf PATH_MAX (''/dev/dri/card'' @ device)) k) (\<lambda>(fdn, k).
      if 0 \<le> fdn then map_option (\<lambda>(ret, err, reply, k). (fdn, k)) (drm_ioctl (sys_ioctl sys) fdn DROP_MASTER k)
      else Some (fdn, k))"

text \<open>
  \<open>device\<close> comes with its number \<open>n\<close>, which indexes the table of cards in use without a check. \<open>new\<close> is the
  context \<^verbatim>\<open>calloc\<close> returns, 0 when it fails.
\<close>

definition evdi_open ::
    "'k sys_calls \<Rightarrow> string \<Rightarrow> int \<Rightarrow> nat \<Rightarrow> 'k lib_state \<Rightarrow> (c_error + (nat \<times> 'k lib_state)) option" where
  "evdi_open sys device n new s =
    Option.bind (open_device sys device (kern s)) (\<lambda>(fdn, k).
      if \<not> 0 < fdn then Some (Inr (0, s\<lparr>kern := k\<rparr>))
      else Option.bind (is_evdi sys fdn k) (\<lambda>(evdi, k).
           Option.bind (if evdi then is_evdi_compatible sys fdn k else Some (False, k)) (\<lambda>(ok, k).
           if ok \<and> new \<noteq> 0
           then if 0 \<le> n \<and> n < int EVDI_USAGE_LEN
                then Some (Inr (new, s\<lparr>kern := k,
                       contexts := (contexts s)(new := Some \<lparr>fd = fdn, bufferToUpdate = 0, frameBuffersList = [], device_index = n\<rparr>),
                       card_usage := (card_usage s)[nat n := new]\<rparr>))
                else Some (Inl OutOfBounds)
           else Some (Inr (0, s\<lparr>kern := sys_close sys fdn k\<rparr>)))))"

definition evdi_close :: "'k sys_calls \<Rightarrow> nat \<Rightarrow> 'k lib_state \<Rightarrow> c_error + 'k lib_state" where
  "evdi_close sys handle s =
    (if handle = 0 then Inr s
     else case contexts s handle of None \<Rightarrow> Inl UseAfterFree
     | Some c \<Rightarrow>
        Inr (s\<lparr>kern := sys_close sys (fd c) (kern s), contexts := (contexts s)(handle := None),
               card_usage := map (\<lambda>h. if h = handle then 0 else h) (card_usage s)\<rparr>))"

text \<open>\<open>dec\<close> writes a number in decimal.\<close>

definition evdi_open_attached_to_fixed ::
    "'k sys_calls \<Rightarrow> (int \<Rightarrow> string) \<Rightarrow> fs_env \<Rightarrow> fs_env \<Rightarrow> string option \<Rightarrow> nat \<Rightarrow> nat \<Rightarrow> 'k lib_state \<Rightarrow>
     (c_error + (nat \<times> 'k lib_state)) option" where
  "evdi_open_attached_to_fixed sys dec fs fs' sysfs_parent_device len new s =
    (case (case sysfs_parent_device of
             None \<Rightarrow> get_generic_device fs fs' (card_usage s)
           | Some parent \<Rightarrow> if 4 < len \<and> take 4 parent = ''usb:''
               then get_device_attached_to_usb fs fs' (card_usage s) parent len
               else Inr EVDI_INVALID_DEVICE_INDEX) of
       Inl e \<Rightarrow> Some (Inl e)
     | Inr i \<Rightarrow>
        if 0 \<le> i \<and> i < int EVDI_USAGE_LEN then evdi_open sys (dec i) i new s else Some (Inr (0, s)))"

definition evdi_open_attached_to ::
    "'k sys_calls \<Rightarrow> (int \<Rightarrow> string) \<Rightarrow> fs_env \<Rightarrow> fs_env \<Rightarrow> string \<Rightarrow> nat \<Rightarrow> 'k lib_state \<Rightarrow>
     (c_error + (nat \<times> 'k lib_state)) option" where
  "evdi_open_attached_to sys dec fs fs' sysfs_parent_device new s =
    evdi_open_attached_to_fixed sys dec fs fs' (Some sysfs_parent_device) (length sysfs_parent_device) new s"

section \<open>Events\<close>

text \<open>
  What the library passes to a handler of the client. Handlers are a parameter \<open>call\<close>: they may use the
  library again, so they map library states to library states; \<open>evm\<close> says which are set.
\<close>

record evdi_mode =
  em_width :: "32 word"
  em_height :: "32 word"
  em_refresh_rate :: "32 word"
  em_bits_per_pixel :: "32 word"
  em_pixel_format :: u32

record evdi_cursor_set_event =
  cs_hot :: "32 word \<times> 32 word"
  cs_width :: u32
  cs_height :: u32
  cs_enabled :: bool
  cs_buffer_length :: u32
  cs_buffer :: "bytes option"
  cs_pixel_format :: u32
  cs_stride :: u32

datatype lib_callback =
    UpdateReadyCb int
  | DpmsCb "32 word"
  | ModeChangedCb evdi_mode
  | CrtcStateCb "32 word"
  | CursorSetCb evdi_cursor_set_event
  | CursorMoveCb "32 word" "32 word"
  | DdcciCb u16 u16 bytes u32

text \<open>
  The structures as they lie in the buffer, of 1024 bytes: a field read past its end is an error.
\<close>

definition rd_le16 :: "bytes \<Rightarrow> nat \<Rightarrow> c_error + u16" where
  "rd_le16 b k = (if k + 2 \<le> length b then Inr (read_le16 b k) else Inl OutOfBounds)"

definition rd_le32 :: "bytes \<Rightarrow> nat \<Rightarrow> c_error + u32" where
  "rd_le32 b k = (if k + 4 \<le> length b then Inr (read_le32 b k) else Inl OutOfBounds)"

definition rd_bytes :: "bytes \<Rightarrow> nat \<Rightarrow> nat \<Rightarrow> c_error + bytes" where
  "rd_bytes b k n = (if k + n \<le> length b then Inr (take n (drop k b)) else Inl OutOfBounds)"

definition to_evdi_mode :: "bytes \<Rightarrow> nat \<Rightarrow> c_error + evdi_mode" where
  "to_evdi_mode b i =
    ebind (rd_le32 b (i + 8)) (\<lambda>w. ebind (rd_le32 b (i + 12)) (\<lambda>h. ebind (rd_le32 b (i + 16)) (\<lambda>r.
    ebind (rd_le32 b (i + 20)) (\<lambda>bpp. ebind (rd_le32 b (i + 24)) (\<lambda>f.
    Inr \<lparr>em_width = w, em_height = h, em_refresh_rate = r, em_bits_per_pixel = bpp, em_pixel_format = f\<rparr>)))))"

definition evdi_get_dumb_offset :: "'k sys_ioctl \<Rightarrow> int \<Rightarrow> u32 \<Rightarrow> 'k \<Rightarrow> (int \<times> nat \<times> 'k) option" where
  "evdi_get_dumb_offset sys fdn handle k =
    map_option (\<lambda>(ret, reply, k). (ret, (case reply of MapReply offset \<Rightarrow> offset | _ \<Rightarrow> 0), k))
      (do_ioctl sys fdn (MODE_MAP_DUMB handle) k)"

text \<open>
  The fields of the event, its handle and the size of the buffer; then the pixels of the buffer, mapped and
  copied. \<open>alloc\<close> is \<^verbatim>\<open>malloc\<close>, whose result is written to unchecked.
\<close>

definition read_cursor_set :: "bytes \<Rightarrow> nat \<Rightarrow> c_error + (evdi_cursor_set_event \<times> u32 \<times> u32)" where
  "read_cursor_set b i =
    ebind (rd_le32 b (i + 8)) (\<lambda>hx. ebind (rd_le32 b (i + 12)) (\<lambda>hy. ebind (rd_le32 b (i + 16)) (\<lambda>w.
    ebind (rd_le32 b (i + 20)) (\<lambda>h. ebind (rd8 b (i + 24)) (\<lambda>en. ebind (rd_le32 b (i + 28)) (\<lambda>hnd.
    ebind (rd_le32 b (i + 32)) (\<lambda>len. ebind (rd_le32 b (i + 36)) (\<lambda>f. ebind (rd_le32 b (i + 40)) (\<lambda>st.
    Inr (\<lparr>cs_hot = (hx, hy), cs_width = w, cs_height = h, cs_enabled = (en \<noteq> 0), cs_buffer_length = 0,
          cs_buffer = None, cs_pixel_format = f, cs_stride = st\<rparr>, hnd, len))))))))))"

definition fetch_cursor_buffer ::
    "'k sys_calls \<Rightarrow> bool \<Rightarrow> int \<Rightarrow> evdi_cursor_set_event \<Rightarrow> u32 \<Rightarrow> u32 \<Rightarrow> 'k \<Rightarrow> (c_error + (evdi_cursor_set_event \<times> 'k)) option" where
  "fetch_cursor_buffer sys alloc fdn c hnd len k =
    (if \<not> cs_enabled c then Some (Inr (c, k))
     else map_option (\<lambda>(ret, offset, k).
       if ret \<noteq> 0 then Inr (c, k)
       else case sys_mmap sys fdn (unat len) offset k of
         None \<Rightarrow> Inr (c, k)
       | Some px \<Rightarrow> if alloc then Inr (c\<lparr>cs_buffer := Some px, cs_buffer_length := len\<rparr>, k) else Inl NullDeref)
       (evdi_get_dumb_offset (sys_ioctl sys) fdn hnd k))"

definition to_evdi_cursor_set ::
    "'k sys_calls \<Rightarrow> bool \<Rightarrow> int \<Rightarrow> bytes \<Rightarrow> nat \<Rightarrow> 'k \<Rightarrow> (c_error + (evdi_cursor_set_event \<times> 'k)) option" where
  "to_evdi_cursor_set sys alloc fdn b i k =
    (case read_cursor_set b i of Inl e \<Rightarrow> Some (Inl e)
     | Inr (c, hnd, len) \<Rightarrow> fetch_cursor_buffer sys alloc fdn c hnd len k)"

definition to_evdi_cursor_move :: "bytes \<Rightarrow> nat \<Rightarrow> c_error + lib_callback" where
  "to_evdi_cursor_move b i = ebind (rd_le32 b (i + 8)) (\<lambda>x. ebind (rd_le32 b (i + 12)) (\<lambda>y. Inr (CursorMoveCb x y)))"

definition to_evdi_ddcci_data :: "bytes \<Rightarrow> nat \<Rightarrow> c_error + lib_callback" where
  "to_evdi_ddcci_data b i =
    ebind (rd_bytes b (i + 8) 64) (\<lambda>buf. ebind (rd_le32 b (i + 72)) (\<lambda>len. ebind (rd_le16 b (i + 76)) (\<lambda>fl.
    ebind (rd_le16 b (i + 78)) (\<lambda>ad. Inr (DdcciCb ad fl buf len)))))"

record event_mask =
  dpms_set :: bool
  mode_changed_set :: bool
  update_ready_set :: bool
  crtc_state_set :: bool
  cursor_set_set :: bool
  cursor_move_set :: bool
  ddcci_set :: bool

type_synonym 'k handlers = "lib_callback \<Rightarrow> 'k lib_state \<Rightarrow> 'k lib_state"

text \<open>A handler whose argument can be read is called; one whose argument cannot is not reached.\<close>

definition call_with :: "'k handlers \<Rightarrow> c_error + lib_callback \<Rightarrow> 'k lib_state \<Rightarrow> (c_error + 'k lib_state) option" where
  "call_with call cb s = Some (ebind cb (\<lambda>cb. Inr (call cb s)))"

text \<open>What a handler of \<^verbatim>\<open>cursor_set\<close> is given once the buffer was fetched.\<close>

definition pass_cursor_set ::
    "'k sys_calls \<Rightarrow> 'k handlers \<Rightarrow> evdi_device_context \<Rightarrow> evdi_cursor_set_event \<times> 'k \<Rightarrow> 'k lib_state \<Rightarrow>
     (c_error + 'k lib_state) option" where
  "pass_cursor_set sys call c r s =
    (case r of (cur, k) \<Rightarrow>
       if cs_enabled cur \<and> cs_buffer cur = None
       then Option.bind (evdi_enable_cursor_events (sys_ioctl sys) c False k) (\<lambda>k.
            Some (Inr (call (CursorSetCb (cur\<lparr>cs_enabled := False, cs_buffer_length := 0\<rparr>)) (s\<lparr>kern := k\<rparr>))))
       else Some (Inr (call (CursorSetCb cur) (s\<lparr>kern := k\<rparr>))))"

text \<open>The handle is looked at where the update is announced and where a cursor buffer is fetched, only.\<close>

definition evdi_handle_event ::
    "'k sys_calls \<Rightarrow> bool \<Rightarrow> event_mask \<Rightarrow> 'k handlers \<Rightarrow> nat \<Rightarrow> bytes \<Rightarrow> nat \<Rightarrow> 'k lib_state \<Rightarrow>
     (c_error + 'k lib_state) option" where
  "evdi_handle_event sys alloc evm call handle b i s =
    (case rd_le32 b i of Inl e \<Rightarrow> Some (Inl e)
     | Inr t \<Rightarrow>
        if t = 0x80000000 then
          (if update_ready_set evm
           then case contexts s handle of None \<Rightarrow> Some (Inl UseAfterFree)
                | Some c \<Rightarrow> call_with call (Inr (UpdateReadyCb (bufferToUpdate c))) s
           else Some (Inr s))
        else if t = 0x80000001 then
          (if dpms_set evm then call_with call (ebind (rd_le32 b (i + 8)) (\<lambda>m. Inr (DpmsCb m))) s else Some (Inr s))
        else if t = 0x80000002 then
          (if mode_changed_set evm then call_with call (ebind (to_evdi_mode b i) (\<lambda>m. Inr (ModeChangedCb m))) s
           else Some (Inr s))
        else if t = 0x80000003 then
          (if crtc_state_set evm then call_with call (ebind (rd_le32 b (i + 8)) (\<lambda>m. Inr (CrtcStateCb m))) s
           else Some (Inr s))
        else if t = 0x80000004 then
          (if cursor_set_set evm
           then case contexts s handle of None \<Rightarrow> Some (Inl UseAfterFree)
                | Some c \<Rightarrow>
                   Option.bind (to_evdi_cursor_set sys alloc (fd c) b i (kern s)) (\<lambda>r.
                     case r of Inl e \<Rightarrow> Some (Inl e) | Inr r \<Rightarrow> pass_cursor_set sys call c r s)
           else Some (Inr s))
        else if t = 0x80000005 then
          (if cursor_move_set evm then call_with call (to_evdi_cursor_move b i) s else Some (Inr s))
        else if t = 0x80000006 then
          (if ddcci_set evm then call_with call (to_evdi_ddcci_data b i) s else Some (Inr s))
        else Some (Inr s))"

text \<open>
  The loop over the events read. It advances by the length the event itself carries, so an event of length
  0 is handled again and again; the sum is that of \<^verbatim>\<open>int\<close> and \<^verbatim>\<open>uint32_t\<close>, stored in an \<^verbatim>\<open>int\<close>.
\<close>

partial_function (option) handle_events_loop ::
    "'k sys_calls \<Rightarrow> bool \<Rightarrow> event_mask \<Rightarrow> 'k handlers \<Rightarrow> nat \<Rightarrow> bytes \<Rightarrow> int \<Rightarrow> int \<Rightarrow> 'k lib_state \<Rightarrow>
     (c_error + 'k lib_state) option" where
  "handle_events_loop sys alloc evm call handle b bytesRead i s =
    (if i < bytesRead
     then if i < 0 then Some (Inl OutOfBounds)
          else Option.bind (evdi_handle_event sys alloc evm call handle b (nat i) s) (\<lambda>r.
       case r of Inl e \<Rightarrow> Some (Inl e)
       | Inr s \<Rightarrow>
          (case rd_le32 b (nat i + 4) of Inl e \<Rightarrow> Some (Inl e)
           | Inr len \<Rightarrow> handle_events_loop sys alloc evm call handle b bytesRead (c_int (i + uint len)) s))
     else Some (Inr s))"

text \<open>
  \<open>bytesRead\<close> is what \<^verbatim>\<open>read\<close> returns and \<open>b\<close> the 1024 bytes of the buffer after it; \<open>evm = None\<close> is a null
  event context, looked at after the read.
\<close>

definition evdi_handle_events ::
    "'k sys_calls \<Rightarrow> bool \<Rightarrow> event_mask option \<Rightarrow> 'k handlers \<Rightarrow> nat \<Rightarrow> bytes \<Rightarrow> int \<Rightarrow> 'k lib_state \<Rightarrow>
     (c_error + 'k lib_state) option" where
  "evdi_handle_events sys alloc evm call handle b bytesRead s =
    (case evm of None \<Rightarrow> Some (Inr s)
     | Some evm \<Rightarrow> handle_events_loop sys alloc evm call handle b bytesRead 0 s)"

definition evdi_get_event_ready :: "evdi_device_context \<Rightarrow> int" where
  "evdi_get_event_ready handle = fd handle"

definition evdi_get_lib_version :: "int \<times> int \<times> int" where
  "evdi_get_lib_version = (1, 14, 14)"

end
