(* ===== verification/LibEvents.thy ===== *)
theory LibEvents
  imports EvdiLib
begin

text \<open>
  The events between the kernel module and the library. \<open>event_bytes\<close> is the layout of the event structures
  of \<^verbatim>\<open>module/evdi_drm.h\<close>, as the painter of \<open>EvdiPainter\<close> fills them and \<^verbatim>\<open>read\<close> hands them out;
  \<open>deliver\<close> says which handler an event is for and with what. The loop of \<^verbatim>\<open>evdi_handle_events\<close> is
  shown to deliver what was sent, each event once and in order, and not to return on an event of length 0.
\<close>

section \<open>The layout\<close>

definition byte_of :: "u32 \<Rightarrow> nat \<Rightarrow> u8" where
  "byte_of v n = ucast (drop_bit (8 * n) v AND 0xff)"

definition bytes_le32 :: "u32 \<Rightarrow> bytes" where
  "bytes_le32 v = [byte_of v 0, byte_of v 1, byte_of v 2, byte_of v 3]"

definition bytes_le16 :: "u16 \<Rightarrow> bytes" where
  "bytes_le16 v = [byte_of (ucast v) 0, byte_of (ucast v) 1]"

text \<open>The part after the type and the length; \<^verbatim>\<open>enabled\<close> is followed by three bytes of padding.\<close>

fun event_body :: "drm_evdi_event \<Rightarrow> bytes" where
  "event_body UpdateReady = []"
| "event_body (Dpms m) = bytes_le32 (word_of_int m)"
| "event_body (ModeChanged w h r bpp f) =
     bytes_le32 (word_of_int w) @ bytes_le32 (word_of_int h) @ bytes_le32 (word_of_int r) @ bytes_le32 (word_of_int bpp) @ bytes_le32 f"
| "event_body (CursorSet en (hx, hy) (w, h) hnd len f st) =
     bytes_le32 hx @ bytes_le32 hy @ bytes_le32 w @ bytes_le32 h @ [if en then 1 else 0, 0, 0, 0] @ bytes_le32 hnd @ bytes_le32 (word_of_nat len) @
     bytes_le32 f @ bytes_le32 st"
| "event_body (CursorMove x y) = bytes_le32 x @ bytes_le32 y"
| "event_body (DdcciData buf len fl ad) =
     take DDCCI_BUFFER_SIZE (buf @ replicate DDCCI_BUFFER_SIZE 0) @ bytes_le32 len @ bytes_le16 fl @ bytes_le16 ad"

definition event_bytes :: "drm_evdi_event \<Rightarrow> bytes" where
  "event_bytes e = bytes_le32 (event_type e) @ bytes_le32 (word_of_nat (8 + length (event_body e))) @ event_body e"

definition events_bytes :: "drm_evdi_event list \<Rightarrow> bytes" where
  "events_bytes es = concat (map event_bytes es)"

section \<open>Reading the fields back\<close>

lemma length_le [simp]: "length (bytes_le32 v) = 4" "length (bytes_le16 w) = 2"
  by (simp_all add: bytes_le32_def bytes_le16_def)

lemma read_le32_byte_of:
  "b ! k = byte_of v 0 \<Longrightarrow> b ! (k + 1) = byte_of v 1 \<Longrightarrow> b ! (k + 2) = byte_of v 2 \<Longrightarrow> b ! (k + 3) = byte_of v 3 \<Longrightarrow>
   read_le32 b k = v"
  using le32_bytes [of v] by (simp add: read_le32_def byte_of_def)

lemma le32_nth: "i < 4 \<Longrightarrow> bytes_le32 v ! i = byte_of v i"
  by (auto simp: bytes_le32_def less_Suc_eq numeral_eq_Suc)

lemma le16_nth: "i < 2 \<Longrightarrow> bytes_le16 v ! i = byte_of (ucast v) i"
  by (auto simp: bytes_le16_def less_Suc_eq numeral_eq_Suc)

lemma rd32_here: "length a = k \<Longrightarrow> rd_le32 (a @ bytes_le32 v @ c) k = Inr v"
  by (auto simp: rd_le32_def nth_append le32_nth intro!: read_le32_byte_of)

lemma rd16_here: "length a = k \<Longrightarrow> rd_le16 (a @ bytes_le16 v @ c) k = Inr v"
proof -
  assume k: "length a = k"
  have 0: "byte_of (ucast v) 0 = ucast (v AND 0xff)"
    by (rule bit_word_eqI) (auto simp: byte_of_def bit_simps and_ff)
  have 1: "byte_of (ucast v) 1 = ucast (drop_bit 8 v AND 0xff)"
    by (rule bit_word_eqI) (auto simp: byte_of_def bit_simps and_ff)
  show ?thesis
    using k le16_bytes [of v] by (simp add: rd_le16_def read_le16_def nth_append le16_nth 0 1 [simplified])
qed

lemma rd_mid:
  "k + 4 \<le> length e \<Longrightarrow> rd_le32 (pre @ e @ post) (length pre + k) = rd_le32 e k"
  "k + 2 \<le> length e \<Longrightarrow> rd_le16 (pre @ e @ post) (length pre + k) = rd_le16 e k"
  "k + 1 \<le> length e \<Longrightarrow> rd8 (pre @ e @ post) (length pre + k) = rd8 e k"
  "k + n \<le> length e \<Longrightarrow> rd_bytes (pre @ e @ post) (length pre + k) n = rd_bytes e k n"
  by (simp_all add: rd_le32_def rd_le16_def rd8_def rd_bytes_def read_le32_def read_le16_def nth_append)

lemma rd_mid0: "4 \<le> length e \<Longrightarrow> rd_le32 (pre @ e @ post) (length pre) = rd_le32 e 0"
  using rd_mid(1) [of 0] by simp

text \<open>The fields of each kind of event.\<close>

lemma event_header:
  "rd_le32 (event_bytes e) 0 = Inr (event_type e)"
  "rd_le32 (event_bytes e) 4 = Inr (word_of_nat (length (event_bytes e)))"
  using rd32_here [of "[]" 0] rd32_here [of "bytes_le32 (event_type e)" 4] by (simp_all add: event_bytes_def)

lemma length_event_body: "length (event_body e) \<le> 72"
  by (cases e rule: event_body.cases) (simp_all add: DDCCI_BUFFER_SIZE_def)

lemma length_event_bytes: "8 \<le> length (event_bytes e)" "length (event_bytes e) \<le> 80"
  using length_event_body [of e] by (simp_all add: event_bytes_def)

section \<open>What a handler gets\<close>

text \<open>The callback of an event, from its data; a cursor image has its pixels still to be fetched.\<close>

fun cursor_of :: "drm_evdi_event \<Rightarrow> evdi_cursor_set_event" where
  "cursor_of (CursorSet en hot (w, h) hnd len f st) =
    \<lparr>cs_hot = hot, cs_width = w, cs_height = h, cs_enabled = en, cs_buffer_length = 0, cs_buffer = None,
     cs_pixel_format = f, cs_stride = st\<rparr>"

fun deliver ::
    "'k sys_calls \<Rightarrow> bool \<Rightarrow> event_mask \<Rightarrow> 'k handlers \<Rightarrow> nat \<Rightarrow> drm_evdi_event \<Rightarrow> 'k lib_state \<Rightarrow>
     (c_error + 'k lib_state) option" where
  "deliver sys alloc evm call handle UpdateReady s =
    (if update_ready_set evm
     then case contexts s handle of None \<Rightarrow> Some (Inl UseAfterFree)
          | Some c \<Rightarrow> Some (Inr (call (UpdateReadyCb (bufferToUpdate c)) s))
     else Some (Inr s))"
| "deliver sys alloc evm call handle (Dpms m) s =
    Some (Inr (if dpms_set evm then call (DpmsCb (word_of_int m)) s else s))"
| "deliver sys alloc evm call handle (ModeChanged w h r bpp f) s =
    Some (Inr (if mode_changed_set evm
      then call (ModeChangedCb \<lparr>em_width = word_of_int w, em_height = word_of_int h, em_refresh_rate = word_of_int r,
                   em_bits_per_pixel = word_of_int bpp, em_pixel_format = f\<rparr>) s
      else s))"
| "deliver sys alloc evm call handle (CursorSet en hot wh hnd len f st) s =
    (if cursor_set_set evm
     then case contexts s handle of None \<Rightarrow> Some (Inl UseAfterFree)
          | Some c \<Rightarrow> Option.bind (fetch_cursor_buffer sys alloc (fd c)
                (cursor_of (CursorSet en hot wh hnd len f st)) hnd (word_of_nat len) (kern s)) (\<lambda>r.
              case r of Inl e \<Rightarrow> Some (Inl e) | Inr r \<Rightarrow> pass_cursor_set sys call c r s)
     else Some (Inr s))"
| "deliver sys alloc evm call handle (CursorMove x y) s =
    Some (Inr (if cursor_move_set evm then call (CursorMoveCb x y) s else s))"
| "deliver sys alloc evm call handle (DdcciData buf len fl ad) s =
    Some (Inr (if ddcci_set evm
      then call (DdcciCb ad fl (take DDCCI_BUFFER_SIZE (buf @ replicate DDCCI_BUFFER_SIZE 0)) len) s else s))"

fun deliver_all ::
    "'k sys_calls \<Rightarrow> bool \<Rightarrow> event_mask \<Rightarrow> 'k handlers \<Rightarrow> nat \<Rightarrow> drm_evdi_event list \<Rightarrow> 'k lib_state \<Rightarrow>
     (c_error + 'k lib_state) option" where
  "deliver_all sys alloc evm call handle [] s = Some (Inr s)"
| "deliver_all sys alloc evm call handle (e # es) s =
    Option.bind (deliver sys alloc evm call handle e s) (\<lambda>r.
      case r of Inl err \<Rightarrow> Some (Inl err) | Inr s \<Rightarrow> deliver_all sys alloc evm call handle es s)"

text \<open>A field of the body, behind the header and \<open>a\<close>.\<close>

lemma field_at:
  assumes "event_body e = a @ bytes_le32 v @ c" "k = 8 + length a"
  shows "rd_le32 (event_bytes e) k = Inr v"
  using rd32_here [of "bytes_le32 t @ bytes_le32 l @ a" k v c for t l] assms by (simp add: event_bytes_def)

lemma field16_at:
  assumes "event_body e = a @ bytes_le16 v @ c" "k = 8 + length a"
  shows "rd_le16 (event_bytes e) k = Inr v"
  using rd16_here [of "bytes_le32 t @ bytes_le32 l @ a" k v c for t l] assms by (simp add: event_bytes_def)

lemma dpms_at: "rd_le32 (event_bytes (Dpms m)) 8 = Inr (word_of_int m)"
  by (rule field_at [where a = "[]" and c = "[]"]) simp_all

lemma move_at:
  "rd_le32 (event_bytes (CursorMove x y)) 8 = Inr x"
  "rd_le32 (event_bytes (CursorMove x y)) 12 = Inr y"
  by (rule field_at [where a = "[]" and c = "bytes_le32 y"] field_at [where a = "bytes_le32 x" and c = "[]"]; simp)+

lemma mode_at:
  "rd_le32 (event_bytes (ModeChanged w h r bpp f)) 8 = Inr (word_of_int w)"
  "rd_le32 (event_bytes (ModeChanged w h r bpp f)) 12 = Inr (word_of_int h)"
  "rd_le32 (event_bytes (ModeChanged w h r bpp f)) 16 = Inr (word_of_int r)"
  "rd_le32 (event_bytes (ModeChanged w h r bpp f)) 20 = Inr (word_of_int bpp)"
  "rd_le32 (event_bytes (ModeChanged w h r bpp f)) 24 = Inr f"
proof -
  let ?w = "bytes_le32 (word_of_int w)" and ?h = "bytes_le32 (word_of_int h)" and ?r = "bytes_le32 (word_of_int r)"
    and ?b = "bytes_le32 (word_of_int bpp)"
  show "rd_le32 (event_bytes (ModeChanged w h r bpp f)) 8 = Inr (word_of_int w)"
    by (rule field_at [where a = "[]"]) simp_all
  show "rd_le32 (event_bytes (ModeChanged w h r bpp f)) 12 = Inr (word_of_int h)"
    by (rule field_at [where a = ?w]) simp_all
  show "rd_le32 (event_bytes (ModeChanged w h r bpp f)) 16 = Inr (word_of_int r)"
    by (rule field_at [where a = "?w @ ?h"]) simp_all
  show "rd_le32 (event_bytes (ModeChanged w h r bpp f)) 20 = Inr (word_of_int bpp)"
    by (rule field_at [where a = "?w @ ?h @ ?r"]) simp_all
  show "rd_le32 (event_bytes (ModeChanged w h r bpp f)) 24 = Inr f"
    by (rule field_at [where a = "?w @ ?h @ ?r @ ?b" and c = "[]"]) simp_all
qed

lemma cursor_set_at:
  "read_cursor_set (event_bytes (CursorSet en hot wh hnd len f st)) 0 =
   Inr (cursor_of (CursorSet en hot wh hnd len f st), hnd, word_of_nat len)"
proof -
  obtain hx hy w h where [simp]: "hot = (hx, hy)" "wh = (w, h)" by (cases hot, cases wh)
  let ?e = "CursorSet en hot wh hnd len f st"
  let ?hx = "bytes_le32 hx" and ?hy = "bytes_le32 hy" and ?w = "bytes_le32 w" and ?h = "bytes_le32 h" and ?l = "bytes_le32 (word_of_nat len)"
    and ?en = "[if en then 1 else 0, 0, 0, 0] :: bytes"
  have "rd_le32 (event_bytes ?e) 8 = Inr hx" by (rule field_at [where a = "[]"]) simp_all
  moreover have "rd_le32 (event_bytes ?e) 12 = Inr hy" by (rule field_at [where a = ?hx]) simp_all
  moreover have "rd_le32 (event_bytes ?e) 16 = Inr w" by (rule field_at [where a = "?hx @ ?hy"]) simp_all
  moreover have "rd_le32 (event_bytes ?e) 20 = Inr h" by (rule field_at [where a = "?hx @ ?hy @ ?w"]) simp_all
  moreover have "rd8 (event_bytes ?e) 24 = Inr (if en then 1 else 0)"
    by (simp add: rd8_def event_bytes_def nth_append)
  moreover have "rd_le32 (event_bytes ?e) 28 = Inr hnd"
    by (rule field_at [where a = "?hx @ ?hy @ ?w @ ?h @ ?en"]) simp_all
  moreover have "rd_le32 (event_bytes ?e) 32 = Inr (word_of_nat len)"
    by (rule field_at [where a = "?hx @ ?hy @ ?w @ ?h @ ?en @ bytes_le32 hnd"]) simp_all
  moreover have "rd_le32 (event_bytes ?e) 36 = Inr f"
    by (rule field_at [where a = "?hx @ ?hy @ ?w @ ?h @ ?en @ bytes_le32 hnd @ ?l"]) simp_all
  moreover have "rd_le32 (event_bytes ?e) 40 = Inr st"
    by (rule field_at [where a = "?hx @ ?hy @ ?w @ ?h @ ?en @ bytes_le32 hnd @ ?l @ bytes_le32 f" and c = "[]"]) simp_all
  ultimately show ?thesis by (simp add: read_cursor_set_def)
qed

lemma bytes_at: "length b = n \<Longrightarrow> rd_bytes (bytes_le32 t @ bytes_le32 l @ b @ c) 8 n = Inr b"
  by (simp add: rd_bytes_def)

lemma ddcci_at:
  "to_evdi_ddcci_data (event_bytes (DdcciData buf len fl ad)) 0 =
   Inr (DdcciCb ad fl (take DDCCI_BUFFER_SIZE (buf @ replicate DDCCI_BUFFER_SIZE 0)) len)"
proof -
  let ?e = "DdcciData buf len fl ad"
  let ?b = "take DDCCI_BUFFER_SIZE (buf @ replicate DDCCI_BUFFER_SIZE 0)"
  have b: "length ?b = 64" by (simp add: DDCCI_BUFFER_SIZE_def)
  have "rd_bytes (event_bytes ?e) 8 64 = Inr ?b"
    using bytes_at [OF b] by (simp add: event_bytes_def)
  moreover have "rd_le32 (event_bytes ?e) 72 = Inr len" by (rule field_at [where a = ?b]) (use b in simp_all)
  moreover have "rd_le16 (event_bytes ?e) 76 = Inr fl"
    by (rule field16_at [where a = "?b @ bytes_le32 len"]) (use b in simp_all)
  moreover have "rd_le16 (event_bytes ?e) 78 = Inr ad"
    by (rule field16_at [where a = "?b @ bytes_le32 len @ bytes_le16 fl" and c = "[]"]) (use b in simp_all)
  ultimately show ?thesis by (simp add: to_evdi_ddcci_data_def)
qed

section \<open>Dispatch\<close>

lemma handle_event_alone: "evdi_handle_event sys alloc evm call handle (event_bytes e) 0 s = deliver sys alloc evm call handle e s"
proof (cases e)
  case (CursorSet en hot wh hnd len f st)
  then show ?thesis
    by (simp add: evdi_handle_event_def event_header to_evdi_cursor_set_def cursor_set_at split: option.splits)
qed (simp_all add: evdi_handle_event_def event_header call_with_def dpms_at mode_at move_at ddcci_at to_evdi_mode_def
       to_evdi_cursor_move_def split: option.splits)

text \<open>Where the event lies in the buffer does not matter.\<close>

lemma decoders_mid:
  "28 \<le> length e \<Longrightarrow> to_evdi_mode (pre @ e @ post) (length pre) = to_evdi_mode e 0"
  "16 \<le> length e \<Longrightarrow> to_evdi_cursor_move (pre @ e @ post) (length pre) = to_evdi_cursor_move e 0"
  "44 \<le> length e \<Longrightarrow> read_cursor_set (pre @ e @ post) (length pre) = read_cursor_set e 0"
  "80 \<le> length e \<Longrightarrow> to_evdi_ddcci_data (pre @ e @ post) (length pre) = to_evdi_ddcci_data e 0"
  by (simp_all add: to_evdi_mode_def to_evdi_cursor_move_def read_cursor_set_def to_evdi_ddcci_data_def rd_mid
    nth_append)

lemma cursor_set_mid:
  "44 \<le> length e \<Longrightarrow> to_evdi_cursor_set sys alloc f (pre @ e @ post) (length pre) k = to_evdi_cursor_set sys alloc f e 0 k"
  by (simp add: to_evdi_cursor_set_def decoders_mid)

lemma event_fields_mid:
  assumes "rd_le32 e 0 = Inr t"
    and "t = 0x80000001 \<or> t = 0x80000003 \<Longrightarrow> 12 \<le> length e"
    and "t = 0x80000002 \<Longrightarrow> 28 \<le> length e"
    and "t = 0x80000004 \<Longrightarrow> 44 \<le> length e"
    and "t = 0x80000005 \<Longrightarrow> 16 \<le> length e"
    and "t = 0x80000006 \<Longrightarrow> 80 \<le> length e"
  shows "evdi_handle_event sys alloc evm call handle (pre @ e @ post) (length pre) s =
         evdi_handle_event sys alloc evm call handle e 0 s"
proof -
  have "rd_le32 (pre @ e @ post) (length pre) = Inr t"
    using assms(1) rd_mid0 [of e pre post] by (simp add: rd_le32_def split: if_splits)
  moreover have "rd_le32 (pre @ e @ post) (length pre + 8) = rd_le32 e 8" if "t = 0x80000001 \<or> t = 0x80000003"
    using assms(2) [OF that] by (simp add: rd_mid)
  ultimately show ?thesis
    using assms(1,3-) by (simp add: evdi_handle_event_def cursor_set_mid decoders_mid cong: option.case_cong)
qed

lemma handle_event_mid:
  "evdi_handle_event sys alloc evm call handle (pre @ event_bytes e @ post) (length pre) s =
   deliver sys alloc evm call handle e s"
proof -
  have "evdi_handle_event sys alloc evm call handle (pre @ event_bytes e @ post) (length pre) s =
        evdi_handle_event sys alloc evm call handle (event_bytes e) 0 s"
    by (rule event_fields_mid [OF event_header(1)])
       (cases e rule: event_body.cases; simp add: event_bytes_def DDCCI_BUFFER_SIZE_def)+
  then show ?thesis by (simp add: handle_event_alone)
qed

lemma events_bytes_Cons: "events_bytes (e # es) = event_bytes e @ events_bytes es"
  by (simp add: events_bytes_def)

lemma loop_delivers:
  assumes "length pre + length (events_bytes es) \<le> 1024"
  shows "handle_events_loop sys alloc evm call handle (pre @ events_bytes es @ rest)
           (int (length pre + length (events_bytes es))) (int (length pre)) s =
         deliver_all sys alloc evm call handle es s"
  using assms
proof (induction es arbitrary: pre s)
  case Nil
  show ?case by (subst handle_events_loop.simps) (simp add: events_bytes_def)
next
  case (Cons e es)
  let ?b = "pre @ events_bytes (e # es) @ rest"
  let ?n = "int (length pre + length (events_bytes (e # es)))"
  note len = length_event_bytes [of e]
  have b: "?b = pre @ event_bytes e @ events_bytes es @ rest" by (simp add: events_bytes_Cons)
  have hdr: "rd_le32 ?b (length pre + 4) = Inr (word_of_nat (length (event_bytes e)))"
    unfolding b using rd_mid(1) [of 4 "event_bytes e"] len by (simp add: event_header)
  have adv: "c_int (int (length pre) + uint (word_of_nat (length (event_bytes e)) :: u32)) =
      int (length (pre @ event_bytes e))"
    using len Cons.prems by (simp add: events_bytes_Cons uint_nat unat_of_nat)
  have ih: "handle_events_loop sys alloc evm call handle ?b ?n (int (length (pre @ event_bytes e))) s' =
      deliver_all sys alloc evm call handle es s'" for s'
    using Cons.IH [of "pre @ event_bytes e" s'] Cons.prems by (simp add: events_bytes_Cons add.assoc)
  have lt: "(int (length pre) < ?n) = True" "(int (length pre) < 0) = False"
    using len by (simp_all add: events_bytes_Cons)
  have ev: "evdi_handle_event sys alloc evm call handle ?b (length pre) s' = deliver sys alloc evm call handle e s'" for s'
    unfolding b by (rule handle_event_mid)
  show ?case
    by (subst handle_events_loop.simps)
       (simp only: lt if_True if_False nat_int ev hdr adv ih sum.case deliver_all.simps)
qed

text \<open>
  C8: what the kernel sends is what the client gets. When \<^verbatim>\<open>read\<close> hands out the events \<open>es\<close>, laid out as the
  painter's structures and followed by whatever the buffer held, \<^verbatim>\<open>evdi_handle_events\<close> passes each
  event's data to the handler of its kind, once and in the order they were sent, and stops there.
\<close>

theorem lib_delivers_events:
  assumes "length (events_bytes es) \<le> 1024"
  shows "evdi_handle_events sys alloc (Some evm) call handle (events_bytes es @ rest)
           (int (length (events_bytes es))) s =
         deliver_all sys alloc evm call handle es s"
  using loop_delivers [of "[]" es] assms by (simp add: evdi_handle_events_def)

text \<open>
  A library whose kernel refuses everything, with a handler that records nothing and one that counts in the
  kernel state.
\<close>

definition demo_calls :: "nat sys_calls" where
  "demo_calls = \<lparr>sys_ioctl = (\<lambda>fdn req k. (- 1, EINVAL, NoReply, k)), sys_open = (\<lambda>path k. (3, k)),
     sys_close = (\<lambda>fdn k. k), sys_mmap = (\<lambda>fdn n off k. None)\<rparr>"

definition demo_lib :: "nat lib_state" where
  "demo_lib = \<lparr>kern = 0, contexts = [1 \<mapsto> \<lparr>fd = 3, bufferToUpdate = 7, frameBuffersList = [], device_index = 0\<rparr>],
     card_usage = 1 # replicate 63 0\<rparr>"

definition all_events :: event_mask where
  "all_events = \<lparr>dpms_set = True, mode_changed_set = True, update_ready_set = True, crtc_state_set = True,
     cursor_set_set = True, cursor_move_set = True, ddcci_set = True\<rparr>"

fun demo_call :: "nat handlers" where
  "demo_call (DpmsCb m) s = s\<lparr>kern := 10 * kern s + unat m\<rparr>"
| "demo_call (CursorMoveCb x y) s = s\<lparr>kern := 10 * kern s + unat y\<rparr>"
| "demo_call (UpdateReadyCb b) s = s\<lparr>kern := 10 * kern s + nat b\<rparr>"
| "demo_call _ s = s"

lemma lib_delivers_events_witness:
  "evdi_handle_events demo_calls True (Some all_events) demo_call 1
     (events_bytes [UpdateReady, Dpms 3, CursorMove 1 2] @ [5]) (int (length (events_bytes [UpdateReady, Dpms 3, CursorMove 1 2])))
     demo_lib =
   Some (Inr (demo_lib\<lparr>kern := 732\<rparr>))"
  by (subst lib_delivers_events) (simp_all add: events_bytes_def event_bytes_def demo_lib_def all_events_def)

lemma zero_length_loop:
  assumes "handle_events_loop sys alloc evm call handle b n i s = Some y"
  shows "rd_le32 b 4 = Inr 0 \<longrightarrow> 0 < n \<longrightarrow> (\<forall>s e. evdi_handle_event sys alloc evm call handle b 0 s \<noteq> Some (Inl e)) \<longrightarrow> i \<noteq> 0"
proof (rule handle_events_loop.raw_induct [where P = "\<lambda>sys alloc evm call handle b n i s y.
    rd_le32 b 4 = Inr 0 \<longrightarrow> 0 < n \<longrightarrow> (\<forall>s e. evdi_handle_event sys alloc evm call handle b 0 s \<noteq> Some (Inl e)) \<longrightarrow> i \<noteq> 0",
    OF _ assms], (rule impI)+, rule notI)
  fix loop :: "'a sys_calls \<Rightarrow> bool \<Rightarrow> event_mask \<Rightarrow> 'a handlers \<Rightarrow> nat \<Rightarrow> bytes \<Rightarrow> int \<Rightarrow> int \<Rightarrow> 'a lib_state \<Rightarrow> _"
    and sys alloc evm call handle b i s y and n :: int
  assume ih: "\<And>sys alloc evm call handle b n i s y. loop sys alloc evm call handle b n i s = Some y \<Longrightarrow>
      rd_le32 b 4 = Inr 0 \<longrightarrow> 0 < n \<longrightarrow> (\<forall>s e. evdi_handle_event sys alloc evm call handle b 0 s \<noteq> Some (Inl e)) \<longrightarrow> i \<noteq> 0"
    and h: "rd_le32 b 4 = Inr 0" "0 < n" "\<forall>s e. evdi_handle_event sys alloc evm call handle b 0 s \<noteq> Some (Inl e)" "i = 0"
    and step: "(if i < n then if i < 0 then Some (Inl OutOfBounds)
        else Option.bind (evdi_handle_event sys alloc evm call handle b (nat i) s) (\<lambda>r. case r of Inl e \<Rightarrow> Some (Inl e)
          | Inr s \<Rightarrow> case rd_le32 b (nat i + 4) of Inl e \<Rightarrow> Some (Inl e)
            | Inr len \<Rightarrow> loop sys alloc evm call handle b n (c_int (i + uint len)) s)
      else Some (Inr s)) = Some y"
  then obtain s' where "loop sys alloc evm call handle b n 0 s' = Some y"
    by (cases "evdi_handle_event sys alloc evm call handle b 0 s") (auto split: sum.splits)
  from ih [OF this] h show False by blast
qed

text \<open>
  an event that announces a length of 0 is handled again and again: as long as its handling succeeds, which
  it always does where no handler is set for it, \<^verbatim>\<open>evdi_handle_events\<close> does not return.
\<close>

theorem zero_length_event_hangs:
  assumes "rd_le32 b 4 = Inr 0" "0 < bytesRead"
    and "\<forall>s e. evdi_handle_event sys alloc evm call handle b 0 s \<noteq> Some (Inl e)"
  shows "evdi_handle_events sys alloc (Some evm) call handle b bytesRead s = None"
  using zero_length_loop [of sys alloc evm call handle b bytesRead 0] assms
  by (cases "handle_events_loop sys alloc evm call handle b bytesRead 0 s") (auto simp: evdi_handle_events_def)

lemma zero_length_event_hangs_witness:
  "evdi_handle_events demo_calls True (Some (all_events\<lparr>cursor_move_set := False\<rparr>)) demo_call 1
     (bytes_le32 0x80000005 @ bytes_le32 0 @ [0]) 8 demo_lib = None"
proof (rule zero_length_event_hangs)
  show "rd_le32 (bytes_le32 0x80000005 @ bytes_le32 0 @ [0]) 4 = Inr 0" using rd32_here [of "bytes_le32 0x80000005" 4] by simp
  show "\<forall>s e. evdi_handle_event demo_calls True (all_events\<lparr>cursor_move_set := False\<rparr>) demo_call 1
      (bytes_le32 0x80000005 @ bytes_le32 0 @ [0]) 0 s \<noteq> Some (Inl e)"
    using rd32_here [of "[]" 0] by (simp add: evdi_handle_event_def)
qed simp

end
