(* ===== verification/LibState.thy ===== *)
theory LibState
  imports EvdiLib
begin

text \<open>
  What the library keeps: the framebuffers registered with a handle refine a finite map, and the table of cards
  in use names open handles only, whatever sequence of opens, closes and requests is made. A handle opened for
  a parent device never takes a card that is in use.
\<close>

section \<open>The registry is a map\<close>

text \<open>The contract of a store of values under keys, each value carrying its key.\<close>

locale keyed_store =
  fixes find :: "'s \<Rightarrow> 'k \<Rightarrow> 'v option"
    and add :: "'v \<Rightarrow> 's \<Rightarrow> 's"
    and rem :: "'k \<Rightarrow> 's \<Rightarrow> 's"
    and key :: "'v \<Rightarrow> 'k"
  assumes find_add: "find s (key v) = None \<Longrightarrow> find (add v s) = (find s)(key v \<mapsto> v)"
    and find_rem: "find (rem k s) = (find s)(k := None)"
begin

lemma rem_add: "find s (key v) = None \<Longrightarrow> find (rem (key v) (add v s)) = find s"
  by (simp add: find_rem find_add fun_upd_idem)

lemma find_add_other: "find s (key v) = None \<Longrightarrow> k \<noteq> key v \<Longrightarrow> find (add v s) k = find s k"
  by (simp add: find_add)

lemma found_after: "find s (key v) = None \<Longrightarrow> find (add v s) (key v) = Some v"
  by (simp add: find_add)

end

definition buffers :: "evdi_device_context \<Rightarrow> int \<Rightarrow> evdi_buffer option" where
  "buffers c = find_node (frameBuffersList c)"

lemma find_node_append:
  "find_node (xs @ [b]) = (\<lambda>i. case find_node xs i of Some x \<Rightarrow> Some x | None \<Rightarrow> if buffer_id b = i then Some b else None)"
  by (induction xs) auto

lemma find_remove_nodes: "find_node (remove_nodes (Some k) xs) = (find_node xs)(k := None)"
  by (induction xs) (auto simp: fun_eq_iff)

interpretation reg: keyed_store buffers
  "\<lambda>b c. c\<lparr>frameBuffersList := frameBuffersList c @ [b]\<rparr>" "\<lambda>i. removeFrameBuffer (Some i)" buffer_id
  by unfold_locales
     (auto simp: buffers_def removeFrameBuffer_def find_node_append find_remove_nodes fun_eq_iff split: option.splits)

datatype buffer_op = Register evdi_buffer | Unregister int

fun buffer_step :: "buffer_op \<Rightarrow> evdi_device_context \<Rightarrow> c_error + evdi_device_context" where
  "buffer_step (Register b) c = evdi_register_buffer True b (Some c)"
| "buffer_step (Unregister i) c = evdi_unregister_buffer i (Some c)"

fun run_buffers :: "buffer_op list \<Rightarrow> evdi_device_context \<Rightarrow> c_error + evdi_device_context" where
  "run_buffers [] c = Inr c"
| "run_buffers (x # xs) c = ebind (buffer_step x c) (run_buffers xs)"

text \<open>The same operations on a map: registering an identifier twice, or removing one that is not there, aborts.\<close>

fun map_step :: "buffer_op \<Rightarrow> (int \<rightharpoonup> evdi_buffer) \<Rightarrow> c_error + (int \<rightharpoonup> evdi_buffer)" where
  "map_step (Register b) m = (if m (buffer_id b) = None then Inr (m(buffer_id b \<mapsto> b)) else Inl AssertFailed)"
| "map_step (Unregister i) m = (if m i = None then Inl AssertFailed else Inr (m(i := None)))"

fun run_map :: "buffer_op list \<Rightarrow> (int \<rightharpoonup> evdi_buffer) \<Rightarrow> c_error + (int \<rightharpoonup> evdi_buffer)" where
  "run_map [] m = Inr m"
| "run_map (x # xs) m = ebind (map_step x m) (run_map xs)"

lemma buffer_step_refines: "map_step x (buffers c) = map_sum id buffers (buffer_step x c)"
proof (cases x)
  case (Register b)
  then show ?thesis
    using reg.find_add [of c b]
    by (auto simp: evdi_register_buffer_def findBuffer_def addFrameBuffer_def buffers_def)
next
  case (Unregister i)
  then show ?thesis
    using reg.find_rem [of i c] by (auto simp: evdi_unregister_buffer_def findBuffer_def buffers_def)
qed

text \<open>
  C35: the linked list of framebuffers is a finite map from identifiers to buffers. Any sequence of
  \<^verbatim>\<open>evdi_register_buffer\<close> and \<^verbatim>\<open>evdi_unregister_buffer\<close> with memory to spare does to the list what inserting
  and deleting do to the map, and fails an assertion exactly where an identifier is registered twice or one that
  is not registered is removed.
\<close>

theorem buffer_registry_refines_map: "map_sum id buffers (run_buffers xs c) = run_map xs (buffers c)"
proof (induction xs arbitrary: c)
  case (Cons x xs)
  show ?case
  proof (cases "buffer_step x c")
    case (Inr c')
    then show ?thesis using Cons.IH [of c'] by (simp add: buffer_step_refines)
  qed (simp add: buffer_step_refines)
qed simp

section \<open>The table of cards\<close>

definition cards_ok :: "'k lib_state \<Rightarrow> bool" where
  "cards_ok s \<longleftrightarrow> length (card_usage s) = EVDI_USAGE_LEN \<and>
    (\<forall>i < EVDI_USAGE_LEN. card_usage s ! i \<noteq> 0 \<longrightarrow>
       (\<exists>c. contexts s (card_usage s ! i) = Some c \<and> device_index c = int i))"

text \<open>
  The library in use: it starts with no handle; \<^verbatim>\<open>calloc\<close> returns a context not in use. Any other operation
  changes a context but not its card.
\<close>

inductive lib_reach :: "'k sys_calls \<Rightarrow> 'k lib_state \<Rightarrow> bool" for sys where
  start: "lib_reach sys \<lparr>kern = k, contexts = Map.empty, card_usage = replicate EVDI_USAGE_LEN 0\<rparr>"
| opened: "lib_reach sys s \<Longrightarrow> contexts s new = None \<Longrightarrow>
    evdi_open sys device n new s = Some (Inr (h, s')) \<Longrightarrow> lib_reach sys s'"
| closed: "lib_reach sys s \<Longrightarrow> evdi_close sys h s = Inr s' \<Longrightarrow> lib_reach sys s'"
| registered: "lib_reach sys s \<Longrightarrow> contexts s h = Some c \<Longrightarrow> buffer_step x c = Inr c' \<Longrightarrow>
    lib_reach sys (s\<lparr>contexts := (contexts s)(h \<mapsto> c')\<rparr>)"
| requested: "lib_reach sys s \<Longrightarrow> contexts s h = Some c \<Longrightarrow>
    evdi_request_update (sys_ioctl sys) (Some c) i (kern s) = Some (Inr (b, c', k')) \<Longrightarrow>
    lib_reach sys (s\<lparr>kern := k', contexts := (contexts s)(h \<mapsto> c')\<rparr>)"
| kernel: "lib_reach sys s \<Longrightarrow> lib_reach sys (s\<lparr>kern := k\<rparr>)"

text \<open>What an open does to the table.\<close>

lemma evdi_open_cases:
  assumes "evdi_open sys device n new s = Some (Inr (h, s'))"
  obtains (failed) k where "h = 0" "s' = s\<lparr>kern := k\<rparr>"
  | (opened) k c where "h = new" "new \<noteq> 0" "0 \<le> n" "n < int EVDI_USAGE_LEN" "device_index c = n"
      "s' = s\<lparr>kern := k, contexts := (contexts s)(new \<mapsto> c), card_usage := (card_usage s)[nat n := new]\<rparr>"
proof -
  from assms obtain fdn k1 where o: "open_device sys device (kern s) = Some (fdn, k1)"
    by (auto simp: evdi_open_def bind_eq_Some_conv)
  show ?thesis
  proof (cases "0 < fdn")
    case False
    then show ?thesis using assms failed [of k1] by (simp add: evdi_open_def o)
  next
    case True
    with assms obtain e k2 where e: "is_evdi sys fdn k1 = Some (e, k2)"
      by (auto simp: evdi_open_def o bind_eq_Some_conv)
    with True assms obtain ok k3 where
        c: "(if e then is_evdi_compatible sys fdn k2 else Some (False, k2)) = Some (ok, k3)"
      by (auto simp: evdi_open_def o bind_eq_Some_conv)
    let ?c = "\<lparr>fd = fdn, bufferToUpdate = 0, frameBuffersList = [], device_index = n\<rparr>"
    show ?thesis
    proof (cases "ok \<and> new \<noteq> 0")
      case ok: True
      with True have r: "evdi_open sys device n new s =
          (if 0 \<le> n \<and> n < int EVDI_USAGE_LEN
           then Some (Inr (new, s\<lparr>kern := k3, contexts := (contexts s)(new := Some ?c),
                  card_usage := (card_usage s)[nat n := new]\<rparr>))
           else Some (Inl OutOfBounds))"
        by (simp add: evdi_open_def o e c)
      with assms have n: "0 \<le> n" "n < int EVDI_USAGE_LEN" by (simp_all split: if_splits)
      with r assms have "h = new" "s' = s\<lparr>kern := k3, contexts := (contexts s)(new := Some ?c),
          card_usage := (card_usage s)[nat n := new]\<rparr>"
        by simp_all
      then show ?thesis using ok n by (intro opened [of ?c k3]) simp_all
    next
      case no: False
      with True have "evdi_open sys device n new s = Some (Inr (0, s\<lparr>kern := sys_close sys fdn k3\<rparr>))"
        by (simp only: evdi_open_def o e c Option.bind.simps prod.case if_False not_True_eq_False if_cancel)
      then show ?thesis using failed [of "sys_close sys fdn k3"] assms by simp
    qed
  qed
qed

text \<open>
  the table of cards in use names open handles only, each on the card its handle was opened for, whatever was
  opened, closed, registered and requested before; a handle that was closed is nowhere in the table.
\<close>

theorem cards_name_open_handles:
  assumes "lib_reach sys s"
  shows "cards_ok s"
  using assms
proof (induction rule: lib_reach.induct)
  case (opened s new device n h s')
  from opened.hyps(3) show ?case
  proof (cases rule: evdi_open_cases)
    case (opened k c)
    have "card_usage s ! i \<noteq> new" if "i < EVDI_USAGE_LEN" for i
      using that opened.IH opened.hyps(2) \<open>new \<noteq> 0\<close> by (auto simp: cards_ok_def)
    then show ?thesis
      using opened opened.IH by (auto simp: cards_ok_def nth_list_update)
  qed (use opened.IH in \<open>auto simp: cards_ok_def\<close>)
next
  case (closed s h s')
  then show ?case by (auto simp: cards_ok_def evdi_close_def split: if_splits option.splits)
next
  case (registered s h c x c')
  then have "device_index c' = device_index c"
    by (cases x) (auto simp: evdi_register_buffer_def evdi_unregister_buffer_def addFrameBuffer_def
      removeFrameBuffer_def findBuffer_def split: if_splits)
  with registered show ?case by (auto simp: cards_ok_def)
next
  case (requested s h c i b c' k')
  then have "device_index c' = device_index c" by (auto simp: evdi_request_update_def)
  with requested show ?case by (auto simp: cards_ok_def)
qed (auto simp: cards_ok_def)

lemma find_unused_card_free:
  "find_unused_card_for fs usage parent len = Inr i \<Longrightarrow>
   i = EVDI_INVALID_DEVICE_INDEX \<or> 0 \<le> i \<and> i < int EVDI_USAGE_LEN \<and> usage ! nat i = 0"
proof -
  have "find_unused_loop fs usage parent len entries = Inr i \<Longrightarrow>
      i = EVDI_INVALID_DEVICE_INDEX \<or> 0 \<le> i \<and> i < int EVDI_USAGE_LEN \<and> usage ! nat i = 0" for entries
    by (induction entries) (auto simp: Let_def ebind_eq_Inr split: if_splits)
  then show "find_unused_card_for fs usage parent len = Inr i \<Longrightarrow> ?thesis"
    by (auto simp: find_unused_card_for_def split: option.splits)
qed

lemma card_search_free:
  "get_generic_device fs fs' usage = Inr i \<or> get_device_attached_to_usb fs fs' usage parent len = Inr i \<Longrightarrow>
   i = EVDI_INVALID_DEVICE_INDEX \<or> 0 \<le> i \<and> i < int EVDI_USAGE_LEN \<and> usage ! nat i = 0"
  by (auto simp: get_generic_device_def get_device_attached_to_usb_def ebind_eq_Inr Let_def split: if_splits
    dest!: find_unused_card_free)

text \<open>
  a handle opened for a parent device, or for none, is a new one on a card that no handle was using: the
  other entries of the table stay.
\<close>

theorem attached_open_takes_unused_card:
  assumes "evdi_open_attached_to_fixed sys dec fs fs' parent len new s = Some (Inr (h, s'))" "h \<noteq> 0"
  shows "h = new \<and> (\<exists>i < EVDI_USAGE_LEN. card_usage s ! i = 0 \<and> card_usage s' = (card_usage s)[i := h])"
proof -
  let ?search = "case parent of None \<Rightarrow> get_generic_device fs fs' (card_usage s)
      | Some parent \<Rightarrow> if 4 < len \<and> take 4 parent = ''usb:''
          then get_device_attached_to_usb fs fs' (card_usage s) parent len else Inr EVDI_INVALID_DEVICE_INDEX"
  from assms obtain i where i: "?search = Inr i" "0 \<le> i" "i < int EVDI_USAGE_LEN"
      and opn: "evdi_open sys (dec i) i new s = Some (Inr (h, s'))"
    unfolding evdi_open_attached_to_fixed_def by (cases ?search) (auto split: if_splits)
  have "get_generic_device fs fs' (card_usage s) = Inr i \<or>
      (\<exists>p. get_device_attached_to_usb fs fs' (card_usage s) p len = Inr i)"
    using i by (auto simp: EVDI_INVALID_DEVICE_INDEX_def split: option.splits if_splits)
  then have "card_usage s ! nat i = 0"
    using card_search_free [of fs fs' "card_usage s" i _ len] i(2) by (auto simp: EVDI_INVALID_DEVICE_INDEX_def)
  with opn show ?thesis
  proof (cases rule: evdi_open_cases)
    case (opened k c)
    with \<open>card_usage s ! nat i = 0\<close> show ?thesis by (intro conjI exI [of _ "nat i"]) auto
  qed (use assms(2) in simp)
qed

section \<open>A library at work\<close>

text \<open>A kernel that has one evdi card, number 3, and grants what is asked of it.\<close>

definition one_card_calls :: "unit sys_calls" where
  "one_card_calls = \<lparr>sys_ioctl = (\<lambda>fdn req k. case req of
       VERSION \<Rightarrow> (0, 0, VersionReply ''evdi'' 1 14 14, k) | AUTH_MAGIC m \<Rightarrow> (- 1, EACCES, NoReply, k)
     | _ \<Rightarrow> (0, 0, NoReply, k)),
     sys_open = (\<lambda>path k. (if path = ''/dev/dri/card3'' then 5 else - 1, k)), sys_close = (\<lambda>fdn k. k),
     sys_mmap = (\<lambda>fdn n off k. None)\<rparr>"

definition one_card_fs :: fs_env where
  "one_card_fs = \<lparr>listing = [''/sys/bus/platform/devices'' \<mapsto> [''alarmtimer'', ''evdi.0''],
       ''/sys/bus/platform/devices/evdi.0/drm'' \<mapsto> [''card3'', ''renderD128'']],
     link_target = (\<lambda>_. None), path_exists = (\<lambda>_. False), pid_maps = (\<lambda>_. None), pid_stat_name = (\<lambda>_. None),
     getpid = 100, ptr_diff = 0\<rparr>"

definition empty_lib :: "unit lib_state" where
  "empty_lib = \<lparr>kern = (), contexts = Map.empty, card_usage = replicate EVDI_USAGE_LEN 0\<rparr>"

definition card3_lib :: "unit lib_state" where
  "card3_lib = empty_lib\<lparr>contexts := [1 \<mapsto> \<lparr>fd = 5, bufferToUpdate = 0, frameBuffersList = [], device_index = 3\<rparr>],
     card_usage := (replicate EVDI_USAGE_LEN 0)[3 := 1]\<rparr>"

lemma one_card_open:
  "evdi_open one_card_calls ''3'' 3 1 empty_lib = Some (Inr (1, card3_lib))"
proof -
  have ioctl: "drm_ioctl (sys_ioctl one_card_calls) f req k =
      (case sys_ioctl one_card_calls f req k of (ret, err, r, k) \<Rightarrow> Some (ret, err, r, k))" for f req k
    by (subst drm_ioctl.simps) (auto simp: one_card_calls_def EACCES_def EINTR_def EAGAIN_def split: drm_request.splits)
  have magic: "drm_ioctl (sys_ioctl one_card_calls) f (AUTH_MAGIC m) k = Some (- 1, EACCES, NoReply, k)"
    and drop: "drm_ioctl (sys_ioctl one_card_calls) f DROP_MASTER k = Some (0, 0, NoReply, k)"
    and version: "drm_ioctl (sys_ioctl one_card_calls) f VERSION k = Some (0, 0, VersionReply ''evdi'' 1 14 14, k)" for f m k
    unfolding ioctl by (simp_all add: one_card_calls_def)
  have opened: "sys_open one_card_calls ''/dev/dri/card3'' k = (5, k)" for k by (simp add: one_card_calls_def)
  have slave: "open_as_slave one_card_calls ''/dev/dri/card3'' () = Some (5, ())"
    by (simp add: open_as_slave_def drm_is_master_def drm_auth_magic_def magic drop opened EACCES_def)
  have "wait_for_device_loop one_card_calls ''/dev/dri/card3'' (Suc n) () = Some (5, ())" for n
    by (simp add: slave)
  then have "wait_for_device one_card_calls ''/dev/dri/card3'' () = Some (5, ())"
    by (simp add: wait_for_device_def eval_nat_numeral)
  then have "open_device one_card_calls ''3'' () = Some (5, ())"
    by (simp add: open_device_def snprintf_def PATH_MAX_def drop)
  moreover have "is_evdi one_card_calls 5 () = Some (True, ())" "is_evdi_compatible one_card_calls 5 () = Some (True, ())"
    by (simp_all add: is_evdi_def is_evdi_compatible_def do_ioctl_def version)
  ultimately show ?thesis
    by (simp add: evdi_open_def empty_lib_def card3_lib_def EVDI_USAGE_LEN_def)
qed

lemma cards_name_open_handles_witness: "cards_ok card3_lib"
proof (rule cards_name_open_handles)
  have "lib_reach one_card_calls empty_lib" unfolding empty_lib_def by (rule lib_reach.start)
  then show "lib_reach one_card_calls card3_lib"
    by (rule lib_reach.opened [OF _ _ one_card_open]) (simp add: empty_lib_def)
qed

lemma one_card_attached:
  "evdi_open_attached_to_fixed one_card_calls (\<lambda>_. ''3'') one_card_fs one_card_fs None 0 1 empty_lib = Some (Inr (1, card3_lib))"
proof -
  have "get_generic_device one_card_fs one_card_fs (card_usage empty_lib) = Inr 3"
    by (simp add: get_generic_device_def find_unused_card_for_def one_card_fs_def is_correct_parent_device_def
      get_drm_device_index_def snprintf_def PATH_MAX_def strnlen_def strtol_def empty_lib_def EVDI_USAGE_LEN_def
      EVDI_INVALID_DEVICE_INDEX_def)
  then show ?thesis by (simp add: evdi_open_attached_to_fixed_def EVDI_USAGE_LEN_def one_card_open [simplified])
qed

lemma attached_open_takes_unused_card_witness:
  "(1 :: nat) = 1 \<and> (\<exists>i < EVDI_USAGE_LEN. card_usage empty_lib ! i = 0 \<and> card_usage card3_lib = (card_usage empty_lib)[i := 1])"
  by (rule attached_open_takes_unused_card [OF one_card_attached]) simp

end
