(* ===== verification/EvdiModeset.thy ===== *)
theory EvdiModeset
  imports PainterEvents
begin

text \<open>
  \<^verbatim>\<open>evdi_modeset.c\<close> on kernels from 5.13 on: what an atomic commit does to the painter and the cursor. The states of
  plane and crtc and the iteration over the damage are those of the DRM core, which hands them in; a framebuffer is
  told apart by its \<open>fb_id\<close>. The creation of planes, crtc and encoder only registers tables with the DRM core.
\<close>

section \<open>State\<close>

record plane_state =
  ps_crtc :: "nat option"
  ps_fb :: "evdi_framebuffer option"
  crtc_x :: "32 word"
  crtc_y :: "32 word"
  crtc_w :: u32
  crtc_h :: u32

record crtc_state =
  cs_active :: bool
  cs_mode_changed :: bool
  cs_active_changed :: bool
  cs_mode :: drm_display_mode
  cs_event :: "nat option"

definition DRM_MODE_DPMS_ON :: int where "DRM_MODE_DPMS_ON = 0"

text \<open>The same framebuffer, or none in both.\<close>

definition same_fb :: "evdi_framebuffer option \<Rightarrow> evdi_framebuffer option \<Rightarrow> bool" where
  "same_fb a b \<longleftrightarrow> map_option fb_id a = map_option fb_id b"

section \<open>The primary plane\<close>

text \<open>The damage rectangles, cut to 16 bits.\<close>

definition clip_rect :: "int \<times> int \<times> int \<times> int \<Rightarrow> drm_clip_rect" where
  "clip_rect r = (case r of (a, b, c, d) \<Rightarrow>
     \<lparr>x1 = word_of_int a, y1 = word_of_int b, x2 = word_of_int c, y2 = word_of_int d\<rparr>)"

fun mark_all :: "drm_clip_rect list \<Rightarrow> evdi_device \<Rightarrow> c_error + evdi_device" where
  "mark_all [] evdi = Inr evdi"
| "mark_all (r # rs) evdi = ebind (evdi_painter_mark_dirty r evdi) (mark_all rs)"

definition force_full_modeset :: "evdi_device \<Rightarrow> evdi_device" where
  "force_full_modeset evdi = evdi\<lparr>painter := evdi_painter_force_full_modeset (painter evdi)\<rparr>"

definition plane_dpms :: "reserve \<Rightarrow> bool \<Rightarrow> int \<Rightarrow> plane_state \<Rightarrow> plane_state \<Rightarrow> evdi_device \<Rightarrow> evdi_device" where
  "plane_dpms reserve alloc fg old new evdi =
    (if ps_crtc old = None \<and> ps_crtc new \<noteq> None then evdi_painter_dpms_notify reserve alloc fg DRM_MODE_DPMS_ON evdi
     else if ps_crtc old \<noteq> None \<and> ps_crtc new = None then evdi_painter_dpms_notify reserve alloc fg DRM_MODE_DPMS_OFF evdi
     else evdi)"

definition plane_modeset :: "plane_state \<Rightarrow> plane_state \<Rightarrow> evdi_framebuffer \<Rightarrow> evdi_device \<Rightarrow> evdi_device" where
  "plane_modeset old new efb evdi =
    (let evdi = (if ps_fb old = None \<and> ps_crtc new \<noteq> None then force_full_modeset evdi else evdi)
     in case ps_fb old of None \<Rightarrow> evdi
        | Some old_fb \<Rightarrow> if fb_format efb \<noteq> fb_format old_fb then force_full_modeset evdi else evdi)"

definition evdi_plane_atomic_update ::
    "reserve \<Rightarrow> bool \<Rightarrow> int \<Rightarrow> plane_state \<Rightarrow> plane_state option \<Rightarrow> (int \<times> int \<times> int \<times> int) list \<Rightarrow> evdi_device \<Rightarrow>
     c_error + evdi_device" where
  "evdi_plane_atomic_update reserve alloc fg old state damage evdi =
    (case state of None \<Rightarrow> Inr evdi
     | Some new \<Rightarrow>
        let evdi = plane_dpms reserve alloc fg old new evdi
        in case ps_fb new of None \<Rightarrow> Inr evdi
           | Some efb \<Rightarrow>
              let evdi = plane_modeset old new efb evdi
              in ebind (if \<not> same_fb (Some efb) (ps_fb old) \<or> evdi_painter_needs_full_modeset (painter evdi)
                        then ebind (evdi_painter_set_scanout_buffer (Some efb) evdi) (mark_all (map clip_rect damage))
                        else Inr evdi)
                   (\<lambda>evdi. if evdi_painter_get_num_dirts (painter evdi) = 0
                      then evdi_painter_mark_dirty \<lparr>x1 = 0, y1 = 0, x2 = ucast (fb_width efb), y2 = ucast (fb_height efb)\<rparr> evdi
                      else Inr evdi))"

section \<open>The crtc\<close>

definition evdi_crtc_atomic_flush ::
    "reserve \<Rightarrow> bool \<Rightarrow> int \<Rightarrow> nat \<Rightarrow> crtc_state \<Rightarrow> evdi_device \<Rightarrow> crtc_state \<times> evdi_device" where
  "evdi_crtc_atomic_flush reserve alloc fg c state evdi =
    (let notify_mode_changed = cs_active state \<and> (cs_mode_changed state \<or> evdi_painter_needs_full_modeset (painter evdi));
         notify_dpms = cs_active_changed state \<or> evdi_painter_needs_full_modeset (painter evdi);
         evdi = (if notify_mode_changed then evdi_painter_mode_changed_notify reserve alloc (cs_mode state) evdi else evdi);
         evdi = (if notify_dpms then evdi_painter_dpms_notify reserve alloc fg
                   (if cs_active state then DRM_MODE_DPMS_ON else DRM_MODE_DPMS_OFF) evdi else evdi);
         evdi = evdi_painter_set_vblank (Some c) (cs_event state) evdi;
         evdi = evdi_painter_send_update_ready_if_needed reserve alloc evdi
     in (state\<lparr>cs_event := None\<rparr>, evdi))"

section \<open>The cursor plane\<close>

definition evdi_cursor_atomic_get_rect :: "plane_state \<Rightarrow> drm_clip_rect" where
  "evdi_cursor_atomic_get_rect st =
    \<lparr>x1 = (if sint (crtc_x st) < 0 then 0 else ucast (crtc_x st)), y1 = (if sint (crtc_y st) < 0 then 0 else ucast (crtc_y st)),
     x2 = ucast (crtc_x st + crtc_w st), y2 = ucast (crtc_y st + crtc_h st)\<rparr>"

text \<open>
  \<open>gid\<close> names the object of a framebuffer, \<open>sw\<close> is its \<^verbatim>\<open>allow_sw_cursor_rect_updates\<close>, \<open>vmap\<close> the outcome of mapping it
  and \<open>handle\<close> the handle the client gets for it.
\<close>

definition cursor_change :: "(nat \<Rightarrow> nat) \<Rightarrow> int \<times> bytes option \<Rightarrow> plane_state \<Rightarrow> plane_state \<Rightarrow> evdi_device \<Rightarrow> evdi_device" where
  "cursor_change gid vmap old new evdi =
    (if same_fb (ps_fb new) (ps_fb old) then evdi
     else let (c, refs) = (case ps_fb new of None \<Rightarrow> (cursor evdi, gem_refs evdi)
                 | Some fb \<Rightarrow> evdi_cursor_set vmap (Some \<lparr>gem_id = gid (fb_id fb), gem = fb_obj fb\<rparr>)
                                (fb_width fb) (fb_height fb) 0 0 (fb_format fb) (4 * fb_width fb) (cursor evdi, gem_refs evdi));
              (c, refs) = evdi_cursor_enable (ps_fb new \<noteq> None) (c, refs)
          in evdi\<lparr>cursor := c, gem_refs := refs\<rparr>)"

definition cursor_repaint :: "bool \<Rightarrow> plane_state \<Rightarrow> plane_state \<Rightarrow> evdi_device \<Rightarrow> c_error + evdi_device" where
  "cursor_repaint sw old new evdi =
    (case ps_fb new of None \<Rightarrow> Inr evdi
     | Some fb \<Rightarrow>
         if sw then
           ebind (evdi_painter_mark_dirty (evdi_cursor_atomic_get_rect old) evdi)
             (evdi_painter_mark_dirty (evdi_cursor_atomic_get_rect new))
         else evdi_painter_mark_dirty (evdi_painter_framebuffer_size (painter evdi)) evdi)"

definition evdi_cursor_atomic_update ::
    "reserve \<Rightarrow> bool \<Rightarrow> (nat \<Rightarrow> u32 \<times> int \<times> u32) \<Rightarrow> (nat \<Rightarrow> nat) \<Rightarrow> bool \<Rightarrow> int \<times> bytes option \<Rightarrow> plane_state \<Rightarrow> plane_state option \<Rightarrow>
     evdi_device \<Rightarrow> c_error + evdi_device" where
  "evdi_cursor_atomic_update reserve alloc handle gid sw vmap old state evdi =
    (case state of None \<Rightarrow> Inr evdi
     | Some new \<Rightarrow>
        let x = cur_x (cursor evdi); y = cur_y (cursor evdi);
            evdi = evdi\<lparr>cursor := evdi_cursor_move (crtc_x new) (crtc_y new) (cursor evdi)\<rparr>;
            position_changed = (x \<noteq> crtc_x new \<or> y \<noteq> crtc_y new);
            evdi = cursor_change gid vmap old new evdi
        in if \<not> cursor_events_enabled evdi then cursor_repaint sw old new evdi
           else
             let evdi = (if \<not> same_fb (ps_fb new) (ps_fb old)
                         then with_painter (evdi_painter_send_cursor_set reserve alloc handle (cursor evdi)) evdi else evdi)
             in Inr (if position_changed then with_painter (evdi_painter_send_cursor_move reserve alloc (cursor evdi)) evdi else evdi))"

section \<open>What an update leaves alone\<close>

text \<open>The parts of the device that announcing events does not touch.\<close>

definition same_screen :: "evdi_device \<Rightarrow> evdi_device \<Rightarrow> bool" where
  "same_screen d d' \<longleftrightarrow> device_inv d' \<and> cursor_events_enabled d' = cursor_events_enabled d \<and> cursor d' = cursor d \<and>
    gem_refs d' = gem_refs d \<and> vblanks_sent (drm d') = vblanks_sent (drm d) \<and>
    (\<exists>p p'. painter d = Some p \<and> painter d' = Some p' \<and> scanout_fb p' = scanout_fb p \<and> dirty_rects p' = dirty_rects p \<and>
       vblank p' = vblank p \<and> crtc p' = crtc p \<and> is_connected p' = is_connected p)"

lemma painter_self: "painter d = Some p \<Longrightarrow> d\<lparr>painter := Some p\<rparr> = d"
  by (cases d) simp

lemma same_screen_refl: "device_inv d \<Longrightarrow> same_screen d d"
  by (auto simp: same_screen_def device_inv_def)

lemma same_screen_trans: "same_screen d d' \<Longrightarrow> same_screen d' d'' \<Longrightarrow> same_screen d d''"
  by (auto simp: same_screen_def)

lemma same_screen_painter:
  assumes "same_screen d d'" "painter d = Some p"
  obtains p' where "painter d' = Some p'" "painter_ok p'" "scanout_fb p' = scanout_fb p" "dirty_rects p' = dirty_rects p"
    "vblank p' = vblank p" "crtc p' = crtc p" "is_connected p' = is_connected p" "vblanks_sent (drm d') = vblanks_sent (drm d)"
  using assms by (auto simp: same_screen_def device_inv_def)

lemma send_same_screen:
  assumes "device_inv d" "painter d = Some p" "painter_ok (g p)"
    and "\<And>p. scanout_fb (g p) = scanout_fb p \<and> dirty_rects (g p) = dirty_rects p \<and> vblank (g p) = vblank p \<and>
      crtc (g p) = crtc p \<and> is_connected (g p) = is_connected p"
    and "evdi_painter_send_event reserve e (g p, drm d) = (p', w')"
  shows "same_screen d (d\<lparr>painter := Some p', drm := w'\<rparr>)"
  by (rule send_event_shape [OF assms(3,5)]) (use assms in \<open>auto simp: same_screen_def inv_painter painter_ok_pending\<close>)

lemma dpms_same_screen:
  assumes "device_inv d" shows "same_screen d (evdi_painter_dpms_notify reserve alloc fg dmode d)"
proof -
  obtain p where p: "painter d = Some p" "painter_ok p" by (rule inv_obtain [OF assms])
  let ?g = "\<lambda>p. if dmode = 0 then p\<lparr>painter_fg_console := fg\<rparr> else p"
  obtain p' w' where s: "evdi_painter_send_event reserve (create_dpms_event alloc dmode) (?g p, drm d) = (p', w')"
    by (metis surj_pair)
  have "painter_ok (?g p)" using p(2) by (auto simp: painter_ok_def)
  from send_same_screen [where g = ?g, OF assms p(1) this _ s]
  have "same_screen d (d\<lparr>painter := Some p', drm := w'\<rparr>)" by simp
  moreover have "same_screen d (d\<lparr>painter := Some p\<rparr>)"
    by (subst painter_self [OF p(1)]) (rule same_screen_refl [OF assms])
  ultimately show ?thesis
    using p s same_screen_refl [OF assms]
    by (cases "is_connected p")
       (simp_all add: evdi_painter_dpms_notify_def with_painter_def dpms_notify_def evdi_painter_send_dpms_def Let_def)
qed

lemma modeset_same_screen: "device_inv d \<Longrightarrow> same_screen d (force_full_modeset d)"
  by (auto simp: same_screen_def force_full_modeset_def evdi_painter_force_full_modeset_def device_inv_def painter_ok_modeset)

lemma mode_changed_same_screen:
  assumes "device_inv d" shows "same_screen d (evdi_painter_mode_changed_notify reserve alloc new_mode d)"
proof -
  obtain p where p: "painter d = Some p" "painter_ok p" by (rule inv_obtain [OF assms])
  show ?thesis
  proof (cases "scanout_fb p")
    case None
    have "same_screen d (d\<lparr>painter := Some p\<rparr>)" by (subst painter_self [OF p(1)]) (rule same_screen_refl [OF assms])
    then show ?thesis using None p by (simp add: evdi_painter_mode_changed_notify_def with_painter_def)
  next
    case (Some fb)
    let ?e = "create_mode_changed_event alloc new_mode (int (unat (fb_cpp fb)) * 8) (fb_format fb)"
    obtain p' w' where s: "evdi_painter_send_event reserve ?e (p, drm d) = (p', w')" by (metis surj_pair)
    have "same_screen d (d\<lparr>painter := Some p', drm := w'\<rparr>)"
      using send_same_screen [where g = "\<lambda>p. p", OF assms p _ s] by simp
    then have "same_screen d (d\<lparr>painter := Some (p'\<lparr>needs_full_modeset := False\<rparr>), drm := w'\<rparr>)"
      by (auto simp: same_screen_def device_inv_def painter_ok_modeset)
    then show ?thesis
      using Some p s by (simp add: evdi_painter_mode_changed_notify_def with_painter_def evdi_painter_send_mode_changed_def)
  qed
qed

lemma plane_dpms_same_screen: "device_inv d \<Longrightarrow> same_screen d (plane_dpms reserve alloc fg old new d)"
  by (simp add: plane_dpms_def dpms_same_screen same_screen_refl)

lemma same_screen_inv: "same_screen d d' \<Longrightarrow> device_inv d'"
  by (simp add: same_screen_def)

lemma plane_modeset_same_screen: "device_inv d \<Longrightarrow> same_screen d (plane_modeset old new efb d)"
  by (auto simp: plane_modeset_def Let_def modeset_same_screen same_screen_refl split: option.split
      intro: same_screen_trans modeset_same_screen same_screen_inv)

section \<open>What is marked\<close>

definition in_fb :: "evdi_framebuffer \<Rightarrow> u16 \<times> u16 \<Rightarrow> bool" where
  "in_fb efb px \<longleftrightarrow> unat (fst px) < unat (fb_width efb) \<and> unat (snd px) < unat (fb_height efb)"

text \<open>\<open>grown efb rs d d'\<close>: of the device only the dirty rectangles grew, by at least the rectangles \<open>rs\<close>.\<close>

definition grown :: "evdi_framebuffer \<Rightarrow> drm_clip_rect list \<Rightarrow> evdi_device \<Rightarrow> evdi_device \<Rightarrow> bool" where
  "grown efb rs d d' \<longleftrightarrow> device_inv d' \<and> (\<exists>p p'. painter d = Some p \<and> d' = d\<lparr>painter := Some p'\<rparr> \<and>
    p' = p\<lparr>dirty_rects := dirty_rects p'\<rparr> \<and> (dirty_rects p \<noteq> [] \<or> rs \<noteq> [] \<longrightarrow> dirty_rects p' \<noteq> []) \<and>
    (\<forall>px. covered (dirty_rects p) px \<longrightarrow> covered (dirty_rects p') px) \<and>
    (\<forall>r px. r \<in> set rs \<longrightarrow> rect_wf r \<longrightarrow> in_rect r px \<longrightarrow> in_fb efb px \<longrightarrow> covered (dirty_rects p') px))"

lemma mark_grown:
  assumes "device_inv d" "painter d = Some p" "scanout_fb p = Some efb"
  shows "\<exists>d'. evdi_painter_mark_dirty r d = Inr d' \<and> grown efb [r] d d'"
proof -
  have len: "length (dirty_rects p) \<le> MAX_DIRTS" using assms by (auto simp: device_inv_def painter_ok_def)
  obtain d' where d': "evdi_painter_mark_dirty r d = Inr d'" "device_inv d'" using inv_mark [OF assms(1)] by blast
  let ?p' = "p\<lparr>dirty_rects := make_room (dirty_rects p) @ [evdi_framebuffer_sanitize_rect efb r]\<rparr>"
  have e: "d' = d\<lparr>painter := Some ?p'\<rparr>"
    using d'(1) assms mark_dirty_eq [OF len] by (simp add: evdi_painter_mark_dirty_def)
  have "covered (dirty_rects ?p') px" if "rect_wf r" "in_rect r px" "in_fb efb px" for px
    using that sanitize_in [of r efb px] by (simp add: rect_wf_def in_fb_def)
  then have "grown efb [r] d d'"
    unfolding grown_def by (intro conjI d'(2) exI [of _ p] exI [of _ ?p']) (use assms(2) e make_room_covers in auto)
  then show ?thesis using d'(1) by blast
qed

lemma mark_all_grown:
  assumes "device_inv d" "painter d = Some p" "scanout_fb p = Some efb"
  shows "\<exists>d'. mark_all rs d = Inr d' \<and> grown efb rs d d'"
  using assms
proof (induction rs arbitrary: d p)
  case Nil
  then show ?case by (auto simp: grown_def intro!: exI [of _ p] painter_self [symmetric])
next
  case (Cons r rs)
  obtain d1 where d1: "evdi_painter_mark_dirty r d = Inr d1" "grown efb [r] d d1" using mark_grown [OF Cons.prems] by blast
  then obtain p1 where p1: "device_inv d1" "d1 = d\<lparr>painter := Some p1\<rparr>" "p1 = p\<lparr>dirty_rects := dirty_rects p1\<rparr>"
    "dirty_rects p1 \<noteq> []" "\<And>px. covered (dirty_rects p) px \<Longrightarrow> covered (dirty_rects p1) px"
    "\<And>px. rect_wf r \<Longrightarrow> in_rect r px \<Longrightarrow> in_fb efb px \<Longrightarrow> covered (dirty_rects p1) px"
    using Cons.prems(2) unfolding grown_def by auto
  have s1: "painter d1 = Some p1" "scanout_fb p1 = Some efb"
    by (simp add: p1(2)) (subst p1(3), simp add: Cons.prems(3))
  obtain d2 where d2: "mark_all rs d1 = Inr d2" "grown efb rs d1 d2" using Cons.IH [OF p1(1) s1] by blast
  then obtain p2 where p2: "device_inv d2" "d2 = d1\<lparr>painter := Some p2\<rparr>" "p2 = p1\<lparr>dirty_rects := dirty_rects p2\<rparr>"
    "dirty_rects p2 \<noteq> []" "\<And>px. covered (dirty_rects p1) px \<Longrightarrow> covered (dirty_rects p2) px"
    "\<And>r px. r \<in> set rs \<Longrightarrow> rect_wf r \<Longrightarrow> in_rect r px \<Longrightarrow> in_fb efb px \<Longrightarrow> covered (dirty_rects p2) px"
    using s1(1) p1(4) unfolding grown_def by auto
  have "p2 = p\<lparr>dirty_rects := dirty_rects p2\<rparr>" by (subst p2(3), subst p1(3)) simp
  then have "grown efb (r # rs) d d2"
    unfolding grown_def
    by (intro conjI p2(1) exI [of _ p] exI [of _ p2]) (use Cons.prems(2) p1 p2 in auto)
  then show ?case using d1(1) d2(1) by simp
qed

section \<open>A commit shows its framebuffer\<close>

text \<open>Whether the plane update takes over the framebuffer of the new state.\<close>

definition takes_over :: "plane_state \<Rightarrow> plane_state \<Rightarrow> evdi_framebuffer \<Rightarrow> evdi_device \<Rightarrow> bool" where
  "takes_over old new efb d \<longleftrightarrow> \<not> same_fb (Some efb) (ps_fb old) \<or> evdi_painter_needs_full_modeset (painter d) \<or>
    (\<exists>old_fb. ps_fb old = Some old_fb \<and> fb_format old_fb \<noteq> fb_format efb)"

lemma dpms_keeps_modeset:
  assumes "device_inv d"
  shows "evdi_painter_needs_full_modeset (painter (plane_dpms reserve alloc fg old new d)) =
    evdi_painter_needs_full_modeset (painter d)"
proof -
  obtain p where p: "painter d = Some p" "painter_ok p" by (rule inv_obtain [OF assms])
  have "evdi_painter_needs_full_modeset (painter (evdi_painter_dpms_notify reserve alloc fg dmode d)) =
      evdi_painter_needs_full_modeset (painter d)" for dmode
  proof -
    let ?p = "if dmode = 0 then p\<lparr>painter_fg_console := fg\<rparr> else p"
    obtain p' w' where s: "evdi_painter_send_event reserve (create_dpms_event alloc dmode) (?p, drm d) = (p', w')"
      by (metis surj_pair)
    have ok: "painter_ok ?p" using p(2) by (auto simp: painter_ok_def)
    have "needs_full_modeset p' = needs_full_modeset p" by (rule send_event_shape [OF ok s]) simp
    then show ?thesis
      using p s by (simp add: evdi_painter_dpms_notify_def with_painter_def dpms_notify_def evdi_painter_send_dpms_def
          evdi_painter_needs_full_modeset_def Let_def)
  qed
  then show ?thesis by (simp add: plane_dpms_def)
qed

text \<open>A framebuffer where there was none is another one, so \<open>force_full_modeset\<close> adds nothing to that case.\<close>

lemma takes_over_iff:
  assumes "device_inv d"
  shows "\<not> same_fb (Some efb) (ps_fb old) \<or> evdi_painter_needs_full_modeset (painter (plane_modeset old new efb d)) \<longleftrightarrow>
    takes_over old new efb d"
  using assms
  by (cases "ps_fb old")
     (auto simp: takes_over_def plane_modeset_def same_fb_def force_full_modeset_def evdi_painter_force_full_modeset_def
       evdi_painter_needs_full_modeset_def device_inv_def)

lemma set_scanout_painter:
  assumes "device_inv d" "painter d = Some p" "fb_good efb"
  shows "\<exists>d'. evdi_painter_set_scanout_buffer (Some efb) d = Inr d' \<and> device_inv d' \<and>
    painter d' = Some (p\<lparr>scanout_fb := Some efb\<rparr>)"
proof -
  obtain d' where "evdi_painter_set_scanout_buffer (Some efb) d = Inr d'" "device_inv d'"
    using inv_set_scanout [OF assms(1), of "Some efb"] assms(3) by auto
  then show ?thesis using assms(2) by (auto simp: evdi_painter_set_scanout_buffer_def Let_def)
qed

lemma fallback_mark:
  assumes "device_inv d" "painter d = Some p"
  shows "\<exists>d' p'. (if evdi_painter_get_num_dirts (painter d) = 0 then evdi_painter_mark_dirty r d else Inr d) = Inr d' \<and>
    device_inv d' \<and> painter d' = Some p' \<and> scanout_fb p' = scanout_fb p \<and> (scanout_fb p \<noteq> None \<longrightarrow> dirty_rects p' \<noteq> []) \<and>
    (\<forall>px. covered (dirty_rects p) px \<longrightarrow> covered (dirty_rects p') px) \<and> (dirty_rects p \<noteq> [] \<longrightarrow> dirty_rects p' = dirty_rects p)"
proof (cases "dirty_rects p = [] \<and> scanout_fb p \<noteq> None")
  case True
  then obtain efb where efb: "scanout_fb p = Some efb" by blast
  obtain d' where d': "evdi_painter_mark_dirty r d = Inr d'" "grown efb [r] d d'" using mark_grown [OF assms efb] by blast
  obtain p' where p': "device_inv d'" "painter d' = Some p'" "p' = p\<lparr>dirty_rects := dirty_rects p'\<rparr>" "dirty_rects p' \<noteq> []"
    using d'(2) assms(2) unfolding grown_def by auto
  have "scanout_fb p' = scanout_fb p" by (subst p'(3)) simp
  then show ?thesis using d'(1) p' True assms(2) by (auto simp: evdi_painter_get_num_dirts_def covered_def)
next
  case False
  then show ?thesis using assms
    by (auto simp: evdi_painter_get_num_dirts_def evdi_painter_mark_dirty_def mark_dirty_def painter_self)
qed

text \<open>The damage of a taken over framebuffer.\<close>

lemma taken_marks:
  assumes "device_inv d" "painter d = Some p" "fb_good efb"
  shows "\<exists>d' p'. ebind (evdi_painter_set_scanout_buffer (Some efb) d) (mark_all rs) = Inr d' \<and> device_inv d' \<and>
    painter d' = Some p' \<and> scanout_fb p' = Some efb \<and> (\<forall>px. covered (dirty_rects p) px \<longrightarrow> covered (dirty_rects p') px) \<and>
    (\<forall>r px. r \<in> set rs \<longrightarrow> rect_wf r \<longrightarrow> in_rect r px \<longrightarrow> in_fb efb px \<longrightarrow> covered (dirty_rects p') px)"
proof -
  obtain d1 where d1: "evdi_painter_set_scanout_buffer (Some efb) d = Inr d1" "device_inv d1"
    "painter d1 = Some (p\<lparr>scanout_fb := Some efb\<rparr>)"
    using set_scanout_painter [OF assms] by blast
  obtain d2 where d2: "mark_all rs d1 = Inr d2" "grown efb rs d1 d2"
    using mark_all_grown [OF d1(2,3), of efb rs] by auto
  obtain p' where p': "device_inv d2" "painter d2 = Some p'" "p' = p\<lparr>scanout_fb := Some efb, dirty_rects := dirty_rects p'\<rparr>"
    "\<forall>px. covered (dirty_rects p) px \<longrightarrow> covered (dirty_rects p') px"
    "\<forall>r px. r \<in> set rs \<longrightarrow> rect_wf r \<longrightarrow> in_rect r px \<longrightarrow> in_fb efb px \<longrightarrow> covered (dirty_rects p') px"
    using d2(2) d1(3) unfolding grown_def by auto
  have "scanout_fb p' = Some efb" by (subst p'(3)) simp
  then show ?thesis using d1(1) d2(1) p' by auto
qed

text \<open>What the update leaves of the events: what was sent, what is held, and to whom.\<close>

definition same_events :: "evdi_device \<Rightarrow> evdi_device \<Rightarrow> bool" where
  "same_events d d' \<longleftrightarrow> cursor_events_enabled d' = cursor_events_enabled d \<and> vblanks_sent (drm d') = vblanks_sent (drm d) \<and>
    (\<forall>p. painter d = Some p \<longrightarrow> (\<exists>p'. painter d' = Some p' \<and> vblank p' = vblank p \<and> crtc p' = crtc p \<and> is_connected p' = is_connected p))"

lemma same_events_trans: "same_events d d' \<Longrightarrow> same_events d' d'' \<Longrightarrow> same_events d d''"
  by (fastforce simp: same_events_def)

lemma same_screen_events: "same_screen d d' \<Longrightarrow> same_events d d'"
  by (auto simp: same_screen_def same_events_def)

lemma mark_events: "evdi_painter_mark_dirty r d = Inr d' \<Longrightarrow> same_events d d'"
  by (auto simp: evdi_painter_mark_dirty_def mark_dirty_def ebind_eq_Inr same_events_def split: option.splits)

lemma mark_all_events: "mark_all rs d = Inr d' \<Longrightarrow> same_events d d'"
proof (induction rs arbitrary: d)
  case (Cons r rs)
  then show ?case using mark_events same_events_trans by (fastforce simp: ebind_eq_Inr)
qed (simp add: same_events_def)

lemma scanout_events: "evdi_painter_set_scanout_buffer fb d = Inr d' \<Longrightarrow> same_events d d'"
  by (auto simp: evdi_painter_set_scanout_buffer_def Let_def same_events_def drm_framebuffer_get_def drm_framebuffer_put_def
      split: option.splits)

lemma plane_update_events:
  assumes "device_inv d" "ps_fb new = Some efb" "evdi_plane_atomic_update reserve alloc fg old (Some new) damage d = Inr d'"
  shows "same_events d d'"
proof -
  define d1 where "d1 = plane_dpms reserve alloc fg old new d"
  define d2 where "d2 = plane_modeset old new efb d1"
  have s1: "same_screen d d1" unfolding d1_def by (rule plane_dpms_same_screen [OF assms(1)])
  have "same_screen d d2"
    unfolding d2_def by (rule same_screen_trans [OF s1 plane_modeset_same_screen [OF same_screen_inv [OF s1]]])
  then have s2: "same_events d d2" by (rule same_screen_events)
  let ?mid = "if \<not> same_fb (Some efb) (ps_fb old) \<or> evdi_painter_needs_full_modeset (painter d2)
      then ebind (evdi_painter_set_scanout_buffer (Some efb) d2) (mark_all (map clip_rect damage)) else Inr d2"
  have "ebind ?mid (\<lambda>evdi. if evdi_painter_get_num_dirts (painter evdi) = 0
      then evdi_painter_mark_dirty \<lparr>x1 = 0, y1 = 0, x2 = ucast (fb_width efb), y2 = ucast (fb_height efb)\<rparr> evdi else Inr evdi) = Inr d'"
    using assms(3) by (simp only: evdi_plane_atomic_update_def assms(2) Let_def option.case d1_def [symmetric] d2_def [symmetric])
  then obtain d3 where d3: "?mid = Inr d3"
    "(if evdi_painter_get_num_dirts (painter d3) = 0
      then evdi_painter_mark_dirty \<lparr>x1 = 0, y1 = 0, x2 = ucast (fb_width efb), y2 = ucast (fb_height efb)\<rparr> d3 else Inr d3) = Inr d'"
    unfolding ebind_eq_Inr by blast
  have self: "same_events e e" for e by (simp add: same_events_def)
  have m: "same_events d2 d3"
  proof (cases "\<not> same_fb (Some efb) (ps_fb old) \<or> evdi_painter_needs_full_modeset (painter d2)")
    case True
    then obtain e where "evdi_painter_set_scanout_buffer (Some efb) d2 = Inr e" "mark_all (map clip_rect damage) e = Inr d3"
      using d3(1) by (auto simp: ebind_eq_Inr)
    then show ?thesis using scanout_events mark_all_events same_events_trans by blast
  next
    case False
    then show ?thesis using d3(1) self by simp
  qed
  have "same_events d3 d'" using d3(2) mark_events self by (auto split: if_splits)
  then show ?thesis using s2 m same_events_trans by blast
qed

text \<open>The update of the primary plane, in its parts.\<close>

lemma plane_update_outcome:
  assumes "device_inv d" "painter d = Some p" "ps_fb new = Some efb" "fb_good efb"
  shows "\<exists>d' p'. evdi_plane_atomic_update reserve alloc fg old (Some new) damage d = Inr d' \<and> device_inv d' \<and>
    painter d' = Some p' \<and> scanout_fb p' = (if takes_over old new efb d then Some efb else scanout_fb p) \<and>
    (\<forall>px. covered (dirty_rects p) px \<longrightarrow> covered (dirty_rects p') px) \<and> (scanout_fb p' \<noteq> None \<longrightarrow> dirty_rects p' \<noteq> []) \<and>
    (takes_over old new efb d \<longrightarrow> (\<forall>r px. r \<in> set damage \<longrightarrow> rect_wf (clip_rect r) \<longrightarrow> in_rect (clip_rect r) px \<longrightarrow>
      in_fb efb px \<longrightarrow> covered (dirty_rects p') px)) \<and>
    (\<not> takes_over old new efb d \<and> dirty_rects p \<noteq> [] \<longrightarrow> dirty_rects p' = dirty_rects p)"
proof -
  let ?T = "takes_over old new efb d"
  define d1 where "d1 = plane_dpms reserve alloc fg old new d"
  define d2 where "d2 = plane_modeset old new efb d1"
  let ?full = "\<lparr>x1 = 0, y1 = 0, x2 = ucast (fb_width efb), y2 = ucast (fb_height efb)\<rparr>"
  have s1: "same_screen d d1" unfolding d1_def by (rule plane_dpms_same_screen [OF assms(1)])
  have s2: "same_screen d d2"
    unfolding d2_def by (rule same_screen_trans [OF s1 plane_modeset_same_screen [OF same_screen_inv [OF s1]]])
  obtain p2 where p2: "painter d2 = Some p2" "scanout_fb p2 = scanout_fb p" "dirty_rects p2 = dirty_rects p"
    by (rule same_screen_painter [OF s2 assms(2)])
  have T: "(\<not> same_fb (Some efb) (ps_fb old) \<or> evdi_painter_needs_full_modeset (painter d2)) = ?T"
    unfolding d2_def takes_over_iff [OF same_screen_inv [OF s1]]
    by (simp add: takes_over_def d1_def dpms_keeps_modeset [OF assms(1)])
  let ?marks = "if ?T then ebind (evdi_painter_set_scanout_buffer (Some efb) d2) (mark_all (map clip_rect damage)) else Inr d2"
  have "\<exists>d3 p3. ?marks = Inr d3 \<and> device_inv d3 \<and> painter d3 = Some p3 \<and>
    scanout_fb p3 = (if ?T then Some efb else scanout_fb p) \<and>
    (\<forall>px. covered (dirty_rects p) px \<longrightarrow> covered (dirty_rects p3) px) \<and>
    (?T \<longrightarrow> (\<forall>r px. r \<in> set damage \<longrightarrow> rect_wf (clip_rect r) \<longrightarrow> in_rect (clip_rect r) px \<longrightarrow>
      in_fb efb px \<longrightarrow> covered (dirty_rects p3) px)) \<and> (\<not> ?T \<longrightarrow> dirty_rects p3 = dirty_rects p)"
  proof (cases ?T)
    case True
    then show ?thesis
      using taken_marks [OF same_screen_inv [OF s2] p2(1) assms(4), of "map clip_rect damage"] p2(3) by force
  next
    case False
    then show ?thesis using same_screen_inv [OF s2] p2 by auto
  qed
  then obtain d3 p3 where d3: "?marks = Inr d3" "device_inv d3" "painter d3 = Some p3"
    "scanout_fb p3 = (if ?T then Some efb else scanout_fb p)" "\<forall>px. covered (dirty_rects p) px \<longrightarrow> covered (dirty_rects p3) px"
    "?T \<longrightarrow> (\<forall>r px. r \<in> set damage \<longrightarrow> rect_wf (clip_rect r) \<longrightarrow> in_rect (clip_rect r) px \<longrightarrow>
      in_fb efb px \<longrightarrow> covered (dirty_rects p3) px)" "\<not> ?T \<longrightarrow> dirty_rects p3 = dirty_rects p"
    by blast
  have u: "evdi_plane_atomic_update reserve alloc fg old (Some new) damage d =
      (if evdi_painter_get_num_dirts (painter d3) = 0 then evdi_painter_mark_dirty ?full d3 else Inr d3)"
    by (simp only: evdi_plane_atomic_update_def assms(3) Let_def option.case d1_def [symmetric] d2_def [symmetric] T d3(1)
        ebind_simps)
  obtain d' p' where e: "(if evdi_painter_get_num_dirts (painter d3) = 0 then evdi_painter_mark_dirty ?full d3 else Inr d3) = Inr d'"
    "device_inv d'" "painter d' = Some p'" "scanout_fb p' = scanout_fb p3" "scanout_fb p3 \<noteq> None \<longrightarrow> dirty_rects p' \<noteq> []"
    "\<forall>px. covered (dirty_rects p3) px \<longrightarrow> covered (dirty_rects p') px" "dirty_rects p3 \<noteq> [] \<longrightarrow> dirty_rects p' = dirty_rects p3"
    using fallback_mark [OF d3(2,3), of ?full] by blast
  show ?thesis
    unfolding u by (rule exI [of _ d'], rule exI [of _ p'], intro conjI e(1-3)) (use d3(4-7) e(4-7) in \<open>auto split: if_splits\<close>)
qed

text \<open>
  What an atomic update of the primary plane does to the screen. It never fails, and it takes the new framebuffer
  over as the scanout buffer exactly when it is another one than before, a full mode set is due, or its format changed; then
  every pixel of the framebuffer in one of the commit's damage rectangles is dirty afterwards. Nothing that was dirty is
  forgotten, and with a scanout buffer something is dirty afterwards, the whole screen if nothing else, so that the
  commit's event will be sent by a grab. A commit of the same framebuffer while something is dirty changes no
  rectangle, whatever its damage.
\<close>

theorem plane_update_shows:
  assumes "device_inv d" "painter d = Some p" "ps_fb new = Some efb" "fb_good efb"
  shows "\<exists>d' p'. evdi_plane_atomic_update reserve alloc fg old (Some new) damage d = Inr d' \<and> device_inv d' \<and>
    painter d' = Some p' \<and> scanout_fb p' = (if takes_over old new efb d then Some efb else scanout_fb p) \<and>
    (\<forall>px. covered (dirty_rects p) px \<longrightarrow> covered (dirty_rects p') px) \<and> (scanout_fb p' \<noteq> None \<longrightarrow> dirty_rects p' \<noteq> []) \<and>
    (takes_over old new efb d \<longrightarrow> (\<forall>r px. r \<in> set damage \<longrightarrow> rect_wf (clip_rect r) \<longrightarrow> in_rect (clip_rect r) px \<longrightarrow>
      in_fb efb px \<longrightarrow> covered (dirty_rects p') px)) \<and>
    (\<not> takes_over old new efb d \<and> dirty_rects p \<noteq> [] \<longrightarrow> dirty_rects p' = dirty_rects p)"
  by (rule plane_update_outcome [OF assms])

text \<open>Two framebuffers, the second one shown, the first one replaced by it.\<close>

definition demo_plane :: "nat option \<Rightarrow> evdi_framebuffer option \<Rightarrow> plane_state" where
  "demo_plane c fb = \<lparr>ps_crtc = c, ps_fb = fb, crtc_x = 0, crtc_y = 0, crtc_w = 3, crtc_h = 2\<rparr>"

lemma demo_device_inv: "device_inv (demo_device [])"
  by (simp add: device_inv_def demo_device_def painter_ok_def evdi_painter_zero_def demo_fb_good cursor_limits_def
      evdi_cursor_zero_def DDCCI_BUFFER_SIZE_def MAX_DIRTS_def)

theorem plane_update_shows_witness:
  "\<exists>d' p'. evdi_plane_atomic_update (\<lambda>_ _ _. True) True 1 (demo_plane (Some 0) (Some demo_fb))
      (Some (demo_plane (Some 0) (Some (demo_fb\<lparr>fb_id := 2\<rparr>)))) [(1, 0, 3, 2)] (demo_device []) = Inr d' \<and>
    painter d' = Some p' \<and> scanout_fb p' = Some (demo_fb\<lparr>fb_id := 2\<rparr>) \<and> covered (dirty_rects p') (1, 1)"
proof -
  let ?fb = "demo_fb\<lparr>fb_id := 2\<rparr>"
  obtain p where p: "painter (demo_device []) = Some p" by (simp add: demo_device_def)
  have good: "fb_good ?fb" using demo_fb_good by (simp add: fb_good_def demo_fb_def)
  have t: "takes_over (demo_plane (Some 0) (Some demo_fb)) (demo_plane (Some 0) (Some ?fb)) ?fb (demo_device [])"
    by (simp add: takes_over_def same_fb_def demo_plane_def demo_fb_def)
  have "rect_wf (clip_rect (1, 0, 3, 2))" "in_rect (clip_rect (1, 0, 3, 2)) (1, 1)" "in_fb ?fb (1, 1)"
    by (simp_all add: rect_wf_def clip_rect_def in_rect_def in_fb_def demo_fb_def)
  then show ?thesis
    using plane_update_shows [OF demo_device_inv p, of "demo_plane (Some 0) (Some ?fb)" ?fb "\<lambda>_ _ _. True" True 1
        "demo_plane (Some 0) (Some demo_fb)" "[(1, 0, 3, 2)]", OF _ good] t
    by (auto simp: demo_plane_def)
qed

section \<open>The flush ends the commit\<close>

lemma with_painter_cursor [simp]: "cursor_events_enabled (with_painter f d) = cursor_events_enabled d"
  by (simp add: with_painter_def split: option.splits prod.splits)

lemma set_vblank_cursor [simp]: "cursor_events_enabled (evdi_painter_set_vblank c v d) = cursor_events_enabled d"
  by (auto simp: evdi_painter_set_vblank_def Let_def split: option.splits prod.splits)

lemma flush_cursor_events: "cursor_events_enabled (snd (evdi_crtc_atomic_flush reserve alloc fg c state d)) = cursor_events_enabled d"
proof -
  have "cursor_events_enabled (evdi_painter_mode_changed_notify reserve alloc m d) = cursor_events_enabled d"
    "cursor_events_enabled (evdi_painter_dpms_notify reserve alloc fg dm d) = cursor_events_enabled d"
    "cursor_events_enabled (evdi_painter_send_update_ready_if_needed reserve alloc d) = cursor_events_enabled d" for m dm d
    by (simp_all add: evdi_painter_mode_changed_notify_def evdi_painter_dpms_notify_def evdi_painter_send_update_ready_if_needed_def)
  then show ?thesis by (simp add: evdi_crtc_atomic_flush_def Let_def)
qed

lemma flush_outcome:
  assumes "device_inv d" "painter d = Some p" "evdi_crtc_atomic_flush reserve alloc fg c state d = (state', d')"
  shows "\<exists>p'. painter d' = Some p' \<and> device_inv d' \<and> cs_event state' = None \<and>
    scanout_fb p' = scanout_fb p \<and> dirty_rects p' = dirty_rects p \<and>
    (dirty_rects p \<noteq> [] \<longrightarrow> \<not> was_update_requested p') \<and>
    (if dirty_rects p \<noteq> [] \<and> is_connected p
     then vblank p' = cs_event state \<and> crtc p' = Some c \<and>
       vblanks_sent (drm d') = vblanks_sent (drm d) @ vb (crtc p) (vblank p)
     else vblank p' = None \<and> vblanks_sent (drm d') = vblanks_sent (drm d) @ vb (crtc p) (vblank p) @ vb (Some c) (cs_event state))"
proof -
  define d1 where "d1 = (if cs_active state \<and> (cs_mode_changed state \<or> evdi_painter_needs_full_modeset (painter d))
    then evdi_painter_mode_changed_notify reserve alloc (cs_mode state) d else d)"
  define d2 where "d2 = (if cs_active_changed state \<or> evdi_painter_needs_full_modeset (painter d)
    then evdi_painter_dpms_notify reserve alloc fg (if cs_active state then DRM_MODE_DPMS_ON else DRM_MODE_DPMS_OFF) d1 else d1)"
  define d3 where "d3 = evdi_painter_set_vblank (Some c) (cs_event state) d2"
  have d': "d' = evdi_painter_send_update_ready_if_needed reserve alloc d3" "cs_event state' = None"
    using assms(3) by (auto simp: evdi_crtc_atomic_flush_def Let_def d1_def d2_def d3_def)
  have s1: "same_screen d d1" using assms(1) by (simp add: d1_def mode_changed_same_screen same_screen_refl)
  have s2: "same_screen d d2"
    using same_screen_trans [OF s1 dpms_same_screen [OF same_screen_inv [OF s1]]] s1 by (simp add: d2_def)
  obtain p2 where p2: "painter d2 = Some p2" "scanout_fb p2 = scanout_fb p" "dirty_rects p2 = dirty_rects p"
    "vblank p2 = vblank p" "crtc p2 = crtc p" "is_connected p2 = is_connected p"
    "vblanks_sent (drm d2) = vblanks_sent (drm d)"
    by (rule same_screen_painter [OF s2 assms(2)])
  have i3: "device_inv d3" unfolding d3_def by (rule inv_set_vblank [OF same_screen_inv [OF s2]])
  obtain p3 where o3: "painter d3 = Some p3" "painter_ok p3" by (rule inv_obtain [OF i3])
  have p3: "painter d3 = Some p3" "painter_ok p3" "scanout_fb p3 = scanout_fb p" "dirty_rects p3 = dirty_rects p"
    "if dirty_rects p \<noteq> [] \<and> is_connected p
     then vblank p3 = cs_event state \<and> crtc p3 = Some c \<and> vblanks_sent (drm d3) = vblanks_sent (drm d) @ vb (crtc p) (vblank p)
     else vblank p3 = None \<and> vblanks_sent (drm d3) = vblanks_sent (drm d) @ vb (crtc p) (vblank p) @ vb (Some c) (cs_event state)"
    using p2 o3 by (auto simp: d3_def evdi_painter_set_vblank_def evdi_painter_send_vblank_def Let_def split: if_splits prod.splits)
  obtain p4 w4 where s: "evdi_painter_send_event reserve (create_update_ready_event alloc) (p3, drm d3) = (p4, w4)"
    by (metis surj_pair)
  have shape: "scanout_fb p4 = scanout_fb p3 \<and> dirty_rects p4 = dirty_rects p3 \<and> vblank p4 = vblank p3 \<and> crtc p4 = crtc p3 \<and>
      vblanks_sent w4 = vblanks_sent (drm d3)"
    by (rule send_event_shape [OF p3(2) s]) simp
  have "device_inv d'" unfolding d'(1) by (rule inv_update_ready [OF i3])
  moreover have "d' = (if was_update_requested p3 \<and> dirty_rects p3 \<noteq> []
      then d3\<lparr>painter := Some (p4\<lparr>was_update_requested := False\<rparr>), drm := w4\<rparr> else d3\<lparr>painter := Some p3\<rparr>)"
    using p3(1) s by (simp add: d'(1) evdi_painter_send_update_ready_if_needed_def with_painter_def evdi_painter_send_update_ready_def)
  ultimately show ?thesis using p3 shape d'(2) by (auto split: if_splits)
qed

text \<open>
  C32: What the flush of a commit leaves behind. The event of the previous commit, if it was still held, is sent, once and
  first; the event of this commit is held back, with its crtc, exactly when a daemon is connected and something is dirty, and
  sent at once otherwise, and never both; the crtc state keeps no event. If something is dirty no update request stays
  unanswered. The screen itself, its framebuffer and its rectangles, is unchanged.
\<close>

theorem flush_completes_commit:
  assumes "device_inv d" "painter d = Some p" "evdi_crtc_atomic_flush reserve alloc fg c state d = (state', d')"
  shows "\<exists>p'. painter d' = Some p' \<and> device_inv d' \<and> cs_event state' = None \<and>
    scanout_fb p' = scanout_fb p \<and> dirty_rects p' = dirty_rects p \<and>
    (dirty_rects p \<noteq> [] \<longrightarrow> \<not> was_update_requested p') \<and>
    (if dirty_rects p \<noteq> [] \<and> is_connected p
     then vblank p' = cs_event state \<and> crtc p' = Some c \<and>
       vblanks_sent (drm d') = vblanks_sent (drm d) @ vb (crtc p) (vblank p)
     else vblank p' = None \<and> vblanks_sent (drm d') = vblanks_sent (drm d) @ vb (crtc p) (vblank p) @ vb (Some c) (cs_event state))"
  by (rule flush_outcome [OF assms])

theorem flush_completes_commit_witness:
  "\<exists>p'. painter (snd (evdi_crtc_atomic_flush (\<lambda>_ _ _. True) True 1 7
      \<lparr>cs_active = True, cs_mode_changed = True, cs_active_changed = False, cs_mode = \<lparr>hdisplay = 3, vdisplay = 2, vrefresh = 60\<rparr>,
       cs_event = Some 4\<rparr> (demo_device [\<lparr>x1 = 0, y1 = 0, x2 = 1, y2 = 1\<rparr>]))) = Some p' \<and>
    vblank p' = Some 4 \<and> crtc p' = Some 7"
proof -
  let ?st = "\<lparr>cs_active = True, cs_mode_changed = True, cs_active_changed = False,
    cs_mode = \<lparr>hdisplay = 3, vdisplay = 2, vrefresh = 60\<rparr>, cs_event = Some 4\<rparr>"
  let ?d = "demo_device [\<lparr>x1 = 0, y1 = 0, x2 = 1, y2 = 1\<rparr>]"
  have inv: "device_inv ?d"
    by (simp add: device_inv_def demo_device_def painter_ok_def evdi_painter_zero_def demo_fb_good cursor_limits_def
        evdi_cursor_zero_def DDCCI_BUFFER_SIZE_def MAX_DIRTS_def rect_wf_def)
  obtain p where p: "painter ?d = Some p" "is_connected p" "dirty_rects p \<noteq> []" by (simp add: demo_device_def)
  obtain st' d' where f: "evdi_crtc_atomic_flush (\<lambda>_ _ _. True) True 1 7 ?st ?d = (st', d')" by (metis surj_pair)
  show ?thesis using flush_completes_commit [OF inv p(1) f] p(2,3) f by auto
qed

section \<open>A moved cursor is repainted\<close>

text \<open>The pixels under a plane, in the coordinates of the screen.\<close>

definition under_plane :: "plane_state \<Rightarrow> u16 \<times> u16 \<Rightarrow> bool" where
  "under_plane st px \<longleftrightarrow> sint (crtc_x st) \<le> uint (fst px) \<and> uint (fst px) < sint (crtc_x st) + uint (crtc_w st) \<and>
    sint (crtc_y st) \<le> uint (snd px) \<and> uint (snd px) < sint (crtc_y st) + uint (crtc_h st)"

definition plane_limits :: "plane_state \<Rightarrow> bool" where
  "plane_limits st \<longleftrightarrow> uint (crtc_w st) \<le> 8192 \<and> uint (crtc_h st) \<le> 8192 \<and> sint (crtc_x st) \<le> 32767 \<and> sint (crtc_y st) \<le> 32767"

text \<open>One coordinate: where the plane lies over \<open>k\<close>, so does the rectangle, although a negative end wraps.\<close>

lemma rect_coord:
  assumes "sint (x :: 32 word) \<le> uint (k :: u16)" "uint k < sint x + uint (w :: u32)" "uint w \<le> 8192" "sint x \<le> 32767"
  shows "(if sint x < 0 then 0 else ucast x) \<le> k \<and> k < (ucast (x + w) :: u16)"
proof -
  have b: "0 \<le> uint k" "0 \<le> uint w" by simp_all
  have "x + w = word_of_int (sint x) + word_of_int (uint w)" by simp
  then have e: "x + w = word_of_int (sint x + uint w)" by (simp only: wi_hom_add)
  have u: "uint (x + w) = sint x + uint w"
    unfolding e by (rule uint_of_int_32) (use assms b in linarith)+
  have c: "uint (ucast v :: u16) = uint v" if "uint v < 65536" for v :: u32
    using that by (simp add: unsigned_ucast_eq take_bit_int_eq_self)
  have "uint (ucast (x + w) :: u16) = sint x + uint w" using assms b u c [of "x + w"] by simp
  moreover have "uint (ucast x :: u16) = sint x" if "0 \<le> sint x"
    using that assms uint_of_int_32 [of "sint x"] c [of x] by simp
  ultimately show ?thesis using assms b by (auto simp: word_le_def word_less_def)
qed

lemma plane_rect:
  assumes "plane_limits st" "under_plane st px"
  shows "in_rect (evdi_cursor_atomic_get_rect st) px" "rect_wf (evdi_cursor_atomic_get_rect st)"
proof -
  show "in_rect (evdi_cursor_atomic_get_rect st) px"
    using assms rect_coord [of "crtc_x st" "fst px" "crtc_w st"] rect_coord [of "crtc_y st" "snd px" "crtc_h st"]
    by (simp add: plane_limits_def under_plane_def in_rect_def evdi_cursor_atomic_get_rect_def)
  then show "rect_wf (evdi_cursor_atomic_get_rect st)"
    unfolding in_rect_def rect_wf_def by (meson order.strict_implies_order order.trans)
qed

lemma whole_rect:
  assumes "fb_good efb" "in_fb efb px"
  shows "in_rect \<lparr>x1 = 0, y1 = 0, x2 = ucast (fb_width efb), y2 = ucast (fb_height efb)\<rparr> px"
    "rect_wf \<lparr>x1 = 0, y1 = 0, x2 = ucast (fb_width efb), y2 = ucast (fb_height efb)\<rparr>"
proof -
  have c: "k < (ucast v :: u16)" if "unat k < unat v" "uint v \<le> 32767" for v :: u32 and k
  proof -
    have "uint (ucast v :: u16) = uint v" using that(2) by (simp add: unsigned_ucast_eq take_bit_int_eq_self)
    then show ?thesis using that(1) by (simp add: word_less_def unat_eq_nat_uint del: nat_uint_eq)
  qed
  show "in_rect \<lparr>x1 = 0, y1 = 0, x2 = ucast (fb_width efb), y2 = ucast (fb_height efb)\<rparr> px"
    using assms by (simp add: in_rect_def in_fb_def fb_good_def c)
qed (simp add: rect_wf_def)

text \<open>Moving and replacing the cursor keeps the invariant.\<close>

lemma cursor_move_inv:
  "device_inv d \<Longrightarrow> sint x \<le> 1073741824 \<Longrightarrow> sint y \<le> 1073741824 \<Longrightarrow> device_inv (d\<lparr>cursor := evdi_cursor_move x y (cursor d)\<rparr>)"
  by (simp add: device_inv_def cursor_limits_def evdi_cursor_move_def)

lemma cursor_set_inv:
  assumes "device_inv d" "unat cw \<le> 8192" "unat ch \<le> 8192" "evdi_cursor_set vmap (Some g) cw ch hx hy fmt strd (cursor d, gem_refs d) = (c, refs)"
    and "\<And>img. (if vmapping (gem g) = None then snd vmap else vmapping (gem g)) = Some img \<Longrightarrow> length img = obj_size (gem g)"
  shows "device_inv (d\<lparr>cursor := c, gem_refs := refs\<rparr>)"
  using assms
  by (auto simp: evdi_cursor_set_def evdi_cursor_set_gem_def Let_def cursor_limits_def device_inv_def split: option.splits if_splits)

lemma cursor_enable_inv:
  assumes "device_inv d" "evdi_cursor_enable b (cursor d, gem_refs d) = (c, refs)"
  shows "device_inv (d\<lparr>cursor := c, gem_refs := refs\<rparr>)"
  using assms by (auto simp: evdi_cursor_enable_def evdi_cursor_set_gem_def Let_def cursor_limits_def device_inv_def split: if_splits)

text \<open>The two marks of a cursor that is drawn by software.\<close>

lemma marks_cover:
  assumes "device_inv d" "painter d = Some p" "scanout_fb p = Some efb"
  shows "\<exists>d' p'. ebind (evdi_painter_mark_dirty a d) (evdi_painter_mark_dirty b) = Inr d' \<and> device_inv d' \<and> painter d' = Some p' \<and>
    (\<forall>px. covered (dirty_rects p) px \<longrightarrow> covered (dirty_rects p') px) \<and>
    (\<forall>px. in_fb efb px \<longrightarrow> rect_wf a \<and> in_rect a px \<or> rect_wf b \<and> in_rect b px \<longrightarrow> covered (dirty_rects p') px)"
proof -
  obtain d' where d': "mark_all [a, b] d = Inr d'" "grown efb [a, b] d d'" using mark_all_grown [OF assms] by blast
  have "ebind (evdi_painter_mark_dirty a d) (evdi_painter_mark_dirty b) = mark_all [a, b] d"
    by (auto simp: ebind_def split: sum.split)
  then show ?thesis using d' assms(2) unfolding grown_def by fastforce
qed

lemma cursor_change_inv:
  assumes "device_inv d"
    and "\<And>fb. ps_fb new = Some fb \<Longrightarrow> unat (fb_width fb) \<le> 8192 \<and> unat (fb_height fb) \<le> 8192 \<and>
      (\<forall>img. (if vmapping (fb_obj fb) = None then snd vmap else vmapping (fb_obj fb)) = Some img \<longrightarrow>
        length img = obj_size (fb_obj fb))"
  shows "device_inv (cursor_change gid vmap old new d)"
proof (cases "ps_fb new")
  case None
  obtain c refs where e: "evdi_cursor_enable False (cursor d, gem_refs d) = (c, refs)" by (metis surj_pair)
  show ?thesis using None e cursor_enable_inv [OF assms(1) e] assms(1) by (simp add: cursor_change_def)
next
  case (Some fb)
  obtain c refs where s: "evdi_cursor_set vmap (Some \<lparr>gem_id = gid (fb_id fb), gem = fb_obj fb\<rparr>)
      (fb_width fb) (fb_height fb) 0 0 (fb_format fb) (4 * fb_width fb) (cursor d, gem_refs d) = (c, refs)" by (metis surj_pair)
  have i1: "device_inv (d\<lparr>cursor := c, gem_refs := refs\<rparr>)"
    by (rule cursor_set_inv [OF assms(1) _ _ s]) (use assms(2) [OF Some] in \<open>auto split: if_splits\<close>)
  obtain c' refs' where e: "evdi_cursor_enable True (c, refs) = (c', refs')" by (metis surj_pair)
  have "device_inv (d\<lparr>cursor := c', gem_refs := refs'\<rparr>)"
    using cursor_enable_inv [OF i1, of True c' refs'] e by simp
  then show ?thesis using assms(1) Some s e by (simp add: cursor_change_def)
qed

lemma cursor_change_keeps [simp]:
  "painter (cursor_change gid vmap old new d) = painter d" "cursor_events_enabled (cursor_change gid vmap old new d) = cursor_events_enabled d"
  by (auto simp: cursor_change_def Let_def split: prod.split option.split)

text \<open>
  A cursor that is drawn into the screen leaves no trail. When the daemon has not asked for cursor events, every update
  of the cursor plane with an image succeeds and marks every visible pixel under the cursor's old and new place, in
  the fast mode by the two rectangles although their ends wrap for a cursor over the left or upper edge, and otherwise by
  the whole screen; nothing that was dirty is forgotten.
\<close>

theorem cursor_update_repaints:
  assumes "device_inv d" "painter d = Some p" "scanout_fb p = Some efb" "\<not> cursor_events_enabled d"
    and "ps_fb new = Some fb" "unat (fb_width fb) \<le> 8192" "unat (fb_height fb) \<le> 8192" "plane_limits old" "plane_limits new"
    and "\<And>img. (if vmapping (fb_obj fb) = None then snd vmap else vmapping (fb_obj fb)) = Some img \<Longrightarrow>
      length img = obj_size (fb_obj fb)"
  shows "\<exists>d' p'. evdi_cursor_atomic_update reserve alloc handle gid sw vmap old (Some new) d = Inr d' \<and> device_inv d' \<and>
    painter d' = Some p' \<and> (\<forall>px. covered (dirty_rects p) px \<longrightarrow> covered (dirty_rects p') px) \<and>
    (\<forall>px. in_fb efb px \<longrightarrow> under_plane old px \<or> under_plane new px \<longrightarrow> covered (dirty_rects p') px)"
proof -
  define d1 where "d1 = cursor_change gid vmap old new (d\<lparr>cursor := evdi_cursor_move (crtc_x new) (crtc_y new) (cursor d)\<rparr>)"
  have lim: "sint (crtc_x new) \<le> 1073741824" "sint (crtc_y new) \<le> 1073741824" using assms(9) by (auto simp: plane_limits_def)
  have i1: "device_inv d1"
    unfolding d1_def by (rule cursor_change_inv [OF cursor_move_inv [OF assms(1) lim]]) (use assms(5-7,10) in auto)
  have p1: "painter d1 = Some p" using assms(2) by (simp add: d1_def)
  have u: "evdi_cursor_atomic_update reserve alloc handle gid sw vmap old (Some new) d = cursor_repaint sw old new d1"
    using assms(4) by (simp add: evdi_cursor_atomic_update_def Let_def d1_def)
  show ?thesis
  proof (cases sw)
    case True
    have r: "cursor_repaint sw old new d1 = ebind (evdi_painter_mark_dirty (evdi_cursor_atomic_get_rect old) d1)
        (evdi_painter_mark_dirty (evdi_cursor_atomic_get_rect new))"
      using True assms(5) by (simp add: cursor_repaint_def)
    show ?thesis
      unfolding u r
      using marks_cover [OF i1 p1 assms(3), of "evdi_cursor_atomic_get_rect old" "evdi_cursor_atomic_get_rect new"]
        plane_rect [OF assms(8)] plane_rect [OF assms(9)] by blast
  next
    case False
    let ?r = "\<lparr>x1 = 0, y1 = 0, x2 = ucast (fb_width efb), y2 = ucast (fb_height efb)\<rparr>"
    have r: "cursor_repaint sw old new d1 = evdi_painter_mark_dirty ?r d1"
      using False assms(3,5) p1 by (simp add: cursor_repaint_def evdi_painter_framebuffer_size_def)
    obtain d' where d': "evdi_painter_mark_dirty ?r d1 = Inr d'" "grown efb [?r] d1 d'"
      using mark_grown [OF i1 p1 assms(3)] by blast
    have "fb_good efb" using i1 p1 assms(3) by (auto simp: device_inv_def painter_ok_def)
    then show ?thesis unfolding u r using d' p1 whole_rect [of efb] unfolding grown_def by fastforce
  qed
qed

theorem cursor_update_repaints_witness:
  "\<exists>d' p'. evdi_cursor_atomic_update (\<lambda>_ _ _. True) True (\<lambda>_. (1, 0, 0)) (\<lambda>_. 9) True (0, None) (demo_plane (Some 0) (Some demo_fb))
      (Some ((demo_plane (Some 0) (Some demo_fb))\<lparr>crtc_x := -2\<rparr>)) ((demo_device [])\<lparr>cursor_events_enabled := False\<rparr>) = Inr d' \<and>
    painter d' = Some p' \<and> covered (dirty_rects p') (0, 1) \<and> covered (dirty_rects p') (2, 0)"
proof -
  let ?old = "demo_plane (Some 0) (Some demo_fb)" and ?new = "(demo_plane (Some 0) (Some demo_fb))\<lparr>crtc_x := -2\<rparr>"
  let ?d = "(demo_device [])\<lparr>cursor_events_enabled := False\<rparr>"
  have inv: "device_inv ?d" using demo_device_inv by (simp add: device_inv_def)
  obtain p where p: "painter ?d = Some p" "scanout_fb p = Some demo_fb" by (simp add: demo_device_def)
  have l: "plane_limits ?old" "plane_limits ?new" by (simp_all add: plane_limits_def demo_plane_def)
  have px: "in_fb demo_fb (0, 1)" "in_fb demo_fb (2, 0)" "under_plane ?new (0, 1)" "under_plane ?old (2, 0)"
    by (simp_all add: in_fb_def demo_fb_def under_plane_def demo_plane_def)
  obtain d' p' where r: "evdi_cursor_atomic_update (\<lambda>_ _ _. True) True (\<lambda>_. (1, 0, 0)) (\<lambda>_. 9) True (0, None) ?old (Some ?new) ?d = Inr d'"
    "painter d' = Some p'" "\<forall>px. in_fb demo_fb px \<longrightarrow> under_plane ?old px \<or> under_plane ?new px \<longrightarrow> covered (dirty_rects p') px"
    using cursor_update_repaints [OF inv p _ _ _ _ l, of demo_fb "(0, None)" "\<lambda>_ _ _. True" True "\<lambda>_. (1, 0, 0)" "\<lambda>_. 9" True]
    by (auto simp: demo_plane_def demo_fb_def demo_gem_def)
  then show ?thesis using px by blast
qed

end
