(* ===== verification/EvdiStack.thy ===== *)
theory EvdiStack
  imports LibState PainterEvents
begin

text \<open>
  The library on top of the kernel module: \<^verbatim>\<open>evdi_grab_pixels\<close> of \<^verbatim>\<open>library/evdi_lib.c\<close> with the painter's
  \<^verbatim>\<open>grabpix\<close> ioctl of \<^verbatim>\<open>module/evdi_painter.c\<close> under it. Between them lies the DRM core, which is not in the
  repository: \<open>passes_grabpix\<close> states what it does with the request, as its documentation has it.
\<close>

section \<open>The DRM core\<close>

text \<open>
  A request reaches the driver's handler; the argument, declared read and written, is copied back whatever
  the handler answers; a negative answer becomes \<open>-1\<close> and \<^verbatim>\<open>errno\<close>.
\<close>

definition passes_grabpix :: "grab_env \<Rightarrow> evdi_device sys_ioctl \<Rightarrow> bool" where
  "passes_grabpix env sys \<longleftrightarrow> (\<forall>fdn cmd d ret cmd' d'.
     evdi_painter_grabpix_ioctl env cmd d = Inr (ret, cmd', d') \<longrightarrow>
     sys fdn (EVDI_GRABPIX cmd) d =
       (if ret < 0 then (- 1, - ret, GrabReply cmd', d') else (ret, 0, GrabReply cmd', d')))"

lemma passes_grabpixD:
  "passes_grabpix env sys \<Longrightarrow> evdi_painter_grabpix_ioctl env cmd d = Inr (ret, cmd', d') \<Longrightarrow>
   sys fdn (EVDI_GRABPIX cmd) d = (if ret < 0 then (- 1, - ret, GrabReply cmd', d') else (ret, 0, GrabReply cmd', d'))"
  unfolding passes_grabpix_def by blast

text \<open>The request the library makes for a buffer.\<close>

definition grab_request :: "evdi_buffer \<Rightarrow> heap \<Rightarrow> drm_evdi_grabpix" where
  "grab_request b heap = \<lparr>grab_mode = EVDI_GRABPIX_MODE_DIRTY, buf_width = buffer_width b, buf_height = buffer_height b,
     buf_byte_stride = buffer_stride b, user_buffer = heap (buffer_addr b), num_rects = int MAX_DIRTS, rects = None\<rparr>"

text \<open>What the painter answers when it can be asked: never the codes on which the library asks again.\<close>

lemma copy_rows_err: "copy_rows nc vm n pt st k src dst mem = Inr (err, mem') \<Longrightarrow> err = 0 \<or> err = - EFAULT"
  by (induction k arbitrary: src dst mem) (auto simp: ebind_eq_Inr Let_def case_prod_beta split: if_splits)

lemma copy_rects_err: "copy_rects nc fb vm st mx my rs mem = Inr (err, mem') \<Longrightarrow> err = 0 \<or> err = - EFAULT"
  by (induction rs arbitrary: mem)
     (auto simp: ebind_eq_Inr Let_def split: if_splits prod.splits dest: copy_rows_err)

lemma grab_err:
  assumes "grab_pixels env d efb m rs cmd = Inr (err, cmd', leak)" "\<not> is_from_xe efb"
  shows "err = 0 \<or> err = - EFAULT \<or> err = - EINVAL"
  using assms
  by (auto simp: grab_pixels_def Let_def copy_primary_pixels_def ebind_eq_Inr split: option.splits if_splits
      dest: copy_rects_err)

lemma grabpix_err:
  assumes "painter d = Some p" "scanout_fb p = Some efb" "vmapping (fb_obj efb) = Some vm" "\<not> is_from_xe efb"
    and "evdi_painter_grabpix_ioctl env cmd d = Inr (err, cmd', d')"
  shows "err = 0 \<or> err = - EFAULT \<or> err = - EINVAL"
proof -
  have e: "efb\<lparr>fb_obj := (fb_obj efb)\<lparr>vmapping := Some vm\<rparr>\<rparr> = efb" using assms(3) by simp
  show ?thesis
    using assms grab_err
    by (fastforce simp: evdi_painter_grabpix_ioctl_def Let_def e ebind_eq_Inr split: if_splits)
qed

section \<open>A stack\<close>

definition demo_sys :: "grab_env \<Rightarrow> evdi_device sys_ioctl" where
  "demo_sys env fdn req d =
    (case req of
       EVDI_GRABPIX cmd \<Rightarrow>
         (case evdi_painter_grabpix_ioctl env cmd d of
            Inl e \<Rightarrow> (- 1, EFAULT, NoReply, d)
          | Inr (ret, cmd', d') \<Rightarrow> if ret < 0 then (- 1, - ret, GrabReply cmd', d') else (ret, 0, GrabReply cmd', d'))
     | _ \<Rightarrow> (- 1, EINVAL, NoReply, d))"

lemma demo_sys_passes: "passes_grabpix env (demo_sys env)"
  by (simp add: passes_grabpix_def demo_sys_def)

definition demo_buffer :: evdi_buffer where
  "demo_buffer = \<lparr>buffer_id = 1, buffer_addr = 100, buffer_width = 3, buffer_height = 2, buffer_stride = 16\<rparr>"

definition demo_context :: evdi_device_context where
  "demo_context = \<lparr>fd = 5, bufferToUpdate = 1, frameBuffersList = [demo_buffer], device_index = 0\<rparr>"

lemma demo_registered: "buffers demo_context (bufferToUpdate demo_context) = Some demo_buffer"
  by (simp add: buffers_def demo_context_def demo_buffer_def)

section \<open>A grab through the library\<close>

lemma evdi_grab_pixels_ok:
  assumes "buffers c (bufferToUpdate c) = Some b"
    and "do_ioctl sys (fd c) (EVDI_GRABPIX (grab_request b heap)) k = Some (0, GrabReply g, k')"
    and "rects g = Some rs" "num_rects g = int (length rs)" "length rs \<le> length out"
  shows "evdi_grab_pixels sys (Some c) out heap k = Some (Inr
    (map to_evdi_rect rs @ drop (length rs) out, int (length rs), heap(buffer_addr b := user_buffer g), k'))"
  using assms by (simp add: evdi_grab_pixels_def buffers_def grab_request_def Let_def)

lemma evdi_grab_pixels_err:
  assumes "buffers c (bufferToUpdate c) = Some b" "ret \<noteq> 0"
    and "do_ioctl sys (fd c) (EVDI_GRABPIX (grab_request b heap)) k = Some (ret, GrabReply g, k')"
  shows "evdi_grab_pixels sys (Some c) out heap k = Some (Inr (out, 0, heap(buffer_addr b := user_buffer g), k'))"
  using assms by (simp add: evdi_grab_pixels_def buffers_def grab_request_def Let_def)

text \<open>A grab of a scanout buffer sends what the painter held.\<close>

lemma grab_sends:
  assumes "painter d = Some p" "scanout_fb p = Some efb" "grab_mode cmd = EVDI_GRABPIX_MODE_DIRTY" "1 \<le> num_rects cmd"
    and "evdi_painter_grabpix_ioctl env cmd d = Inr (err, cmd', d')"
  shows "vblanks_sent (drm d') = vblanks d"
  using assms
  by (auto simp: evdi_painter_grabpix_ioctl_def Let_def ebind_eq_Inr vblanks_def drm_framebuffer_get_def drm_framebuffer_put_def
      split: option.splits)

lemma library_grab:
  assumes "passes_grabpix env sys" "buffers c (bufferToUpdate c) = Some b" "MAX_DIRTS \<le> length out"
    and "painter d = Some p" "scanout_fb p = Some efb" "vmapping (fb_obj efb) = Some vm" "fb_mapped efb vm"
    and "\<forall>r\<in>set (dirty_rects p). rect_wf r" "\<not> is_from_xe efb" "cursor_events_enabled d"
    and "int32 (buffer_width b)" "int32 (buffer_height b)"
  shows "\<exists>out' n mem d'. evdi_grab_pixels sys (Some c) out heap d = Some (Inr (out', n, heap(buffer_addr b := mem), d')) \<and>
    painter_dirty d' = [] \<and> vblanks_sent (drm d') = vblanks d \<and> 0 \<le> n \<and> n \<le> 16 \<and>
    (0 < n \<longrightarrow> (\<exists>rs. int (length rs) = n \<and> take (nat n) out' = map to_evdi_rect rs \<and>
      (\<forall>px. covered (dirty_rects p) px \<longrightarrow> covered rs px) \<and>
      (user_buf_ok efb (buffer_stride b) \<longrightarrow> (\<forall>px. px_frame efb px \<longrightarrow>
        (if covered rs px then px_copied efb vm (buffer_stride b) mem px
         else px_same (buffer_stride b) (heap (buffer_addr b)) mem px)))))"
proof -
  let ?cmd = "grab_request b heap"
  have fields: "grab_mode ?cmd = EVDI_GRABPIX_MODE_DIRTY" "1 \<le> num_rects ?cmd" "num_rects ?cmd = 16"
    "buf_byte_stride ?cmd = buffer_stride b" "user_buffer ?cmd = heap (buffer_addr b)"
    "int32 (buf_width ?cmd)" "int32 (buf_height ?cmd)"
    using assms(11,12) by (simp_all add: grab_request_def MAX_DIRTS_def)
  obtain err g d' where r: "evdi_painter_grabpix_ioctl env ?cmd d = Inr (err, g, d')" "painter_dirty d' = []"
    and ok: "err = 0 \<longrightarrow> (\<exists>rs. rects g = Some rs \<and> int (length rs) = num_rects g \<and>
      num_rects g \<le> num_rects ?cmd \<and> (\<forall>r\<in>set rs. rect_ok efb r) \<and>
      (\<forall>px. covered (dirty_rects p) px \<longrightarrow> covered rs px) \<and>
      (user_buf_ok efb (buf_byte_stride ?cmd) \<longrightarrow> (\<forall>px. px_frame efb px \<longrightarrow>
        (if covered rs px then px_copied efb vm (buf_byte_stride ?cmd) (user_buffer g) px
         else px_same (buf_byte_stride ?cmd) (user_buffer ?cmd) (user_buffer g) px))))"
    using grabpix_spec [OF assms(4-10) fields(1,2,6,7), of env] by blast
  have sent: "vblanks_sent (drm d') = vblanks d" by (rule grab_sends [OF assms(4,5) fields(1,2) r(1)])
  have err: "err = 0 \<or> err = - EFAULT \<or> err = - EINVAL"
    by (rule grabpix_err [OF assms(4-6,9) r(1)])
  let ?ret = "if err = 0 then 0 else - 1"
  have io: "do_ioctl sys (fd c) (EVDI_GRABPIX ?cmd) d = Some (?ret, GrabReply g, d')"
    unfolding do_ioctl_def using passes_grabpixD [OF assms(1) r(1), of "fd c"] err
    by (subst drm_ioctl.simps) (auto simp: errno_defs EINTR_def)
  show ?thesis
  proof (cases "err = 0")
    case True
    then obtain rs where rs: "rects g = Some rs" "int (length rs) = num_rects g" "num_rects g \<le> num_rects ?cmd"
      "\<forall>px. covered (dirty_rects p) px \<longrightarrow> covered rs px"
      "user_buf_ok efb (buf_byte_stride ?cmd) \<longrightarrow> (\<forall>px. px_frame efb px \<longrightarrow>
        (if covered rs px then px_copied efb vm (buf_byte_stride ?cmd) (user_buffer g) px
         else px_same (buf_byte_stride ?cmd) (user_buffer ?cmd) (user_buffer g) px))"
      using ok by blast
    have len: "length rs \<le> length out" "length rs \<le> 16"
      using rs(2,3) fields(3) assms(3) by (simp_all add: MAX_DIRTS_def)
    have io0: "do_ioctl sys (fd c) (EVDI_GRABPIX ?cmd) d = Some (0, GrabReply g, d')" using io True by simp
    note eq = evdi_grab_pixels_ok [OF assms(2) io0 rs(1) rs(2) [symmetric] len(1)]
    show ?thesis
      unfolding eq
      by (rule exI [of _ "map to_evdi_rect rs @ drop (length rs) out"], rule exI [of _ "int (length rs)"],
          rule exI [of _ "user_buffer g"], rule exI [of _ d'])
         (use r(2) sent rs(4) rs(5) [unfolded fields(4,5)] len in \<open>auto intro!: exI [of _ rs]\<close>)
  next
    case False
    then have io1: "do_ioctl sys (fd c) (EVDI_GRABPIX ?cmd) d = Some (- 1, GrabReply g, d')" using io by simp
    note eq = evdi_grab_pixels_err [OF assms(2) _ io1]
    show ?thesis
      by (rule exI [of _ out], rule exI [of _ 0], rule exI [of _ "user_buffer g"], rule exI [of _ d'])
         (use r(2) sent in \<open>simp add: eq\<close>)
  qed
qed

text \<open>
  grabbing through the library, end to end. With a buffer registered under the number the last request
  named, and a painter whose scanout buffer is mapped, \<^verbatim>\<open>evdi_grab_pixels\<close> returns, the painter has nothing
  dirty left, and no other memory changed. When it reports rectangles, at most 16, every pixel that was dirty
  lies in one of them, and the registered buffer, if its rows hold the frame's pixels, has the framebuffer's
  bytes in them and its old bytes elsewhere.
\<close>

theorem library_grab_delivers:
  assumes "passes_grabpix env sys" "buffers c (bufferToUpdate c) = Some b" "MAX_DIRTS \<le> length out"
    and "painter d = Some p" "scanout_fb p = Some efb" "vmapping (fb_obj efb) = Some vm" "fb_mapped efb vm"
    and "\<forall>r\<in>set (dirty_rects p). rect_wf r" "\<not> is_from_xe efb" "cursor_events_enabled d"
    and "int32 (buffer_width b)" "int32 (buffer_height b)"
  shows "\<exists>out' n mem d'. evdi_grab_pixels sys (Some c) out heap d = Some (Inr (out', n, heap(buffer_addr b := mem), d')) \<and>
    painter_dirty d' = [] \<and> 0 \<le> n \<and> n \<le> 16 \<and>
    (0 < n \<longrightarrow> (\<exists>rs. int (length rs) = n \<and> take (nat n) out' = map to_evdi_rect rs \<and>
      (\<forall>px. covered (dirty_rects p) px \<longrightarrow> covered rs px) \<and>
      (user_buf_ok efb (buffer_stride b) \<longrightarrow> (\<forall>px. px_frame efb px \<longrightarrow>
        (if covered rs px then px_copied efb vm (buffer_stride b) mem px
         else px_same (buffer_stride b) (heap (buffer_addr b)) mem px)))))"
  using library_grab [OF assms, of heap] by blast

theorem library_grab_delivers_witness:
  "\<exists>out' n mem d'. evdi_grab_pixels (demo_sys demo_env) (Some demo_context) (replicate 16 (to_evdi_rect \<lparr>x1 = 0, y1 = 0, x2 = 0, y2 = 0\<rparr>))
      (\<lambda>_ _. 0) (demo_device [\<lparr>x1 = 1, y1 = 0, x2 = 3, y2 = 2\<rparr>]) = Some (Inr (out', n, (\<lambda>_ _. 0)(100 := mem), d')) \<and>
    painter_dirty d' = [] \<and> 0 \<le> n \<and> n \<le> 16 \<and> (0 < n \<longrightarrow> mem 22 = 18)"
proof -
  let ?d = "demo_device [\<lparr>x1 = 1, y1 = 0, x2 = 3, y2 = 2\<rparr>]"
  let ?vm = "map word_of_nat [0..<24] :: bytes"
  have px: "px_copied demo_fb ?vm 16 mem (1, 1) \<Longrightarrow> mem 22 = 18" for mem
    by (simp add: px_copied_def copied_def fb_pixel_def demo_fb_def)
       (drule spec [of _ 2], simp add: upt_rec numeral_eq_Suc)
  have c: "covered [\<lparr>x1 = 1, y1 = 0, x2 = 3, y2 = 2\<rparr>] (1, 1)" "px_frame demo_fb (1, 1)" "user_buf_ok demo_fb 16"
    by (simp_all add: in_rect_def px_frame_def demo_fb_def user_buf_ok_def)
  show ?thesis
    using library_grab_delivers [OF demo_sys_passes demo_registered, of
        "replicate 16 (to_evdi_rect \<lparr>x1 = 0, y1 = 0, x2 = 0, y2 = 0\<rparr>)" ?d "the (painter ?d)" demo_fb ?vm demo_env "\<lambda>_ _. 0"] c px
    by (fastforce simp: demo_device_def demo_fb_def demo_gem_def fb_mapped_def rect_wf_def MAX_DIRTS_def
        int32_def demo_buffer_def)
qed

section \<open>A grab with nothing to scan out\<close>

lemma grab_dirts_nonempty: "dirts \<noteq> [] \<Longrightarrow> 1 \<le> n \<Longrightarrow> grab_dirts n dirts \<noteq> []"
  unfolding grab_dirts_def Let_def using merge.nonempty_law collapse.nonempty_law by simp

lemma grabpix_again:
  assumes "painter d = Some p" "scanout_fb p = None" "grab_mode cmd = EVDI_GRABPIX_MODE_DIRTY" "1 \<le> num_rects cmd"
  shows "evdi_painter_grabpix_ioctl env cmd d =
    Inr (- EAGAIN, cmd\<lparr>num_rects := int (length (grab_dirts (num_rects cmd) (dirty_rects p)))\<rparr>,
         d\<lparr>painter := Some (p\<lparr>dirty_rects := grab_dirts (num_rects cmd) (dirty_rects p)\<rparr>)\<rparr>)"
  using assms by (simp add: evdi_painter_grabpix_ioctl_def Let_def)

text \<open>A request that the painter answers with \<^verbatim>\<open>EAGAIN\<close>, and will again.\<close>

definition spins :: "drm_request \<Rightarrow> evdi_device \<Rightarrow> bool" where
  "spins req d \<longleftrightarrow> (\<exists>cmd p. req = EVDI_GRABPIX cmd \<and> painter d = Some p \<and> scanout_fb p = None \<and> dirty_rects p \<noteq> [] \<and>
     grab_mode cmd = EVDI_GRABPIX_MODE_DIRTY \<and> 1 \<le> num_rects cmd)"

lemma spins_again:
  assumes "passes_grabpix env sys" "spins req d"
  shows "\<exists>reply d'. sys fdn req d = (- 1, EAGAIN, reply, d') \<and> spins (asked_again req reply) d'"
proof -
  from assms(2) obtain cmd p where req: "req = EVDI_GRABPIX cmd" and p: "painter d = Some p" "scanout_fb p = None"
      "grab_mode cmd = EVDI_GRABPIX_MODE_DIRTY" "1 \<le> num_rects cmd" and dirty: "dirty_rects p \<noteq> []"
    unfolding spins_def by blast
  let ?rs = "grab_dirts (num_rects cmd) (dirty_rects p)"
  have "?rs \<noteq> []" by (rule grab_dirts_nonempty [OF dirty p(4)])
  then have "1 \<le> int (length ?rs)" by (cases ?rs) simp_all
  then show ?thesis
    using passes_grabpixD [OF assms(1) grabpix_again [OF p]] p req \<open>?rs \<noteq> []\<close>
    by (auto simp: spins_def EAGAIN_def)
qed

lemma drm_ioctl_spins:
  assumes sys: "passes_grabpix env sys" and "spins req d"
  shows "drm_ioctl sys fdn req d = None"
proof -
  have "drm_ioctl s f r k = Some y \<Longrightarrow> s = sys \<longrightarrow> \<not> spins r k" for s f r k y
  proof (rule drm_ioctl.raw_induct [where P = "\<lambda>s f r k y. s = sys \<longrightarrow> \<not> spins r k"], assumption?, (rule impI)+, rule notI)
    fix loop :: "evdi_device sys_ioctl \<Rightarrow> int \<Rightarrow> drm_request \<Rightarrow> evdi_device \<Rightarrow> _" and s f r k y
    assume ih: "\<And>s f r k y. loop s f r k = Some y \<Longrightarrow> s = sys \<longrightarrow> \<not> spins r k"
      and step: "(case s f r k of (ret, err, reply, k') \<Rightarrow> if ret = - 1 \<and> (err = EINTR \<or> err = EAGAIN)
        then loop s f (asked_again r reply) k' else Some (ret, err, reply, k')) = Some y"
      and "s = sys" "spins r k"
    then obtain reply k' where "s f r k = (- 1, EAGAIN, reply, k')" "spins (asked_again r reply) k'"
      using spins_again [OF sys, of r k f] by auto
    with step ih [of s f "asked_again r reply" k' y] \<open>s = sys\<close> show False by simp
  qed
  with assms(2) show ?thesis by (cases "drm_ioctl sys fdn req d") blast+
qed

text \<open>
  a grab before the first scanout buffer is set, or after it is gone. With something dirty the painter
  answers \<^verbatim>\<open>EAGAIN\<close> each time, the library asks again each time, and \<^verbatim>\<open>evdi_grab_pixels\<close> does not return; with
  nothing dirty the second request, which asks for no rectangles, is refused and nothing is reported.
\<close>

theorem grab_without_scanout:
  assumes "passes_grabpix env sys" "buffers c (bufferToUpdate c) = Some b" "painter d = Some p" "scanout_fb p = None"
  shows "evdi_grab_pixels sys (Some c) out heap d =
    (if dirty_rects p = [] then Some (Inr (out, 0, heap, d)) else None)"
proof -
  let ?cmd = "grab_request b heap"
  have cmd: "grab_mode ?cmd = EVDI_GRABPIX_MODE_DIRTY" "1 \<le> num_rects ?cmd"
    by (simp_all add: grab_request_def MAX_DIRTS_def)
  show ?thesis
  proof (cases "dirty_rects p = []")
    case False
    then have "spins (EVDI_GRABPIX ?cmd) d" using assms cmd by (auto simp: spins_def)
    from drm_ioctl_spins [OF assms(1) this] show ?thesis
      using assms(2) False by (simp add: evdi_grab_pixels_def buffers_def do_ioctl_def grab_request_def Let_def)
  next
    case True
    then have rs: "grab_dirts (num_rects ?cmd) (dirty_rects p) = []"
      using grab_dirts_length(2) [OF cmd(2), of "dirty_rects p"] by simp
    let ?cmd' = "?cmd\<lparr>num_rects := 0\<rparr>"
    have d: "d\<lparr>painter := Some (p\<lparr>dirty_rects := []\<rparr>)\<rparr> = d" using True assms(3) by simp
    have "evdi_painter_grabpix_ioctl env ?cmd d = Inr (- EAGAIN, ?cmd', d)"
      using grabpix_again [OF assms(3,4) cmd, of env] by (simp add: rs d)
    from passes_grabpixD [OF assms(1) this, of "fd c"]
    have 1: "sys (fd c) (EVDI_GRABPIX ?cmd) d = (- 1, EAGAIN, GrabReply ?cmd', d)" by (simp add: EAGAIN_def)
    have "evdi_painter_grabpix_ioctl env ?cmd' d = Inr (- EINVAL, ?cmd', d)"
      by (simp add: evdi_painter_grabpix_ioctl_def)
    from passes_grabpixD [OF assms(1) this, of "fd c"]
    have 2: "sys (fd c) (EVDI_GRABPIX ?cmd') d = (- 1, EINVAL, GrabReply ?cmd', d)" by (simp add: EINVAL_def)
    have "do_ioctl sys (fd c) (EVDI_GRABPIX ?cmd) d = Some (- 1, GrabReply ?cmd', d)"
      unfolding do_ioctl_def
      by (subst drm_ioctl.simps, subst drm_ioctl.simps) (simp add: 1 2 EINVAL_def EAGAIN_def EINTR_def)
    from evdi_grab_pixels_err [OF assms(2) _ this] True show ?thesis by (simp add: grab_request_def)
  qed
qed

lemma grab_without_scanout_witness:
  "evdi_grab_pixels (demo_sys demo_env) (Some demo_context) [] (\<lambda>_ _. 0)
     ((demo_device [])\<lparr>painter := Some (evdi_painter_zero\<lparr>dirty_rects := [\<lparr>x1 = 0, y1 = 0, x2 = 3, y2 = 2\<rparr>]\<rparr>)\<rparr>) = None"
  by (subst grab_without_scanout [OF demo_sys_passes demo_registered,
        where p = "evdi_painter_zero\<lparr>dirty_rects := [\<lparr>x1 = 0, y1 = 0, x2 = 3, y2 = 2\<rparr>]\<rparr>"])
     (simp_all add: evdi_painter_zero_def)

end
