(* ===== verification/EvdiCommit.thy ===== *)
theory EvdiCommit
  imports EvdiModeset EvdiStack
begin

text \<open>
  A commit on its way from the compositor to the daemon: the update of the primary plane and the flush of the crtc
  (\<^verbatim>\<open>module/evdi_modeset.c\<close>), the painter between them (\<^verbatim>\<open>module/evdi_painter.c\<close>), and the grab of the daemon through the
  library (\<^verbatim>\<open>library/evdi_lib.c\<close>).
\<close>

section \<open>From the commit to the buffer\<close>

lemma in_fb_frame: "in_fb efb px \<Longrightarrow> px_frame efb px"
  by (simp only: in_fb_def px_frame_def uint_nat of_nat_less_iff)

lemma commit_grabbed:
  assumes "device_reach d" "painter d = Some p" "is_connected p" "cursor_events_enabled d"
    and "ps_fb new = Some efb" "fb_good efb" "takes_over old new efb d" "vmapping (fb_obj efb) = Some vm" "\<not> is_from_xe efb"
    and "passes_grabpix env sys" "buffers c (bufferToUpdate c) = Some b" "MAX_DIRTS \<le> length out"
    and "int32 (buffer_width b)" "int32 (buffer_height b)" "user_buf_ok efb (buffer_stride b)"
  shows "\<exists>d1 state' d2 out' n mem d3.
    evdi_plane_atomic_update reserve alloc fg old (Some new) damage d = Inr d1 \<and>
    evdi_crtc_atomic_flush reserve' alloc' fg' cr state d1 = (state', d2) \<and>
    evdi_grab_pixels sys (Some c) out heap d2 = Some (Inr (out', n, heap(buffer_addr b := mem), d3)) \<and>
    vblanks_sent (drm d2) = vblanks_sent (drm d) @ vb (crtc p) (vblank p) \<and>
    vblanks_sent (drm d3) = vblanks_sent (drm d2) @ vb (Some cr) (cs_event state) \<and>
    painter_dirty d3 = [] \<and>
    (0 < n \<longrightarrow> (\<forall>r\<in>set damage. \<forall>px. rect_wf (clip_rect r) \<and> in_rect (clip_rect r) px \<and> in_fb efb px \<longrightarrow>
      px_copied efb vm (buffer_stride b) mem px))"
proof -
  have inv: "device_inv d" by (rule dev.runs_inv [OF assms(1)])
  obtain d1 p1 where d1: "evdi_plane_atomic_update reserve alloc fg old (Some new) damage d = Inr d1" "device_inv d1"
    "painter d1 = Some p1" "scanout_fb p1 = Some efb" "dirty_rects p1 \<noteq> []"
    "\<forall>r px. r \<in> set damage \<longrightarrow> rect_wf (clip_rect r) \<longrightarrow> in_rect (clip_rect r) px \<longrightarrow> in_fb efb px \<longrightarrow> covered (dirty_rects p1) px"
    using plane_update_outcome [OF inv assms(2,5,6), of reserve alloc fg old damage] assms(7) by auto
  have ev1: "cursor_events_enabled d1" "vblanks_sent (drm d1) = vblanks_sent (drm d)" "vblank p1 = vblank p" "crtc p1 = crtc p" "is_connected p1"
    using plane_update_events [OF inv assms(5) d1(1)] assms(2-4) d1(3) by (auto simp: same_events_def)
  obtain state' d2 where f: "evdi_crtc_atomic_flush reserve' alloc' fg' cr state d1 = (state', d2)" by (metis surj_pair)
  obtain p2 where p2: "painter d2 = Some p2" "device_inv d2" "scanout_fb p2 = Some efb" "dirty_rects p2 = dirty_rects p1"
    "vblank p2 = cs_event state" "crtc p2 = Some cr" "vblanks_sent (drm d2) = vblanks_sent (drm d1) @ vb (crtc p1) (vblank p1)"
    using flush_outcome [OF d1(2,3) f] d1(4,5) ev1(5) by auto
  have cur: "cursor_events_enabled d2" using flush_cursor_events [of reserve' alloc' fg' cr state d1] f ev1(1) by simp
  have wf: "\<forall>r\<in>set (dirty_rects p2). rect_wf r" using p2(1,2) by (auto simp: device_inv_def painter_ok_def)
  obtain out' n mem d3 where g: "evdi_grab_pixels sys (Some c) out heap d2 = Some (Inr (out', n, heap(buffer_addr b := mem), d3))"
    "painter_dirty d3 = []" "vblanks_sent (drm d3) = vblanks d2"
    and px: "0 < n \<longrightarrow> (\<exists>rs. int (length rs) = n \<and> take (nat n) out' = map to_evdi_rect rs \<and>
      (\<forall>px. covered (dirty_rects p2) px \<longrightarrow> covered rs px) \<and>
      (user_buf_ok efb (buffer_stride b) \<longrightarrow> (\<forall>px. px_frame efb px \<longrightarrow>
        (if covered rs px then px_copied efb vm (buffer_stride b) mem px
         else px_same (buffer_stride b) (heap (buffer_addr b)) mem px))))"
    using library_grab [OF assms(10-12) p2(1,3) assms(8) fb_good_mapped [OF assms(6,8)] wf assms(9) cur assms(13,14), of heap] by blast
  have held: "vblanks_sent (drm d3) = vblanks_sent (drm d2) @ vb (Some cr) (cs_event state)"
    using g(3) p2(1,5,6) by (simp add: vblanks_def)
  have "0 < n \<Longrightarrow> \<forall>r\<in>set damage. \<forall>px. rect_wf (clip_rect r) \<and> in_rect (clip_rect r) px \<and> in_fb efb px \<longrightarrow>
      px_copied efb vm (buffer_stride b) mem px"
    using px assms(15) d1(6) p2(4) in_fb_frame by (metis (no_types, lifting))
  then show ?thesis using d1(1) f g(1,2) p2(7) ev1(2-4) held by auto
qed


definition shown_device :: evdi_device where
  "shown_device = snd (evdi_painter_connect_ioctl True True demo_connect 5 demo_start)"

lemma shown_reach: "device_reach shown_device"
proof (unfold shown_device_def, rule runs.goes [OF demo_start_reach])
  show "device_step demo_start (Inr (snd (evdi_painter_connect_ioctl True True demo_connect 5 demo_start)))"
    by (rule device_step.connect) (auto simp: demo_connect_def)
qed

lemma shown_painter:
  obtains p where "painter shown_device = Some p" "is_connected p" "cursor_events_enabled shown_device" "crtc p = None"
    "vblanks_sent (drm shown_device) = []"
  by (simp add: shown_device_def evdi_painter_connect_ioctl_def demo_connect_def evdi_painter_connect_def demo_start_def
      evdi_painter_init_def Let_def sizeof_edid_def MAX_EDID_SIZE_def drm_helper_hpd_irq_event_def demo_device_def
      evdi_painter_zero_def demo_world_def)


end
