(* ===== verification/EvdiGem.thy ===== *)
theory EvdiGem
  imports EvdiCursor Machines
begin

text \<open>
  The buffer objects of the \<^verbatim>\<open>evdi\<close> kernel module (\<^verbatim>\<open>evdi_gem.c\<close>): their pages, the pin count that keeps the pages, the
  kernel mapping, and their import from and export to other drivers. The page array is the number of its entries;
  what the kernel holds for an object (pages of shared memory, the array of an import, mappings) is counted, so that
  a leak or a double release shows. Every operation takes the answers of the kernel it asks for.
\<close>

section \<open>State\<close>

text \<open>A mapping is that of the exporter's buffer, in device memory or not, or of so many pages of the object.\<close>

datatype kmapping = DmaMap bool | PageMap nat

record gem_bo =
  base_size :: nat
  bo_pages :: "nat option"
  pages_pin_count :: u32
  bo_vmapping :: "kmapping option"
  bo_import :: "string option option"
  bo_sg :: bool
  mmap_offset :: bool
  allow_sw_cursor_rect_updates :: bool

record gem_kernel =
  pages_held :: int
  arrays_held :: int
  page_maps :: int
  dma_maps :: int
  imports_held :: int
  objects_live :: int

type_synonym bow = "gem_bo \<times> gem_kernel"

definition PAGE_SIZE :: nat where "PAGE_SIZE = 4096"

definition gem_page_count :: "nat \<Rightarrow> nat" where
  "gem_page_count sz = (sz + PAGE_SIZE - 1) div PAGE_SIZE"

text \<open>Whether the exporter's own mapping is used: not for a buffer without an owner, nor for one of \<^verbatim>\<open>amdgpu\<close>.\<close>

definition evdi_drm_gem_object_use_import_attach :: "gem_bo \<Rightarrow> bool" where
  "evdi_drm_gem_object_use_import_attach obj =
    (case bo_import obj of Some (Some owner) \<Rightarrow> owner \<noteq> ''amdgpu'' | _ \<Rightarrow> False)"

text \<open>The handle under which a client's table has the object, the first one; 0 if there is none.\<close>

definition evdi_gem_object_handle_lookup :: "(u32 \<times> nat) list \<Rightarrow> nat \<Rightarrow> u32" where
  "evdi_gem_object_handle_lookup table obj =
    (case find (\<lambda>(h, ob). ob = obj) table of Some (h, _) \<Rightarrow> h | None \<Rightarrow> 0)"

section \<open>Creation\<close>

definition evdi_gem_alloc_object :: "bool \<Rightarrow> bool \<Rightarrow> nat \<Rightarrow> gem_kernel \<Rightarrow> gem_bo option \<times> gem_kernel" where
  "evdi_gem_alloc_object alloc init_ok sz k =
    (if \<not> alloc \<or> \<not> init_ok then (None, k)
     else (Some \<lparr>base_size = sz, bo_pages = None, pages_pin_count = 0, bo_vmapping = None, bo_import = None,
                 bo_sg = False, mmap_offset = False, allow_sw_cursor_rect_updates = False\<rparr>,
           k\<lparr>objects_live := objects_live k + 1\<rparr>))"

text \<open>The size is rounded in 64 bits. The object is released again when it gets no handle.\<close>

definition roundup_page :: "u64 \<Rightarrow> u64" where
  "roundup_page sz = (sz + 4095) div 4096 * 4096"

definition evdi_gem_create ::
    "bool \<Rightarrow> bool \<Rightarrow> bool \<Rightarrow> int \<times> u32 \<Rightarrow> u64 \<Rightarrow> gem_kernel \<Rightarrow> int \<times> u32 option \<times> gem_bo option \<times> gem_kernel" where
  "evdi_gem_create alloc init_ok by_mutter handle_create sz k =
    (case evdi_gem_alloc_object alloc init_ok (unat (roundup_page sz)) k of
       (None, k) \<Rightarrow> (- ENOMEM, None, None, k)
     | (Some obj, k) \<Rightarrow>
        let obj = obj\<lparr>allow_sw_cursor_rect_updates := by_mutter\<rparr>; (ret, handle) = handle_create
        in if ret \<noteq> 0 then (ret, None, None, k\<lparr>objects_live := objects_live k - 1\<rparr>)
           else (0, Some handle, Some obj, k))"

text \<open>In \<^verbatim>\<open>int\<close>, as the code has it; \<open>None\<close> where the signed arithmetic would overflow.\<close>

definition pitch_mask :: "int \<Rightarrow> int" where
  "pitch_mask cpp = (if cpp = 1 then 255 else if cpp = 2 then 127 else if cpp = 3 \<or> cpp = 4 then 63 else 0)"

definition evdi_align_pitch :: "int \<Rightarrow> int \<Rightarrow> int option" where
  "evdi_align_pitch width cpp =
    (let aligned = width + pitch_mask cpp; aligned' = aligned AND NOT (pitch_mask cpp)
     in if c_int aligned = aligned \<and> c_int (aligned' * cpp) = aligned' * cpp then Some (aligned' * cpp) else None)"

record drm_mode_create_dumb =
  dumb_height :: u32
  dumb_width :: u32
  dumb_bpp :: u32
  dumb_handle :: u32
  dumb_pitch :: u32
  dumb_size :: u64

definition evdi_dumb_create ::
    "bool \<Rightarrow> bool \<Rightarrow> bool \<Rightarrow> int \<times> u32 \<Rightarrow> drm_mode_create_dumb \<Rightarrow> gem_kernel \<Rightarrow>
     (int \<times> drm_mode_create_dumb \<times> gem_bo option \<times> gem_kernel) option" where
  "evdi_dumb_create alloc init_ok by_mutter handle_create args k =
    (case evdi_align_pitch (sint (dumb_width args)) (sint ((dumb_bpp args + 7) div 8)) of
       None \<Rightarrow> None
     | Some pitch \<Rightarrow>
        let args = args\<lparr>dumb_pitch := word_of_int pitch\<rparr>;
            args = args\<lparr>dumb_size := ucast (dumb_pitch args * dumb_height args)\<rparr>;
            (ret, handle, obj, k) = evdi_gem_create alloc init_ok by_mutter handle_create (dumb_size args) k
        in Some (ret, (case handle of Some h \<Rightarrow> args\<lparr>dumb_handle := h\<rparr> | None \<Rightarrow> args), obj, k))"

section \<open>Pages\<close>

text \<open>\<open>got\<close> is the code of \<^verbatim>\<open>drm_gem_get_pages\<close>.\<close>

definition evdi_gem_get_pages :: "int \<Rightarrow> bow \<Rightarrow> int \<times> bow" where
  "evdi_gem_get_pages got = (\<lambda>(obj, k).
    (if bo_pages obj \<noteq> None then (0, obj, k)
     else if got \<noteq> 0 then (got, obj, k)
     else (0, obj\<lparr>bo_pages := Some (base_size obj div PAGE_SIZE)\<rparr>, k\<lparr>pages_held := pages_held k + 1\<rparr>)))"

definition evdi_gem_put_pages :: "bow \<Rightarrow> c_error + bow" where
  "evdi_gem_put_pages = (\<lambda>(obj, k).
    (if bo_import obj \<noteq> None
     then Inr (obj\<lparr>bo_pages := None\<rparr>, if bo_pages obj = None then k else k\<lparr>arrays_held := arrays_held k - 1\<rparr>)
     else if bo_pages obj = None then Inl NullDeref
     else Inr (obj\<lparr>bo_pages := None\<rparr>, k\<lparr>pages_held := pages_held k - 1\<rparr>)))"

definition evdi_pin_pages :: "int \<Rightarrow> bow \<Rightarrow> int \<times> bow" where
  "evdi_pin_pages got = (\<lambda>(obj, k).
    (let first = (pages_pin_count obj = 0); obj = obj\<lparr>pages_pin_count := pages_pin_count obj + 1\<rparr>
     in if first then
          let (ret, obj, k) = evdi_gem_get_pages got (obj, k)
          in (ret, if ret \<noteq> 0 then obj\<lparr>pages_pin_count := pages_pin_count obj - 1\<rparr> else obj, k)
        else (0, obj, k)))"

definition evdi_unpin_pages :: "bow \<Rightarrow> c_error + bow" where
  "evdi_unpin_pages = (\<lambda>(obj, k).
    (let obj = obj\<lparr>pages_pin_count := pages_pin_count obj - 1\<rparr>
     in if pages_pin_count obj = 0 then evdi_gem_put_pages (obj, k) else Inr (obj, k)))"

definition evdi_prime_pin :: "int \<Rightarrow> bow \<Rightarrow> int \<times> bow" where
  "evdi_prime_pin = evdi_pin_pages"

definition evdi_prime_unpin :: "bow \<Rightarrow> c_error + bow" where
  "evdi_prime_unpin = evdi_unpin_pages"

text \<open>A fault at a page offset of a client's mapping; \<open>ins\<close> is the answer of \<^verbatim>\<open>vm_insert_page\<close> for a page of the array.\<close>

datatype vm_fault = VM_FAULT_SIGBUS | VM_FAULT_NOPAGE | VM_FAULT_OOM

definition evdi_gem_fault :: "(nat \<Rightarrow> int) \<Rightarrow> nat \<Rightarrow> gem_bo \<Rightarrow> c_error + vm_fault" where
  "evdi_gem_fault ins page_offset obj =
    (case bo_pages obj of None \<Rightarrow> Inr VM_FAULT_SIGBUS
     | Some n \<Rightarrow>
        if base_size obj div PAGE_SIZE \<le> page_offset then Inr VM_FAULT_SIGBUS
        else if n \<le> page_offset then Inl OutOfBounds
        else let ret = ins page_offset
             in Inr (if ret \<in> {- EAGAIN, 0, - ERESTARTSYS, - EBUSY} then VM_FAULT_NOPAGE
                     else if ret = - ENOMEM then VM_FAULT_OOM else VM_FAULT_SIGBUS))"

section \<open>Mapping\<close>

text \<open>
  The buffer of an exporter: first through the objects of \<^verbatim>\<open>xe\<close> that have no mapping of their own, then, when that fails,
  in the common way. Each answer is a code and whether the mapping is device memory.
\<close>

definition evdi_dma_buf_vmap_unlocked :: "bool \<Rightarrow> int \<times> bool \<Rightarrow> int \<times> bool \<Rightarrow> int \<times> bool" where
  "evdi_dma_buf_vmap_unlocked is_xe xe_vmap dma_vmap =
    (if is_xe \<and> fst xe_vmap = 0 then xe_vmap else dma_vmap)"

text \<open>\<open>dma\<close> is the outcome of that mapping, \<open>got\<close> that of getting the pages, \<open>vmap\<close> whether \<^verbatim>\<open>vmap\<close> succeeds.\<close>

definition evdi_gem_vmap :: "int \<times> bool \<Rightarrow> int \<Rightarrow> bool \<Rightarrow> bow \<Rightarrow> c_error + (int \<times> bow)" where
  "evdi_gem_vmap dma got vmap = (\<lambda>(obj, k).
    (let page_count = gem_page_count (base_size obj)
     in if evdi_drm_gem_object_use_import_attach obj then
          Inr (if fst dma \<noteq> 0 then (- ENOMEM, obj, k)
               else (0, obj\<lparr>bo_vmapping := Some (DmaMap (snd dma))\<rparr>, k\<lparr>dma_maps := dma_maps k + 1\<rparr>))
        else
          let (ret, obj, k) = evdi_pin_pages got (obj, k)
          in if ret \<noteq> 0 then Inr (ret, obj, k)
             else case bo_pages obj of
                 None \<Rightarrow> Inl NullDeref
               | Some n \<Rightarrow>
                   if n < page_count then Inl OutOfBounds
                   else Inr (if vmap then (0, obj\<lparr>bo_vmapping := Some (PageMap page_count)\<rparr>, k\<lparr>page_maps := page_maps k + 1\<rparr>)
                             else (- ENOMEM, obj\<lparr>bo_vmapping := None\<rparr>, k))))"

definition evdi_gem_vunmap :: "bow \<Rightarrow> c_error + bow" where
  "evdi_gem_vunmap = (\<lambda>(obj, k).
    (if evdi_drm_gem_object_use_import_attach obj
     then Inr (obj\<lparr>bo_vmapping := None\<rparr>, k\<lparr>dma_maps := dma_maps k - 1\<rparr>)
     else
       let (obj, k) = (if bo_vmapping obj \<noteq> None then (obj\<lparr>bo_vmapping := None\<rparr>, k\<lparr>page_maps := page_maps k - 1\<rparr>)
                       else (obj, k))
       in evdi_unpin_pages (obj, k)))"

definition evdi_gem_free_object :: "bow \<Rightarrow> c_error + gem_kernel" where
  "evdi_gem_free_object = (\<lambda>(obj, k).
    ebind (if bo_vmapping obj \<noteq> None then evdi_gem_vunmap (obj, k) else Inr (obj, k)) (\<lambda>(obj, k).
    let k = (if bo_import obj \<noteq> None then k\<lparr>imports_held := imports_held k - 1\<rparr> else k)
    in ebind (if bo_pages obj \<noteq> None then evdi_gem_put_pages (obj, k) else Inr (obj, k)) (\<lambda>(obj, k).
       Inr (k\<lparr>objects_live := objects_live k - 1\<rparr>))))"

text \<open>
  The offset under which a client maps the object. The pin of every call is kept: the pages must stay while
  the client has them mapped.
\<close>

definition evdi_gem_mmap :: "int \<Rightarrow> int \<Rightarrow> bow option \<Rightarrow> int \<times> bow option" where
  "evdi_gem_mmap got create_offset found =
    (case found of None \<Rightarrow> (- ENOENT, None)
     | Some ok \<Rightarrow>
        let (ret, obj, k) = evdi_pin_pages got ok
        in if ret \<noteq> 0 then (ret, Some (obj, k))
           else if bo_import obj \<noteq> None then (- EINVAL, Some (obj, k))
           else if create_offset \<noteq> 0 then (create_offset, Some (obj, k))
           else (0, Some (obj\<lparr>mmap_offset := True\<rparr>, k)))"

section \<open>Sharing with other drivers\<close>

definition evdi_get_sg_table_pages_num :: "ptr list \<Rightarrow> nat" where
  "evdi_get_sg_table_pages_num sg = length sg"

text \<open>
  Both branches of the choice of \<^verbatim>\<open>npages\<close> are the number of pages of the table. A failed allocation of the object
  is NULL, which is no error pointer. The core attaches the import after this function has returned.
\<close>

definition import_pages :: "nat \<Rightarrow> nat \<Rightarrow> nat" where
  "import_pages npages npages_sg = (if npages < npages_sg then npages_sg else npages_sg)"

definition evdi_prime_import_sg_table ::
    "bool \<Rightarrow> bool \<Rightarrow> bool \<Rightarrow> bool \<Rightarrow> nat \<Rightarrow> ptr list \<Rightarrow> gem_kernel \<Rightarrow> c_error + (gem_bo option \<times> gem_kernel)" where
  "evdi_prime_import_sg_table alloc init_ok array_ok by_mutter sz sg k =
    (case evdi_gem_alloc_object alloc init_ok sz k of
       (None, k) \<Rightarrow> Inl NullDeref
     | (Some obj, k) \<Rightarrow>
        let npages = import_pages (gem_page_count sz) (evdi_get_sg_table_pages_num sg)
        in if \<not> array_ok then ebind (evdi_gem_free_object (obj, k)) (\<lambda>k. Inr (None, k))
           else Inr (Some (obj\<lparr>bo_pages := Some npages, bo_sg := True, allow_sw_cursor_rect_updates := by_mutter\<rparr>),
                     k\<lparr>arrays_held := arrays_held k + 1\<rparr>))"

definition attach_import :: "string option \<Rightarrow> bow \<Rightarrow> bow" where
  "attach_import owner = (\<lambda>(obj, k). (obj\<lparr>bo_import := Some owner\<rparr>, k\<lparr>imports_held := imports_held k + 1\<rparr>))"

text \<open>\<^verbatim>\<open>drm_prime_pages_to_sg\<close> reads an entry of the array per page of the object.\<close>

definition evdi_prime_get_sg_table :: "gem_bo \<Rightarrow> c_error + nat" where
  "evdi_prime_get_sg_table obj =
    (let n = base_size obj div PAGE_SIZE
     in case bo_pages obj of None \<Rightarrow> if n = 0 then Inr 0 else Inl NullDeref
        | Some m \<Rightarrow> if m < n then Inl OutOfBounds else Inr n)"

section \<open>The life of an object\<close>

text \<open>
  An object with what the kernel holds for it, the pins of other drivers that they will return, and the pins that
  nobody returns: those of \<^verbatim>\<open>evdi_gem_mmap\<close> and of a mapping that failed after its pin. As the callers do it,
  an object is mapped only when it is not, and unmapped only when it is; there are fewer than \<open>2 ^ 32 - 1\<close> pins. The
  core refuses to get shared-memory pages for an import.
\<close>

type_synonym gem_life = "gem_bo \<times> gem_kernel \<times> nat \<times> nat"

definition gem_kernel_zero :: gem_kernel where
  "gem_kernel_zero = \<lparr>pages_held = 0, arrays_held = 0, page_maps = 0, dma_maps = 0, imports_held = 0, objects_live = 0\<rparr>"

definition new_pin :: "gem_bo \<Rightarrow> gem_bo \<Rightarrow> nat" where
  "new_pin obj obj' = (if pages_pin_count obj' = pages_pin_count obj then 0 else 1)"

definition can_pin :: "gem_bo \<Rightarrow> int \<Rightarrow> bool" where
  "can_pin obj got \<longleftrightarrow> unat (pages_pin_count obj) + 1 < 4294967296 \<and> (bo_import obj \<noteq> None \<longrightarrow> got \<noteq> 0)"

inductive gem_step :: "gem_life \<Rightarrow> c_error + gem_life \<Rightarrow> bool" where
  pin: "can_pin obj got \<Longrightarrow> evdi_prime_pin got (obj, k) = (ret, obj', k') \<Longrightarrow>
    gem_step (obj, k, p, q) (Inr (obj', k', if ret = 0 then p + 1 else p, q))"
| unpin: "0 < p \<Longrightarrow> gem_step (obj, k, p, q) (ebind (evdi_prime_unpin (obj, k)) (\<lambda>(obj', k'). Inr (obj', k', p - 1, q)))"
| vmap: "bo_vmapping obj = None \<Longrightarrow> can_pin obj got \<Longrightarrow>
    gem_step (obj, k, p, q) (ebind (evdi_gem_vmap dma got ok (obj, k)) (\<lambda>(ret, obj', k').
      Inr (obj', k', p, if ret = 0 then q else q + new_pin obj obj')))"
| vunmap: "bo_vmapping obj \<noteq> None \<Longrightarrow>
    gem_step (obj, k, p, q) (ebind (evdi_gem_vunmap (obj, k)) (\<lambda>(obj', k'). Inr (obj', k', p, q)))"
| mmap: "can_pin obj got \<Longrightarrow> evdi_gem_mmap got co (Some (obj, k)) = (ret, Some (obj', k')) \<Longrightarrow>
    gem_step (obj, k, p, q) (Inr (obj', k', p, q + new_pin obj obj'))"

inductive gem_start :: "gem_life \<Rightarrow> bool" where
  native: "evdi_gem_alloc_object True True (n * PAGE_SIZE) gem_kernel_zero = (Some obj, k) \<Longrightarrow> gem_start (obj, k, 0, 0)"
| imported: "evdi_prime_import_sg_table True True True mutter (n * PAGE_SIZE) sg gem_kernel_zero = Inr (Some obj, k) \<Longrightarrow>
    n \<le> length sg \<Longrightarrow> attach_import owner (obj, k) = (obj', k') \<Longrightarrow> gem_start (obj', k', 0, 0)"

abbreviation gem_reach :: "gem_life \<Rightarrow> bool" where
  "gem_reach \<equiv> runs gem_start gem_step"

definition page_mapped :: "gem_bo \<Rightarrow> nat" where
  "page_mapped obj = (case bo_vmapping obj of Some (PageMap _) \<Rightarrow> 1 | _ \<Rightarrow> 0)"

definition dma_mapped :: "gem_bo \<Rightarrow> nat" where
  "dma_mapped obj = (case bo_vmapping obj of Some (DmaMap _) \<Rightarrow> 1 | _ \<Rightarrow> 0)"

definition gem_inv :: "gem_life \<Rightarrow> bool" where
  "gem_inv = (\<lambda>(obj, k, p, q).
    unat (pages_pin_count obj) = p + q + page_mapped obj \<and>
    base_size obj mod PAGE_SIZE = 0 \<and>
    (bo_import obj = None \<longrightarrow> bo_pages obj = (if pages_pin_count obj = 0 then None else Some (base_size obj div PAGE_SIZE)) \<and>
       pages_held k = (if pages_pin_count obj = 0 then 0 else 1) \<and> arrays_held k = 0 \<and> imports_held k = 0) \<and>
    (bo_import obj \<noteq> None \<longrightarrow> arrays_held k = (if bo_pages obj = None then 0 else 1) \<and> pages_held k = 0 \<and> imports_held k = 1 \<and>
       (pages_pin_count obj \<noteq> 0 \<longrightarrow> bo_pages obj \<noteq> None) \<and> (\<forall>n. bo_pages obj = Some n \<longrightarrow> base_size obj div PAGE_SIZE \<le> n)) \<and>
    (if evdi_drm_gem_object_use_import_attach obj then page_mapped obj = 0 else dma_mapped obj = 0) \<and>
    page_maps k = int (page_mapped obj) \<and> dma_maps k = int (dma_mapped obj) \<and> objects_live k = 1)"

lemma gem_frame [simp]:
  "page_mapped (obj\<lparr>pages_pin_count := c\<rparr>) = page_mapped obj" "page_mapped (obj\<lparr>bo_pages := n\<rparr>) = page_mapped obj"
  "page_mapped (obj\<lparr>mmap_offset := b\<rparr>) = page_mapped obj" "dma_mapped (obj\<lparr>mmap_offset := b\<rparr>) = dma_mapped obj"
  "dma_mapped (obj\<lparr>pages_pin_count := c\<rparr>) = dma_mapped obj" "dma_mapped (obj\<lparr>bo_pages := n\<rparr>) = dma_mapped obj"
  "evdi_drm_gem_object_use_import_attach (obj\<lparr>pages_pin_count := c\<rparr>) = evdi_drm_gem_object_use_import_attach obj"
  "evdi_drm_gem_object_use_import_attach (obj\<lparr>bo_pages := n\<rparr>) = evdi_drm_gem_object_use_import_attach obj"
  "evdi_drm_gem_object_use_import_attach (obj\<lparr>mmap_offset := b\<rparr>) = evdi_drm_gem_object_use_import_attach obj"
  "evdi_drm_gem_object_use_import_attach (obj\<lparr>bo_vmapping := v\<rparr>) = evdi_drm_gem_object_use_import_attach obj"
  "page_mapped (obj\<lparr>bo_vmapping := v\<rparr>) = (case v of Some (PageMap _) \<Rightarrow> 1 | _ \<Rightarrow> 0)"
  "dma_mapped (obj\<lparr>bo_vmapping := v\<rparr>) = (case v of Some (DmaMap _) \<Rightarrow> 1 | _ \<Rightarrow> 0)"
  by (simp_all add: page_mapped_def dma_mapped_def evdi_drm_gem_object_use_import_attach_def)

lemma unmapped [simp]: "bo_vmapping obj = None \<Longrightarrow> page_mapped obj = 0" "bo_vmapping obj = None \<Longrightarrow> dma_mapped obj = 0"
  by (simp_all add: page_mapped_def dma_mapped_def)

lemma pins_up: "unat (c :: u32) + 1 < 4294967296 \<Longrightarrow> unat (c + 1) = unat c + 1"
  using unat_add_no_wrap [of c 1] by simp

lemma pins_down: "(c :: u32) \<noteq> 0 \<Longrightarrow> unat (c - 1) = unat c - 1"
  by (simp add: unat_minus_one)

lemma page_count_exact: "sz mod PAGE_SIZE = 0 \<Longrightarrow> gem_page_count sz = sz div PAGE_SIZE"
  by (auto simp: gem_page_count_def PAGE_SIZE_def elim!: dvdE simp: mod_eq_0_iff_dvd)

lemma new_pin_simps [simp]: "new_pin obj obj = 0"
  by (simp add: new_pin_def)

text \<open>A pin, whatever it is for.\<close>

lemma pin_cases:
  assumes "evdi_pin_pages got (obj, k) = (ret, obj', k')" "unat (pages_pin_count obj) + 1 < 4294967296"
  obtains (fails) "pages_pin_count obj = 0" "bo_pages obj = None" "ret = got" "got \<noteq> 0" "obj' = obj" "k' = k"
  | (gets) "pages_pin_count obj = 0" "bo_pages obj = None" "ret = 0" "got = 0"
      "obj' = obj\<lparr>pages_pin_count := pages_pin_count obj + 1, bo_pages := Some (base_size obj div PAGE_SIZE)\<rparr>"
      "k' = k\<lparr>pages_held := pages_held k + 1\<rparr>"
  | (has) "pages_pin_count obj \<noteq> 0 \<or> bo_pages obj \<noteq> None" "ret = 0" "obj' = obj\<lparr>pages_pin_count := pages_pin_count obj + 1\<rparr>" "k' = k"
proof (cases "pages_pin_count obj = 0 \<and> bo_pages obj = None")
  case True
  then show thesis
    using assms fails gets by (cases "got = 0") (auto simp: evdi_pin_pages_def evdi_gem_get_pages_def Let_def)
next
  case False
  then show thesis using assms has by (auto simp: evdi_pin_pages_def evdi_gem_get_pages_def Let_def split: if_splits)
qed

lemma pin_inv:
  assumes "gem_inv (obj, k, p, q)" "can_pin obj got" "evdi_pin_pages got (obj, k) = (ret, obj', k')"
  shows "if ret = 0 then gem_inv (obj', k', p + 1, q) \<and> gem_inv (obj', k', p, q + 1) \<and> bo_pages obj' \<noteq> None \<and>
      pages_pin_count obj' = pages_pin_count obj + 1 \<and> obj' = obj\<lparr>bo_pages := bo_pages obj', pages_pin_count := pages_pin_count obj'\<rparr>
    else obj' = obj \<and> k' = k"
proof -
  have lim: "unat (pages_pin_count obj) + 1 < 4294967296" using assms(2) by (simp add: can_pin_def)
  then have up: "unat (pages_pin_count obj + 1) = unat (pages_pin_count obj) + 1" by (rule pins_up)
  then have nz: "pages_pin_count obj + 1 \<noteq> 0" by (metis Suc_eq_plus1 Zero_not_Suc unsigned_0)
  show ?thesis
  proof (cases rule: pin_cases [OF assms(3) lim])
    case 1
    then show ?thesis by simp
  next
    case 2
    then have "bo_import obj = None" using assms(2) by (auto simp: can_pin_def)
    then show ?thesis
      using 2 assms(1) up nz
      by (simp add: gem_inv_def)
  next
    case 3
    have ok: "bo_pages obj \<noteq> None" using 3(1) assms(1) by (auto simp: gem_inv_def split: if_splits)
    then have "bo_import obj = None \<Longrightarrow> pages_pin_count obj \<noteq> 0" using assms(1) by (auto simp: gem_inv_def split: if_splits)
    then show ?thesis
      using 3 assms(1) up nz ok
      by (cases "bo_import obj")
         (simp_all add: gem_inv_def)
  qed
qed

lemma unpin_inv:
  assumes "gem_inv (obj, k, p, q)" "0 < p"
  shows "\<exists>obj' k'. evdi_unpin_pages (obj, k) = Inr (obj', k') \<and> gem_inv (obj', k', p - 1, q) \<and>
    bo_vmapping obj' = bo_vmapping obj \<and> bo_import obj' = bo_import obj"
proof -
  have c: "pages_pin_count obj \<noteq> 0" using assms by (auto simp: gem_inv_def)
  then have u: "unat (pages_pin_count obj - 1) = p - 1 + q + page_mapped obj"
    using assms pins_down [OF c] by (auto simp: gem_inv_def)
  show ?thesis
    using assms(1) c u
    by (cases "bo_import obj"; cases "pages_pin_count obj - 1 = 0")
       (auto simp: gem_inv_def evdi_unpin_pages_def evdi_gem_put_pages_def Let_def)
qed

text \<open>The mapping of its own pages counts as a pin.\<close>

lemma vmap_inv:
  assumes "gem_inv (obj, k, p, q)" "bo_vmapping obj = None" "can_pin obj got"
  shows "\<exists>ret obj' k'. evdi_gem_vmap dma got ok (obj, k) = Inr (ret, obj', k') \<and>
    gem_inv (obj', k', p, if ret = 0 then q else q + new_pin obj obj')"
proof (cases "evdi_drm_gem_object_use_import_attach obj")
  case True
  then show ?thesis
    using assms by (auto simp: evdi_gem_vmap_def Let_def gem_inv_def ENOMEM_def)
next
  case use: False
  obtain ret obj1 k1 where pin: "evdi_pin_pages got (obj, k) = (ret, obj1, k1)" by (metis surj_pair)
  note inv = pin_inv [OF assms(1,3) pin]
  show ?thesis
  proof (cases "ret = 0")
    case False
    then show ?thesis using use inv pin assms(1) by (simp add: evdi_gem_vmap_def Let_def)
  next
    case True
    then obtain n where n: "bo_pages obj1 = Some n"
      and i1: "gem_inv (obj1, k1, p, q + 1)" and e: "obj1 = obj\<lparr>bo_pages := bo_pages obj1, pages_pin_count := pages_pin_count obj1\<rparr>"
      and c: "pages_pin_count obj1 = pages_pin_count obj + 1" using inv by auto
    have f: "base_size obj1 = base_size obj" "bo_vmapping obj1 = None" "\<not> evdi_drm_gem_object_use_import_attach obj1"
      by (subst e; use use assms(2) in simp)+
    have "gem_page_count (base_size obj1) \<le> n"
      using i1 n by (cases "bo_import obj1 = None") (auto simp: gem_inv_def page_count_exact split: if_splits)
    then have r: "evdi_gem_vmap dma got ok (obj, k) =
        Inr (if ok then (0, obj1\<lparr>bo_vmapping := Some (PageMap (gem_page_count (base_size obj)))\<rparr>, k1\<lparr>page_maps := page_maps k1 + 1\<rparr>)
             else (- ENOMEM, obj1\<lparr>bo_vmapping := None\<rparr>, k1))"
      using use pin True n f by (simp add: evdi_gem_vmap_def Let_def)
    show ?thesis
    proof (cases ok)
      case True
      then show ?thesis unfolding r using i1 f by (simp add: gem_inv_def)
    next
      case False
      have "obj1\<lparr>bo_vmapping := None\<rparr> = obj1" using f(2) by (cases obj1) simp
      then show ?thesis unfolding r using False i1 c by (simp add: new_pin_def ENOMEM_def)
    qed
  qed
qed

lemma vunmap_inv:
  assumes "gem_inv (obj, k, p, q)" "bo_vmapping obj \<noteq> None"
  shows "\<exists>obj' k'. evdi_gem_vunmap (obj, k) = Inr (obj', k') \<and> gem_inv (obj', k', p, q) \<and> bo_vmapping obj' = None \<and>
    bo_import obj' = bo_import obj"
proof (cases "evdi_drm_gem_object_use_import_attach obj")
  case True
  then obtain b where "bo_vmapping obj = Some (DmaMap b)"
    using assms by (auto simp: gem_inv_def page_mapped_def split: option.splits kmapping.splits)
  then show ?thesis using True assms(1) by (auto simp: evdi_gem_vunmap_def gem_inv_def dma_mapped_def)
next
  case False
  then obtain n where n: "bo_vmapping obj = Some (PageMap n)"
    using assms by (auto simp: gem_inv_def dma_mapped_def split: option.splits kmapping.splits)
  let ?obj = "obj\<lparr>bo_vmapping := None\<rparr>" and ?k = "k\<lparr>page_maps := page_maps k - 1\<rparr>"
  have "gem_inv (?obj, ?k, p + 1, q)" using False assms(1) n by (simp add: gem_inv_def page_mapped_def)
  from unpin_inv [OF this] show ?thesis using False n by (auto simp: evdi_gem_vunmap_def)
qed

lemma mmap_inv:
  assumes "gem_inv (obj, k, p, q)" "can_pin obj got" "evdi_gem_mmap got co (Some (obj, k)) = (ret, Some (obj', k'))"
  shows "gem_inv (obj', k', p, q + new_pin obj obj')"
proof -
  obtain r obj1 k1 where pin: "evdi_pin_pages got (obj, k) = (r, obj1, k1)" by (metis surj_pair)
  note i1 = pin_inv [OF assms(1,2) pin]
  show ?thesis
  proof (cases "r = 0")
    case False
    then show ?thesis using assms(1,3) pin i1 by (simp add: evdi_gem_mmap_def)
  next
    case True
    then have i: "gem_inv (obj1, k1, p, q + 1)" and c: "pages_pin_count obj1 = pages_pin_count obj + 1" using i1 by auto
    have m: "gem_inv (obj1\<lparr>mmap_offset := b\<rparr>, k1, p, q + 1)" for b using i by (simp add: gem_inv_def)
    have "obj' = obj1 \<or> obj' = obj1\<lparr>mmap_offset := True\<rparr>" "k' = k1"
      using assms(3) pin True by (simp_all add: evdi_gem_mmap_def split: if_splits)
    then show ?thesis using i m c by (elim disjE) (simp_all add: new_pin_def)
  qed
qed

text \<open>One lemma per rule makes the whole of the step relation.\<close>

lemma step_keeps:
  assumes "gem_step s r" "gem_inv s"
  shows "\<exists>s'. r = Inr s' \<and> gem_inv s'"
  using assms
proof (induction rule: gem_step.induct)
  case (pin obj got k ret obj' k' p q)
  note i = pin_inv [OF pin(3,1) pin(2) [unfolded evdi_prime_pin_def]]
  show ?case using i pin(3) by (cases "ret = 0") (simp_all del: split_paired_Ex)
next
  case (unpin p obj k q)
  obtain obj' k' where "evdi_unpin_pages (obj, k) = Inr (obj', k')" "gem_inv (obj', k', p - 1, q)"
    using unpin_inv [OF unpin(2,1)] by blast
  then show ?case by (simp add: evdi_prime_unpin_def del: split_paired_Ex)
next
  case (vmap obj got k p q dma ok)
  obtain ret obj' k' where "evdi_gem_vmap dma got ok (obj, k) = Inr (ret, obj', k')"
    "gem_inv (obj', k', p, if ret = 0 then q else q + new_pin obj obj')"
    using vmap_inv [OF vmap(3,1,2)] by blast
  then show ?case by (simp del: split_paired_Ex)
next
  case (vunmap obj k p q)
  obtain obj' k' where "evdi_gem_vunmap (obj, k) = Inr (obj', k')" "gem_inv (obj', k', p, q)"
    using vunmap_inv [OF vunmap(2,1)] by blast
  then show ?case by (simp del: split_paired_Ex)
next
  case (mmap obj got co k ret obj' k' p q)
  show ?case using mmap_inv [OF mmap(3,1,2)] by (simp del: split_paired_Ex)
qed

lemma start_gem_inv: "gem_start s \<Longrightarrow> gem_inv s"
proof (induction rule: gem_start.induct)
  case (native n obj k)
  then show ?case
    by (auto simp: evdi_gem_alloc_object_def gem_inv_def gem_kernel_zero_def evdi_drm_gem_object_use_import_attach_def)
next
  case (imported mutter n sg obj k owner obj' k')
  then show ?case
    by (auto simp: evdi_prime_import_sg_table_def evdi_gem_alloc_object_def gem_inv_def gem_kernel_zero_def attach_import_def
        import_pages_def evdi_get_sg_table_pages_num_def PAGE_SIZE_def page_mapped_def dma_mapped_def Let_def)
qed

interpretation bo: never_faults gem_start gem_step gem_inv
  by unfold_locales (auto intro: start_gem_inv step_keeps simp del: split_paired_Ex)

lemma gem_kernel_eqI:
  "pages_held k = 0 \<Longrightarrow> arrays_held k = 0 \<Longrightarrow> page_maps k = 0 \<Longrightarrow> dma_maps k = 0 \<Longrightarrow> imports_held k = 0 \<Longrightarrow> objects_live k = 0 \<Longrightarrow>
    k = gem_kernel_zero"
  by (cases k) (simp add: gem_kernel_zero_def)

lemma free_unmapped:
  assumes "gem_inv (obj, k, p, q)" "bo_vmapping obj = None"
  shows "evdi_gem_free_object (obj, k) = Inr gem_kernel_zero"
proof (cases "bo_import obj")
  case None
  then show ?thesis using assms
    by (auto simp: gem_inv_def evdi_gem_free_object_def evdi_gem_put_pages_def Let_def intro!: gem_kernel_eqI split: if_splits)
next
  case (Some owner)
  then show ?thesis using assms
    by (cases "bo_pages obj")
       (auto simp: gem_inv_def evdi_gem_free_object_def evdi_gem_put_pages_def Let_def intro!: gem_kernel_eqI)
qed

lemma free_inv:
  assumes "gem_inv (obj, k, p, q)"
  shows "evdi_gem_free_object (obj, k) = Inr gem_kernel_zero"
proof (cases "bo_vmapping obj")
  case None
  then show ?thesis using free_unmapped [OF assms] by simp
next
  case (Some v)
  then obtain obj' k' where u: "evdi_gem_vunmap (obj, k) = Inr (obj', k')" "gem_inv (obj', k', p, q)" "bo_vmapping obj' = None"
    using vunmap_inv [OF assms] by auto
  have "evdi_gem_free_object (obj, k) = evdi_gem_free_object (obj', k')"
    using Some u(1,3) by (simp add: evdi_gem_free_object_def)
  then show ?thesis using free_unmapped [OF u(2,3)] by simp
qed

section \<open>Properties\<close>



section \<open>Dumb buffers\<close>

lemma and_not_mask: "(x :: int) AND NOT (mask n) = x - x mod 2 ^ n"
proof -
  have "x - take_bit n x = x AND NOT (take_bit n x)" by (rule disjunctive_diff) (simp add: bit_simps)
  also have "\<dots> = x AND NOT (mask n)" by (rule bit_eqI) (auto simp: bit_simps)
  finally show ?thesis by (simp add: take_bit_eq_mod)
qed

text \<open>The pixels of a row are rounded up to a multiple of \<open>pitch_mask + 1\<close>.\<close>

lemma aligned_width:
  assumes "cpp \<in> {1, 2, 3, 4}" "0 \<le> (w :: int)"
  shows "w \<le> (w + pitch_mask cpp) AND NOT (pitch_mask cpp)" "((w + pitch_mask cpp) AND NOT (pitch_mask cpp)) * cpp < w * cpp + 256"
    "(w + pitch_mask cpp) AND NOT (pitch_mask cpp) \<le> w + 255"
proof -
  have m: "pitch_mask cpp = mask (if cpp = 1 then 8 else if cpp = 2 then 7 else 6)"
    using assms(1) by (auto simp: pitch_mask_def mask_eq_exp_minus_1)
  show "w \<le> (w + pitch_mask cpp) AND NOT (pitch_mask cpp)" "((w + pitch_mask cpp) AND NOT (pitch_mask cpp)) * cpp < w * cpp + 256"
    "(w + pitch_mask cpp) AND NOT (pitch_mask cpp) \<le> w + 255"
    using assms unfolding m and_not_mask by (auto simp: mask_eq_exp_minus_1)
qed

lemma sint_unat_32: "unat (v :: u32) < 2147483648 \<Longrightarrow> sint v = int (unat v)"
  using sint_of_nat_32 [of "unat v"] by simp

lemma roundup_page_unat:
  assumes "unat sz < 4294967296"
  shows "unat (roundup_page sz) = (unat sz + 4095) div 4096 * 4096"
proof -
  have a: "unat (sz + 4095) = unat sz + 4095" using unat_add_no_wrap [of sz 4095] assms by simp
  have "unat ((sz + 4095) div 4096) = (unat sz + 4095) div 4096" by (simp add: word_div_unat a)
  moreover have "(unat sz + 4095) div 4096 * 4096 < 2 ^ 64" using assms by (simp add: div_less_iff_less_mult le_less_trans [of _ 4294971391])
  ultimately show ?thesis unfolding roundup_page_def using unat_mult_no_wrap [of "(sz + 4095) div 4096" 4096] by simp
qed

lemma create_outcome:
  assumes "evdi_gem_create alloc init_ok mutter hc sz k = (ret, h, ob, k')"
  shows "ret \<noteq> 0 \<Longrightarrow> ob = None \<and> k' = k"
    "ret = 0 \<Longrightarrow> \<exists>obj. ob = Some obj \<and> objects_live k' = objects_live k + 1 \<and> base_size obj = unat (roundup_page sz)"
proof -
  define n where "n = unat (roundup_page sz)"
  obtain r hd where hc: "hc = (r, hd)" by (metis surj_pair)
  let ?obj = "\<lparr>base_size = n, bo_pages = None, pages_pin_count = 0, bo_vmapping = None, bo_import = None,
    bo_sg = False, mmap_offset = False, allow_sw_cursor_rect_updates = mutter\<rparr>"
  have e: "evdi_gem_create alloc init_ok mutter hc sz k =
      (if \<not> alloc \<or> \<not> init_ok then (- ENOMEM, None, None, k) else if r \<noteq> 0 then (r, None, None, k)
       else (0, Some hd, Some ?obj, k\<lparr>objects_live := objects_live k + 1\<rparr>))"
    by (simp add: evdi_gem_create_def evdi_gem_alloc_object_def n_def [symmetric] hc)
  show "ret \<noteq> 0 \<Longrightarrow> ob = None \<and> k' = k" using assms unfolding e by (simp split: if_splits)
  show "\<exists>obj. ob = Some obj \<and> objects_live k' = objects_live k + 1 \<and> base_size obj = unat (roundup_page sz)" if "ret = 0"
  proof -
    have "ob = Some ?obj" "k' = k\<lparr>objects_live := objects_live k + 1\<rparr>"
      using assms that unfolding e by (simp_all add: ENOMEM_def split: if_splits)
    then show ?thesis by (intro exI [of _ ?obj]) (simp add: n_def)
  qed
qed

lemma rounded_wrap: "(f :: nat) \<le> (f mod 4294967296 + 4095) div 4096 * 4096 \<longleftrightarrow> f < 4294967296"
proof (cases "f < 4294967296")
  case True
  then show ?thesis using ceil_div_mult_ge [of 4096 f] by simp
next
  case False
  have "(f mod 4294967296 + 4095) div 4096 * 4096 \<le> f mod 4294967296 + 4095" by simp
  moreover have "f mod 4294967296 + 4294967296 \<le> f" using False by (simp add: le_mod_geq)
  ultimately show ?thesis using False by linarith
qed

text \<open>
  What a client gets from creating a dumb buffer of at most 32 bits per pixel. The pitch holds a row and is less than 256
  bytes longer; a failure leaves nothing behind; on success the object is of whole pages, and it holds all rows exactly
  when their bytes are fewer than \<open>2 ^ 32\<close>: beyond that the size wraps in 32 bits, and the object is smaller
  than the frame it was asked for, so that no framebuffer can be made of it.
\<close>

theorem dumb_create_size:
  assumes "evdi_dumb_create alloc init_ok mutter hc args k = Some (ret, args', ob, k')"
    and "0 < unat (dumb_bpp args)" "unat (dumb_bpp args) \<le> 32" "unat (dumb_width args) \<le> 268435456"
  shows "unat (dumb_width args) * ((unat (dumb_bpp args) + 7) div 8) \<le> unat (dumb_pitch args') \<and>
    unat (dumb_pitch args') < unat (dumb_width args) * ((unat (dumb_bpp args) + 7) div 8) + 256 \<and>
    (ret \<noteq> 0 \<longrightarrow> ob = None \<and> k' = k) \<and>
    (ret = 0 \<longrightarrow> (\<exists>obj. ob = Some obj \<and> objects_live k' = objects_live k + 1 \<and> base_size obj mod PAGE_SIZE = 0 \<and>
      (unat (dumb_pitch args') * unat (dumb_height args) \<le> base_size obj \<longleftrightarrow>
       unat (dumb_pitch args') * unat (dumb_height args) < 4294967296)))"
proof -
  let ?c = "(unat (dumb_bpp args) + 7) div 8"
  define w where "w = int (unat (dumb_width args))"
  have w: "0 \<le> w" "w \<le> 268435456" using assms(4) unfolding w_def by linarith+
  have bpp: "unat (dumb_bpp args + 7) = unat (dumb_bpp args) + 7" using unat_add_no_wrap [of "dumb_bpp args" 7] assms(3) by simp
  define cpp where "cpp = int ?c"
  have c: "cpp \<in> {1, 2, 3, 4}" using assms(2,3) by (auto simp: cpp_def)
  define aw where "aw = (w + pitch_mask cpp) AND NOT (pitch_mask cpp)"
  have sw: "sint (dumb_width args) = w" using assms(4) unfolding w_def by (intro sint_unat_32) simp
  have "unat ((dumb_bpp args + 7) div 8) = ?c" by (simp only: word_div_unat bpp) simp
  then have sc: "sint ((dumb_bpp args + 7) div 8) = cpp"
    using sint_unat_32 [of "(dumb_bpp args + 7) div 8"] assms(3) unfolding cpp_def by simp
  have al: "w \<le> aw" "aw * cpp < w * cpp + 256" "aw \<le> w + 255"
    using aligned_width [OF c w(1)] unfolding aw_def by simp_all
  have lim: "0 \<le> aw * cpp" "aw * cpp < 2147483648" "w * cpp \<le> aw * cpp"
    using al(1,3) c w by auto
  have m: "0 \<le> pitch_mask cpp" "pitch_mask cpp \<le> 255" by (simp_all add: pitch_mask_def)
  have "evdi_align_pitch w cpp = Some (aw * cpp)"
    using lim m w by (simp add: evdi_align_pitch_def Let_def aw_def [symmetric])
  then obtain h where h: "evdi_gem_create alloc init_ok mutter hc (ucast (word_of_int (aw * cpp) * dumb_height args)) k = (ret, h, ob, k')"
    and p': "dumb_pitch args' = word_of_int (aw * cpp)"
    using assms(1) by (auto simp: evdi_dumb_create_def sw sc Let_def split: prod.splits option.splits)
  have up: "unat (dumb_pitch args') = nat (aw * cpp)"
    unfolding p' using lim uint_of_int_32 [of "aw * cpp"] by (simp add: unat_eq_nat_uint del: nat_uint_eq)
  have pitch: "unat (dumb_width args) * ?c \<le> unat (dumb_pitch args')" "unat (dumb_pitch args') < unat (dumb_width args) * ?c + 256"
    using lim al(2) unfolding up cpp_def w_def by (simp_all add: le_nat_iff nat_less_iff del: int_eq_iff_numeral)
  let ?f = "unat (dumb_pitch args') * unat (dumb_height args)"
  have sz: "unat (ucast (word_of_int (aw * cpp) * dumb_height args) :: u64) = ?f mod 4294967296"
    unfolding p' [symmetric] by (simp add: unat_ucast_up unat_word_ariths)
  define v where "v = (ucast (word_of_int (aw * cpp) * dumb_height args) :: u64)"
  have base: "unat (roundup_page v) = (?f mod 4294967296 + 4095) div 4096 * 4096"
    using sz by (subst roundup_page_unat) (simp_all add: v_def)
  have create: "evdi_gem_create alloc init_ok mutter hc v k = (ret, h, ob, k')" using h unfolding v_def .
  note made = create_outcome [OF create]
  have "unat (roundup_page v) mod PAGE_SIZE = 0" "?f \<le> unat (roundup_page v) \<longleftrightarrow> ?f < 4294967296"
    unfolding base PAGE_SIZE_def by (simp, rule rounded_wrap)
  then show ?thesis using pitch made by metis
qed

theorem dumb_create_size_witness:
  "\<exists>args' obj k'. evdi_dumb_create True True False (0, 1)
      \<lparr>dumb_height = 65536, dumb_width = 16384, dumb_bpp = 32, dumb_handle = 0, dumb_pitch = 0, dumb_size = 0\<rparr> gem_kernel_zero =
      Some (0, args', Some obj, k') \<and> dumb_pitch args' = 65536 \<and> base_size obj < 65536 * 65536"
proof -
  let ?args = "\<lparr>dumb_height = 65536, dumb_width = 16384, dumb_bpp = 32, dumb_handle = 0, dumb_pitch = 0, dumb_size = 0\<rparr> :: drm_mode_create_dumb"
  let ?r = "evdi_dumb_create True True False (0, 1) ?args gem_kernel_zero"
  have al: "evdi_align_pitch 16384 4 = Some 65536"
    by (simp add: evdi_align_pitch_def pitch_mask_def)
  have r: "\<exists>args' obj k'. ?r = Some (0, args', Some obj, k') \<and> dumb_pitch args' = 65536"
    using al by (simp add: evdi_dumb_create_def evdi_gem_create_def evdi_gem_alloc_object_def)
  then obtain args' obj k' where e: "?r = Some (0, args', Some obj, k')" "dumb_pitch args' = 65536" by blast
  then show ?thesis using dumb_create_size [OF e(1)] by (auto simp: not_le)
qed

section \<open>Imports\<close>

text \<open>
  What can go wrong with an imported buffer. An allocation that fails is not noticed and its null pointer is used. The page
  array has an entry per page of the table, even if the buffer claims to be larger: mapping such a buffer (one
  of a driver whose own mapping is not used) reads past the array. And an imported buffer that was mapped through its
  pages can be mapped only once: unmapping it frees its array, and the pages cannot be got again.
\<close>

theorem import_faults:
  "evdi_prime_import_sg_table False init_ok array_ok mutter sz sg k = Inl NullDeref \<and>
   (\<exists>obj k1 obj' k'. evdi_prime_import_sg_table True True True False 8192 [7] gem_kernel_zero = Inr (Some obj, k1) \<and>
      attach_import (Some ''amdgpu'') (obj, k1) = (obj', k') \<and> evdi_gem_vmap dma got ok (obj', k') = Inl OutOfBounds) \<and>
   (\<exists>obj k1 obj' k' obj2 k2 obj3 k3. evdi_prime_import_sg_table True True True False 4096 [7] gem_kernel_zero = Inr (Some obj, k1) \<and>
      attach_import (Some ''amdgpu'') (obj, k1) = (obj', k') \<and> evdi_gem_vmap dma got True (obj', k') = Inr (0, obj2, k2) \<and>
      evdi_gem_vunmap (obj2, k2) = Inr (obj3, k3) \<and> bo_pages obj3 = None \<and>
      evdi_gem_vmap dma (- EINVAL) True (obj3, k3) = Inr (- EINVAL, obj3, k3))"
  by (simp add: evdi_prime_import_sg_table_def evdi_gem_alloc_object_def import_pages_def evdi_get_sg_table_pages_num_def
      attach_import_def evdi_gem_vmap_def gem_page_count_def PAGE_SIZE_def evdi_drm_gem_object_use_import_attach_def
      evdi_pin_pages_def evdi_gem_get_pages_def evdi_gem_vunmap_def evdi_unpin_pages_def evdi_gem_put_pages_def EINVAL_def Let_def)

end
