(* ===== verification/EvdiMapping.thy ===== *)
theory EvdiMapping
  imports EvdiGem
begin

text \<open>
  Two users of the mappings of buffer objects: the choice between the two ways to map the buffer of another driver
  (\<^verbatim>\<open>evdi_dma_buf_vmap_unlocked\<close> and its counterpart in \<^verbatim>\<open>evdi_gem.c\<close>, for kernels from 6.2 on with
  \<^verbatim>\<open>CONFIG_DRM_TTM_HELPER\<close>), and the file of the debugging file system that measures a copy
  (\<^verbatim>\<open>evdi_painter_debugfs_measure_copy_fb\<close> of \<^verbatim>\<open>evdi_painter.c\<close>, for kernels from 6.7 on).
\<close>

section \<open>Mapping the buffer of another driver\<close>

text \<open>
  An exporter: whether it maps through the DRM core, the name of its module, and its object's table of functions, with
  whether that has a function to map.
\<close>

record dma_buf =
  core_vmap :: bool
  owner_name :: "string option"
  priv_funcs :: "bool option"

text \<open>As much of \<^verbatim>\<open>xe\<close> as the name is long is compared, at most both letters.\<close>

definition is_xe_gem_ttm_object_without_vmap :: "dma_buf \<Rightarrow> bool" where
  "is_xe_gem_ttm_object_without_vmap b =
    (if \<not> core_vmap b then False
     else case owner_name b of None \<Rightarrow> False
     | Some name \<Rightarrow>
        (case priv_funcs b of None \<Rightarrow> False
         | Some has_vmap \<Rightarrow>
            let n = min 2 (length name)
            in if take n ''xe'' \<noteq> take n name then False else \<not> has_vmap))"

text \<open>What is mapped through the TTM helper and what by the exporter. An answer is a code and whether it is device memory.\<close>

record dma_accounts =
  by_ttm :: int
  by_exporter :: int

definition dma_buf_vmap_xe_gem_unlocked :: "int \<times> bool \<Rightarrow> dma_accounts \<Rightarrow> (int \<times> bool) \<times> dma_accounts" where
  "dma_buf_vmap_xe_gem_unlocked ttm s = (ttm, if fst ttm = 0 then s\<lparr>by_ttm := by_ttm s + 1\<rparr> else s)"

definition dma_buf_vunmap_xe_gem_unlocked :: "dma_accounts \<Rightarrow> dma_accounts" where
  "dma_buf_vunmap_xe_gem_unlocked s = s\<lparr>by_ttm := by_ttm s - 1\<rparr>"

definition map_by_exporter :: "int \<times> bool \<Rightarrow> dma_accounts \<Rightarrow> (int \<times> bool) \<times> dma_accounts" where
  "map_by_exporter answer s = (answer, if fst answer = 0 then s\<lparr>by_exporter := by_exporter s + 1\<rparr> else s)"

definition vmap_dma_buf :: "dma_buf \<Rightarrow> int \<times> bool \<Rightarrow> int \<times> bool \<Rightarrow> dma_accounts \<Rightarrow> (int \<times> bool) \<times> dma_accounts" where
  "vmap_dma_buf b ttm exporter s =
    (let (r, s) = (if is_xe_gem_ttm_object_without_vmap b then dma_buf_vmap_xe_gem_unlocked ttm s else ((- EINVAL, False), s))
     in if fst r \<noteq> 0 then map_by_exporter exporter s else (r, s))"

definition evdi_dma_buf_vunmap_unlocked :: "dma_buf \<Rightarrow> dma_accounts \<Rightarrow> dma_accounts" where
  "evdi_dma_buf_vunmap_unlocked b s =
    (if is_xe_gem_ttm_object_without_vmap b then dma_buf_vunmap_xe_gem_unlocked s else s\<lparr>by_exporter := by_exporter s - 1\<rparr>)"

text \<open>The outcome is the one the model of the objects uses.\<close>

lemma vmap_dma_buf_outcome:
  "fst (vmap_dma_buf b ttm exporter s) = evdi_dma_buf_vmap_unlocked (is_xe_gem_ttm_object_without_vmap b) ttm exporter"
  by (auto simp: vmap_dma_buf_def evdi_dma_buf_vmap_unlocked_def dma_buf_vmap_xe_gem_unlocked_def map_by_exporter_def EINVAL_def Let_def)

text \<open>
  A mapping is taken down the way it was made, unless the object was taken for one of \<^verbatim>\<open>xe\<close> and its exporter mapped it after the TTM helper
  had failed: then the exporter's mapping stays, and the helper takes down one it never made. With a core that refuses to map an object whose
  table has no function for it, this does not happen.
\<close>

theorem dma_mapping_balanced:
  assumes "vmap_dma_buf b ttm exporter s = ((0, io), s')"
  shows "(evdi_dma_buf_vunmap_unlocked b s' = s \<longleftrightarrow> \<not> is_xe_gem_ttm_object_without_vmap b \<or> fst ttm = 0) \<and>
    ((core_vmap b \<and> priv_funcs b = Some False \<longrightarrow> fst exporter \<noteq> 0) \<longrightarrow> evdi_dma_buf_vunmap_unlocked b s' = s)"
proof -
  have "is_xe_gem_ttm_object_without_vmap b \<Longrightarrow> core_vmap b \<and> priv_funcs b = Some False"
    by (auto simp: is_xe_gem_ttm_object_without_vmap_def Let_def split: if_splits option.splits)
  then show ?thesis
    using assms
    by (cases s) (auto simp: vmap_dma_buf_def evdi_dma_buf_vunmap_unlocked_def dma_buf_vmap_xe_gem_unlocked_def
        dma_buf_vunmap_xe_gem_unlocked_def map_by_exporter_def EINVAL_def Let_def split: if_splits)
qed

theorem dma_mapping_balanced_witness:
  "evdi_dma_buf_vunmap_unlocked \<lparr>core_vmap = True, owner_name = Some ''xe'', priv_funcs = Some False\<rparr> \<lparr>by_ttm = 1, by_exporter = 0\<rparr> =
     \<lparr>by_ttm = 0, by_exporter = 0\<rparr>"
  using dma_mapping_balanced [of "\<lparr>core_vmap = True, owner_name = Some ''xe'', priv_funcs = Some False\<rparr>" "(0, True)" "(- 22, False)"
      "\<lparr>by_ttm = 0, by_exporter = 0\<rparr>" True "\<lparr>by_ttm = 1, by_exporter = 0\<rparr>"]
  by (simp add: vmap_dma_buf_def dma_buf_vmap_xe_gem_unlocked_def is_xe_gem_ttm_object_without_vmap_def Let_def)

section \<open>Measuring a copy\<close>

text \<open>
  \<open>found\<close> is the lookup of the framebuffer, \<open>dst\<close> whether \<^verbatim>\<open>vmalloc\<close> succeeds, the rest what \<^verbatim>\<open>evdi_gem_vmap\<close> is answered. The result is
  the object, what the kernel holds for it and the number of blocks not freed.
\<close>

definition evdi_painter_debugfs_measure_copy_fb ::
    "bool \<Rightarrow> bool \<Rightarrow> int \<times> bool \<Rightarrow> int \<Rightarrow> bool \<Rightarrow> bow \<Rightarrow> c_error + (bow \<times> nat)" where
  "evdi_painter_debugfs_measure_copy_fb found dst dma got vmap ok =
    (if \<not> found then Inr (ok, 0)
     else ebind (evdi_gem_vmap dma got vmap ok) (\<lambda>(ret, obj, k).
       if ret = - ENOMEM \<or> bo_vmapping obj = None then Inr ((obj, k), if dst then 1 else 0)
       else if \<not> dst \<and> 0 < base_size obj then Inl NullDeref
       else ebind (evdi_gem_vunmap (obj, k)) (\<lambda>ok. Inr (ok, 0))))"

lemma measure_mapped:
  assumes "gem_inv (obj, k, p, q)" "can_pin obj got" "bo_vmapping obj = Some (PageMap n)" "dst" "vmap"
  shows "\<exists>obj' k'. evdi_painter_debugfs_measure_copy_fb True dst dma got vmap (obj, k) = Inr ((obj', k'), 0) \<and>
    bo_vmapping obj' = None \<and> page_maps k' = 1 \<and> pages_pin_count obj' = pages_pin_count obj"
proof -
  have use: "\<not> evdi_drm_gem_object_use_import_attach obj" and maps: "page_maps k = 1" and pinned: "pages_pin_count obj \<noteq> 0"
    using assms(1,3) by (auto simp: gem_inv_def page_mapped_def split: if_splits)
  obtain m where m: "bo_pages obj = Some m" "gem_page_count (base_size obj) \<le> m"
    using assms(1) pinned by (cases "bo_import obj = None") (auto simp: gem_inv_def page_count_exact)
  show ?thesis
    using use maps pinned m assms(4,5)
    by (simp add: evdi_painter_debugfs_measure_copy_fb_def evdi_gem_vmap_def evdi_gem_vunmap_def evdi_unpin_pages_def
        evdi_pin_pages_def ENOMEM_def Let_def)
qed

text \<open>
  A measurement of an object that is not mapped leaves the object as consistent as it was, and unmapped; what it allocates is freed unless the mapping fails.
  It faults only when it has no room for the copy. But a measurement of an object that is mapped, as the one on the screen is after a grab, forgets that mapping: the
  object is left without one while the kernel still holds it, and with its pages pinned for good.
\<close>

theorem measure_copy_accounts:
  assumes "gem_inv (obj, k, p, q)" "can_pin obj got"
  shows "(bo_vmapping obj = None \<longrightarrow>
      (case evdi_painter_debugfs_measure_copy_fb True dst dma got vmap (obj, k) of
         Inl e \<Rightarrow> e = NullDeref \<and> \<not> dst
       | Inr ((obj', k'), leaked) \<Rightarrow> bo_vmapping obj' = None \<and> (\<exists>q'\<ge>q. gem_inv (obj', k', p, q')) \<and> leaked \<le> 1)) \<and>
    (\<forall>n. bo_vmapping obj = Some (PageMap n) \<and> dst \<and> vmap \<longrightarrow>
      (\<exists>obj' k'. evdi_painter_debugfs_measure_copy_fb True dst dma got vmap (obj, k) = Inr ((obj', k'), 0) \<and>
        bo_vmapping obj' = None \<and> page_maps k' = 1 \<and> pages_pin_count obj' = pages_pin_count obj))"
proof
  show "bo_vmapping obj = None \<longrightarrow>
      (case evdi_painter_debugfs_measure_copy_fb True dst dma got vmap (obj, k) of
         Inl e \<Rightarrow> e = NullDeref \<and> \<not> dst
       | Inr ((obj', k'), leaked) \<Rightarrow> bo_vmapping obj' = None \<and> (\<exists>q'\<ge>q. gem_inv (obj', k', p, q')) \<and> leaked \<le> 1)"
  proof
    assume none: "bo_vmapping obj = None"
    obtain ret obj1 k1 where v: "evdi_gem_vmap dma got vmap (obj, k) = Inr (ret, obj1, k1)"
      and i: "gem_inv (obj1, k1, p, if ret = 0 then q else q + new_pin obj obj1)"
      using vmap_inv [OF assms(1) none assms(2)] by blast
    have failed: "ret = - ENOMEM \<Longrightarrow> bo_vmapping obj1 = None"
      using v none
      by (auto simp: evdi_gem_vmap_def Let_def ENOMEM_def evdi_pin_pages_def evdi_gem_get_pages_def split: if_splits option.splits)
    show "case evdi_painter_debugfs_measure_copy_fb True dst dma got vmap (obj, k) of
         Inl e \<Rightarrow> e = NullDeref \<and> \<not> dst
       | Inr ((obj', k'), leaked) \<Rightarrow> bo_vmapping obj' = None \<and> (\<exists>q'\<ge>q. gem_inv (obj', k', p, q')) \<and> leaked \<le> 1"
    proof (cases "ret = - ENOMEM \<or> bo_vmapping obj1 = None")
      case True
      then show ?thesis using v i failed
        by (auto simp: evdi_painter_debugfs_measure_copy_fb_def split: if_splits intro: exI [of _ q] exI [of _ "q + new_pin obj obj1"])
    next
      case False
      obtain obj2 k2 where "evdi_gem_vunmap (obj1, k1) = Inr (obj2, k2)"
        "gem_inv (obj2, k2, p, if ret = 0 then q else q + new_pin obj obj1)" "bo_vmapping obj2 = None"
        using vunmap_inv [OF i] False by blast
      then show ?thesis using v False
        by (auto simp: evdi_painter_debugfs_measure_copy_fb_def split: if_splits intro: exI [of _ q] exI [of _ "q + new_pin obj obj1"])
    qed
  qed
next
  show "\<forall>n. bo_vmapping obj = Some (PageMap n) \<and> dst \<and> vmap \<longrightarrow>
      (\<exists>obj' k'. evdi_painter_debugfs_measure_copy_fb True dst dma got vmap (obj, k) = Inr ((obj', k'), 0) \<and>
        bo_vmapping obj' = None \<and> page_maps k' = 1 \<and> pages_pin_count obj' = pages_pin_count obj)"
    using measure_mapped [OF assms] by blast
qed

theorem measure_copy_accounts_witness:
  "\<exists>obj k obj' k'. gem_reach (obj, k, 0, 0) \<and> bo_vmapping obj = Some (PageMap 1) \<and>
    evdi_painter_debugfs_measure_copy_fb True True (0, False) 0 True (obj, k) = Inr ((obj', k'), 0) \<and>
    bo_vmapping obj' = None \<and> page_maps k' = 1"
proof -
  let ?o = "\<lparr>base_size = 4096, bo_pages = None, pages_pin_count = 0, bo_vmapping = None, bo_import = None,
    bo_sg = False, mmap_offset = False, allow_sw_cursor_rect_updates = False\<rparr>"
  let ?k = "gem_kernel_zero\<lparr>objects_live := 1\<rparr>"
  let ?o1 = "?o\<lparr>pages_pin_count := 1, bo_pages := Some 1, bo_vmapping := Some (PageMap 1)\<rparr>"
  let ?k1 = "?k\<lparr>pages_held := 1, page_maps := 1\<rparr>"
  have start: "gem_start (?o, ?k, 0, 0)"
    by (rule gem_start.native [of 1]) (simp add: evdi_gem_alloc_object_def PAGE_SIZE_def gem_kernel_zero_def)
  have "evdi_gem_vmap (0, False) 0 True (?o, ?k) = Inr (0, ?o1, ?k1)"
    by (simp add: evdi_gem_vmap_def evdi_pin_pages_def evdi_gem_get_pages_def gem_page_count_def PAGE_SIZE_def gem_kernel_zero_def
        evdi_drm_gem_object_use_import_attach_def Let_def)
  then have step: "gem_step (?o, ?k, 0, 0) (Inr (?o1, ?k1, 0, 0))"
    using gem_step.vmap [of ?o 0 ?k 0 0 "(0, False)" True] by (simp add: can_pin_def)
  have r: "gem_reach (?o1, ?k1, 0, 0)" by (rule runs.goes [where steps = gem_step, OF runs.begins step], rule start)
  have inv: "gem_inv (?o1, ?k1, 0, 0)" by (rule bo.runs_inv [OF r])
  have pin: "can_pin ?o1 0" by (simp add: can_pin_def)
  obtain obj' k' where "evdi_painter_debugfs_measure_copy_fb True True (0, False) 0 True (?o1, ?k1) = Inr ((obj', k'), 0)"
    "bo_vmapping obj' = None" "page_maps k' = 1"
    using measure_copy_accounts [OF inv pin, of True "(0, False)" True] by auto
  then show ?thesis using r by (intro exI [of _ ?o1] exI [of _ ?k1] exI [of _ obj'] exI [of _ k'] conjI) simp_all
qed

end
