(* ===== verification/EvdiFbUser.thy ===== *)
theory EvdiFbUser
  imports EvdiMapping Machines
begin

text \<open>
  The life of the framebuffers of the compositor (\<^verbatim>\<open>evdi_fb.c\<close>): creation step by step, with the references on the buffer object, the structure and
  its registration with the DRM core; handles; destruction by the core. The framebuffers of a device and their objects are a
  machine that never faults: no step follows a freed structure, and an object lives as long as a framebuffer shows it.
\<close>

section \<open>Framebuffers and objects\<close>

text \<open>
  \<open>obj_refs\<close> counts the references on every buffer object; \<open>fbs\<close> are the allocated structures, each with the object it points to,
  if any; \<open>registered\<close> are those the core knows.
\<close>

record fb_world =
  obj_refs :: refs
  fbs :: "nat \<Rightarrow> nat option option"
  registered :: "nat set"

text \<open>The core's table of formats, as far as it is used: the bytes of a pixel in the first plane.\<close>

type_synonym format_table = "u32 \<Rightarrow> u8 option"

definition evdi_fb_get_bpp :: "format_table \<Rightarrow> u32 \<Rightarrow> int" where
  "evdi_fb_get_bpp info format = (case info format of None \<Rightarrow> 0 | Some cpp \<Rightarrow> uint cpp * 8)"

text \<open>A buffer of another driver counts as one of \<^verbatim>\<open>xe\<close> by the first letters of the name of its module.\<close>

definition is_xe_gem :: "dma_buf option \<Rightarrow> bool" where
  "is_xe_gem dmabuf =
    (case dmabuf of None \<Rightarrow> False
     | Some b \<Rightarrow>
         if \<not> core_vmap b then False
         else case owner_name b of None \<Rightarrow> False
         | Some name \<Rightarrow>
             if priv_funcs b = None then False
             else let n = min 2 (length name) in take n ''xe'' = take n name)"

text \<open>\<open>code\<close> is the answer of \<^verbatim>\<open>drm_framebuffer_init\<close>, which registers the structure when it is 0.\<close>

definition evdi_framebuffer_init ::
    "format_table \<Rightarrow> mode_fb_cmd2 \<Rightarrow> evdi_gem_object \<Rightarrow> int \<Rightarrow> evdi_framebuffer \<Rightarrow> fb_world \<Rightarrow> int \<times> evdi_framebuffer \<times> fb_world" where
  "evdi_framebuffer_init info mode_cmd obj code efb w =
    (let efb = efb\<lparr>fb_obj := obj\<rparr>;
         efb = efb\<lparr>fb_width := mode_width mode_cmd, fb_height := mode_height mode_cmd, fb_pitch := mode_pitch mode_cmd,
                   fb_offset := mode_offset mode_cmd, fb_cpp := (case info (mode_format mode_cmd) of Some cpp \<Rightarrow> cpp | None \<Rightarrow> 0),
                   fb_format := mode_format mode_cmd\<rparr>
     in (code, efb, if code = 0 then w\<lparr>registered := insert (fb_id efb) (registered w)\<rparr> else w))"

definition get_obj_ref :: "nat \<Rightarrow> fb_world \<Rightarrow> fb_world" where
  "get_obj_ref g w = w\<lparr>obj_refs := drm_gem_object_get g (obj_refs w)\<rparr>"

definition put_obj_ref :: "nat \<Rightarrow> fb_world \<Rightarrow> fb_world" where
  "put_obj_ref g w = w\<lparr>obj_refs := drm_gem_object_put g (obj_refs w)\<rparr>"

definition fb_zeroed :: "nat \<Rightarrow> evdi_gem_object \<Rightarrow> evdi_framebuffer" where
  "fb_zeroed i obj = \<lparr>fb_id = i, fb_width = 0, fb_height = 0, fb_pitch = 0, fb_offset = 0, fb_cpp = 0, fb_format = 0,
     fb_obj = obj, fb_active = False, is_from_xe = False\<rparr>"

text \<open>
  \<open>lookup\<close> is the object of the handle with its number, \<open>alloc\<close> the number of the new structure; the rest is as above.
\<close>

definition fb_user_create ::
    "format_table \<Rightarrow> (nat \<times> evdi_gem_object) option \<Rightarrow> nat option \<Rightarrow> int \<Rightarrow> dma_buf option \<Rightarrow> mode_fb_cmd2 \<Rightarrow> fb_world \<Rightarrow>
     (int + evdi_framebuffer) \<times> fb_world" where
  "fb_user_create info lookup alloc init dmabuf mode_cmd w =
    (if evdi_fb_get_bpp info (mode_format mode_cmd) \<noteq> 32 then (Inl (- EINVAL), w)
     else case lookup of None \<Rightarrow> (Inl (- ENOENT), w)
     | Some (g, obj) \<Rightarrow>
         let w = get_obj_ref g w
         in if obj_size obj < unat (fb_size mode_cmd) then (Inl (- ENOMEM), put_obj_ref g w)
            else case alloc of None \<Rightarrow> (Inl (- ENOMEM), put_obj_ref g w)
            | Some i \<Rightarrow>
                let w = w\<lparr>fbs := (fbs w)(i \<mapsto> Some g)\<rparr>;
                    (ret, efb, w) = evdi_framebuffer_init info mode_cmd obj init (fb_zeroed i obj) w
                in if ret \<noteq> 0 then (Inl (- EINVAL), put_obj_ref g (w\<lparr>fbs := (fbs w)(i := None)\<rparr>))
                   else (Inr (efb\<lparr>is_from_xe := is_xe_gem dmabuf\<rparr>), w))"

text \<open>A handle that the core makes holds a reference of its own.\<close>

definition evdi_user_framebuffer_create_handle :: "int \<Rightarrow> nat \<Rightarrow> fb_world \<Rightarrow> c_error + (int \<times> fb_world)" where
  "evdi_user_framebuffer_create_handle code i w =
    (case fbs w i of None \<Rightarrow> Inl UseAfterFree
     | Some None \<Rightarrow> Inl NullDeref
     | Some (Some g) \<Rightarrow> Inr (code, if code = 0 then get_obj_ref g w else w))"

definition evdi_user_framebuffer_destroy :: "nat \<Rightarrow> fb_world \<Rightarrow> c_error + fb_world" where
  "evdi_user_framebuffer_destroy i w =
    (case fbs w i of None \<Rightarrow> Inl UseAfterFree
     | Some ob \<Rightarrow>
         let w = (case ob of Some g \<Rightarrow> put_obj_ref g w | None \<Rightarrow> w);
             w = w\<lparr>registered := registered w - {i}\<rparr>
         in Inr (w\<lparr>fbs := (fbs w)(i := None)\<rparr>))"

section \<open>Creation in steps and in one\<close>

text \<open>The outcome is the one that the model of the painter uses, and so are the references that stay.\<close>

lemma fb_user_create_outcome:
  assumes "fb_user_create info lookup alloc init dmabuf mode_cmd w = (r, w')"
    and "evdi_fb_user_fb_create (evdi_fb_get_bpp info (mode_format mode_cmd)) (map_option snd lookup) alloc init (is_xe_gem dmabuf)
      mode_cmd = (r', n)"
  shows "r = r' \<and> (\<forall>g obj. lookup = Some (g, obj) \<longrightarrow> obj_refs w' = (obj_refs w)(g := obj_refs w g + int n))"
proof -
  have four: "cpp = 4" if "uint cpp = 4" for cpp :: u8
  proof -
    have "uint cpp = uint (4 :: u8)" using that by simp
    then show ?thesis by (simp only: word_uint_eq_iff)
  qed
  show ?thesis
    using assms
    by (auto dest: four simp: fb_user_create_def evdi_fb_user_fb_create_def evdi_framebuffer_init_def fb_zeroed_def Let_def evdi_fb_get_bpp_def
        get_obj_ref_def put_obj_ref_def drm_gem_object_get_def drm_gem_object_put_def split: option.splits if_splits)
qed

section \<open>The machine\<close>

text \<open>
  A state is the world with the references that are not those of framebuffers: handles, mappings and the core's own. The core looks up only
  objects that are alive, destroys each registered framebuffer once, and gives restored only references that exist.
\<close>

type_synonym fb_state = "fb_world \<times> refs"

definition fb_start :: "fb_state \<Rightarrow> bool" where
  "fb_start s \<longleftrightarrow> s = (\<lparr>obj_refs = (\<lambda>_. 0), fbs = Map.empty, registered = {}\<rparr>, \<lambda>_. 0)"

inductive fb_step :: "fb_state \<Rightarrow> c_error + fb_state \<Rightarrow> bool" where
  new_object: "obj_refs w g = 0 \<Longrightarrow> fb_step (w, out) (Inr (get_obj_ref g w, drm_gem_object_get g out))"
| create: "(\<And>g obj. lookup = Some (g, obj) \<Longrightarrow> 0 < obj_refs w g) \<Longrightarrow> (\<And>i. alloc = Some i \<Longrightarrow> fbs w i = None) \<Longrightarrow>
    fb_user_create info lookup alloc init dmabuf mode_cmd w = (r, w') \<Longrightarrow> fb_step (w, out) (Inr (w', out))"
| make_handle: "i \<in> registered w \<Longrightarrow> evdi_user_framebuffer_create_handle code i w = Inl e \<Longrightarrow> fb_step (w, out) (Inl e)"
| made_handle: "i \<in> registered w \<Longrightarrow> evdi_user_framebuffer_create_handle code i w = Inr (ret, w') \<Longrightarrow> fbs w i = Some (Some g) \<Longrightarrow>
    fb_step (w, out) (Inr (w', if ret = 0 then drm_gem_object_get g out else out))"
| put_reference: "0 < out g \<Longrightarrow> fb_step (w, out) (Inr (put_obj_ref g w, drm_gem_object_put g out))"
| destroy: "i \<in> registered w \<Longrightarrow> fb_step (w, out) (case evdi_user_framebuffer_destroy i w of Inl e \<Rightarrow> Inl e | Inr w' \<Rightarrow> Inr (w', out))"

definition showing :: "fb_world \<Rightarrow> nat \<Rightarrow> nat set" where
  "showing w g = {i. fbs w i = Some (Some g)}"

definition fb_inv :: "fb_state \<Rightarrow> bool" where
  "fb_inv = (\<lambda>(w, out). finite (dom (fbs w)) \<and> registered w = dom (fbs w) \<and> (\<forall>i. fbs w i \<noteq> Some None) \<and>
    (\<forall>g. 0 \<le> out g \<and> obj_refs w g = out g + int (card (showing w g))))"

lemma showing_finite: "finite (dom (fbs w)) \<Longrightarrow> finite (showing w g)"
  by (rule finite_subset [of _ "dom (fbs w)"]) (auto simp: showing_def)

lemma showing_refs [simp]: "showing (get_obj_ref g w) h = showing w h" "showing (put_obj_ref g w) h = showing w h"
  by (simp_all add: showing_def get_obj_ref_def put_obj_ref_def)

text \<open>What a creation does to the world: nothing, or one more framebuffer with one more reference on its object.\<close>

lemma put_get_obj: "put_obj_ref g (get_obj_ref g w) = w"
  by (cases w) (simp add: put_obj_ref_def get_obj_ref_def drm_gem_object_put_def drm_gem_object_get_def)

lemma put_get_obj_fb: "fbs w i = None \<Longrightarrow> put_obj_ref g (get_obj_ref g w\<lparr>fbs := (fbs w)(i := None)\<rparr>) = w"
  using put_get_obj [of g w] by (cases w) (simp add: put_obj_ref_def get_obj_ref_def fun_upd_idem)

lemma fb_user_create_cases:
  assumes "fb_user_create info lookup alloc init dmabuf mode_cmd w = (r, w')" "\<And>i. alloc = Some i \<Longrightarrow> fbs w i = None"
  obtains "w' = w"
  | g obj i where "lookup = Some (g, obj)" "fbs w i = None"
    "w' = w\<lparr>obj_refs := drm_gem_object_get g (obj_refs w), fbs := (fbs w)(i \<mapsto> Some g), registered := insert i (registered w)\<rparr>"
proof (cases "evdi_fb_get_bpp info (mode_format mode_cmd) = 32")
  case False
  then show thesis using that(1) assms(1) by (simp add: fb_user_create_def)
next
  case bpp: True
  show thesis
  proof (cases lookup)
    case None
    then show thesis using that(1) assms(1) by (simp add: fb_user_create_def split: if_splits)
  next
    case (Some go)
    obtain g obj where go: "lookup = Some (g, obj)" using Some by (cases go) auto
    consider "obj_size obj < unat (fb_size mode_cmd) \<or> alloc = None" | i where "\<not> obj_size obj < unat (fb_size mode_cmd)" "alloc = Some i"
      by (cases alloc) auto
    then show thesis
    proof cases
      case 1
      then have "w' = put_obj_ref g (get_obj_ref g w)"
        using assms(1) bpp go by (auto simp: fb_user_create_def Let_def split: if_splits)
      then show thesis using that(1) by (simp add: put_get_obj)
    next
      case (2 i)
      note i = assms(2) [OF 2(2)]
      show thesis
      proof (cases "init = 0")
        case True
        then show thesis
          using that(2) [OF go i] assms(1) bpp go 2 by (simp add: fb_user_create_def evdi_framebuffer_init_def fb_zeroed_def Let_def get_obj_ref_def)
      next
        case False
        then have "w' = put_obj_ref g (get_obj_ref g w\<lparr>fbs := (fbs w)(i := None)\<rparr>)"
          using assms(1) bpp go 2 by (simp add: fb_user_create_def evdi_framebuffer_init_def Let_def get_obj_ref_def)
        then show thesis using that(1) put_get_obj_fb [OF i] by simp
      qed
    qed
  qed
qed

lemma created_inv:
  assumes "fb_inv (w, out)" "fbs w i = None"
  shows "fb_inv (w\<lparr>obj_refs := drm_gem_object_get g (obj_refs w), fbs := (fbs w)(i \<mapsto> Some g), registered := insert i (registered w)\<rparr>, out)"
proof -
  let ?w = "w\<lparr>obj_refs := drm_gem_object_get g (obj_refs w), fbs := (fbs w)(i \<mapsto> Some g), registered := insert i (registered w)\<rparr>"
  have "showing ?w h = (if h = g then insert i (showing w h) else showing w h)" for h using assms(2) by (auto simp: showing_def)
  moreover have "i \<notin> showing w g" "finite (showing w g)" using assms by (auto simp: showing_def fb_inv_def intro!: showing_finite [unfolded showing_def])
  ultimately show ?thesis using assms(1) by (auto simp: fb_inv_def drm_gem_object_get_def)
qed

lemma destroyed_inv:
  assumes "fb_inv (w, out)" "i \<in> registered w"
  shows "\<exists>w'. evdi_user_framebuffer_destroy i w = Inr w' \<and> fb_inv (w', out)"
proof -
  obtain g where g: "fbs w i = Some (Some g)" using assms unfolding fb_inv_def by (auto simp: dom_def) (metis option.exhaust)
  let ?w = "put_obj_ref g w\<lparr>registered := registered w - {i}, fbs := (fbs w)(i := None)\<rparr>"
  have e: "evdi_user_framebuffer_destroy i w = Inr ?w"
    using g by (simp add: evdi_user_framebuffer_destroy_def put_obj_ref_def)
  have "showing ?w h = showing w h - {i}" for h by (auto simp: showing_def)
  moreover have "i \<in> showing w g" "\<And>h. h \<noteq> g \<Longrightarrow> i \<notin> showing w h" "finite (showing w g)"
    using assms(1) g by (auto simp: showing_def fb_inv_def intro!: showing_finite [unfolded showing_def])
  moreover from this have "0 < card (showing w g)" by (auto simp: card_gt_0_iff)
  ultimately have "fb_inv (?w, out)"
    using assms(1) by (auto simp: fb_inv_def put_obj_ref_def drm_gem_object_put_def card_Diff_singleton)
  then show ?thesis using e by blast
qed

lemma refs_inv:
  assumes "fb_inv (w, out)"
  shows "fb_inv (get_obj_ref g w, drm_gem_object_get g out)" "0 < out g \<Longrightarrow> fb_inv (put_obj_ref g w, drm_gem_object_put g out)"
  using assms by (auto simp: fb_inv_def get_obj_ref_def put_obj_ref_def drm_gem_object_get_def drm_gem_object_put_def showing_def)

lemma fb_step_safe:
  assumes "fb_step s r" "fb_inv s"
  shows "\<exists>s'. r = Inr s' \<and> fb_inv s'"
  using assms
proof (cases rule: fb_step.cases)
  case (new_object w g out)
  then show ?thesis using refs_inv(1) assms(2) by blast
next
  case (create lookup w alloc info init dmabuf mode_cmd r' w' out)
  show ?thesis
  proof (rule fb_user_create_cases [OF create(5,4)])
    assume "w' = w" then show ?thesis using create(1,2) assms(2) by simp
  qed (use create(1,2) assms(2) created_inv in auto)
next
  case (make_handle i w code e out)
  then show ?thesis using assms(2)
    by (auto simp: fb_inv_def evdi_user_framebuffer_create_handle_def split: option.splits)
next
  case (made_handle i w code ret w' g out)
  then show ?thesis using assms(2) refs_inv(1) [of w out g]
    by (auto simp: evdi_user_framebuffer_create_handle_def split: if_splits)
next
  case (put_reference out g w)
  then show ?thesis using refs_inv(2) assms(2) by blast
next
  case (destroy i w out)
  then show ?thesis using destroyed_inv [of w out i] assms(2) by auto
qed

lemma fb_start_inv: "fb_start s \<Longrightarrow> fb_inv s"
  by (simp add: fb_start_def fb_inv_def showing_def)

interpretation framebuffers: never_faults fb_start fb_step fb_inv
  by unfold_locales (auto intro: fb_start_inv fb_step_safe simp del: split_paired_Ex)

text \<open>
  C6: The framebuffers of the compositor and their objects. In every state that creations, whether they fail or not, handles, dropped references and
  destructions reach, no operation faults; every object has one reference for each framebuffer that shows it besides those of others, so that it
  lives while it is shown; and the structures that are allocated are those the core knows and will destroy.
\<close>

theorem framebuffers_hold_objects:
  assumes "runs fb_start fb_step (w, out)"
  shows "(\<forall>r. fb_step (w, out) r \<longrightarrow> (\<exists>s'. r = Inr s')) \<and> registered w = dom (fbs w) \<and>
    (\<forall>g. obj_refs w g = out g + int (card (showing w g))) \<and> (\<forall>i g. fbs w i = Some (Some g) \<longrightarrow> 0 < obj_refs w g)"
proof -
  have inv: "fb_inv (w, out)" by (rule framebuffers.runs_inv [OF assms])
  have pos: "0 < obj_refs w g" if "fbs w i = Some (Some g)" for i g
  proof -
    have "finite (showing w g)" "i \<in> showing w g" "0 \<le> out g" "obj_refs w g = out g + int (card (showing w g))"
      using that inv showing_finite [of w g] by (simp_all add: fb_inv_def showing_def)
    then show ?thesis by (metis add_nonneg_pos card_gt_0_iff empty_iff of_nat_0_less_iff)
  qed
  show ?thesis
  proof (intro conjI)
    show "\<forall>r. fb_step (w, out) r \<longrightarrow> (\<exists>s'. r = Inr s')" using fb_step_safe [OF _ inv] by blast
    show "registered w = dom (fbs w)" "\<forall>g. obj_refs w g = out g + int (card (showing w g))" using inv by (simp_all add: fb_inv_def)
    show "\<forall>i g. fbs w i = Some (Some g) \<longrightarrow> 0 < obj_refs w g" using pos by blast
  qed
qed

definition argb_table :: format_table where
  "argb_table fmt = (if fmt = 0x34325241 then Some 4 else None)"

theorem framebuffers_hold_objects_witness:
  "\<exists>w out. runs fb_start fb_step (w, out) \<and> fbs w 1 = Some (Some 9) \<and> 0 < obj_refs w 9 \<and> registered w = dom (fbs w)"
proof -
  let ?w0 = "\<lparr>obj_refs = (\<lambda>_. 0), fbs = Map.empty, registered = {}\<rparr>"
  let ?w1 = "get_obj_ref 9 ?w0" and ?out = "drm_gem_object_get 9 (\<lambda>_. 0)"
  let ?gem = "\<lparr>obj_size = 8192, vmapping = None, import_attach = False\<rparr>"
  let ?cmd = "\<lparr>mode_width = 32, mode_height = 32, mode_format = 0x34325241, mode_pitch = 256, mode_offset = 0\<rparr>"
  have r0: "runs fb_start fb_step (?w0, \<lambda>_. 0)" by (rule runs.begins) (simp add: fb_start_def)
  have s1: "fb_step (?w0, \<lambda>_. 0) (Inr (?w1, ?out))" by (rule fb_step.new_object) simp
  note r1 = runs.goes [where steps = fb_step, OF r0 s1]
  obtain efb w2 where c: "fb_user_create argb_table (Some (9, ?gem)) (Some 1) 0 None ?cmd ?w1 = (Inr efb, w2)" "fbs w2 1 = Some (Some 9)"
    by (simp add: fb_user_create_def evdi_fb_get_bpp_def argb_table_def fb_size_def evdi_framebuffer_init_def get_obj_ref_def Let_def)
  have s2: "fb_step (?w1, ?out) (Inr (w2, ?out))"
    by (rule fb_step.create [OF _ _ c(1)]) (simp_all add: get_obj_ref_def drm_gem_object_get_def)
  note r2 = runs.goes [where steps = fb_step, OF r1 s2]
  show ?thesis using framebuffers_hold_objects [OF r2] r2 c(2) by blast
qed

end
