(* ===== verification/EvdiLegacy.thy ===== *)
theory EvdiLegacy
  imports EvdiModeset
begin

text \<open>
  The entry points that older kernels use in place of the atomic planes: the cursor of \<^verbatim>\<open>evdi_modeset.c\<close> (\<^verbatim>\<open>evdi_crtc_cursor_set\<close>,
  \<^verbatim>\<open>evdi_crtc_cursor_move\<close>, before 5.10), and the request to show a drawn framebuffer of \<^verbatim>\<open>evdi_fb.c\<close>
  (\<^verbatim>\<open>evdi_user_framebuffer_dirty\<close>, before 5.0), which repeats its commit while its locks would deadlock. The answers of the DRM core are
  arguments. Shown: what they mark, whose references they keep, when the repetition ends, and that the two ways to set a cursor agree.
\<close>

section \<open>The cursor\<close>

definition DRM_FORMAT_ARGB8888 :: u32 where "DRM_FORMAT_ARGB8888 = 0x34325241"

definition evdi_mark_full_screen_dirty :: "reserve \<Rightarrow> bool \<Rightarrow> evdi_device \<Rightarrow> c_error + evdi_device" where
  "evdi_mark_full_screen_dirty reserve alloc evdi =
    ebind (evdi_painter_mark_dirty (evdi_painter_framebuffer_size (painter evdi)) evdi)
      (\<lambda>evdi. Inr (evdi_painter_send_update_ready_if_needed reserve alloc evdi))"

text \<open>
  \<open>lookup\<close> is the answer of \<^verbatim>\<open>drm_gem_object_lookup\<close>, which takes a reference; it is given back at the end, where \<^verbatim>\<open>drm_gem_object_put\<close>
  ignores a null pointer. \<open>vmap\<close> and \<open>handles\<close> are as for the cursor plane.
\<close>

definition evdi_crtc_cursor_set ::
    "reserve \<Rightarrow> bool \<Rightarrow> (nat \<Rightarrow> u32 \<times> int \<times> u32) \<Rightarrow> (u32 \<Rightarrow> cursor_gem option) \<Rightarrow> int \<times> bytes option \<Rightarrow>
     u32 \<Rightarrow> u32 \<Rightarrow> u32 \<Rightarrow> 32 word \<Rightarrow> 32 word \<Rightarrow> evdi_device \<Rightarrow> c_error + (int \<times> evdi_device)" where
  "evdi_crtc_cursor_set reserve alloc handles lookup vmap hdl width height hx hy evdi =
    (let eobj = (if hdl \<noteq> 0 then lookup hdl else None);
         refs = (case eobj of Some g \<Rightarrow> drm_gem_object_get (gem_id g) (gem_refs evdi) | None \<Rightarrow> gem_refs evdi);
         (c, refs) = evdi_cursor_set vmap eobj width height hx hy DRM_FORMAT_ARGB8888 (4 * width) (cursor evdi, refs);
         refs = (case eobj of Some g \<Rightarrow> drm_gem_object_put (gem_id g) refs | None \<Rightarrow> refs);
         evdi = evdi\<lparr>cursor := c, gem_refs := refs\<rparr>
     in if cursor_events_enabled evdi
        then Inr (0, with_painter (evdi_painter_send_cursor_set reserve alloc handles (cursor evdi)) evdi)
        else ebind (evdi_mark_full_screen_dirty reserve alloc evdi) (\<lambda>evdi. Inr (0, evdi)))"

definition evdi_crtc_cursor_move :: "reserve \<Rightarrow> bool \<Rightarrow> 32 word \<Rightarrow> 32 word \<Rightarrow> evdi_device \<Rightarrow> c_error + (int \<times> evdi_device)" where
  "evdi_crtc_cursor_move reserve alloc x y evdi =
    (let evdi = evdi\<lparr>cursor := evdi_cursor_move x y (cursor evdi)\<rparr>
     in if cursor_events_enabled evdi
        then Inr (0, with_painter (evdi_painter_send_cursor_move reserve alloc (cursor evdi)) evdi)
        else ebind (evdi_mark_full_screen_dirty reserve alloc evdi) (\<lambda>evdi. Inr (0, evdi)))"

section \<open>A drawn framebuffer\<close>

text \<open>
  One attempt of the commit: the codes of \<^verbatim>\<open>drm_atomic_get_plane_state\<close> for the planes that show the framebuffer, 0 for a state, the code of
  \<^verbatim>\<open>drm_atomic_commit\<close>, and the one of \<^verbatim>\<open>drm_modeset_backoff\<close> after a deadlock.
\<close>

record commit_attempt =
  state_codes :: "int list"
  commit_code :: int
  backoff_code :: int

definition EDEADLK :: int where "EDEADLK = 35"

fun plane_states :: "int list \<Rightarrow> int" where
  "plane_states [] = 0"
| "plane_states (c # cs) = (if c \<noteq> 0 then c else plane_states cs)"

definition attempt_code :: "commit_attempt \<Rightarrow> int" where
  "attempt_code a = (let ret = plane_states (state_codes a) in if ret \<noteq> 0 then ret else commit_code a)"

text \<open>The label \<^verbatim>\<open>retry\<close>: attempt \<open>i\<close> and those after it.\<close>

partial_function (option) dirty_commit :: "(nat \<Rightarrow> commit_attempt) \<Rightarrow> nat \<Rightarrow> int option" where
  "dirty_commit attempts i =
    (let ret = attempt_code (attempts i)
     in if ret = - EDEADLK then
          (let ret = backoff_code (attempts i)
           in if ret = 0 then dirty_commit attempts (i + 1) else Some ret)
        else Some ret)"

definition evdi_user_framebuffer_dirty ::
    "bool \<Rightarrow> (nat \<Rightarrow> commit_attempt) \<Rightarrow> drm_clip_rect list \<Rightarrow> evdi_device \<Rightarrow> (c_error + (int \<times> evdi_device)) option" where
  "evdi_user_framebuffer_dirty alloc attempts clips evdi =
    (if \<not> alloc then Some (Inr (- ENOMEM, evdi))
     else case mark_all clips evdi of
       Inl e \<Rightarrow> Some (Inl e)
     | Inr evdi \<Rightarrow> map_option (\<lambda>ret. Inr (ret, evdi)) (dirty_commit attempts 0))"

section \<open>What the cursor marks\<close>

lemma update_ready_outcome:
  assumes "device_inv d" "painter d = Some p"
  shows "\<exists>p'. painter (evdi_painter_send_update_ready_if_needed reserve alloc d) = Some p' \<and> scanout_fb p' = scanout_fb p \<and>
    dirty_rects p' = dirty_rects p \<and> (dirty_rects p \<noteq> [] \<longrightarrow> \<not> was_update_requested p')"
proof -
  have ok: "painter_ok p" using assms by (simp add: device_inv_def)
  obtain p' w' where s: "evdi_painter_send_event reserve (create_update_ready_event alloc) (p, drm d) = (p', w')" by (metis surj_pair)
  have "scanout_fb p' = scanout_fb p \<and> dirty_rects p' = dirty_rects p" by (rule send_event_shape [OF ok s]) simp
  then show ?thesis
    using assms(2) s
    by (auto simp: evdi_painter_send_update_ready_if_needed_def with_painter_def evdi_painter_send_update_ready_def)
qed

lemma with_painter_device [simp]:
  "cursor (with_painter f d) = cursor d" "gem_refs (with_painter f d) = gem_refs d"
  by (simp_all add: with_painter_def split: option.splits prod.splits)

lemma send_update_device [simp]:
  "cursor (evdi_painter_send_update_ready_if_needed reserve alloc d) = cursor d"
  "gem_refs (evdi_painter_send_update_ready_if_needed reserve alloc d) = gem_refs d"
  by (simp_all add: evdi_painter_send_update_ready_if_needed_def)

lemma full_screen_marked:
  assumes "device_inv d" "painter d = Some p" "scanout_fb p = Some efb"
  shows "\<exists>d' p'. evdi_mark_full_screen_dirty reserve alloc d = Inr d' \<and> device_inv d' \<and> painter d' = Some p' \<and>
    cursor d' = cursor d \<and> gem_refs d' = gem_refs d \<and> \<not> was_update_requested p' \<and>
    (\<forall>px. in_fb efb px \<or> covered (dirty_rects p) px \<longrightarrow> covered (dirty_rects p') px)"
proof -
  let ?r = "\<lparr>x1 = 0, y1 = 0, x2 = ucast (fb_width efb), y2 = ucast (fb_height efb)\<rparr>"
  have r: "evdi_painter_framebuffer_size (painter d) = ?r" using assms(2,3) by (simp add: evdi_painter_framebuffer_size_def)
  obtain d1 where d1: "evdi_painter_mark_dirty ?r d = Inr d1" "grown efb [?r] d d1" using mark_grown [OF assms] by blast
  have good: "fb_good efb" using assms by (auto simp: device_inv_def painter_ok_def)
  obtain p1 where p1: "device_inv d1" "painter d1 = Some p1" "cursor d1 = cursor d" "gem_refs d1 = gem_refs d" "dirty_rects p1 \<noteq> []"
    "\<forall>px. in_fb efb px \<or> covered (dirty_rects p) px \<longrightarrow> covered (dirty_rects p1) px"
  proof -
    have wf: "rect_wf ?r" by (simp add: rect_wf_def)
    obtain p1 where p1: "device_inv d1" "d1 = d\<lparr>painter := Some p1\<rparr>" "dirty_rects p1 \<noteq> []"
      "\<And>px. covered (dirty_rects p) px \<Longrightarrow> covered (dirty_rects p1) px"
      "\<And>px. in_rect ?r px \<Longrightarrow> in_fb efb px \<Longrightarrow> covered (dirty_rects p1) px"
      using d1(2) assms(2) wf unfolding grown_def by auto
    show thesis by (rule that [of p1]) (use p1 whole_rect(1) [OF good] in auto)
  qed
  show ?thesis
    using update_ready_outcome [OF p1(1,2), of reserve alloc] inv_update_ready [OF p1(1), of reserve alloc] p1 d1(1)
    by (auto simp: evdi_mark_full_screen_dirty_def r)
qed

text \<open>The look-up's own reference is balanced.\<close>

lemma set_gem_get:
  "evdi_cursor_set_gem ob (c, drm_gem_object_get i refs) = map_prod id (drm_gem_object_get i) (evdi_cursor_set_gem ob (c, refs))"
  by (cases ob; cases "cur_obj c")
     (simp_all add: evdi_cursor_set_gem_def drm_gem_object_get_def drm_gem_object_put_def fun_eq_iff)

lemma cursor_set_get:
  "evdi_cursor_set vmap ob w h hx hy f s (c, drm_gem_object_get i refs) =
    map_prod id (drm_gem_object_get i) (evdi_cursor_set vmap ob w h hx hy f s (c, refs))"
  by (simp add: evdi_cursor_set_def Let_def split_beta set_gem_get)

lemma put_get [simp]: "drm_gem_object_put i (drm_gem_object_get i refs) = refs"
  by (simp add: drm_gem_object_get_def drm_gem_object_put_def)

lemma cursor_set_eq:
  "evdi_crtc_cursor_set reserve alloc handles lookup vmap hdl w h hx hy d =
    (let (c, refs) = evdi_cursor_set vmap (if hdl \<noteq> 0 then lookup hdl else None) w h hx hy DRM_FORMAT_ARGB8888 (4 * w) (cursor d, gem_refs d);
         d = d\<lparr>cursor := c, gem_refs := refs\<rparr>
     in if cursor_events_enabled d then Inr (0, with_painter (evdi_painter_send_cursor_set reserve alloc handles (cursor d)) d)
        else ebind (evdi_mark_full_screen_dirty reserve alloc d) (\<lambda>d. Inr (0, d)))"
  unfolding evdi_crtc_cursor_set_def
  by (cases "if hdl \<noteq> 0 then lookup hdl else None") (simp_all add: cursor_set_get Let_def split_beta)

text \<open>
  The cursor of an older kernel. Setting an image succeeds whatever the handle is; afterwards the cursor is shown exactly when the handle names an object
  that is mapped or can be, the references on the objects are as before but for the cursor's own, and without cursor
  events every pixel of the screen is marked and a waiting daemon has its answer. A move marks as much and keeps the image.
\<close>

theorem legacy_cursor_repaints:
  assumes "device_inv d" "painter d = Some p" "scanout_fb p = Some efb" "\<not> cursor_events_enabled d"
    and "unat w \<le> 8192" "unat h \<le> 8192" "sint x \<le> 1073741824" "sint y \<le> 1073741824"
    and "\<And>g img. lookup hdl = Some g \<Longrightarrow> (if vmapping (gem g) = None then snd vmap else vmapping (gem g)) = Some img \<Longrightarrow>
      length img = obj_size (gem g)"
  shows "(\<exists>d' p'. evdi_crtc_cursor_set reserve alloc handles lookup vmap hdl w h hx hy d = Inr (0, d') \<and> device_inv d' \<and>
      painter d' = Some p' \<and> \<not> was_update_requested p' \<and> (\<forall>px. in_fb efb px \<longrightarrow> covered (dirty_rects p') px) \<and>
      other_refs (cursor d', gem_refs d') = other_refs (cursor d, gem_refs d) \<and>
      (enabled (cursor d') \<longleftrightarrow> hdl \<noteq> 0 \<and> (\<exists>g. lookup hdl = Some g \<and> (vmapping (gem g) \<noteq> None \<or> fst vmap = 0)))) \<and>
    (\<exists>d' p'. evdi_crtc_cursor_move reserve alloc x y d = Inr (0, d') \<and> device_inv d' \<and>
      painter d' = Some p' \<and> \<not> was_update_requested p' \<and> (\<forall>px. in_fb efb px \<longrightarrow> covered (dirty_rects p') px) \<and>
      cursor d' = (cursor d)\<lparr>cur_x := x, cur_y := y\<rparr> \<and> gem_refs d' = gem_refs d)" (is "?set \<and> ?move")
proof
  define ob where "ob = (if hdl \<noteq> 0 then lookup hdl else None)"
  obtain c refs where s: "evdi_cursor_set vmap ob w h hx hy DRM_FORMAT_ARGB8888 (4 * w) (cursor d, gem_refs d) = (c, refs)"
    by (metis surj_pair)
  have inv: "device_inv (d\<lparr>cursor := c, gem_refs := refs\<rparr>)"
  proof (cases ob)
    case None
    then show ?thesis using s assms(1,5,6)
      by (auto simp: evdi_cursor_set_def evdi_cursor_set_gem_def Let_def cursor_limits_def device_inv_def)
  next
    case (Some g)
    have "lookup hdl = Some g" using Some by (simp add: ob_def split: if_splits)
    then show ?thesis using cursor_set_inv [OF assms(1,5,6) s [unfolded Some]] assms(9) by blast
  qed
  obtain d' p' where m: "evdi_mark_full_screen_dirty reserve alloc (d\<lparr>cursor := c, gem_refs := refs\<rparr>) = Inr d'" "device_inv d'"
    "painter d' = Some p'" "cursor d' = c" "gem_refs d' = refs" "\<not> was_update_requested p'"
    "\<forall>px. in_fb efb px \<longrightarrow> covered (dirty_rects p') px"
    using full_screen_marked [OF inv, of p efb reserve alloc] assms(2,3) by auto
  have "other_refs (c, refs) = other_refs (cursor d, gem_refs d)"
    "enabled c \<longleftrightarrow> (\<exists>g. ob = Some g \<and> (vmapping (gem g) \<noteq> None \<or> fst vmap = 0))"
    using cursor_refs_balanced [of vmap ob w h hx hy DRM_FORMAT_ARGB8888 "4 * w" "cursor d" "gem_refs d"] s by simp_all
  then show ?set
    using m assms(4) by (auto simp: cursor_set_eq ob_def [symmetric] s) (auto simp: ob_def split: if_splits)
  have "device_inv (d\<lparr>cursor := evdi_cursor_move x y (cursor d)\<rparr>)" by (rule cursor_move_inv [OF assms(1,7,8)])
  from full_screen_marked [OF this, of p efb reserve alloc] show ?move
    using assms(2-4) by (auto simp: evdi_crtc_cursor_move_def evdi_cursor_move_def)
qed

definition demo_lookup :: "u32 \<Rightarrow> cursor_gem option" where
  "demo_lookup hdl = (if hdl = 3 then Some \<lparr>gem_id = 9, gem = \<lparr>obj_size = 4, vmapping = Some [0, 0, 0, 0], import_attach = False\<rparr>\<rparr> else None)"

theorem legacy_cursor_repaints_witness:
  "\<exists>d' p'. evdi_crtc_cursor_set (\<lambda>_ _ _. True) True (\<lambda>_. (1, 0, 0)) demo_lookup (0, None) 3 1 1 0 0
      ((demo_device [])\<lparr>cursor_events_enabled := False\<rparr>) = Inr (0, d') \<and> painter d' = Some p' \<and> enabled (cursor d') \<and>
    covered (dirty_rects p') (2, 1)"
proof -
  let ?d = "(demo_device [])\<lparr>cursor_events_enabled := False\<rparr>"
  have inv: "device_inv ?d" using demo_device_inv by (simp add: device_inv_def)
  obtain p where p: "painter ?d = Some p" "scanout_fb p = Some demo_fb" by (simp add: demo_device_def)
  have px: "in_fb demo_fb (2, 1)" by (simp add: in_fb_def demo_fb_def)
  have img: "length img = obj_size (gem g)"
    if "demo_lookup 3 = Some g" "(if vmapping (gem g) = None then snd (0, None) else vmapping (gem g)) = Some img" for g img
    using that by (auto simp: demo_lookup_def)
  have lim: "unat (1 :: u32) \<le> 8192" "sint (0 :: 32 word) \<le> 1073741824" "\<not> cursor_events_enabled ?d" by simp_all
  obtain d' p' where r: "evdi_crtc_cursor_set (\<lambda>_ _ _. True) True (\<lambda>_. (1, 0, 0)) demo_lookup (0, None) 3 1 1 0 0 ?d = Inr (0, d')"
    "painter d' = Some p'" "\<forall>px. in_fb demo_fb px \<longrightarrow> covered (dirty_rects p') px"
    "enabled (cursor d') \<longleftrightarrow> (3 :: u32) \<noteq> 0 \<and> (\<exists>g. demo_lookup 3 = Some g \<and> (vmapping (gem g) \<noteq> None \<or> fst (0 :: int, None :: bytes option) = 0))"
    using legacy_cursor_repaints [where hx = 0 and hy = 0, OF inv p lim(3) lim(1) lim(1) lim(2) lim(2) img] by blast
  then show ?thesis using px by (auto simp: demo_lookup_def)
qed

section \<open>The two ways to set a cursor\<close>

lemma mark_dirty_device:
  assumes "evdi_mark_full_screen_dirty reserve alloc d = Inr d'"
  shows "cursor d' = cursor d \<and> gem_refs d' = gem_refs d"
  using assms
  by (auto simp: evdi_mark_full_screen_dirty_def evdi_painter_mark_dirty_def ebind_def split: sum.splits option.splits)

lemma cursor_set_device:
  assumes "evdi_crtc_cursor_set reserve alloc handles lookup vmap hdl w h hx hy d = Inr (code, d')"
  shows "(cursor d', gem_refs d') =
    evdi_cursor_set vmap (if hdl \<noteq> 0 then lookup hdl else None) w h hx hy DRM_FORMAT_ARGB8888 (4 * w) (cursor d, gem_refs d)"
  using assms unfolding cursor_set_eq Let_def
  by (auto simp: ebind_def split: prod.splits if_splits sum.splits dest!: mark_dirty_device)

lemma cursor_move_device:
  assumes "evdi_crtc_cursor_move reserve alloc x y d = Inr (code, d')"
  shows "cursor d' = evdi_cursor_move x y (cursor d) \<and> gem_refs d' = gem_refs d"
  using assms unfolding evdi_crtc_cursor_move_def Let_def
  by (auto simp: ebind_def split: if_splits sum.splits dest!: mark_dirty_device)

lemma cursor_plane_device:
  assumes "evdi_cursor_atomic_update reserve alloc handles gid sw vmap old (Some new) d = Inr d'"
  shows "cursor d' = cursor (cursor_change gid vmap old new (d\<lparr>cursor := evdi_cursor_move (crtc_x new) (crtc_y new) (cursor d)\<rparr>)) \<and>
    gem_refs d' = gem_refs (cursor_change gid vmap old new (d\<lparr>cursor := evdi_cursor_move (crtc_x new) (crtc_y new) (cursor d)\<rparr>))"
proof -
  have mark: "cursor d2 = cursor d1 \<and> gem_refs d2 = gem_refs d1" if "evdi_painter_mark_dirty r d1 = Inr d2" for r d1 d2
    using that by (auto simp: evdi_painter_mark_dirty_def ebind_def split: sum.splits option.splits)
  have "cursor d2 = cursor d1 \<and> gem_refs d2 = gem_refs d1" if "cursor_repaint sw old new d1 = Inr d2" for d1 d2
    using that by (auto simp: cursor_repaint_def ebind_def split: sum.splits option.splits if_splits dest!: mark)
  then show ?thesis
    using assms by (auto simp: evdi_cursor_atomic_update_def Let_def split: if_splits)
qed

text \<open>
  C36: The cursor plane of newer kernels and the cursor of older ones do the same: a move followed by setting an image leaves the same cursor and the same
  references as one update of the plane with the framebuffer of that image, in the only format the cursor is composed in, if the image can be mapped.
\<close>

theorem legacy_cursor_as_plane:
  assumes "ps_fb new = Some fb" "\<not> same_fb (ps_fb new) (ps_fb old)" "fb_format fb = DRM_FORMAT_ARGB8888"
    and "hdl \<noteq> 0" "lookup hdl = Some \<lparr>gem_id = gid (fb_id fb), gem = fb_obj fb\<rparr>" "vmapping (fb_obj fb) \<noteq> None \<or> fst vmap = 0"
    and "evdi_crtc_cursor_move reserve alloc (crtc_x new) (crtc_y new) d = Inr (code1, d1)"
    and "evdi_crtc_cursor_set reserve' alloc' handles' lookup vmap hdl (fb_width fb) (fb_height fb) 0 0 d1 = Inr (code2, d2)"
    and "evdi_cursor_atomic_update reserve'' alloc'' handles gid sw vmap old (Some new) d = Inr d3"
  shows "cursor d2 = cursor d3 \<and> gem_refs d2 = gem_refs d3"
proof -
  let ?c = "evdi_cursor_move (crtc_x new) (crtc_y new) (cursor d)" and ?g = "\<lparr>gem_id = gid (fb_id fb), gem = fb_obj fb\<rparr>"
  obtain c refs where s: "evdi_cursor_set vmap (Some ?g) (fb_width fb) (fb_height fb) 0 0 DRM_FORMAT_ARGB8888 (4 * fb_width fb)
      (?c, gem_refs d) = (c, refs)" by (metis surj_pair)
  have "(cursor d2, gem_refs d2) = (c, refs)"
    using cursor_set_device [OF assms(8)] cursor_move_device [OF assms(7)] assms(4,5) s by simp
  moreover have "enabled c"
    using s assms(6) by (auto simp: evdi_cursor_set_def evdi_cursor_set_gem_def Let_def split: if_splits option.splits)
  then have "evdi_cursor_enable True (c, refs) = (c, refs)" by (simp add: evdi_cursor_enable_def)
  then have "cursor d3 = c \<and> gem_refs d3 = refs"
    using cursor_plane_device [OF assms(9)] assms(1-3) s by (simp add: cursor_change_def)
  ultimately show ?thesis by simp
qed

definition demo_argb :: evdi_framebuffer where
  "demo_argb = demo_fb\<lparr>fb_id := 2, fb_format := DRM_FORMAT_ARGB8888\<rparr>"

theorem legacy_cursor_as_plane_witness:
  "\<exists>d1 d2 d3. evdi_crtc_cursor_move (\<lambda>_ _ _. True) True 1 1 (demo_device []) = Inr (0, d1) \<and>
    evdi_crtc_cursor_set (\<lambda>_ _ _. True) True (\<lambda>_. (1, 0, 0)) (\<lambda>_. Some \<lparr>gem_id = 9, gem = fb_obj demo_argb\<rparr>) (0, None) 3
      (fb_width demo_argb) (fb_height demo_argb) 0 0 d1 = Inr (0, d2) \<and>
    evdi_cursor_atomic_update (\<lambda>_ _ _. True) True (\<lambda>_. (1, 0, 0)) (\<lambda>_. 9) True (0, None) (demo_plane (Some 0) None)
      (Some ((demo_plane (Some 0) (Some demo_argb))\<lparr>crtc_x := 1, crtc_y := 1\<rparr>)) (demo_device []) = Inr d3 \<and>
    cursor d2 = cursor d3 \<and> gem_refs d2 = gem_refs d3"
proof -
  let ?new = "(demo_plane (Some 0) (Some demo_argb))\<lparr>crtc_x := 1, crtc_y := 1\<rparr>" and ?old = "demo_plane (Some 0) None"
  obtain d1 where d1: "evdi_crtc_cursor_move (\<lambda>_ _ _. True) True 1 1 (demo_device []) = Inr (0, d1)" "cursor_events_enabled d1"
    by (simp add: evdi_crtc_cursor_move_def demo_device_def)
  obtain d2 where d2: "evdi_crtc_cursor_set (\<lambda>_ _ _. True) True (\<lambda>_. (1, 0, 0)) (\<lambda>_. Some \<lparr>gem_id = 9, gem = fb_obj demo_argb\<rparr>) (0, None) 3
      (fb_width demo_argb) (fb_height demo_argb) 0 0 d1 = Inr (0, d2)"
    using d1(2) by (simp add: cursor_set_eq split_beta)
  obtain d3 where d3: "evdi_cursor_atomic_update (\<lambda>_ _ _. True) True (\<lambda>_. (1, 0, 0)) (\<lambda>_. 9) True (0, None) ?old (Some ?new)
      (demo_device []) = Inr d3"
    by (simp add: evdi_cursor_atomic_update_def Let_def demo_device_def)
  have new: "ps_fb ?new = Some demo_argb" "\<not> same_fb (ps_fb ?new) (ps_fb ?old)" "fb_format demo_argb = DRM_FORMAT_ARGB8888"
    "crtc_x ?new = 1" "crtc_y ?new = 1" by (simp_all add: demo_plane_def same_fb_def demo_argb_def)
  have "cursor d2 = cursor d3 \<and> gem_refs d2 = gem_refs d3"
    by (rule legacy_cursor_as_plane [OF new(1-3) _ _ _ _ d2 d3]) (use d1(1) new(4,5) in simp_all)
  then show ?thesis using d1(1) d2 d3 by blast
qed

section \<open>A drawn framebuffer is committed\<close>

definition retried :: "commit_attempt \<Rightarrow> bool" where
  "retried a \<longleftrightarrow> attempt_code a = - EDEADLK \<and> backoff_code a = 0"

definition last_code :: "commit_attempt \<Rightarrow> int" where
  "last_code a = (if attempt_code a = - EDEADLK then backoff_code a else attempt_code a)"

lemma dirty_commit_step:
  "dirty_commit attempts i = (if retried (attempts i) then dirty_commit attempts (i + 1) else Some (last_code (attempts i)))"
  by (subst dirty_commit.simps) (simp add: retried_def last_code_def Let_def)

lemma dirty_commit_ends:
  assumes "\<And>j. j < n \<Longrightarrow> retried (attempts (i + j))" "\<not> retried (attempts (i + n))"
  shows "dirty_commit attempts i = Some (last_code (attempts (i + n)))"
  using assms
proof (induction n arbitrary: i)
  case 0
  then show ?case by (simp add: dirty_commit_step)
next
  case (Suc n)
  have "retried (attempts i)" using Suc.prems(1) [of 0] by simp
  moreover have "dirty_commit attempts (i + 1) = Some (last_code (attempts (i + 1 + n)))"
    using Suc.prems by (intro Suc.IH) (metis Suc_less_eq add.assoc plus_1_eq_Suc, simp)
  ultimately show ?case by (simp add: dirty_commit_step [of _ i])
qed

lemma dirty_commit_some:
  assumes "dirty_commit attempts i = Some r"
  shows "\<exists>n\<ge>i. \<not> retried (attempts n)"
proof (rule dirty_commit.raw_induct [where P = "\<lambda>attempts i r. \<exists>n\<ge>i. \<not> retried (attempts n)", OF _ assms])
  fix loop :: "(nat \<Rightarrow> commit_attempt) \<Rightarrow> nat \<Rightarrow> int option" and attempts i r
  assume ih: "\<And>attempts i r. loop attempts i = Some r \<Longrightarrow> \<exists>n\<ge>i. \<not> retried (attempts n)"
    and step: "(let ret = attempt_code (attempts i)
      in if ret = - EDEADLK then let ret = backoff_code (attempts i) in if ret = 0 then loop attempts (i + 1) else Some ret
         else Some ret) = Some r"
  show "\<exists>n\<ge>i. \<not> retried (attempts n)"
  proof (cases "retried (attempts i)")
    case True
    then have "loop attempts (i + 1) = Some r" using step by (simp add: retried_def)
    then show ?thesis using ih by (meson le_add1 order_trans)
  qed blast
qed

text \<open>
  C31: A request to show a drawn framebuffer marks its rectangles once, however often the commit is repeated, and answers with the code of the first attempt that
  does not deadlock, or whose back-off is interrupted. It does not return exactly when every attempt deadlocks. Without memory for the
  commit nothing is marked.
\<close>

theorem framebuffer_dirty_returns:
  assumes "device_inv d" "painter d = Some p" "scanout_fb p = Some efb"
  shows "\<exists>d'. mark_all clips d = Inr d' \<and> grown efb clips d d' \<and>
    (\<forall>n. (\<forall>j<n. retried (attempts j)) \<and> \<not> retried (attempts n) \<longrightarrow>
      evdi_user_framebuffer_dirty True attempts clips d = Some (Inr (last_code (attempts n), d'))) \<and>
    (evdi_user_framebuffer_dirty True attempts clips d = None \<longleftrightarrow> (\<forall>n. retried (attempts n))) \<and>
    evdi_user_framebuffer_dirty False attempts clips d = Some (Inr (- ENOMEM, d))"
proof -
  obtain d' where d': "mark_all clips d = Inr d'" "grown efb clips d d'" using mark_all_grown [OF assms] by blast
  have ends: "dirty_commit attempts 0 = Some (last_code (attempts n))" if "\<forall>j<n. retried (attempts j)" "\<not> retried (attempts n)" for n
    using dirty_commit_ends [of n attempts 0] that by simp
  have "dirty_commit attempts 0 = None \<longleftrightarrow> (\<forall>n. retried (attempts n))"
  proof
    assume none: "dirty_commit attempts 0 = None"
    show "\<forall>n. retried (attempts n)"
    proof (rule ccontr)
      assume "\<not> (\<forall>n. retried (attempts n))"
      then obtain n where "\<not> retried (attempts n)" "\<forall>j<n. retried (attempts j)"
        using exists_least_iff [of "\<lambda>n. \<not> retried (attempts n)"] by blast
      then show False using ends none by simp
    qed
  next
    assume "\<forall>n. retried (attempts n)"
    then show "dirty_commit attempts 0 = None" using dirty_commit_some [of attempts 0] by (cases "dirty_commit attempts 0") auto
  qed
  then show ?thesis using d' ends by (auto simp: evdi_user_framebuffer_dirty_def)
qed

definition demo_attempts :: "nat \<Rightarrow> commit_attempt" where
  "demo_attempts i = \<lparr>state_codes = [0], commit_code = (if i < 2 then - EDEADLK else 0), backoff_code = 0\<rparr>"

theorem framebuffer_dirty_returns_witness:
  "\<exists>d'. evdi_user_framebuffer_dirty True demo_attempts [\<lparr>x1 = 0, y1 = 0, x2 = 1, y2 = 1\<rparr>] (demo_device []) = Some (Inr (0, d'))"
proof -
  obtain p where p: "painter (demo_device []) = Some p" "scanout_fb p = Some demo_fb" by (simp add: demo_device_def)
  have a: "\<forall>j<2. retried (demo_attempts j)" "\<not> retried (demo_attempts 2)" "last_code (demo_attempts 2) = 0"
    by (simp_all add: retried_def last_code_def attempt_code_def demo_attempts_def EDEADLK_def)
  show ?thesis using framebuffer_dirty_returns [OF demo_device_inv p, of _ demo_attempts] a by metis
qed

end
