(* ===== verification/EvdiDrm.thy ===== *)
theory EvdiDrm
  imports PainterSteps
begin

text \<open>
  The life of an \<^verbatim>\<open>evdi\<close> device (\<^verbatim>\<open>evdi_drm_drv.c\<close>) and of its console (\<^verbatim>\<open>evdi_fb.c\<close>), as built for kernels from
  5.8 on with \<^verbatim>\<open>CONFIG_FB\<close>: what is allocated, what is freed, and what still points to it. A pointer is a
  \<open>cell\<close>: null, a live object, or one that has been freed; using a freed object and freeing it again are errors. What
  the DRM core answers is an argument.
\<close>

section \<open>Pointers\<close>

datatype 'a cell = Null | Live 'a | Freed

definition follow :: "'a cell \<Rightarrow> c_error + 'a" where
  "follow c = (case c of Null \<Rightarrow> Inl NullDeref | Live x \<Rightarrow> Inr x | Freed \<Rightarrow> Inl UseAfterFree)"

definition kfree :: "'a cell \<Rightarrow> c_error + 'a cell" where
  "kfree c = (case c of Null \<Rightarrow> Inr Null | Live _ \<Rightarrow> Inr Freed | Freed \<Rightarrow> Inl UseAfterFree)"

lemma cell_simps [simp]:
  "follow Null = Inl NullDeref" "follow (Live x) = Inr x" "follow Freed = Inl UseAfterFree"
  "kfree Null = Inr Null" "kfree (Live x) = Inr Freed" "kfree Freed = Inl UseAfterFree"
  by (simp_all add: follow_def kfree_def)

section \<open>The console\<close>

text \<open>
  \<open>efb_obj\<close> is the framebuffer's object, with its one reference while it is live; \<open>lost_objs\<close> counts the objects nothing
  points to any more, \<open>lost_infos\<close> the same for \<^verbatim>\<open>fb_info\<close>. \<open>unregistered\<close> counts the calls of \<^verbatim>\<open>unregister_framebuffer\<close>.
\<close>

record evdi_fbdev =
  helper_info :: bool
  helper_inited :: bool
  efb_obj :: "unit cell"
  efb_active :: bool
  fb_count :: int
  lost_objs :: nat
  lost_infos :: nat
  unregistered :: nat

definition evdi_fbdev_zero :: evdi_fbdev where
  "evdi_fbdev_zero = \<lparr>helper_info = False, helper_inited = False, efb_obj = Null, efb_active = False, fb_count = 0,
     lost_objs = 0, lost_infos = 0, unregistered = 0\<rparr>"

text \<open>What the core answers while the console is built: the depth, the object, its mapping, the info, the framebuffer, the colours.\<close>

record fb_env =
  env_bpp :: nat
  env_obj :: bool
  env_map :: int
  env_info :: bool
  env_fb :: int
  env_cmap :: int

text \<open>\<^verbatim>\<open>drm_gem_object_put\<close> does nothing for a null pointer.\<close>

definition put_obj :: "unit cell \<Rightarrow> c_error + unit cell" where
  "put_obj c = kfree c"

text \<open>
  The label \<^verbatim>\<open>out_gfree\<close> puts the object of the framebuffer, which is not yet the new object when mapping it or
  allocating the info fails. Without an object the function ends with the code 0.
\<close>

definition evdifb_create :: "fb_env \<Rightarrow> evdi_fbdev \<Rightarrow> c_error + (int \<times> evdi_fbdev)" where
  "evdifb_create env efbdev =
    (if env_bpp env \<noteq> 24 \<and> env_bpp env \<noteq> 32 then Inr (- EINVAL, efbdev)
     else if \<not> env_obj env then Inr (0, efbdev)
     else if env_map env \<noteq> 0 \<or> \<not> env_info env then
       ebind (put_obj (efb_obj efbdev)) (\<lambda>c.
         Inr (if env_map env \<noteq> 0 then env_map env else - ENOMEM, efbdev\<lparr>efb_obj := c, lost_objs := lost_objs efbdev + 1\<rparr>))
     else
       let efbdev = efbdev\<lparr>efb_obj := Live ()\<rparr>
       in if env_fb env \<noteq> 0 then
            ebind (put_obj (efb_obj efbdev)) (\<lambda>c. Inr (env_fb env, efbdev\<lparr>efb_obj := c, lost_infos := lost_infos efbdev + 1\<rparr>))
          else
            let efbdev = efbdev\<lparr>helper_info := True\<rparr>
            in if env_cmap env \<noteq> 0 then ebind (put_obj (efb_obj efbdev)) (\<lambda>c. Inr (- ENOMEM, efbdev\<lparr>efb_obj := c\<rparr>))
               else Inr (0, efbdev))"

definition evdi_fbdev_destroy :: "evdi_fbdev \<Rightarrow> c_error + evdi_fbdev" where
  "evdi_fbdev_destroy efbdev =
    (let efbdev = (if helper_info efbdev then efbdev\<lparr>unregistered := unregistered efbdev + 1\<rparr> else efbdev);
         efbdev = efbdev\<lparr>helper_inited := False\<rparr>
     in if efb_obj efbdev \<noteq> Null then ebind (put_obj (efb_obj efbdev)) (\<lambda>c. Inr (efbdev\<lparr>efb_obj := c\<rparr>)) else Inr efbdev)"

definition evdi_fb_open :: "evdi_fbdev \<Rightarrow> int \<times> evdi_fbdev" where
  "evdi_fb_open efbdev = (0, efbdev\<lparr>fb_count := fb_count efbdev + 1\<rparr>)"

definition evdi_fb_release :: "evdi_fbdev \<Rightarrow> int \<times> evdi_fbdev" where
  "evdi_fb_release efbdev = (0, efbdev\<lparr>fb_count := fb_count efbdev - 1\<rparr>)"

text \<open>
  Drawing on the console (\<^verbatim>\<open>evdi_fb_fillrect\<close>, \<^verbatim>\<open>evdi_fb_copyarea\<close>, \<^verbatim>\<open>evdi_fb_imageblit\<close>): the coordinates are cut to 16 bits.
\<close>

definition damage_rect :: "u32 \<Rightarrow> u32 \<Rightarrow> u32 \<Rightarrow> u32 \<Rightarrow> drm_clip_rect" where
  "damage_rect x y width height = \<lparr>x1 = ucast x, y1 = ucast y, x2 = ucast (x + width), y2 = ucast (y + height)\<rparr>"

definition evdi_handle_damage :: "evdi_framebuffer \<Rightarrow> u32 \<Rightarrow> u32 \<Rightarrow> u32 \<Rightarrow> u32 \<Rightarrow> evdi_device \<Rightarrow> c_error + evdi_device" where
  "evdi_handle_damage fb x y width height evdi =
    (let rect = evdi_framebuffer_sanitize_rect fb (damage_rect x y width height)
     in if \<not> fb_active fb then Inr evdi
        else ebind (evdi_painter_set_scanout_buffer (Some fb) evdi) (evdi_painter_mark_dirty rect))"

definition evdi_fb_fillrect :: "evdi_framebuffer \<Rightarrow> u32 \<Rightarrow> u32 \<Rightarrow> u32 \<Rightarrow> u32 \<Rightarrow> evdi_device \<Rightarrow> c_error + evdi_device" where
  "evdi_fb_fillrect = evdi_handle_damage"

definition evdi_fb_copyarea :: "evdi_framebuffer \<Rightarrow> u32 \<Rightarrow> u32 \<Rightarrow> u32 \<Rightarrow> u32 \<Rightarrow> evdi_device \<Rightarrow> c_error + evdi_device" where
  "evdi_fb_copyarea = evdi_handle_damage"

definition evdi_fb_imageblit :: "evdi_framebuffer \<Rightarrow> u32 \<Rightarrow> u32 \<Rightarrow> u32 \<Rightarrow> u32 \<Rightarrow> evdi_device \<Rightarrow> c_error + evdi_device" where
  "evdi_fb_imageblit = evdi_handle_damage"

text \<open>
  A client maps the console, of 64-bit machines. The result is the code and the pages mapped: the address in the client and the
  address of the kernel it shows. \<open>remap\<close> says whether \<^verbatim>\<open>remap_pfn_range\<close> fails for an address.
\<close>

function mmap_loop :: "(u64 \<Rightarrow> bool) \<Rightarrow> u64 \<Rightarrow> u64 \<Rightarrow> u64 \<Rightarrow> (u64 \<times> u64) list \<Rightarrow> int \<times> (u64 \<times> u64) list" where
  "mmap_loop remap start pos sz maps =
    (if sz = 0 then (0, maps)
     else if remap start then (- EAGAIN, maps)
     else mmap_loop remap (start + 4096) (pos + 4096) (if 4096 < sz then sz - 4096 else 0) (maps @ [(start, pos)]))"
  by auto
termination
  by (relation "measure (\<lambda>(r, a, b, sz, m). unat sz)")
     (auto simp: word_less_nat_alt unat_gt_0 unat_sub_if' word_le_nat_alt)

declare mmap_loop.simps [simp del]

definition evdi_fb_mmap :: "(u64 \<Rightarrow> bool) \<Rightarrow> u64 \<Rightarrow> u32 \<Rightarrow> u64 \<Rightarrow> u64 \<Rightarrow> u64 \<Rightarrow> int \<times> (u64 \<times> u64) list" where
  "evdi_fb_mmap remap smem_start smem_len vm_start vm_end vm_pgoff =
    (let sz = vm_end - vm_start; offset = push_bit 12 vm_pgoff
     in if drop_bit 12 (NOT 0) < vm_pgoff then (- EINVAL, [])
        else if ucast smem_len < offset \<or> ucast smem_len - offset < sz then (- EINVAL, [])
        else mmap_loop remap vm_start (smem_start + offset) sz [])"

section \<open>The device\<close>

text \<open>
  \<open>priv\<close> is the \<^verbatim>\<open>evdi_device\<close> structure, \<open>dev_private\<close> whether the DRM device points to it; its pointers to console, painter
  and cursor can be used only while it is live. \<open>vt_registered\<close> says whether the painter is in the kernel's chain
  of terminal-switch notifiers, \<open>last_fbdev\<close> what a console was when it was freed.
\<close>

record drm_dev =
  priv :: "unit cell"
  dev_private :: bool
  p_fbdev :: "evdi_fbdev cell"
  p_painter :: "unit cell"
  p_cursor :: "unit cell"
  vt_registered :: bool
  release_action :: bool
  drm_registered :: bool
  polling :: bool
  last_fbdev :: "evdi_fbdev option"

definition drm_dev_zero :: drm_dev where
  "drm_dev_zero = \<lparr>priv = Null, dev_private = False, p_fbdev = Null, p_painter = Null, p_cursor = Null, vt_registered = False,
     release_action = False, drm_registered = False, polling = False, last_fbdev = None\<rparr>"

definition get_priv :: "drm_dev \<Rightarrow> c_error + unit" where
  "get_priv d = (if dev_private d then follow (priv d) else Inl NullDeref)"

text \<open>A switch of the virtual terminal calls the notifier with the painter it was registered with.\<close>

definition vt_switch :: "drm_dev \<Rightarrow> c_error + unit" where
  "vt_switch d = (if vt_registered d then follow (p_painter d) else Inr ())"

text \<open>
  The answers while a device is set up. \<open>env_probe\<close> is the console's construction during the initial configuration, which the
  core puts off while nothing is connected; \<open>env_config\<close> gives the code of the configuration from that of the construction.
\<close>

record dev_env =
  env_alloc :: int
  env_evdi :: bool
  env_painter :: bool
  env_cursor :: bool
  env_fbdev :: bool
  env_helper :: int
  env_probe :: "fb_env option"
  env_config :: "int \<Rightarrow> int"
  env_vblank :: int
  env_action :: int
  env_register :: int

definition free_fbdev :: "drm_dev \<Rightarrow> c_error + drm_dev" where
  "free_fbdev d = ebind (kfree (p_fbdev d)) (\<lambda>c.
     Inr (d\<lparr>p_fbdev := c, last_fbdev := (case p_fbdev d of Live f \<Rightarrow> Some f | _ \<Rightarrow> last_fbdev d)\<rparr>))"

definition fbdev_probe :: "fb_env \<Rightarrow> drm_dev \<Rightarrow> c_error + (int \<times> drm_dev)" where
  "fbdev_probe env d = ebind (follow (p_fbdev d)) (\<lambda>f.
     ebind (evdifb_create env f) (\<lambda>(ret, f). Inr (ret, d\<lparr>p_fbdev := Live f\<rparr>)))"

definition evdi_fbdev_init :: "dev_env \<Rightarrow> drm_dev \<Rightarrow> c_error + (int \<times> drm_dev)" where
  "evdi_fbdev_init env d = ebind (get_priv d) (\<lambda>_.
    if \<not> env_fbdev env then Inr (- ENOMEM, d)
    else if env_helper env \<noteq> 0 then
      ebind (free_fbdev (d\<lparr>p_fbdev := Live evdi_fbdev_zero\<rparr>)) (\<lambda>d. Inr (env_helper env, d))
    else
      let d = d\<lparr>p_fbdev := Live (evdi_fbdev_zero\<lparr>helper_inited := True\<rparr>)\<rparr>
      in ebind (case env_probe env of None \<Rightarrow> Inr (0, d) | Some e \<Rightarrow> fbdev_probe e d) (\<lambda>(code, d).
         let ret = env_config env code
         in if ret \<noteq> 0 then ebind (free_fbdev d) (\<lambda>d. Inr (ret, d)) else Inr (0, d)))"

definition evdi_fbdev_cleanup :: "drm_dev \<Rightarrow> c_error + drm_dev" where
  "evdi_fbdev_cleanup d = ebind (get_priv d) (\<lambda>_.
    if p_fbdev d = Null then Inr d
    else ebind (follow (p_fbdev d)) (\<lambda>f. ebind (evdi_fbdev_destroy f) (\<lambda>f.
      ebind (free_fbdev (d\<lparr>p_fbdev := Live f\<rparr>)) (\<lambda>d. Inr (d\<lparr>p_fbdev := Null\<rparr>)))))"

definition evdi_fbdev_unplug :: "drm_dev \<Rightarrow> c_error + drm_dev" where
  "evdi_fbdev_unplug d = ebind (get_priv d) (\<lambda>_.
    if p_fbdev d = Null then Inr d
    else ebind (follow (p_fbdev d)) (\<lambda>f.
      Inr (if helper_info f then d\<lparr>p_fbdev := Live (f\<lparr>unregistered := unregistered f + 1\<rparr>)\<rparr> else d)))"

definition free_cursor :: "drm_dev \<Rightarrow> c_error + drm_dev" where
  "free_cursor d = ebind (follow (priv d)) (\<lambda>_. ebind (kfree (p_cursor d)) (\<lambda>c. Inr (d\<lparr>p_cursor := c\<rparr>)))"

definition free_priv :: "drm_dev \<Rightarrow> c_error + drm_dev" where
  "free_priv d = ebind (kfree (priv d)) (\<lambda>c. Inr (d\<lparr>priv := c, dev_private := False\<rparr>))"

text \<open>The clean-up of the painter takes it out of the notifier chain; it is skipped without a painter.\<close>

definition cleanup_painter :: "drm_dev \<Rightarrow> c_error + drm_dev" where
  "cleanup_painter d = ebind (follow (priv d)) (\<lambda>_.
    if p_painter d = Null then Inr d
    else ebind (follow (p_painter d)) (\<lambda>_. ebind (kfree (p_painter d)) (\<lambda>c. Inr (d\<lparr>p_painter := c, vt_registered := False\<rparr>))))"

definition evdi_drm_device_release_cb :: "drm_dev \<Rightarrow> c_error + drm_dev" where
  "evdi_drm_device_release_cb d = ebind (get_priv d) (\<lambda>_. ebind (free_cursor d) (\<lambda>d. ebind (cleanup_painter d) free_priv))"

text \<open>The two labels at the end of the set-up; \<open>ret\<close> is the code they return.\<close>

definition err_free :: "int \<Rightarrow> drm_dev \<Rightarrow> c_error + (int \<times> drm_dev)" where
  "err_free ret d = ebind (free_cursor d) (\<lambda>d. ebind (kfree (p_painter d)) (\<lambda>c.
     ebind (free_priv (d\<lparr>p_painter := c\<rparr>)) (\<lambda>d. Inr (ret, d))))"

definition err_init :: "int \<Rightarrow> drm_dev \<Rightarrow> c_error + (int \<times> drm_dev)" where
  "err_init ret d = ebind (evdi_fbdev_cleanup d) (err_free ret)"

definition evdi_drm_device_init :: "dev_env \<Rightarrow> drm_dev \<Rightarrow> c_error + (int \<times> drm_dev)" where
  "evdi_drm_device_init env d =
    (if \<not> env_evdi env then Inr (- ENOMEM, d)
     else
       let d = d\<lparr>priv := Live (), dev_private := True, p_fbdev := Null, p_painter := Null, p_cursor := Null\<rparr>
       in if \<not> env_painter env then err_free (- ENOMEM) d
          else
            let d = d\<lparr>p_painter := Live (), vt_registered := True\<rparr>
            in if \<not> env_cursor env then err_free (- ENOMEM) d
               else
                 ebind (evdi_fbdev_init env (d\<lparr>p_cursor := Live ()\<rparr>)) (\<lambda>(ret, d).
                 if ret \<noteq> 0 then err_init ret d
                 else if env_vblank env \<noteq> 0 then err_init (env_vblank env) d
                 else
                   let d = d\<lparr>polling := True\<rparr>
                   in if env_action env \<noteq> 0
                      then ebind (evdi_drm_device_release_cb d) (err_init (env_action env))
                      else Inr (0, d\<lparr>release_action := True\<rparr>)))"

text \<open>The last reference to a device runs its release action.\<close>

definition drm_dev_put :: "drm_dev \<Rightarrow> c_error + drm_dev" where
  "drm_dev_put d = (if release_action d then evdi_drm_device_release_cb (d\<lparr>release_action := False\<rparr>) else Inr d)"

definition evdi_drm_device_create :: "dev_env \<Rightarrow> c_error + (int \<times> drm_dev)" where
  "evdi_drm_device_create env =
    (if env_alloc env \<noteq> 0 then Inr (env_alloc env, drm_dev_zero)
     else ebind (evdi_drm_device_init env drm_dev_zero) (\<lambda>(ret, d).
       let ret = (if ret \<noteq> 0 then ret else env_register env)
       in if ret \<noteq> 0 then ebind (drm_dev_put d) (\<lambda>d. Inr (ret, d)) else Inr (0, d\<lparr>drm_registered := True\<rparr>)))"

definition evdi_drm_device_deinit :: "drm_dev \<Rightarrow> c_error + drm_dev" where
  "evdi_drm_device_deinit d = ebind (evdi_fbdev_unplug (d\<lparr>polling := False\<rparr>)) evdi_fbdev_cleanup"

definition evdi_drm_device_remove :: "drm_dev \<Rightarrow> c_error + drm_dev" where
  "evdi_drm_device_remove d = ebind (evdi_drm_device_deinit (d\<lparr>drm_registered := False\<rparr>)) drm_dev_put"

text \<open>A client closes its file; without the structure there is nothing to close.\<close>

definition evdi_driver_close :: "nat \<Rightarrow> evdi_device option \<Rightarrow> evdi_device option" where
  "evdi_driver_close file evdi = map_option (evdi_painter_close file) evdi"

definition evdi_driver_postclose :: "nat \<Rightarrow> evdi_device option \<Rightarrow> evdi_device option" where
  "evdi_driver_postclose = evdi_driver_close"

section \<open>Setting up and removing\<close>

lemmas dev_ops = evdi_drm_device_create_def evdi_drm_device_init_def err_init_def err_free_def free_cursor_def free_priv_def
  evdi_fbdev_init_def evdi_fbdev_cleanup_def free_fbdev_def get_priv_def drm_dev_put_def evdi_drm_device_release_cb_def
  cleanup_painter_def

lemmas errno_nonzero = ENOMEM_def EINVAL_def

text \<open>What construction of a fresh console leaves; \<open>fresh_code\<close> is its code.\<close>

definition fresh_code :: "fb_env \<Rightarrow> int" where
  "fresh_code e =
    (if env_bpp e \<noteq> 24 \<and> env_bpp e \<noteq> 32 then - EINVAL else if \<not> env_obj e then 0 else if env_map e \<noteq> 0 then env_map e
     else if \<not> env_info e then - ENOMEM else if env_fb e \<noteq> 0 then env_fb e else if env_cmap e \<noteq> 0 then - ENOMEM else 0)"

text \<open>Construction that got as far as the framebuffer and then failed.\<close>

definition late_failure :: "fb_env \<Rightarrow> bool" where
  "late_failure e \<longleftrightarrow> (env_bpp e = 24 \<or> env_bpp e = 32) \<and> env_obj e \<and> env_map e = 0 \<and> env_info e \<and> (env_fb e \<noteq> 0 \<or> env_cmap e \<noteq> 0)"

lemma fresh_console:
  assumes "efb_obj f = Null"
  shows "\<exists>f'. evdifb_create e f = Inr (fresh_code e, f') \<and> efb_active f' = efb_active f \<and>
    (efb_obj f' = Freed \<longleftrightarrow> late_failure e) \<and> (fresh_code e = 0 \<longrightarrow> efb_obj f' \<noteq> Freed)"
  using assms
  by (cases "env_map e = 0"; cases "env_info e"; cases "env_fb e = 0"; cases "env_cmap e = 0")
     (auto simp: evdifb_create_def fresh_code_def late_failure_def put_obj_def errno_nonzero Let_def)

lemma destroy_console: "efb_obj f \<noteq> Freed \<Longrightarrow> \<exists>f'. evdi_fbdev_destroy f = Inr f' \<and> efb_obj f' \<noteq> Live () \<and> efb_active f' = efb_active f"
  by (cases "efb_obj f") (auto simp: evdi_fbdev_destroy_def put_obj_def Let_def)

lemma destroy_dangling: "efb_obj f = Freed \<Longrightarrow> evdi_fbdev_destroy f = Inl UseAfterFree"
  by (simp add: evdi_fbdev_destroy_def put_obj_def Let_def)

text \<open>The code of the console's initialisation.\<close>

definition console_code :: "dev_env \<Rightarrow> int" where
  "console_code env = (if \<not> env_fbdev env then - ENOMEM else if env_helper env \<noteq> 0 then env_helper env
     else case env_probe env of None \<Rightarrow> 0 | Some e \<Rightarrow> fresh_code e)"

definition newly_set_up :: "drm_dev \<Rightarrow> bool" where
  "newly_set_up d \<longleftrightarrow> dev_private d \<and> priv d = Live () \<and> p_fbdev d = Null \<and> p_painter d = Live () \<and> p_cursor d = Live () \<and>
    vt_registered d \<and> \<not> release_action d"

text \<open>Only the console of the device changed.\<close>

definition but_console :: "drm_dev \<Rightarrow> drm_dev \<Rightarrow> bool" where
  "but_console d d' \<longleftrightarrow> dev_private d' = dev_private d \<and> priv d' = priv d \<and> p_painter d' = p_painter d \<and>
    p_cursor d' = p_cursor d \<and> vt_registered d' = vt_registered d \<and> release_action d' = release_action d"

text \<open>A failure of the initialisation leaves the pointer to the console it has freed.\<close>

lemma fbdev_init_outcome:
  assumes "newly_set_up d" "env_config env = (\<lambda>c. c)"
  shows "\<exists>d'. evdi_fbdev_init env d = Inr (console_code env, d') \<and> but_console d d' \<and>
    (if console_code env = 0 then \<exists>f. p_fbdev d' = Live f \<and> efb_obj f \<noteq> Freed \<and> \<not> efb_active f
     else p_fbdev d' = (if env_fbdev env then Freed else Null))"
proof (cases "env_fbdev env \<and> env_helper env = 0")
  case False
  then show ?thesis
    using assms by (auto simp: evdi_fbdev_init_def get_priv_def newly_set_up_def console_code_def free_fbdev_def but_console_def
        errno_nonzero Let_def)
next
  case True
  let ?f = "evdi_fbdev_zero\<lparr>helper_inited := True\<rparr>"
  show ?thesis
  proof (cases "env_probe env")
    case None
    then show ?thesis
      using True assms by (simp add: evdi_fbdev_init_def get_priv_def newly_set_up_def console_code_def but_console_def
          evdi_fbdev_zero_def)
  next
    case (Some e)
    obtain f' where f': "evdifb_create e ?f = Inr (fresh_code e, f')" "efb_active f' = efb_active ?f"
      "fresh_code e = 0 \<longrightarrow> efb_obj f' \<noteq> Freed"
      using fresh_console [of ?f e] by (auto simp: evdi_fbdev_zero_def)
    show ?thesis
      using True Some assms f'
      by (cases "fresh_code e = 0")
         (simp_all add: evdi_fbdev_init_def get_priv_def newly_set_up_def console_code_def but_console_def fbdev_probe_def
           free_fbdev_def Let_def, simp add: evdi_fbdev_zero_def)
  qed
qed

lemma cleanup_outcome:
  assumes "dev_private d" "priv d = Live ()"
  shows "p_fbdev d = Null \<Longrightarrow> evdi_fbdev_cleanup d = Inr d"
    "p_fbdev d = Freed \<Longrightarrow> evdi_fbdev_cleanup d = Inl UseAfterFree"
    "p_fbdev d = Live f \<Longrightarrow> efb_obj f = Freed \<Longrightarrow> evdi_fbdev_cleanup d = Inl UseAfterFree"
    "p_fbdev d = Live f \<Longrightarrow> efb_obj f \<noteq> Freed \<Longrightarrow> \<exists>d'. evdi_fbdev_cleanup d = Inr d' \<and> but_console d d' \<and> p_fbdev d' = Null"
proof -
  show "\<exists>d'. evdi_fbdev_cleanup d = Inr d' \<and> but_console d d' \<and> p_fbdev d' = Null"
    if "p_fbdev d = Live f" "efb_obj f \<noteq> Freed"
    using destroy_console [OF that(2)] that(1) assms
    by (auto simp: evdi_fbdev_cleanup_def get_priv_def free_fbdev_def but_console_def)
qed (use assms destroy_dangling in \<open>auto simp: evdi_fbdev_cleanup_def get_priv_def\<close>)

definition live_dev :: "drm_dev \<Rightarrow> bool" where
  "live_dev d \<longleftrightarrow> dev_private d \<and> priv d = Live () \<and> p_painter d = Live () \<and> p_cursor d = Live () \<and> vt_registered d \<and>
    release_action d \<and> (\<exists>f. p_fbdev d = Live f \<and> efb_obj f \<noteq> Freed \<and> \<not> efb_active f)"

text \<open>Everything a device had is freed, and no notifier is left behind.\<close>

definition gone_dev :: "drm_dev \<Rightarrow> bool" where
  "gone_dev d \<longleftrightarrow> \<not> dev_private d \<and> priv d \<noteq> Live () \<and> p_painter d \<noteq> Live () \<and> p_cursor d \<noteq> Live () \<and> \<not> vt_registered d"

definition dangling_dev :: "drm_dev \<Rightarrow> bool" where
  "dangling_dev d \<longleftrightarrow> \<not> dev_private d \<and> priv d = Freed \<and> p_painter d = Freed \<and> vt_registered d \<and> \<not> release_action d"

lemma err_free_outcome:
  assumes "priv d = Live ()" "p_painter d \<noteq> Freed" "p_cursor d \<noteq> Freed"
  shows "\<exists>d'. err_free ret d = Inr (ret, d') \<and> \<not> dev_private d' \<and> priv d' = Freed \<and>
    p_painter d' = (if p_painter d = Null then Null else Freed) \<and> p_cursor d' \<noteq> Live () \<and> vt_registered d' = vt_registered d \<and>
    release_action d' = release_action d \<and> p_fbdev d' = p_fbdev d"
  using assms by (cases "p_painter d"; cases "p_cursor d") (simp_all add: err_free_def free_cursor_def free_priv_def)

lemma release_cb_outcome:
  assumes "dev_private d" "priv d = Live ()" "p_painter d = Live ()" "p_cursor d = Live ()"
  shows "\<exists>d'. evdi_drm_device_release_cb d = Inr d' \<and> gone_dev d' \<and> p_fbdev d' = p_fbdev d"
  using assms by (simp add: evdi_drm_device_release_cb_def get_priv_def free_cursor_def cleanup_painter_def free_priv_def gone_dev_def)

text \<open>The two ways the set-up of a device can go wrong after the failure of a part.\<close>

definition setup_faults :: "dev_env \<Rightarrow> c_error \<Rightarrow> bool" where
  "setup_faults env e \<longleftrightarrow> env_evdi env \<and> env_painter env \<and> env_cursor env \<and> env_fbdev env \<and>
    (if console_code env \<noteq> 0 then e = UseAfterFree else env_vblank env = 0 \<and> env_action env \<noteq> 0 \<and> e = NullDeref)"

definition setup_dangles :: "dev_env \<Rightarrow> bool" where
  "setup_dangles env \<longleftrightarrow> env_evdi env \<and> env_painter env \<and>
    (\<not> env_cursor env \<or> \<not> env_fbdev env \<or> console_code env = 0 \<and> env_vblank env \<noteq> 0)"

definition setup_works :: "dev_env \<Rightarrow> bool" where
  "setup_works env \<longleftrightarrow> env_evdi env \<and> env_painter env \<and> env_cursor env \<and> env_fbdev env \<and> console_code env = 0 \<and>
    env_vblank env = 0 \<and> env_action env = 0"

lemma init_outcome:
  assumes "env_config env = (\<lambda>c. c)"
  shows "setup_faults env e \<Longrightarrow> evdi_drm_device_init env drm_dev_zero = Inl e"
    "setup_dangles env \<Longrightarrow> \<exists>ret d. evdi_drm_device_init env drm_dev_zero = Inr (ret, d) \<and> ret \<noteq> 0 \<and> dangling_dev d"
    "setup_works env \<Longrightarrow> \<exists>d. evdi_drm_device_init env drm_dev_zero = Inr (0, d) \<and> live_dev d"
    "\<not> env_evdi env \<or> \<not> env_painter env \<Longrightarrow> \<exists>d. evdi_drm_device_init env drm_dev_zero = Inr (- ENOMEM, d) \<and> gone_dev d \<and> \<not> release_action d"
proof -
  let ?p = "drm_dev_zero\<lparr>priv := Live (), dev_private := True, p_fbdev := Null, p_cursor := Null, p_painter := Live (), vt_registered := True\<rparr>"
  let ?d = "?p\<lparr>p_cursor := Live ()\<rparr>"
  have fresh: "newly_set_up ?d" by (simp add: newly_set_up_def drm_dev_zero_def)
  obtain d' where d': "evdi_fbdev_init env ?d = Inr (console_code env, d')" "but_console ?d d'"
    "if console_code env = 0 then \<exists>f. p_fbdev d' = Live f \<and> efb_obj f \<noteq> Freed \<and> \<not> efb_active f
     else p_fbdev d' = (if env_fbdev env then Freed else Null)"
    using fbdev_init_outcome [OF fresh assms] by blast
  have b: "dev_private d'" "priv d' = Live ()" "p_painter d' = Live ()" "p_cursor d' = Live ()" "vt_registered d'" "\<not> release_action d'"
    using d'(2) by (simp_all add: but_console_def drm_dev_zero_def)
  have i: "evdi_drm_device_init env drm_dev_zero =
      (if console_code env \<noteq> 0 then err_init (console_code env) d' else if env_vblank env \<noteq> 0 then err_init (env_vblank env) d'
       else if env_action env \<noteq> 0 then ebind (evdi_drm_device_release_cb (d'\<lparr>polling := True\<rparr>)) (err_init (env_action env))
       else Inr (0, d'\<lparr>polling := True, release_action := True\<rparr>))"
    if "env_evdi env" "env_painter env" "env_cursor env"
    using that d'(1) by (simp add: evdi_drm_device_init_def Let_def)
  note cl = cleanup_outcome [OF b(1,2)]
  show "evdi_drm_device_init env drm_dev_zero = Inl e" if "setup_faults env e"
  proof (cases "console_code env = 0")
    case False
    then show ?thesis using that i d'(3) cl(2) by (auto simp: setup_faults_def err_init_def)
  next
    case True
    obtain d2 where "evdi_drm_device_release_cb (d'\<lparr>polling := True\<rparr>) = Inr d2" "gone_dev d2"
      using release_cb_outcome [of "d'\<lparr>polling := True\<rparr>"] b by auto
    then show ?thesis
      using that True i by (simp add: setup_faults_def err_init_def evdi_fbdev_cleanup_def get_priv_def gone_dev_def)
  qed
  show "\<exists>ret d. evdi_drm_device_init env drm_dev_zero = Inr (ret, d) \<and> ret \<noteq> 0 \<and> dangling_dev d" if dg: "setup_dangles env"
  proof (cases "env_cursor env")
    case False
    have e: "evdi_drm_device_init env drm_dev_zero = err_free (- ENOMEM) ?p"
      using False dg by (simp add: setup_dangles_def evdi_drm_device_init_def Let_def)
    obtain d2 where "err_free (- ENOMEM) ?p = Inr (- ENOMEM, d2)" "\<not> dev_private d2" "priv d2 = Freed"
      "p_painter d2 = Freed" "vt_registered d2" "\<not> release_action d2"
      using err_free_outcome [of ?p "- ENOMEM"] by (auto simp: drm_dev_zero_def)
    then show ?thesis unfolding e by (auto simp: dangling_dev_def ENOMEM_def)
  next
    case True
    let ?ret = "if env_fbdev env then env_vblank env else console_code env"
    have e: "evdi_drm_device_init env drm_dev_zero = err_init ?ret d'" "?ret \<noteq> 0"
      using True dg i by (auto simp: setup_dangles_def console_code_def ENOMEM_def)
    obtain d2 where d2: "evdi_fbdev_cleanup d' = Inr d2" "but_console d' d2"
    proof (cases "env_fbdev env")
      case True
      then show ?thesis using that d'(3) dg \<open>env_cursor env\<close> cl(4) by (auto simp: setup_dangles_def)
    next
      case False
      then show ?thesis using that [of d'] d'(3) cl(1) by (simp add: console_code_def ENOMEM_def but_console_def)
    qed
    obtain d3 where "err_free ?ret d2 = Inr (?ret, d3)" "\<not> dev_private d3" "priv d3 = Freed" "p_painter d3 = Freed"
      "vt_registered d3" "\<not> release_action d3"
      using err_free_outcome [of d2 ?ret] b d2(2) by (auto simp: but_console_def)
    then show ?thesis using e d2(1) by (simp add: err_init_def dangling_dev_def)
  qed
  show "\<exists>d. evdi_drm_device_init env drm_dev_zero = Inr (0, d) \<and> live_dev d" if "setup_works env"
    using that i b d'(3) by (simp add: setup_works_def live_dev_def)
  show "\<exists>d. evdi_drm_device_init env drm_dev_zero = Inr (- ENOMEM, d) \<and> gone_dev d \<and> \<not> release_action d"
    if "\<not> env_evdi env \<or> \<not> env_painter env"
    using that by (auto simp: evdi_drm_device_init_def err_free_def free_cursor_def free_priv_def drm_dev_zero_def gone_dev_def)
qed


definition good_env :: dev_env where
  "good_env = \<lparr>env_alloc = 0, env_evdi = True, env_painter = True, env_cursor = True, env_fbdev = True, env_helper = 0, env_probe = None,
     env_config = (\<lambda>c. c), env_vblank = 0, env_action = 0, env_register = 0\<rparr>"


lemma unplug_outcome:
  assumes "dev_private d" "priv d = Live ()" "p_fbdev d = Live f"
  shows "\<exists>d' f'. evdi_fbdev_unplug d = Inr d' \<and> but_console d d' \<and> p_fbdev d' = Live f' \<and> efb_obj f' = efb_obj f"
  using assms by (simp add: evdi_fbdev_unplug_def get_priv_def but_console_def)

lemma remove_outcome:
  assumes "dev_private d" "priv d = Live ()" "p_painter d = Live ()" "p_cursor d = Live ()" "release_action d" "p_fbdev d = Live f"
  shows "if efb_obj f = Freed then evdi_drm_device_remove d = Inl UseAfterFree
    else \<exists>d'. evdi_drm_device_remove d = Inr d' \<and> gone_dev d' \<and> p_fbdev d' = Null"
proof -
  let ?d = "d\<lparr>drm_registered := False, polling := False\<rparr>"
  obtain d1 f1 where d1: "evdi_fbdev_unplug ?d = Inr d1" "but_console ?d d1" "p_fbdev d1 = Live f1" "efb_obj f1 = efb_obj f"
    using unplug_outcome [of ?d f] assms by auto
  have b: "dev_private d1" "priv d1 = Live ()" "p_painter d1 = Live ()" "p_cursor d1 = Live ()" "release_action d1"
    using d1(2) assms by (simp_all add: but_console_def)
  note cl = cleanup_outcome [OF b(1,2)]
  show ?thesis
  proof (cases "efb_obj f = Freed")
    case True
    then show ?thesis
      using cl(3) [OF d1(3)] d1(1,4) by (simp add: evdi_drm_device_remove_def evdi_drm_device_deinit_def)
  next
    case False
    then obtain d2 where d2: "evdi_fbdev_cleanup d1 = Inr d2" "but_console d1 d2" "p_fbdev d2 = Null" using cl(4) [OF d1(3)] d1(4) by auto
    obtain d3 where "evdi_drm_device_release_cb (d2\<lparr>release_action := False\<rparr>) = Inr d3" "gone_dev d3" "p_fbdev d3 = Null"
      using release_cb_outcome [of "d2\<lparr>release_action := False\<rparr>"] b d2 by (auto simp: but_console_def)
    then show ?thesis
      using False d1(1) d2 b by (simp add: evdi_drm_device_remove_def evdi_drm_device_deinit_def drm_dev_put_def but_console_def)
  qed
qed



section \<open>Drawing on the console and mapping it\<close>

text \<open>
  Nothing drawn on the console ever reaches the daemon. The framebuffer of a console comes zeroed with the console's structure and
  its flag \<^verbatim>\<open>active\<close> is never set, neither by the construction nor by any later one; and without the flag filling,
  copying and drawing on the console leave the device as it was: no scanout buffer is set and no pixel becomes dirty.
\<close>

theorem console_never_marked:
  assumes "evdi_drm_device_create env = Inr (0, d)" "env_config env = (\<lambda>c. c)"
  shows "\<exists>f. p_fbdev d = Live f \<and> \<not> efb_active f \<and>
    (fb_active fb = efb_active f \<longrightarrow> evdi_fb_fillrect fb x y w h evdi = Inr evdi \<and> evdi_fb_copyarea fb x y w h evdi = Inr evdi \<and>
      evdi_fb_imageblit fb x y w h evdi = Inr evdi)"
proof -
  have "env_alloc env = 0" using assms(1) by (auto simp: evdi_drm_device_create_def split: if_splits)
  then have create: "evdi_drm_device_create env = ebind (evdi_drm_device_init env drm_dev_zero) (\<lambda>(ret, d).
     let ret = (if ret \<noteq> 0 then ret else env_register env)
     in if ret \<noteq> 0 then ebind (drm_dev_put d) (\<lambda>d. Inr (ret, d)) else Inr (0, d\<lparr>drm_registered := True\<rparr>))"
    by (simp add: evdi_drm_device_create_def)
  have "\<not> setup_faults env UseAfterFree" "\<not> setup_faults env NullDeref"
    using init_outcome(1) [OF assms(2)] assms(1) by (auto simp: create)
  moreover have "\<not> setup_dangles env"
    using init_outcome(2) [OF assms(2)] assms(1) by (auto simp: create Let_def ebind_eq_Inr)
  moreover have "env_evdi env \<and> env_painter env"
  proof (rule ccontr)
    assume "\<not> (env_evdi env \<and> env_painter env)"
    then obtain d0 where "evdi_drm_device_init env drm_dev_zero = Inr (- ENOMEM, d0)" using init_outcome(4) [OF assms(2)] by blast
    then show False using assms(1) by (simp add: create Let_def ebind_eq_Inr ENOMEM_def)
  qed
  ultimately have "setup_works env" by (auto simp: setup_faults_def setup_dangles_def setup_works_def split: if_splits)
  then obtain d0 where d0: "evdi_drm_device_init env drm_dev_zero = Inr (0, d0)" "live_dev d0"
    using init_outcome(3) [OF assms(2)] by blast
  then have "p_fbdev d = p_fbdev d0"
    using assms(1) by (auto simp: create Let_def ebind_eq_Inr split: if_splits)
  then show ?thesis
    using d0(2) by (auto simp: live_dev_def evdi_fb_fillrect_def evdi_fb_copyarea_def evdi_fb_imageblit_def evdi_handle_damage_def Let_def)
qed

theorem console_never_marked_witness:
  "\<exists>d f. evdi_drm_device_create good_env = Inr (0, d) \<and> p_fbdev d = Live f \<and>
    evdi_fb_fillrect (demo_fb\<lparr>fb_active := efb_active f\<rparr>) 0 0 2 2 (demo_device []) = Inr (demo_device [])"
proof -
  obtain d where d: "evdi_drm_device_create good_env = Inr (0, d)"
    by (simp add: evdi_drm_device_create_def evdi_drm_device_init_def good_env_def evdi_fbdev_init_def get_priv_def)
  have c: "env_config good_env = (\<lambda>c. c)" by (simp add: good_env_def)
  obtain f where f: "p_fbdev d = Live f" "\<not> efb_active f" using console_never_marked [OF d c] by blast
  then show ?thesis
    using console_never_marked [OF d c, of "demo_fb\<lparr>fb_active := efb_active f\<rparr>" 0 0 2 2 "demo_device []"] d by auto
qed

definition console_pages :: "u64 \<Rightarrow> u64 \<Rightarrow> u64 \<Rightarrow> (u64 \<times> u64) list" where
  "console_pages start pos sz =
    map (\<lambda>i. (start + 4096 * of_nat i, pos + 4096 * of_nat i)) [0..<(unat sz + 4095) div 4096]"

lemma console_pages_step:
  assumes "sz \<noteq> 0"
  shows "console_pages start pos sz = (start, pos) # console_pages (start + 4096) (pos + 4096) (if 4096 < sz then sz - 4096 else 0)"
proof -
  let ?rest = "if 4096 < sz then sz - 4096 else 0"
  have pos: "0 < unat sz" using assms by (simp add: unat_gt_0)
  have "(unat sz + 4095) div 4096 = Suc ((unat ?rest + 4095) div 4096)"
  proof (cases "4096 < sz")
    case True
    then have "4096 < unat sz" by (simp add: word_less_nat_alt)
    moreover have "unat (sz - 4096) = unat sz - 4096" using True by (simp add: unat_sub)
    ultimately show ?thesis using True by simp
  next
    case False
    then have "unat sz \<le> 4096" by (simp add: word_less_nat_alt)
    then show ?thesis using False pos by (simp add: div_nat_eqI)
  qed
  moreover have "v + 4096 * of_nat (Suc i) = v + 4096 + 4096 * of_nat i" for v :: u64 and i by (simp add: algebra_simps)
  ultimately show ?thesis unfolding console_pages_def by (simp only: map_upt_Suc) simp
qed

lemma mmap_loop_all: "mmap_loop (\<lambda>_. False) start pos sz maps = (0, maps @ console_pages start pos sz)"
proof (induction "\<lambda>_ :: u64. False" start pos sz maps rule: mmap_loop.induct)
  case (1 start pos sz maps)
  show ?case
  proof (cases "sz = 0")
    case True
    then show ?thesis by (simp add: mmap_loop.simps console_pages_def)
  next
    case False
    have "\<not> False" by simp
    show ?thesis
      unfolding mmap_loop.simps [of _ start] if_not_P [OF False] if_False 1 [OF False \<open>\<not> False\<close>]
      unfolding console_pages_step [OF False] by (simp only: append.simps append_assoc)
  qed
qed

text \<open>
  Mapping the console maps exactly its memory. A request is refused unless it lies within the framebuffer's memory, without any
  overflow of the offset or the end; otherwise, when the kernel can map the pages, page by page of the client
  shows page by page of the console from the offset on, the last one whole.
\<close>

theorem console_mmap_exact:
  "evdi_fb_mmap (\<lambda>_. False) smem_start smem_len vm_start vm_end vm_pgoff =
    (if unat vm_pgoff * 4096 + unat (vm_end - vm_start) \<le> unat smem_len
     then (0, console_pages vm_start (smem_start + 4096 * vm_pgoff) (vm_end - vm_start)) else (- EINVAL, []))"
proof -
  let ?sz = "vm_end - vm_start" and ?off = "push_bit 12 vm_pgoff" and ?len = "ucast smem_len :: u64"
  have len: "unat ?len = unat smem_len" "unat smem_len < 4294967296" by (simp_all add: unat_ucast_up unat_lt_2_32)
  have m: "?off = 4096 * vm_pgoff" by (simp add: push_bit_eq_mult)
  have top: "unat (drop_bit 12 (NOT 0) :: u64) = 4503599627370495" by (simp add: unsigned_drop_bit_eq drop_bit_eq_div unsigned_not_eq)
  show ?thesis
  proof (cases "drop_bit 12 (NOT 0) < vm_pgoff")
    case True
    then have "4503599627370495 < unat vm_pgoff" unfolding word_less_nat_alt top .
    then show ?thesis using True len(2) by (simp add: evdi_fb_mmap_def)
  next
    case False
    then have "unat vm_pgoff \<le> 4503599627370495" unfolding word_less_nat_alt top by simp
    then have off: "unat ?off = unat vm_pgoff * 4096" unfolding m using unat_mult_no_wrap [of 4096 vm_pgoff] by simp
    have "(?len < ?off \<or> ?len - ?off < ?sz) \<longleftrightarrow> \<not> unat vm_pgoff * 4096 + unat ?sz \<le> unat smem_len"
    proof (cases "?len < ?off")
      case True
      then show ?thesis unfolding word_less_nat_alt off len(1) by simp
    next
      case False
      then have le: "?off \<le> ?len" by simp
      then have "unat (?len - ?off) = unat smem_len - unat vm_pgoff * 4096" "unat vm_pgoff * 4096 \<le> unat smem_len"
        using off len(1) by (simp_all add: unat_sub word_le_nat_alt)
      then show ?thesis using False unfolding word_less_nat_alt off len(1) by (auto simp: word_le_nat_alt)
    qed
    then show ?thesis using False by (simp add: evdi_fb_mmap_def Let_def mmap_loop_all m)
  qed
qed

end
