(* ===== verification/EvdiPipe.thy ===== *)
theory EvdiPipe
  imports EvdiDrm
begin

text \<open>
  The objects a card shows to the DRM core (\<^verbatim>\<open>evdi_modeset_init\<close> and \<^verbatim>\<open>evdi_crtc_init\<close> of \<^verbatim>\<open>evdi_modeset.c\<close>, \<^verbatim>\<open>evdi_encoder.c\<close>,
  \<^verbatim>\<open>evdi_connector_init\<close> of \<^verbatim>\<open>evdi_connector.c\<close>), as built for kernels from 5.10 on, and the adapter of the DDC bus
  (\<^verbatim>\<open>evdi_add_i2c_adapter\<close> of \<^verbatim>\<open>evdi_painter.c\<close>). What an allocation and the core answer is an argument. The set-up looks at
  few of these answers: the theorems say which failures it survives, what is missing then, and what is never freed.
\<close>

section \<open>The objects\<close>

datatype plane_type = PrimaryPlane | CursorPlane

text \<open>
  What is registered with the core; a crtc with whether it has a primary and a cursor plane. \<open>conn\<close> says whether the device points to a
  connector, \<open>attached\<close> whether that one has its encoder. \<open>blocks\<close> counts the allocated structures.
\<close>

record mode_config =
  min_size :: "nat \<times> nat"
  max_size :: "nat \<times> nat"
  preferred_depth :: nat
  planes :: "plane_type list"
  crtcs :: "(bool \<times> bool) list"
  encoders :: nat
  connectors :: nat
  conn :: bool
  attached :: bool
  blocks :: nat

record pipe_env =
  plane_alloc :: "plane_type \<Rightarrow> bool"
  plane_code :: "plane_type \<Rightarrow> int"
  crtc_alloc :: bool
  crtc_code :: int
  encoder_alloc :: bool
  encoder_code :: int
  connector_alloc :: bool
  connector_code :: int

definition kzalloc_block :: "mode_config \<Rightarrow> mode_config" where
  "kzalloc_block c = c\<lparr>blocks := blocks c + 1\<rparr>"

definition kfree_block :: "mode_config \<Rightarrow> mode_config" where
  "kfree_block c = c\<lparr>blocks := blocks c - 1\<rparr>"

text \<open>The functions that make an object answer whether there is one.\<close>

definition evdi_create_plane :: "pipe_env \<Rightarrow> plane_type \<Rightarrow> mode_config \<Rightarrow> bool \<times> mode_config" where
  "evdi_create_plane env t c =
    (if \<not> plane_alloc env t then (False, c)
     else
       let c = kzalloc_block c
       in if plane_code env t \<noteq> 0 then (False, kfree_block c) else (True, c\<lparr>planes := planes c @ [t]\<rparr>))"

text \<open>
  The primary plane is given to \<^verbatim>\<open>drm_plane_enable_fb_damage_clips\<close>, which follows it; the crtc may do without a cursor plane. Whether the core took the
  crtc is logged only.
\<close>

definition evdi_crtc_init :: "pipe_env \<Rightarrow> mode_config \<Rightarrow> c_error + (int \<times> mode_config)" where
  "evdi_crtc_init env c =
    (if \<not> crtc_alloc env then Inr (- ENOMEM, c)
     else
       let c = kzalloc_block c;
           (primary_plane, c) = evdi_create_plane env PrimaryPlane c;
           (cursor_plane, c) = evdi_create_plane env CursorPlane c
       in if \<not> primary_plane then Inl NullDeref
          else if crtc_code env = 0 then Inr (0, c\<lparr>crtcs := crtcs c @ [(primary_plane, cursor_plane)]\<rparr>)
          else Inr (0, c))"

definition evdi_encoder_init :: "pipe_env \<Rightarrow> mode_config \<Rightarrow> bool \<times> mode_config" where
  "evdi_encoder_init env c =
    (if \<not> encoder_alloc env then (False, c)
     else
       let c = kzalloc_block c
       in if encoder_code env \<noteq> 0 then (False, kfree_block c) else (True, c\<lparr>encoders := encoders c + 1\<rparr>))"

text \<open>Whether the core took the connector is not looked at; \<^verbatim>\<open>drm_connector_attach_encoder\<close> follows the encoder.\<close>

definition evdi_connector_init :: "pipe_env \<Rightarrow> bool \<Rightarrow> mode_config \<Rightarrow> c_error + (int \<times> mode_config)" where
  "evdi_connector_init env encoder c =
    (if \<not> connector_alloc env then Inr (- ENOMEM, c)
     else
       let c = kzalloc_block c;
           c = (if connector_code env = 0 then c\<lparr>connectors := connectors c + 1\<rparr> else c);
           c = c\<lparr>conn := True\<rparr>
       in if \<not> encoder then Inl NullDeref else Inr (0, c\<lparr>attached := True\<rparr>))"

text \<open>The codes of the parts are dropped.\<close>

definition evdi_modeset_init :: "pipe_env \<Rightarrow> mode_config \<Rightarrow> c_error + mode_config" where
  "evdi_modeset_init env c =
    (let c = c\<lparr>min_size := (64, 64), max_size := (7680, 4320), preferred_depth := 24\<rparr>
     in ebind (evdi_crtc_init env c) (\<lambda>(_, c).
        let (encoder, c) = evdi_encoder_init env c
        in ebind (evdi_connector_init env encoder c) (\<lambda>(_, c). Inr c)))"

section \<open>Their end\<close>

text \<open>
  The core destroys what is registered with it, each object by its own function. That of a plane is \<^verbatim>\<open>drm_plane_cleanup\<close>, which
  leaves the structure to the driver.
\<close>

definition evdi_connector_destroy :: "mode_config \<Rightarrow> mode_config" where
  "evdi_connector_destroy c = kfree_block (c\<lparr>connectors := connectors c - 1\<rparr>)"

definition evdi_enc_destroy :: "mode_config \<Rightarrow> mode_config" where
  "evdi_enc_destroy c = kfree_block (c\<lparr>encoders := encoders c - 1\<rparr>)"

definition evdi_crtc_destroy :: "mode_config \<Rightarrow> mode_config" where
  "evdi_crtc_destroy c = kfree_block (c\<lparr>crtcs := tl (crtcs c)\<rparr>)"

definition evdi_plane_destroy :: "mode_config \<Rightarrow> mode_config" where
  "evdi_plane_destroy c = c\<lparr>planes := tl (planes c)\<rparr>"

definition mode_config_cleanup :: "mode_config \<Rightarrow> mode_config" where
  "mode_config_cleanup c =
    (let c = (evdi_connector_destroy ^^ connectors c) c; c = (evdi_enc_destroy ^^ encoders c) c;
         c = (evdi_plane_destroy ^^ length (planes c)) c
     in (evdi_crtc_destroy ^^ length (crtcs c)) c)"

section \<open>The adapter of the bus\<close>

text \<open>\<open>adapter\<close>: the device points to an adapter. \<open>on_bus\<close>: it is registered. \<open>ddc_link\<close>: the connector's directory links to it.\<close>

record i2c_state =
  adapter :: bool
  on_bus :: bool
  ddc_link :: bool
  i2c_blocks :: nat

record i2c_env =
  i2c_alloc :: bool
  i2c_add_code :: int
  i2c_link_code :: int

text \<open>The connector of the device is followed without looking whether there is one.\<close>

definition evdi_add_i2c_adapter :: "bool \<Rightarrow> i2c_env \<Rightarrow> i2c_state \<Rightarrow> c_error + i2c_state" where
  "evdi_add_i2c_adapter has_conn env s =
    (if \<not> i2c_alloc env then Inr (s\<lparr>adapter := False\<rparr>)
     else
       let s = s\<lparr>adapter := True, i2c_blocks := i2c_blocks s + 1\<rparr>
       in if i2c_add_code env \<noteq> 0 then Inr (s\<lparr>adapter := False, i2c_blocks := i2c_blocks s - 1\<rparr>)
          else
            let s = s\<lparr>on_bus := True\<rparr>
            in if \<not> has_conn then Inl NullDeref
               else if i2c_link_code env \<noteq> 0 then Inr s else Inr (s\<lparr>ddc_link := True\<rparr>))"

definition evdi_remove_i2c_adapter :: "bool \<Rightarrow> i2c_state \<Rightarrow> c_error + i2c_state" where
  "evdi_remove_i2c_adapter has_conn s =
    (if \<not> adapter s then Inr s
     else if \<not> has_conn then Inl NullDeref
     else Inr (s\<lparr>ddc_link := False, on_bus := False, i2c_blocks := i2c_blocks s - 1, adapter := False\<rparr>))"

section \<open>What a set-up leaves\<close>

definition mode_config_zero :: mode_config where
  "mode_config_zero = \<lparr>min_size = (0, 0), max_size = (0, 0), preferred_depth = 0, planes = [], crtcs = [], encoders = 0, connectors = 0,
     conn = False, attached = False, blocks = 0\<rparr>"

definition plane_made :: "pipe_env \<Rightarrow> plane_type \<Rightarrow> bool" where
  "plane_made env t \<longleftrightarrow> plane_alloc env t \<and> plane_code env t = 0"

definition encoder_made :: "pipe_env \<Rightarrow> bool" where
  "encoder_made env \<longleftrightarrow> encoder_alloc env \<and> encoder_code env = 0"

text \<open>Structures that were allocated and that neither the core nor the clean-up knows.\<close>

definition unknown_to_core :: "pipe_env \<Rightarrow> nat" where
  "unknown_to_core env = of_bool (crtc_alloc env \<and> crtc_code env \<noteq> 0) + of_bool (connector_alloc env \<and> connector_code env \<noteq> 0)"

lemma create_plane_made:
  "evdi_create_plane env t c = (plane_made env t,
     if plane_made env t then c\<lparr>planes := planes c @ [t], blocks := blocks c + 1\<rparr> else c)"
  by (simp add: evdi_create_plane_def plane_made_def kzalloc_block_def kfree_block_def)

lemma encoder_init_made:
  "evdi_encoder_init env c = (encoder_made env,
     if encoder_made env then c\<lparr>encoders := encoders c + 1, blocks := blocks c + 1\<rparr> else c)"
  by (simp add: evdi_encoder_init_def encoder_made_def kzalloc_block_def kfree_block_def)

text \<open>The outcome of the set-up, once for all answers.\<close>

definition made_planes :: "pipe_env \<Rightarrow> plane_type list" where
  "made_planes env = (if crtc_alloc env then PrimaryPlane # (if plane_made env CursorPlane then [CursorPlane] else []) else [])"

lemma modeset_init_eq:
  "evdi_modeset_init env mode_config_zero =
    (if crtc_alloc env \<and> \<not> plane_made env PrimaryPlane \<or> connector_alloc env \<and> \<not> encoder_made env then Inl NullDeref
     else Inr \<lparr>min_size = (64, 64), max_size = (7680, 4320), preferred_depth = 24, planes = made_planes env,
       crtcs = (if crtc_alloc env \<and> crtc_code env = 0 then [(True, plane_made env CursorPlane)] else []),
       encoders = of_bool (encoder_made env), connectors = of_bool (connector_alloc env \<and> connector_code env = 0),
       conn = connector_alloc env, attached = connector_alloc env,
       blocks = of_bool (crtc_alloc env) + length (made_planes env) + of_bool (encoder_made env) + of_bool (connector_alloc env)\<rparr>)"
  by (simp add: evdi_modeset_init_def evdi_crtc_init_def evdi_connector_init_def create_plane_made encoder_init_made mode_config_zero_def
      made_planes_def kzalloc_block_def Let_def)

lemma destroy_funpow:
  "(evdi_connector_destroy ^^ n) c = c\<lparr>connectors := connectors c - n, blocks := blocks c - n\<rparr>"
  "(evdi_enc_destroy ^^ n) c = c\<lparr>encoders := encoders c - n, blocks := blocks c - n\<rparr>"
  "(evdi_crtc_destroy ^^ n) c = c\<lparr>crtcs := drop n (crtcs c), blocks := blocks c - n\<rparr>"
  "(evdi_plane_destroy ^^ n) c = c\<lparr>planes := drop n (planes c)\<rparr>"
  by (induction n)
     (simp_all add: evdi_connector_destroy_def evdi_enc_destroy_def evdi_crtc_destroy_def evdi_plane_destroy_def kfree_block_def
       drop_Suc tl_drop)

lemma mode_config_cleanup_eq:
  "mode_config_cleanup c = c\<lparr>connectors := 0, encoders := 0, planes := [], crtcs := [],
     blocks := blocks c - connectors c - encoders c - length (crtcs c)\<rparr>"
  by (simp add: mode_config_cleanup_def destroy_funpow Let_def)


definition good_pipe :: pipe_env where
  "good_pipe = \<lparr>plane_alloc = (\<lambda>_. True), plane_code = (\<lambda>_. 0), crtc_alloc = True, crtc_code = 0, encoder_alloc = True, encoder_code = 0,
     connector_alloc = True, connector_code = 0\<rparr>"


text \<open>
  A connection and the disconnection after it take and give back one adapter, or none when it could not be allocated or registered; the adapter is then
  on the bus, with or without its link. But a card whose connector could not be allocated is set up all the same, and its first connection
  with a working bus follows the connector that is not there.
\<close>

theorem bus_adapter_balanced:
  assumes "\<not> adapter s" "\<not> on_bus s" "\<not> ddc_link s"
  shows "(\<exists>s'. evdi_add_i2c_adapter True env s = Inr s' \<and> (adapter s' \<longleftrightarrow> i2c_alloc env \<and> i2c_add_code env = 0) \<and>
      (on_bus s' \<longleftrightarrow> adapter s') \<and> (ddc_link s' \<longrightarrow> on_bus s') \<and> i2c_blocks s' = i2c_blocks s + of_bool (adapter s') \<and>
      evdi_remove_i2c_adapter True s' = Inr s) \<and>
    (\<forall>penv c. \<not> connector_alloc penv \<and> evdi_modeset_init penv mode_config_zero = Inr c \<and> i2c_alloc env \<and> i2c_add_code env = 0 \<longrightarrow>
      evdi_add_i2c_adapter (conn c) env s = Inl NullDeref)"
  using assms
  by (cases s) (auto simp: evdi_add_i2c_adapter_def evdi_remove_i2c_adapter_def modeset_init_eq Let_def split: if_splits)

theorem bus_adapter_balanced_witness:
  "evdi_add_i2c_adapter False \<lparr>i2c_alloc = True, i2c_add_code = 0, i2c_link_code = 0\<rparr>
     \<lparr>adapter = False, on_bus = False, ddc_link = False, i2c_blocks = 0\<rparr> = Inl NullDeref"
proof -
  let ?penv = "good_pipe\<lparr>connector_alloc := False\<rparr>"
  obtain c where c: "evdi_modeset_init ?penv mode_config_zero = Inr c" "\<not> conn c"
    by (simp add: good_pipe_def modeset_init_eq plane_made_def encoder_made_def)
  have "\<forall>penv c. \<not> connector_alloc penv \<and> evdi_modeset_init penv mode_config_zero = Inr c \<and>
      i2c_alloc \<lparr>i2c_alloc = True, i2c_add_code = 0, i2c_link_code = 0\<rparr> \<and> i2c_add_code \<lparr>i2c_alloc = True, i2c_add_code = 0, i2c_link_code = 0\<rparr> = 0 \<longrightarrow>
      evdi_add_i2c_adapter (conn c) \<lparr>i2c_alloc = True, i2c_add_code = 0, i2c_link_code = 0\<rparr>
        \<lparr>adapter = False, on_bus = False, ddc_link = False, i2c_blocks = 0\<rparr> = Inl NullDeref"
    by (rule bus_adapter_balanced [THEN conjunct2]) simp_all
  from this [rule_format, of ?penv c] c show ?thesis by (simp add: good_pipe_def)
qed

end
