(* ===== verification/PixelClock.thy ===== *)
theory PixelClock
  imports UsbDongle Complex_Main
begin

text \<open>
  \<^verbatim>\<open>T6CalculatePixelClock\<close> of \<^verbatim>\<open>evdi_t6_1/t6usbdongle.c\<close>: the divider of the adapter's clock generator for a pixel clock. The C
  code computes in \<^verbatim>\<open>double\<close>; here a \<^verbatim>\<open>double\<close> is the rational number it stands for, and every operation is the exact one
  followed by \<open>rnd\<close>, the rounding of IEEE 754 to 53 bits, to the nearest and to even. The numbers that occur are zero or between \<open>2 ^ - 60\<close>
  and \<open>2 ^ 11\<close>, so there is no overflow and no subnormal number.

  Shown: the integer part is exact and the fraction is at most one step below the wanted one; and the step is lost for one clock in
  fourteen, among them the one of 1080p60.
\<close>

section \<open>Doubles\<close>

function bits :: "int \<Rightarrow> int" where
  "bits n = (if n \<le> 0 then 0 else bits (n div 2) + 1)"
  by auto
termination
  by (relation "measure nat") auto

declare bits.simps [simp del]

text \<open>The exponent of the last bit of the 53 of a positive number.\<close>

definition last_bit :: "rat \<Rightarrow> int" where
  "last_bit x =
    (let (n, d) = quotient_of x; e = bits n - bits d - 53
     in if x < 2 powi (e + 53) then e else e + 1)"

definition round_even :: "rat \<Rightarrow> int" where
  "round_even y =
    (let f = \<lfloor>y\<rfloor>; r = y - of_int f
     in if r < 1 / 2 then f else if 1 / 2 < r then f + 1 else if even f then f else f + 1)"

definition rnd :: "rat \<Rightarrow> rat" where
  "rnd x = (if x \<le> 0 then 0 else let e = last_bit x in of_int (round_even (x / 2 powi e)) * 2 powi e)"

section \<open>The divider\<close>

text \<open>The result is \<open>(N, P, Q, VideoSelect)\<close>, or \<open>None\<close> where the C function answers \<open>- 1\<close>.\<close>

fun divider_loop :: "rat \<Rightarrow> int \<Rightarrow> int \<Rightarrow> u64 list \<Rightarrow> (u64 \<times> u64 \<times> u64 \<times> u64) option" where
  "divider_loop fMhz base x [] = None"
| "divider_loop fMhz base x (select # selects) =
    (if 800 \<le> rnd (fMhz * of_int x) then
       let q = rnd (rnd (fMhz * of_int x) / of_int base);
           N = \<lfloor>q\<rfloor>;
           P = \<lfloor>rnd (rnd (q - of_int N) * 1000)\<rfloor>
       in Some (word_of_int N, word_of_int P, 1000, select)
     else if 1600 < rnd (fMhz * of_int x) then None
     else divider_loop fMhz base (x * 2) selects)"

definition T6CalculatePixelClock :: "u32 \<Rightarrow> int \<Rightarrow> (u64 \<times> u64 \<times> u64 \<times> u64) option" where
  "T6CalculatePixelClock ulPixelClock ulBaseFreq =
    (if ulPixelClock < 25000 \<or> 400000 < ulPixelClock then None
     else divider_loop (rnd (of_int (uint ulPixelClock) / 1000)) ulBaseFreq 4 [3, 1, 2, 0])"

section \<open>How far rounding goes\<close>

lemma bits_bounds:
  assumes "0 < n"
  shows "0 < bits n \<and> 2 ^ nat (bits n - 1) \<le> n \<and> n < 2 ^ nat (bits n)"
  using assms
proof (induction n rule: bits.induct)
  case (1 n)
  show ?case
  proof (cases "n = 1")
    case True
    then show ?thesis by (simp add: bits.simps)
  next
    case False
    then have h: "0 < n div 2" using 1(2) by simp
    note ih = 1(1) [OF _ h]
    have b: "bits n = bits (n div 2) + 1" using 1(2) by (subst bits.simps) simp
    have i: "0 < bits (n div 2)" "2 ^ nat (bits (n div 2) - 1) \<le> n div 2" "n div 2 < 2 ^ nat (bits (n div 2))"
      using ih 1(2) by auto
    have e: "nat (bits n - 1) = Suc (nat (bits (n div 2) - 1))" "nat (bits n) = Suc (nat (bits (n div 2)))"
      using b i(1) by auto
    have "2 * (n div 2) \<le> n" "n < 2 * (n div 2) + 2" by auto
    then show ?thesis unfolding e power_Suc using b i by linarith
  qed
qed

lemma last_bit_range:
  assumes "0 < x"
  shows "2 ^ 52 \<le> x / 2 powi last_bit x \<and> x / 2 powi last_bit x < 2 ^ 53"
proof -
  obtain n d where q: "quotient_of x = (n, d)" by fastforce
  have x: "x = of_int n / of_int d" using quotient_of_div [OF q] .
  have d: "0 < d" using quotient_of_denom_pos [OF q] .
  have n: "0 < n" using assms d unfolding x by (simp add: zero_less_divide_iff)
  let ?a = "bits n" and ?b = "bits d"
  have bn: "0 < ?a" "2 ^ nat (?a - 1) \<le> n" "n < 2 ^ nat ?a" using bits_bounds [OF n] by auto
  have bd: "0 < ?b" "2 ^ nat (?b - 1) \<le> d" "d < 2 ^ nat ?b" using bits_bounds [OF d] by auto
  have pw: "(2 :: rat) powi k = 2 ^ nat k" if "0 \<le> k" for k using that by (simp add: power_int_def)
  have rn: "(2 :: rat) powi (?a - 1) \<le> of_int n" "of_int n < (2 :: rat) powi ?a"
    using bn by (simp_all add: pw)
  have rd: "(2 :: rat) powi (?b - 1) \<le> of_int d" "of_int d < (2 :: rat) powi ?b"
    using bd by (simp_all add: pw)
  have dp: "(0 :: rat) < of_int d" using d by simp
  have lower: "2 powi (?a - ?b - 1) < x"
  proof -
    have "2 powi (?a - ?b - 1) * of_int d < 2 powi (?a - ?b - 1) * (2 :: rat) powi ?b" using rd(2) by simp
    also have "\<dots> = 2 powi (?a - 1)" by (simp add: power_int_add [symmetric])
    also have "\<dots> \<le> of_int n" by (rule rn(1))
    finally show ?thesis unfolding x using dp by (simp add: pos_less_divide_eq)
  qed
  have upper: "x < 2 powi (?a - ?b + 1)"
  proof -
    have "of_int n < (2 :: rat) powi ?a" by (rule rn(2))
    also have "\<dots> = 2 powi (?a - ?b + 1) * 2 powi (?b - 1)" by (simp add: power_int_add [symmetric])
    also have "\<dots> \<le> 2 powi (?a - ?b + 1) * of_int d" using rd(1) by simp
    finally show ?thesis unfolding x using dp by (simp add: pos_divide_less_eq)
  qed
  define e where "e = ?a - ?b - 53"
  have s: "2 powi (?a - ?b - 1) = 2 powi e * (2 :: rat) ^ 52" "2 powi (?a - ?b + 1) = 2 powi e * (2 :: rat) ^ 54"
    "2 powi (e + 53) = 2 powi e * (2 :: rat) ^ 53" "2 powi (e + 1) = 2 powi e * (2 :: rat)"
    using power_int_add [of "2 :: rat" e 52] power_int_add [of "2 :: rat" e 54] power_int_add [of "2 :: rat" e 53]
      power_int_add [of "2 :: rat" e 1] by (simp_all add: e_def algebra_simps)
  have lb: "last_bit x = (if x < 2 powi (e + 53) then e else e + 1)"
    by (simp add: last_bit_def q Let_def e_def)
  show ?thesis
  proof (cases "x < 2 powi (e + 53)")
    case True
    then have "last_bit x = e" by (simp add: lb)
    then show ?thesis using True lower unfolding s by (simp add: pos_le_divide_eq pos_divide_less_eq mult_ac)
  next
    case False
    then have "last_bit x = e + 1" by (simp add: lb)
    then show ?thesis using False upper unfolding s by (simp only: s(4)) (simp add: pos_le_divide_eq pos_divide_less_eq mult_ac)
  qed
qed

lemma round_even_near: "\<bar>of_int (round_even y) - y\<bar> \<le> 1 / 2"
proof -
  define f where "f = \<lfloor>y\<rfloor>"
  have "of_int f \<le> y" "y < of_int f + 1" unfolding f_def by linarith+
  then show ?thesis unfolding round_even_def Let_def f_def [symmetric] by (auto simp: abs_le_iff)
qed

lemma round_even_int [simp]: "round_even (of_int n) = n"
  by (simp add: round_even_def)

lemma last_bit_range':
  assumes "0 < x"
  shows "2 ^ 52 * 2 powi last_bit x \<le> x" "x < 2 ^ 53 * 2 powi last_bit x"
  using last_bit_range [OF assms] by (simp_all add: pos_le_divide_eq pos_divide_less_eq)

text \<open>The error of one operation is at most half a unit in the last of 53 places.\<close>

lemma rnd_near:
  assumes "0 \<le> x"
  shows "\<bar>rnd x - x\<bar> \<le> x / 2 ^ 53"
proof (cases "x = 0")
  case False
  then have x: "0 < x" using assms by simp
  let ?u = "(2 :: rat) powi last_bit x"
  have u: "0 < ?u" by simp
  have "\<bar>rnd x - x\<bar> = \<bar>of_int (round_even (x / ?u)) - x / ?u\<bar> * ?u"
  proof -
    have "rnd x - x = (of_int (round_even (x / ?u)) - x / ?u) * ?u"
      using x u by (simp add: rnd_def Let_def left_diff_distrib)
    then show ?thesis using u by (simp add: abs_mult)
  qed
  also have "\<dots> \<le> 1 / 2 * ?u" using round_even_near u by (intro mult_right_mono) auto
  also have "\<dots> \<le> x / 2 ^ 53"
    using last_bit_range' (1) [OF x] by simp
  finally show ?thesis .
qed (simp add: rnd_def)

lemma rnd_nonneg: "0 \<le> x \<Longrightarrow> 0 \<le> rnd x"
proof -
  assume x: "0 \<le> x"
  then have "x / 2 ^ 53 \<le> x" by (simp add: field_simps)
  then show ?thesis using rnd_near [OF x] by linarith
qed

text \<open>A number of at most 53 bits is not changed.\<close>

lemma rnd_dyadic:
  assumes "0 \<le> n" "n < 2 ^ 53"
  shows "rnd (of_int n / 2 ^ k) = of_int n / 2 ^ k"
proof (cases "n = 0")
  case False
  let ?x = "(of_int n :: rat) / 2 ^ k"
  have x: "0 < ?x" using False assms(1) by simp
  let ?e = "last_bit ?x"
  have "2 ^ 52 * 2 powi ?e \<le> ?x" by (rule last_bit_range' (1) [OF x])
  also have "?x < 2 ^ 53 / 2 ^ k"
  proof (rule divide_strict_right_mono)
    have "(of_int n :: rat) < of_int (2 ^ 53)" using assms(2) by (simp only: of_int_less_iff)
    then show "(of_int n :: rat) < 2 ^ 53" by simp
  qed simp
  finally have "2 powi ?e < (2 :: rat) powi (1 - int k)"
    by (simp add: power_int_diff field_simps)
  then have e: "?e \<le> - int k"
    using power_int_increasing [of "1 - int k" ?e "2 :: rat"] by (cases "1 - int k \<le> ?e") auto
  define m where "m = nat (- int k - ?e)"
  have m: "?e = - int (k + m)" using e by (simp add: m_def)
  have "?x / 2 powi ?e = of_int (n * 2 ^ m)"
    unfolding m by (simp only: power_int_minus power_int_of_nat power_add) (simp add: field_simps)
  then show ?thesis using x by (simp only: rnd_def Let_def round_even_int not_le if_False flip: not_le) (simp add: field_simps)
qed (simp add: rnd_def)

section \<open>The divider is close\<close>

text \<open>Three roundings of numbers of this size move them by less than \<open>10 ^ - 9\<close>.\<close>

lemma vco_near:
  assumes "0 \<le> c" "c \<le> 400000" "0 < x" "x \<le> 32"
  shows "\<bar>rnd (rnd (of_int c / 1000) * of_int x) - of_int (c * x) / 1000\<bar> \<le> 1 / 10 ^ 9"
    and "0 \<le> rnd (rnd (of_int c / 1000) * of_int x)"
proof -
  let ?c = "of_int c / 1000 :: rat" and ?x = "of_int x :: rat"
  have c: "0 \<le> ?c" "?c \<le> 400" using assms(1,2) by simp_all
  have x: "1 \<le> ?x" "?x \<le> 32" using assms(3,4) by simp_all
  have "\<bar>rnd ?c - ?c\<bar> \<le> ?c / 2 ^ 53" by (rule rnd_near [OF c(1)])
  also have "\<dots> \<le> 400 / 2 ^ 53" using c(2) by (rule divide_right_mono) simp
  finally have f: "\<bar>rnd ?c - ?c\<bar> \<le> 400 / 2 ^ 53" .
  have f0: "0 \<le> rnd ?c" by (rule rnd_nonneg [OF c(1)])
  have "(400 :: rat) / 2 ^ 53 \<le> 1" by simp
  then have f1: "rnd ?c \<le> 401" using f c(2) by linarith
  have p0: "0 \<le> rnd ?c * ?x" using f0 x by simp
  have p1: "rnd ?c * ?x \<le> 401 * 32" using f0 f1 x by (intro mult_mono) auto
  have v: "\<bar>rnd (rnd ?c * ?x) - rnd ?c * ?x\<bar> \<le> 401 * 32 / 2 ^ 53"
    using rnd_near [OF p0] p1 by (rule order_trans [OF _ divide_right_mono]) simp
  have "0 \<le> ?x" using x by simp
  then have "\<bar>rnd ?c * ?x - ?c * ?x\<bar> = \<bar>rnd ?c - ?c\<bar> * ?x" by (simp only: left_diff_distrib [symmetric] abs_mult abs_of_nonneg)
  also have "\<dots> \<le> 400 / 2 ^ 53 * 32" using f x by (intro mult_mono) auto
  finally have g: "\<bar>rnd ?c * ?x - ?c * ?x\<bar> \<le> 400 / 2 ^ 53 * 32" .
  have "\<bar>rnd (rnd ?c * ?x) - ?c * ?x\<bar> \<le> 401 * 32 / 2 ^ 53 + 400 / 2 ^ 53 * 32"
    using v g by linarith
  also have "\<dots> \<le> 1 / 10 ^ 9" by simp
  finally show "\<bar>rnd (rnd ?c * ?x) - of_int (c * x) / 1000\<bar> \<le> 1 / 10 ^ 9" by simp
  show "0 \<le> rnd (rnd ?c * ?x)" by (rule rnd_nonneg [OF p0])
qed

text \<open>A whole number of MHz is met exactly.\<close>

lemma vco_exact:
  assumes "c * 2 ^ k = 1000 * m" "0 \<le> m" "m < 2 ^ 53"
  shows "rnd (rnd (of_int c / 1000) * of_int (2 ^ k)) = of_int m"
proof -
  have "(of_int (c * 2 ^ k) :: rat) = of_int (1000 * m)" using assms(1) by simp
  then have "(of_int c / 1000 :: rat) = of_int m / 2 ^ k" by (simp add: field_simps)
  then have "rnd (of_int c / 1000) = of_int m / 2 ^ k" using rnd_dyadic [OF assms(2,3)] by simp
  then show ?thesis using rnd_dyadic [OF assms(2,3), of 0] by simp
qed

lemma vco_threshold:
  assumes "0 \<le> c" "c \<le> 400000" "k \<le> 5"
  shows "800 \<le> rnd (rnd (of_int c / 1000) * of_int (2 ^ k)) \<longleftrightarrow> 800000 \<le> c * 2 ^ k"
proof -
  have x: "0 < (2 ^ k :: int)" "(2 ^ k :: int) \<le> 32" using power_increasing [OF assms(3), of "2 :: int"] by simp_all
  let ?v = "rnd (rnd (of_int c / 1000) * of_int (2 ^ k))" and ?t = "of_int (c * 2 ^ k) / 1000 :: rat"
  have n: "\<bar>?v - ?t\<bar> \<le> 1 / 10 ^ 9" by (rule vco_near(1) [OF assms(1,2) x])
  consider "c * 2 ^ k = 800000" | "c * 2 ^ k \<le> 799999" | "800001 \<le> c * 2 ^ k" by linarith
  then show ?thesis
  proof cases
    case 1
    then show ?thesis using vco_exact [of c k 800] by simp
  next
    case 2
    then have "(of_int (c * 2 ^ k) :: rat) \<le> of_int 799999" by (simp only: of_int_le_iff)
    then have "?t \<le> 799999 / 1000" by simp
    moreover have "(1 :: rat) / 10 ^ 9 < 1 / 1000" by simp
    ultimately have "?v < 800" using n by linarith
    then show ?thesis using 2 by simp
  next
    case 3
    then have "of_int 800001 \<le> (of_int (c * 2 ^ k) :: rat)" by (simp only: of_int_le_iff)
    then have "800001 / 1000 \<le> ?t" by simp
    moreover have "(1 :: rat) / 10 ^ 9 < 1 / 1000" by simp
    ultimately have "800 < ?v" using n by linarith
    then show ?thesis using 3 by simp
  qed
qed

text \<open>The two numbers of the divider, for a clock multiplied into \<open>vco\<close> kHz: the rest is less than one step, or one step.\<close>

lemma quotient_near:
  assumes "0 \<le> c" "c \<le> 400000" "k \<le> 5" "1 \<le> base" "base \<le> 1000"
    and "vco = c * 2 ^ k" "v = rnd (rnd (of_int c / 1000) * of_int (2 ^ k))" "K = vco div (1000 * base)" "R = vco mod (1000 * base)"
  shows "\<bar>rnd (v / of_int base) - (of_int K + of_int R / (1000 * of_int base))\<bar> \<le> 2 / 10 ^ 9" "0 \<le> vco" "vco \<le> 400000 * 32"
proof -
  have x: "0 < (2 ^ k :: int)" "(2 ^ k :: int) \<le> 32" using power_increasing [OF assms(3), of "2 :: int"] by simp_all
  define q where "q = rnd (v / of_int base)"
  have vco: "vco = 1000 * base * K + R" by (simp add: assms(8,9))
  have v: "\<bar>v - of_int vco / 1000\<bar> \<le> 1 / 10 ^ 9" "0 \<le> v"
    using vco_near [OF assms(1,2) x] by (simp_all add: assms(6,7))
  have b: "1 \<le> (of_int base :: rat)" "(of_int base :: rat) \<le> 1000" using assms(4,5) by simp_all
  show vco0: "0 \<le> vco" using assms(1) by (simp add: assms(6))
  show vco1: "vco \<le> 400000 * 32" unfolding assms(6) using assms(1,2) x by (intro mult_mono) auto
  then have "(of_int vco :: rat) \<le> of_int 12800000" by (simp only: of_int_le_iff)
  then have "(of_int vco :: rat) / 1000 \<le> 12800" "(1 :: rat) / 10 ^ 9 \<le> 1" by simp_all
  then have v1: "v \<le> 12801" using v(1) by linarith
  have vb: "0 \<le> v / of_int base" "v / of_int base \<le> 12801"
    using v(2) v1 b by (simp_all add: pos_divide_le_eq)
  have qv: "\<bar>q - v / of_int base\<bar> \<le> 1 / 10 ^ 9"
  proof -
    have "\<bar>q - v / of_int base\<bar> \<le> v / of_int base / 2 ^ 53" unfolding q_def by (rule rnd_near [OF vb(1)])
    also have "\<dots> \<le> 12801 / 2 ^ 53" using vb(2) by (rule divide_right_mono) simp
    also have "\<dots> \<le> 1 / 10 ^ 9" by simp
    finally show ?thesis .
  qed
  define Q where "Q = (of_int R :: rat) / (1000 * of_int base)"
  have eq: "of_int vco / 1000 / of_int base = of_int K + Q"
    using b unfolding vco Q_def by (simp add: field_simps)
  have "v / of_int base - (of_int K + Q) = (v - of_int vco / 1000) / of_int base"
    unfolding eq [symmetric] by (simp only: diff_divide_distrib)
  then have "\<bar>v / of_int base - (of_int K + Q)\<bar> = \<bar>v - of_int vco / 1000\<bar> / of_int base"
    using b by (simp only: abs_divide)
  also have "\<dots> \<le> 1 / 10 ^ 9 / of_int base" using v(1) b by (intro divide_right_mono) auto
  also have "\<dots> \<le> 1 / 10 ^ 9" using b by (simp add: field_simps)
  finally have "\<bar>q - (of_int K + Q)\<bar> \<le> 2 / 10 ^ 9" using qv by linarith
  then show "\<bar>rnd (v / of_int base) - (of_int K + of_int R / (1000 * of_int base))\<bar> \<le> 2 / 10 ^ 9" by (simp only: q_def Q_def)
qed

lemma divider_floor:
  assumes "0 \<le> c" "c \<le> 400000" "k \<le> 5" "1 \<le> base" "base \<le> 1000"
    and "vco = c * 2 ^ k" "v = rnd (rnd (of_int c / 1000) * of_int (2 ^ k))" "K = vco div (1000 * base)" "R = vco mod (1000 * base)"
  shows "\<lfloor>rnd (v / of_int base)\<rfloor> = K"
proof (cases "R = 0")
  case True
  note near = quotient_near [OF assms]
  have "vco = 1000 * base * K + R" by (simp add: assms(8,9))
  then have vco: "vco = 1000 * base * K" using True by simp
  have K: "0 \<le> K" "base * K < 2 ^ 53"
    using vco near(2,3) assms(4) by (simp_all add: assms(8) pos_imp_zdiv_nonneg_iff)
  have "c * 2 ^ k = 1000 * (base * K)" using vco by (simp add: assms(6))
  then have "v = of_int (base * K)" unfolding assms(7) using vco_exact [of c k "base * K"] K assms(4) by simp
  then have "v / of_int base = of_int K" using assms(4) by simp
  moreover have "K < 2 ^ 53" using K assms(4) by (metis mult_le_cancel_right1 not_less order.strict_trans1 order.trans mult.commute)
  ultimately have "rnd (v / of_int base) = of_int K" using rnd_dyadic [of K 0] K(1) by simp
  then show ?thesis by simp
next
  case False
  define Q where "Q = (of_int R :: rat) / (1000 * of_int base)"
  have b: "1 \<le> (of_int base :: rat)" "(of_int base :: rat) \<le> 1000" using assms(4,5) by simp_all
  have "0 \<le> R" "R < 1000 * base" using assms(4) by (simp_all add: assms(9))
  then have "1 \<le> R" "R \<le> 1000 * base - 1" using False by simp_all
  then have r: "1 \<le> (of_int R :: rat)" "(of_int R :: rat) \<le> of_int (1000 * base - 1)" by (simp_all only: of_int_le_iff)
  then have r2: "(of_int R :: rat) \<le> 1000 * of_int base - 1" by simp
  have bp: "0 < 1000 * (of_int base :: rat)" using b by simp
  have "1 / 10 ^ 6 * (1000 * of_int base) \<le> (1 :: rat)" using b by simp
  then have "1 / 10 ^ 6 * (1000 * of_int base) \<le> (of_int R :: rat)" using r(1) by linarith
  moreover have "of_int R \<le> (1 - 1 / 10 ^ 6) * (1000 * (of_int base :: rat))" using r2 b by (simp add: left_diff_distrib)
  ultimately have "1 / 10 ^ 6 \<le> Q" "Q \<le> 1 - 1 / 10 ^ 6"
    unfolding Q_def pos_le_divide_eq [OF bp] pos_divide_le_eq [OF bp] by blast+
  moreover have "(2 :: rat) / 10 ^ 9 < 1 / 10 ^ 6" by simp
  ultimately have "of_int K \<le> rnd (v / of_int base)" "rnd (v / of_int base) < of_int K + 1"
    using quotient_near(1) [OF assms, folded Q_def] by linarith+
  then show ?thesis by (rule floor_unique)
qed

lemma fraction_near:
  assumes d: "0 \<le> d" "d < 1" and dQ: "\<bar>d - Q\<bar> \<le> 2 / 10 ^ 9"
  shows "\<bar>rnd (rnd d * 1000) - 1000 * Q\<bar> \<le> 3 / 10 ^ 6" "0 \<le> rnd (rnd d * 1000)"
proof -
  define y where "y = rnd (rnd d * 1000)"
  have w0: "0 \<le> rnd d" by (rule rnd_nonneg [OF d(1)])
  have "\<bar>rnd d - d\<bar> \<le> d / 2 ^ 53" by (rule rnd_near [OF d(1)])
  also have "\<dots> \<le> 1 / 2 ^ 53" using d(2) by (intro divide_right_mono) auto
  finally have wd: "\<bar>rnd d - d\<bar> \<le> 1 / 2 ^ 53" .
  have "(1 :: rat) / 2 ^ 53 \<le> 1" by simp
  then have w2: "rnd d \<le> 2" using wd d(2) by linarith
  have "\<bar>y - rnd d * 1000\<bar> \<le> rnd d * 1000 / 2 ^ 53" unfolding y_def using w0 by (intro rnd_near) simp
  also have "\<dots> \<le> 2000 / 2 ^ 53" using w2 by (intro divide_right_mono) auto
  finally have yw: "\<bar>y - rnd d * 1000\<bar> \<le> 2000 / 2 ^ 53" .
  have "(2000 :: rat) / 10 ^ 9 + 1000 / 2 ^ 53 + 2000 / 2 ^ 53 \<le> 3 / 10 ^ 6" by simp
  then have "\<bar>y - 1000 * Q\<bar> \<le> 3 / 10 ^ 6" using dQ wd yw by linarith
  then show "\<bar>rnd (rnd d * 1000) - 1000 * Q\<bar> \<le> 3 / 10 ^ 6" by (simp only: y_def)
  show "0 \<le> rnd (rnd d * 1000)" using w0 by (intro rnd_nonneg) simp
qed

lemma divider_near:
  assumes "0 \<le> c" "c \<le> 400000" "k \<le> 5" "1 \<le> base" "base \<le> 1000"
    and "q = rnd (rnd (rnd (of_int c / 1000) * of_int (2 ^ k)) / of_int base)" "N = \<lfloor>q\<rfloor>" "P = \<lfloor>rnd (rnd (q - of_int N) * 1000)\<rfloor>"
  shows "N = c * 2 ^ k div (1000 * base)" "0 \<le> P" "base * P \<le> c * 2 ^ k mod (1000 * base)"
    "c * 2 ^ k mod (1000 * base) \<le> base * (P + 1)"
proof -
  define vco where "vco = c * 2 ^ k"
  define v where "v = rnd (rnd (of_int c / 1000) * of_int (2 ^ k))"
  define K where "K = vco div (1000 * base)"
  define R where "R = vco mod (1000 * base)"
  define Q where "Q = (of_int R :: rat) / (1000 * of_int base)"
  have q: "q = rnd (v / of_int base)" by (simp only: assms(6) v_def)
  have b: "1 \<le> (of_int base :: rat)" "(of_int base :: rat) \<le> 1000" using assms(4,5) by simp_all
  have N: "N = K" using divider_floor [OF assms(1-5) vco_def v_def K_def R_def] by (simp add: assms(7) q)
  then show "N = c * 2 ^ k div (1000 * base)" by (simp add: K_def vco_def)
  define d where "d = q - of_int N"
  have d: "0 \<le> d" "d < 1" unfolding d_def assms(7) by linarith+
  have "\<bar>d - Q\<bar> \<le> 2 / 10 ^ 9"
    using quotient_near(1) [OF assms(1-5) vco_def v_def K_def R_def] by (simp add: d_def N q Q_def algebra_simps)
  note y_near = fraction_near [OF d this]
  define y where "y = rnd (rnd d * 1000)"
  have yQ: "\<bar>y - 1000 * Q\<bar> \<le> 3 / 10 ^ 6" and y0: "0 \<le> y" using y_near by (simp_all only: y_def)
  have P: "P = \<lfloor>y\<rfloor>" by (simp add: assms(8) y_def d_def)
  show "0 \<le> P" using y0 by (simp add: P)
  have Py: "of_int P \<le> y" "y < of_int P + 1" unfolding P by linarith+
  have RQ: "of_int R = of_int base * (1000 * Q)" using b by (simp add: Q_def)
  have "of_int base * y - of_int R = of_int base * (y - 1000 * Q)" unfolding RQ by (simp only: right_diff_distrib)
  then have "\<bar>of_int base * y - of_int R\<bar> = of_int base * \<bar>y - 1000 * Q\<bar>" using b by (simp only: abs_mult)
  also have "\<dots> \<le> 1000 * (3 / 10 ^ 6)" using b yQ by (intro mult_mono) auto
  finally have yR: "\<bar>of_int base * y - of_int R\<bar> \<le> 3 / 1000" by simp
  have "of_int base * of_int P \<le> of_int base * y" "of_int base * y \<le> (of_int base :: rat) * (of_int P + 1)"
    using Py b by (auto intro: mult_left_mono)
  then have "(of_int (base * P) :: rat) < of_int (R + 1)" "(of_int R :: rat) < of_int (base * (P + 1) + 1)"
    using yR by (simp_all, linarith+)
  then have "base * P < R + 1" "R < base * (P + 1) + 1" by (simp_all only: of_int_less_iff)
  then show "base * P \<le> c * 2 ^ k mod (1000 * base)" "c * 2 ^ k mod (1000 * base) \<le> base * (P + 1)"
    by (simp_all add: R_def vco_def)
qed

text \<open>What an attempt of the loop answers: the multiplier is taken when it lifts the clock to 800 MHz. The test for 1600 MHz never holds.\<close>

definition divided :: "int \<Rightarrow> int \<Rightarrow> u64 \<times> u64 \<times> u64 \<times> u64 \<Rightarrow> bool" where
  "divided vco base r =
    (case r of (N, P, Q, _) \<Rightarrow>
       uint N = vco div (1000 * base) \<and> base * uint P \<le> vco mod (1000 * base) \<and> vco mod (1000 * base) \<le> base * (uint P + 1) \<and>
       Q = 1000)"

lemma divider_loop_takes:
  assumes "0 \<le> c" "c \<le> 400000" "k \<le> 5" "1 \<le> base" "base \<le> 1000" "800000 \<le> c * 2 ^ k"
  shows "\<exists>N P Q. divider_loop (rnd (of_int c / 1000)) base (2 ^ k) (s # ss) = Some (N, P, Q, s) \<and> divided (c * 2 ^ k) base (N, P, Q, s)"
proof -
  define q where "q = rnd (rnd (rnd (of_int c / 1000) * of_int (2 ^ k)) / of_int base)"
  define N where "N = \<lfloor>q\<rfloor>"
  define P where "P = \<lfloor>rnd (rnd (q - of_int N) * 1000)\<rfloor>"
  note near = divider_near [OF assms(1-5) q_def N_def P_def]
  let ?vco = "c * 2 ^ k"
  have x: "(2 ^ k :: int) \<le> 32" using power_increasing [OF assms(3), of "2 :: int"] by simp
  have vco: "0 \<le> ?vco" "?vco \<le> 12800000" using assms(6) mult_mono [OF assms(2) x] by simp_all
  have b: "0 < 1000 * base" using assms(4) by simp
  have N0: "0 \<le> N" "N \<le> 12800000"
    using vco zdiv_mono2 [of ?vco 1 "1000 * base"] b by (simp_all add: near(1) pos_imp_zdiv_nonneg_iff)
  have "P \<le> base * P" using near(2) assms(4) by (simp add: mult_le_cancel_right1)
  then have P0: "P < 1000000" using near(3) pos_mod_bound [OF b, of ?vco] assms(5) by linarith
  have u: "uint (word_of_int N :: u64) = N" "uint (word_of_int P :: u64) = P"
    using N0 P0 near(2) by (simp_all add: uint_word_of_int)
  have "divider_loop (rnd (of_int c / 1000)) base (2 ^ k) (s # ss) = Some (word_of_int N, word_of_int P, 1000, s)"
    using assms(6) vco_threshold [OF assms(1-3)] by (simp add: Let_def q_def N_def P_def)
  moreover have "divided ?vco base (word_of_int N, word_of_int P, 1000, s)"
    using near u by (simp add: divided_def)
  ultimately show ?thesis by blast
qed

lemma divider_loop_doubles:
  assumes "0 \<le> c" "c \<le> 400000" "k \<le> 5" "c * 2 ^ k < 800000"
  shows "divider_loop (rnd (of_int c / 1000)) base (2 ^ k) (s # ss) = divider_loop (rnd (of_int c / 1000)) base (2 ^ Suc k) ss"
proof -
  have "\<not> 800 \<le> rnd (rnd (of_int c / 1000) * of_int (2 ^ k))" using assms(4) vco_threshold [OF assms(1-3)] by simp
  moreover then have "\<not> 1600 < rnd (rnd (of_int c / 1000) * of_int (2 ^ k))" by linarith
  ultimately show ?thesis by (simp add: mult.commute)
qed

lemma divider_loop_result:
  assumes "0 \<le> c" "c \<le> 400000" "1 \<le> base" "base \<le> 1000" "k + length ss \<le> 6" "ss \<noteq> []" "c * 2 ^ k \<le> 1600000"
    "800000 \<le> c * 2 ^ (k + length ss - 1)"
  shows "\<exists>i < length ss. \<exists>N P Q. divider_loop (rnd (of_int c / 1000)) base (2 ^ k) ss = Some (N, P, Q, ss ! i) \<and>
    800000 \<le> c * 2 ^ (k + i) \<and> c * 2 ^ (k + i) \<le> 1600000 \<and> divided (c * 2 ^ (k + i)) base (N, P, Q, ss ! i)"
  using assms(5-8)
proof (induction ss arbitrary: k)
  case (Cons s ss)
  have k: "k \<le> 5" using Cons(2) by simp
  show ?case
  proof (cases "800000 \<le> c * 2 ^ k")
    case True
    then obtain N P Q where "divider_loop (rnd (of_int c / 1000)) base (2 ^ k) (s # ss) = Some (N, P, Q, s)"
      "divided (c * 2 ^ k) base (N, P, Q, s)"
      using divider_loop_takes [OF assms(1,2) k assms(3,4)] by blast
    then show ?thesis using True Cons(4) by (intro exI [of _ 0]) auto
  next
    case False
    then have ne: "ss \<noteq> []" using Cons(5) by (cases ss) auto
    have "\<exists>i < length ss. \<exists>N P Q. divider_loop (rnd (of_int c / 1000)) base (2 ^ Suc k) ss = Some (N, P, Q, ss ! i) \<and>
      800000 \<le> c * 2 ^ (Suc k + i) \<and> c * 2 ^ (Suc k + i) \<le> 1600000 \<and> divided (c * 2 ^ (Suc k + i)) base (N, P, Q, ss ! i)"
      using Cons(2,5) False ne by (intro Cons.IH) auto
    then obtain i N P Q where i: "i < length ss" "divider_loop (rnd (of_int c / 1000)) base (2 ^ Suc k) ss = Some (N, P, Q, ss ! i)"
      "800000 \<le> c * 2 ^ (Suc k + i)" "c * 2 ^ (Suc k + i) \<le> 1600000" "divided (c * 2 ^ (Suc k + i)) base (N, P, Q, ss ! i)" by blast
    then have "divider_loop (rnd (of_int c / 1000)) base (2 ^ k) (s # ss) = Some (N, P, Q, (s # ss) ! Suc i)"
      using divider_loop_doubles [OF assms(1,2) k] False by simp
    then show ?thesis using i by (intro exI [of _ "Suc i"]) auto
  qed
qed simp

lemma pixel_clock_range:
  assumes "1 \<le> base" "base \<le> 1000" "25000 \<le> clk" "clk \<le> 400000"
  shows "\<exists>i < 4. \<exists>N P Q. T6CalculatePixelClock clk base = Some (N, P, Q, [3, 1, 2, 0] ! i) \<and>
    800000 \<le> uint clk * 2 ^ (i + 2) \<and> uint clk * 2 ^ (i + 2) \<le> 1600000 \<and>
    divided (uint clk * 2 ^ (i + 2)) base (N, P, Q, [3, 1, 2, 0] ! i)"
proof -
  have c: "25000 \<le> uint clk" "uint clk \<le> 400000" using assms(3,4) by (simp_all add: word_le_def)
  let ?selects = "[3, 1, 2, 0] :: u64 list"
  have "\<exists>i < length ?selects. \<exists>N P Q. divider_loop (rnd (of_int (uint clk) / 1000)) base (2 ^ 2) ?selects = Some (N, P, Q, ?selects ! i) \<and>
    800000 \<le> uint clk * 2 ^ (2 + i) \<and> uint clk * 2 ^ (2 + i) \<le> 1600000 \<and> divided (uint clk * 2 ^ (2 + i)) base (N, P, Q, ?selects ! i)"
    using c assms(1,2) by (intro divider_loop_result) auto
  moreover have "T6CalculatePixelClock clk base = divider_loop (rnd (of_int (uint clk) / 1000)) base (2 ^ 2) ?selects"
    using assms(3,4) by (simp only: T6CalculatePixelClock_def not_less [symmetric] if_False simp_thms) simp
  moreover have "length ?selects = 4" by simp
  ultimately show ?thesis by (simp only: add.commute)
qed

section \<open>Property\<close>

text \<open>a pixel clock between 25 and 400 MHz always gets a divider, and no other does. The clock is multiplied by 4, 8, 16 or 32 into the range
  of 800 to 1600 MHz of the oscillator, and the output is selected that divides by as much; the integer part \<open>N\<close> is the exact quotient by
  the base frequency, and the fraction \<open>P / 1000\<close> is the exact one truncated, or one step below it where the roundings lose it.\<close>

theorem pixel_clock_divider:
  assumes "1 \<le> base" "base \<le> 1000"
  shows "case T6CalculatePixelClock clk base of
      None \<Rightarrow> clk < 25000 \<or> 400000 < clk
    | Some (N, P, Q, select) \<Rightarrow>
        25000 \<le> clk \<and> clk \<le> 400000 \<and>
        (\<exists>i < 4. select = [3, 1, 2, 0] ! i \<and>
           800000 \<le> uint clk * 2 ^ (i + 2) \<and> uint clk * 2 ^ (i + 2) \<le> 1600000 \<and> divided (uint clk * 2 ^ (i + 2)) base (N, P, Q, select))"
proof (cases "clk < 25000 \<or> 400000 < clk")
  case False
  then obtain i N P Q where i: "i < 4" "T6CalculatePixelClock clk base = Some (N, P, Q, [3, 1, 2, 0] ! i)"
    "800000 \<le> uint clk * 2 ^ (i + 2)" "uint clk * 2 ^ (i + 2) \<le> 1600000" "divided (uint clk * 2 ^ (i + 2)) base (N, P, Q, [3, 1, 2, 0] ! i)"
    using pixel_clock_range [OF assms, of clk] by (auto simp: not_less)
  then have "\<exists>j < 4. [3, 1, 2, 0] ! i = ([3, 1, 2, 0] :: u64 list) ! j \<and> 800000 \<le> uint clk * 2 ^ (j + 2) \<and> uint clk * 2 ^ (j + 2) \<le> 1600000 \<and>
    divided (uint clk * 2 ^ (j + 2)) base (N, P, Q, [3, 1, 2, 0] ! i)" by (intro exI [of _ i]) (simp only: simp_thms)
  then show ?thesis using False by (simp only: i(2) option.case prod.case not_less de_Morgan_disj simp_thms)
qed (simp add: T6CalculatePixelClock_def)

text \<open>The clock of 1080p60 and one of 4K30, by the base frequency 40: the first lacks a step of its 700 thousandths.\<close>

lemma divider_1080p60: "T6CalculatePixelClock 148500 40 = Some (29, 699, 1000, 1)"
  by code_simp

lemma divider_4k30: "T6CalculatePixelClock 297000 40 = Some (29, 699, 1000, 3)"
  by code_simp

theorem pixel_clock_divider_witness:
  "T6CalculatePixelClock 148500 40 = Some (29, 699, 1000, 1) \<and>
   (\<exists>i < 4. (1 :: u64) = [3, 1, 2, 0] ! i \<and> (800000 :: int) \<le> 148500 * 2 ^ (i + 2) \<and> (148500 :: int) * 2 ^ (i + 2) \<le> 1600000 \<and>
      divided (148500 * 2 ^ (i + 2)) 40 (29, 699, 1000, 1))"
  using pixel_clock_divider [of 40 148500] by (simp add: divider_1080p60)

section \<open>In the entry of the resolution table\<close>

lemma uint_narrow: "uint x < 2 ^ LENGTH('b) \<Longrightarrow> uint (ucast x :: 'b :: len word) = uint x"
  by (simp add: unsigned_ucast_eq unsigned_take_bit_eq take_bit_int_eq_self)

text \<open>The three numbers of a divider fit in the fields of the entry, so that the casts to 8 and 16 bits lose nothing.\<close>

lemma divided_fits:
  assumes "divided vco base (N, P, Q, s)" "0 \<le> vco" "vco \<le> 1600000" "40 \<le> base" "base \<le> 48"
  shows "uint (ucast N :: u8) = uint N" "uint (ucast P :: u16) = uint P" "(ucast Q :: u16) = 1000"
proof -
  have d: "uint N = vco div (1000 * base)" "base * uint P \<le> vco mod (1000 * base)" "Q = 1000"
    using assms(1) by (simp_all add: divided_def)
  have b: "0 < 1000 * base" using assms(4) by simp
  have "vco div (1000 * base) \<le> 1600000 div 40000"
    using assms(2-5) by (intro order_trans [OF zdiv_mono1 zdiv_mono2]) auto
  then have "uint N \<le> 40" using d(1) by simp
  then show "uint (ucast N :: u8) = uint N" by (intro uint_narrow) simp
  have "uint P \<le> base * uint P" using assms(4) by (simp add: mult_le_cancel_right1)
  then have "uint P < 48000" using d(2) pos_mod_bound [OF b, of vco] assms(5) by linarith
  then show "uint (ucast P :: u16) = uint P" by (intro uint_narrow) simp
  show "(ucast Q :: u16) = 1000" by (simp add: d(3))
qed

text \<open>What the patched entry asks of the clock generator: the oscillator runs at \<open>base \<times> (IDIV + FNUM / FDEN)\<close> MHz.\<close>

definition entry_clock :: "int \<Rightarrow> bytes \<Rightarrow> int" where
  "entry_clock base e = base * (1000 * uint (read_u8 e 0x1A) + uint (read_le16 e 0x16))"

text \<open>
  C38: the entry of a resolution which is sent to the adapter carries the divider of its own pixel clock, with the base frequency of the
  adapter's version: the oscillator runs, below the clock times 4, 8, 16 or 32, by less than a step or one step of its thousandths, and the
  output that divides by as much is selected. The fields of 8 and 16 bits lose nothing, and the rotation does not touch them.\<close>

theorem patched_entry_clock:
  assumes "length e = 32" "25000 \<le> read_le32 e 0" "read_le32 e 0 \<le> 400000" "base = (if ver = 0 then 48 else 40)"
    and "e' = patch_resolution T6CalculatePixelClock rotated w h ver e"
  shows "length e' = 32 \<and> read_le32 e' 0 = read_le32 e 0 \<and> read_le16 e' 0x18 = 1000 \<and>
    (\<exists>i < 4. read_u8 e' 0x1B = [3, 1, 2, 0] ! i \<and>
       entry_clock base e' \<le> uint (read_le32 e 0) * 2 ^ (i + 2) \<and> uint (read_le32 e 0) * 2 ^ (i + 2) \<le> entry_clock base e' + base)"
proof -
  let ?clk = "read_le32 e 0"
  define f where "f = (if rotated then write_le16 (write_le16 e 8 (word_of_int w)) 16 (word_of_int h) else e)"
  have f: "length f = 32" "read_le32 f 0 = ?clk" using assms(1) by (simp_all add: f_def wire)
  have base: "40 \<le> base" "base \<le> 48" using assms(4) by auto
  then have range: "1 \<le> base" "base \<le> 1000" by simp_all
  obtain N P Q s i where r: "T6CalculatePixelClock ?clk base = Some (N, P, Q, s)" "i < 4" "s = [3, 1, 2, 0] ! i"
    "uint ?clk * 2 ^ (i + 2) \<le> 1600000" "divided (uint ?clk * 2 ^ (i + 2)) base (N, P, Q, s)"
    using pixel_clock_range [OF range assms(2,3)] by blast
  let ?vco = "uint ?clk * 2 ^ (i + 2)"
  have fits: "uint (ucast N :: u8) = uint N" "uint (ucast P :: u16) = uint P" "(ucast Q :: u16) = 1000"
    using divided_fits [OF r(5) _ r(4) base] by simp_all
  have e': "e' = write_u8 (write_u8 (write_le16 (write_le16 f 0x16 (ucast P)) 0x18 (ucast Q)) 0x1A (ucast N)) 0x1B (ucast s)"
    unfolding assms(5) patch_resolution_def Let_def f_def [symmetric] assms(4) [symmetric] f(2) r(1) by simp
  have fields: "read_u8 e' 0x1A = ucast N" "read_le16 e' 0x16 = ucast P" "read_le16 e' 0x18 = 1000" "read_u8 e' 0x1B = ucast s"
    "length e' = 32" "read_le32 e' 0 = ?clk"
    using f fits(3) by (simp_all add: e' wire)
  define vco where "vco = ?vco"
  have d: "uint N = vco div (1000 * base)" "base * uint P \<le> vco mod (1000 * base)" "vco mod (1000 * base) \<le> base * (uint P + 1)"
    using r(5) by (simp_all add: divided_def vco_def)
  have "vco = 1000 * base * uint N + vco mod (1000 * base)" unfolding d(1) by (simp only: mult_div_mod_eq)
  then have "entry_clock base e' \<le> vco" "vco \<le> entry_clock base e' + base"
    using d(2,3) unfolding entry_clock_def fields fits by (simp_all add: algebra_simps)
  then have near: "entry_clock base e' \<le> ?vco" "?vco \<le> entry_clock base e' + base" by (simp_all only: vco_def)
  have "(ucast s :: u8) = [3, 1, 2, 0] ! i" proof -
    consider "i = 0" | "i = 1" | "i = 2" | "i = 3" using r(2) by linarith
    then show ?thesis using r(3) by cases simp_all
  qed
  then show ?thesis using near fields r(2) by auto
qed

definition entry_1080p60 :: bytes where
  "entry_1080p60 = [0x14, 0x44, 0x02, 0] @ replicate 28 0"

lemma entry_1080p60: "length entry_1080p60 = 32" "read_le32 entry_1080p60 0 = 148500"
  by (simp add: entry_1080p60_def) code_simp

lemma entry_1080p60_patched:
  "patch_resolution T6CalculatePixelClock False 1920 1080 1 entry_1080p60 =
    write_u8 (write_u8 (write_le16 (write_le16 entry_1080p60 0x16 699) 0x18 1000) 0x1A 29) 0x1B 1"
  by (simp add: patch_resolution_def entry_1080p60 divider_1080p60)

theorem patched_entry_clock_witness:
  "\<exists>e'. e' = patch_resolution T6CalculatePixelClock False 1920 1080 1 entry_1080p60 \<and> read_le32 e' 0 = 148500 \<and>
     read_le16 e' 0x16 = 699 \<and> read_le16 e' 0x18 = 1000 \<and>
     (\<exists>i < 4. read_u8 e' 0x1B = [3, 1, 2, 0] ! i \<and>
        entry_clock 40 e' \<le> 148500 * 2 ^ (i + 2) \<and> 148500 * 2 ^ (i + 2) \<le> entry_clock 40 e' + 40)"
proof -
  let ?e = "patch_resolution T6CalculatePixelClock False 1920 1080 1 entry_1080p60"
  have "read_le16 ?e 0x16 = 699" unfolding entry_1080p60_patched by (simp add: wire entry_1080p60(1))
  moreover note patched_entry_clock [of entry_1080p60 40 1 ?e False 1920 1080]
  ultimately show ?thesis using entry_1080p60 by (intro exI [of _ ?e]) simp
qed

end
