(* ===== verification/RectLattice.thy ===== *)
theory RectLattice
  imports EvdiRects
begin

text \<open>
  The rectangles of the painter as a lattice of the library: one is below another when it lies inside it, and \<^verbatim>\<open>expand_rect\<close> of
  \<^verbatim>\<open>evdi_painter.c\<close> is the least upper bound. \<^verbatim>\<open>collapse_dirty_rects\<close> then is the supremum of the set of its rectangles:
  its order and its repetitions do not matter, and no smaller rectangle covers as much.
\<close>

section \<open>The lattice\<close>

instantiation drm_clip_rect_ext :: (semilattice_sup) semilattice_sup
begin

definition less_eq_drm_clip_rect_ext :: "'a drm_clip_rect_scheme \<Rightarrow> 'a drm_clip_rect_scheme \<Rightarrow> bool" where
  "a \<le> b \<longleftrightarrow> x1 b \<le> x1 a \<and> y1 b \<le> y1 a \<and> x2 a \<le> x2 b \<and> y2 a \<le> y2 b \<and> drm_clip_rect.more a \<le> drm_clip_rect.more b"

definition less_drm_clip_rect_ext :: "'a drm_clip_rect_scheme \<Rightarrow> 'a drm_clip_rect_scheme \<Rightarrow> bool" where
  "a < b \<longleftrightarrow> a \<le> b \<and> \<not> b \<le> (a :: 'a drm_clip_rect_scheme)"

definition sup_drm_clip_rect_ext :: "'a drm_clip_rect_scheme \<Rightarrow> 'a drm_clip_rect_scheme \<Rightarrow> 'a drm_clip_rect_scheme" where
  "sup a b = \<lparr>x1 = min (x1 a) (x1 b), y1 = min (y1 a) (y1 b), x2 = max (x2 a) (x2 b), y2 = max (y2 a) (y2 b),
     \<dots> = sup (drm_clip_rect.more a) (drm_clip_rect.more b)\<rparr>"

instance
  by standard
    (auto simp: less_eq_drm_clip_rect_ext_def less_drm_clip_rect_ext_def sup_drm_clip_rect_ext_def
      intro: drm_clip_rect.equality)

end

lemma rect_le: "a \<le> b \<longleftrightarrow> x1 b \<le> x1 a \<and> y1 b \<le> y1 a \<and> x2 a \<le> x2 b \<and> y2 a \<le> y2 b" for a b :: drm_clip_rect
  by (simp add: less_eq_drm_clip_rect_ext_def)

lemma expand_rect_sup: "expand_rect a b = sup a b"
  by (simp add: expand_rect_def sup_drm_clip_rect_ext_def)

lemma fold_expand: "finite R \<Longrightarrow> R \<noteq> {} \<Longrightarrow> fold (\<lambda>r acc. expand_rect acc r) rs (Sup_fin R) = Sup_fin (R \<union> set rs)"
proof (induction rs arbitrary: R)
  case (Cons r rs)
  have "expand_rect (Sup_fin R) r = Sup_fin (insert r R)" using Cons.prems by (simp add: expand_rect_sup sup.commute)
  then show ?case using Cons.IH [of "insert r R"] Cons.prems by simp
qed simp

lemma collapse_Sup: "rs \<noteq> [] \<Longrightarrow> collapse_dirty_rects rs = [Sup_fin (set rs)]"
  using fold_expand [of "{hd rs}" "tl rs"] by (cases rs) (simp_all add: collapse_dirty_rects_def)

section \<open>Inclusion of pixels\<close>

text \<open>A rectangle that has pixels is below another exactly when its pixels are among those of the other.\<close>

definition has_pixels :: "drm_clip_rect \<Rightarrow> bool" where
  "has_pixels r \<longleftrightarrow> x1 r < x2 r \<and> y1 r < y2 r"

lemma before_end:
  fixes a b c :: u16
  assumes "a < b"
  shows "a \<le> b - 1" "b - 1 < b" "b - 1 < c \<longleftrightarrow> b \<le> c"
proof -
  have "b \<noteq> 0" using assms by auto
  then have u: "unat (b - 1) = unat b - 1" "0 < unat b" by (simp_all add: unat_minus_one unat_gt_0)
  have "unat a < unat b" using assms by (simp add: word_less_nat_alt)
  then show "a \<le> b - 1" "b - 1 < b" "b - 1 < c \<longleftrightarrow> b \<le> c" using u by (auto simp: word_less_nat_alt word_le_nat_alt)
qed

lemma pixels_below:
  assumes "has_pixels r"
  shows "(\<forall>p. in_rect r p \<longrightarrow> in_rect s p) \<longleftrightarrow> r \<le> s"
proof
  assume sub: "\<forall>p. in_rect r p \<longrightarrow> in_rect s p"
  have e: "x1 r < x2 r" "y1 r < y2 r" using assms by (simp_all add: has_pixels_def)
  have "in_rect s (x1 r, y1 r)" using sub [rule_format, of "(x1 r, y1 r)"] e by (simp add: in_rect_def)
  moreover have "in_rect s (x2 r - 1, y2 r - 1)" 
    using sub [rule_format, of "(x2 r - 1, y2 r - 1)"] before_end [OF e(1)] before_end [OF e(2)] by (simp add: in_rect_def)
  ultimately show "r \<le> s"
    using before_end(3) [OF e(1), of "x2 s"] before_end(3) [OF e(2), of "y2 s"] by (simp add: rect_le in_rect_def)
qed (auto simp: rect_le in_rect_def)

text \<open>
  C37: Collapsing is optimal. The rectangles collapse into their supremum, whatever their order and repetitions; and one rectangle covers every
  pixel of theirs exactly when it contains the collapsed one, so that none smaller would do.
\<close>

theorem collapse_smallest:
  assumes "rs \<noteq> []" "\<forall>r\<in>set rs. has_pixels r"
  shows "collapse_dirty_rects rs = [Sup_fin (set rs)] \<and> (\<forall>s. (\<forall>p. covered rs p \<longrightarrow> in_rect s p) \<longleftrightarrow> Sup_fin (set rs) \<le> s)"
proof -
  have "(\<forall>p. covered rs p \<longrightarrow> in_rect s p) \<longleftrightarrow> (\<forall>r\<in>set rs. r \<le> s)" for s
    using pixels_below assms(2) by (fastforce simp: covered_def)
  moreover have "(\<forall>r\<in>set rs. r \<le> s) \<longleftrightarrow> Sup_fin (set rs) \<le> s" for s
    using assms(1) by (simp add: Sup_fin.bounded_iff)
  ultimately show ?thesis using collapse_Sup [OF assms(1)] by simp
qed

theorem collapse_smallest_witness:
  "collapse_dirty_rects [\<lparr>x1 = 0, y1 = 0, x2 = 2, y2 = 2\<rparr>, \<lparr>x1 = 1, y1 = 1, x2 = 3, y2 = 2\<rparr>] =
    [Sup_fin (set [\<lparr>x1 = 0, y1 = 0, x2 = 2, y2 = 2\<rparr>, \<lparr>x1 = 1, y1 = 1, x2 = 3, y2 = 2\<rparr>])]"
  using collapse_smallest [of "[\<lparr>x1 = 0, y1 = 0, x2 = 2, y2 = 2\<rparr>, \<lparr>x1 = 1, y1 = 1, x2 = 3, y2 = 2\<rparr>]"] by (simp add: has_pixels_def)

end
