(* ===== verification/DaemonMemory.thy ===== *)
theory DaemonMemory
  imports UsbDongle EvdiFb
begin

text \<open>
  \<^verbatim>\<open>usb_process\<close> of \<^verbatim>\<open>evdi_t6_1/main.c\<close>, as it is compiled (without \<^verbatim>\<open>USE4KJPEG\<close>): how the daemon lays out the
  memory of the dongle, where it puts each frame, and the iteration of the thread that sends them.

  Addresses are C \<^verbatim>\<open>int\<close>s, kept as integers with \<open>c_int\<close> where the code computes them. The fields of the
  device structure that only this thread writes, \<^verbatim>\<open>cmdAddr\<close> and \<^verbatim>\<open>fbAddr\<close>, are kept with its local variables in
  \<open>usb_vars\<close>, and put into the structure when a frame is sent.
\<close>

section \<open>Layout\<close>

record fb_layout =
  cmd_base :: int
  fb1 :: int
  fb2 :: int
  fb3 :: int

definition mib :: "int \<Rightarrow> int" where
  "mib x = c_int (c_int (x * 1024) * 1024)"

definition is_dvo_port :: "u8 \<Rightarrow> u8 \<Rightarrow> bool" where
  "is_dvo_port caps interface \<longleftrightarrow>
    (let disp0_cap = caps AND 0x0F; disp1_cap = drop_bit 4 caps AND 0x0F
     in interface = 0 \<and> disp0_cap AND 0x02 \<noteq> 0 \<or> interface = 1 \<and> disp1_cap AND 0x02 \<noteq> 0)"

definition usb_layout :: "int \<Rightarrow> int \<Rightarrow> t6evdi \<Rightarrow> fb_layout" where
  "usb_layout ramsize interface_num dev =
    (let tmp = c_int (ramsize - 18)
     in if 1 < interface_num then
          if is_dvo_port (dispcaps dev) (disp_interface dev) then
            if bRun4K30 dev \<noteq> 0
            then \<lparr>cmd_base = 0, fb1 = mib (tmp - 36), fb2 = mib (tmp - 24), fb3 = mib (tmp - 12)\<rparr>
            else \<lparr>cmd_base = 0, fb1 = mib (tmp - 12), fb2 = mib (tmp - 8), fb3 = mib (tmp - 4)\<rparr>
          else \<lparr>cmd_base = mib tmp, fb1 = mib (ramsize - 12), fb2 = mib (ramsize - 8), fb3 = mib (ramsize - 4)\<rparr>
        else if bRun4K30 dev \<noteq> 0
        then \<lparr>cmd_base = 0, fb1 = mib (ramsize - 36), fb2 = mib (ramsize - 24), fb3 = mib (ramsize - 12)\<rparr>
        else \<lparr>cmd_base = 0, fb1 = mib (ramsize - 12), fb2 = mib (ramsize - 8), fb3 = mib (ramsize - 4)\<rparr>)"

section \<open>Where a frame goes\<close>

record usb_vars =
  v_cmdAddr :: int
  v_fbAddr :: int
  v_cmdoffset :: int
  v_count :: int
  v_resetflag :: int

definition usb_start :: "fb_layout \<Rightarrow> usb_vars" where
  "usb_start l = \<lparr>v_cmdAddr = cmd_base l, v_fbAddr = fb2 l, v_cmdoffset = 1024 * 1024 * 1, v_count = 0, v_resetflag = 0\<rparr>"

definition next_fb :: "fb_layout \<Rightarrow> int \<Rightarrow> int" where
  "next_fb l a = (if a = fb1 l then fb2 l else if a = fb2 l then fb3 l else if a = fb3 l then fb1 l else fb1 l)"

definition cmd_offset :: "int \<Rightarrow> int" where
  "cmd_offset len = (if len < 0x100000 then 0x100000 else if len < 0x200000 then 0x200000 else 0x300000)"

text \<open>Only a JPEG frame moves the command address before it is sent.\<close>

definition place_jpeg :: "fb_layout \<Rightarrow> int \<Rightarrow> usb_vars \<Rightarrow> usb_vars" where
  "place_jpeg l sz v =
    (let len = c_int (sz + 1024 + 48);
         off = cmd_offset len;
         (cmd, reset) = (if fb1 l < c_int (v_cmdAddr v + off) then (cmd_base l, 0x80) else (v_cmdAddr v, 0));
         count = c_int (v_count v + 1)
     in v\<lparr>v_cmdAddr := cmd, v_cmdoffset := off, v_count := count,
          v_resetflag := (if count < 10 then 0x80 else reset)\<rparr>)"

text \<open>
  What is done with a frame taken from the queue: the addresses move on, the frame is sent. \<open>mem\<close> is whether
  the sender's \<^verbatim>\<open>malloc\<close> succeeds; a frame is its buffer and its \<^verbatim>\<open>length\<close>. The first component of the
  result is false when the thread leaves its loop.
\<close>

type_synonym daemon_frame = "bytes \<times> int"

definition frame_vars :: "fb_layout \<Rightarrow> t6evdi \<Rightarrow> int \<Rightarrow> usb_vars \<Rightarrow> usb_vars" where
  "frame_vars l dev sz v =
    (let v = v\<lparr>v_fbAddr := next_fb l (v_fbAddr v)\<rparr>
     in if bRun4K30 dev = 0 then place_jpeg l sz v else v)"

definition with_addrs :: "usb_vars \<Rightarrow> t6evdi \<Rightarrow> t6evdi" where
  "with_addrs v dev = dev\<lparr>cmdAddr := word_of_int (v_cmdAddr v), fbAddr := word_of_int (v_fbAddr v)\<rparr>"

definition usb_send_frame ::
    "usb_host \<Rightarrow> bool \<Rightarrow> fb_layout \<Rightarrow> t6evdi \<Rightarrow> daemon_frame \<Rightarrow> usb_vars \<Rightarrow> trace \<Rightarrow> c_error + bool \<times> usb_vars \<times> trace" where
  "usb_send_frame host mem l dev frame v tr =
    (let v = frame_vars l dev (snd frame) v; dev = with_addrs v dev
     in ebind (if bRun4K30 dev = 0
               then if length (fst frame) < nat (snd frame) then Inl OutOfBounds
                    else t6_libusb_FilpJpegFrame host mem dev (take (nat (snd frame)) (fst frame)) (v_resetflag v) tr
               else ebind (t6_libusb_FilpYV12Frame host dev (fst frame) (snd frame) 0 tr) (\<lambda>(ret, img, tr). Inr (ret, tr)))
          (\<lambda>(ret, tr).
             if ret < 0 then Inr (False, v, t6_libusb_donglereset host tr)
             else Inr (True, v\<lparr>v_cmdAddr := c_int (v_cmdAddr v + v_cmdoffset v)\<rparr>, tr)))"

section \<open>The regions of the ports\<close>

text \<open>
  Half-open intervals: the ring for JPEG frames, from \<open>cmd_base\<close> to the first frame buffer, and the three frame
  buffers, of 12 MiB for a 4K port and 4 MiB otherwise. A second port never gets the large ones.
\<close>

definition fb_bytes :: "int \<Rightarrow> t6evdi \<Rightarrow> int" where
  "fb_bytes interface_num dev =
    (if bRun4K30 dev \<noteq> 0 \<and> (interface_num \<le> 1 \<or> is_dvo_port (dispcaps dev) (disp_interface dev)) then 12 else 4) * 1048576"

definition port_regions :: "int \<Rightarrow> int \<Rightarrow> t6evdi \<Rightarrow> (int \<times> int) list" where
  "port_regions ramsize n dev =
    (let l = usb_layout ramsize n dev; f = fb_bytes n dev
     in [(cmd_base l, fb1 l), (fb1 l, fb1 l + f), (fb2 l, fb2 l + f), (fb3 l, fb3 l + f)])"

definition overlap :: "int \<times> int \<Rightarrow> int \<times> int \<Rightarrow> bool" where
  "overlap r s \<longleftrightarrow> max (fst r) (fst s) < min (snd r) (snd s)"

lemma mib_small [simp]: "- 2000 \<le> x \<Longrightarrow> x \<le> 2000 \<Longrightarrow> mib x = x * 1048576"
  by (simp add: mib_def)

lemma usb_layout_small:
  assumes "54 \<le> ramsize" "ramsize \<le> 255"
  shows "usb_layout ramsize n dev =
    (let m = 1048576; top = (if 1 < n \<and> is_dvo_port (dispcaps dev) (disp_interface dev) then ramsize - 18 else ramsize);
         f = (if fb_bytes n dev = 12582912 then 12 else 4)
     in \<lparr>cmd_base = (if 1 < n \<and> \<not> is_dvo_port (dispcaps dev) (disp_interface dev) then (ramsize - 18) * m else 0),
         fb1 = (top - 3 * f) * m, fb2 = (top - 2 * f) * m, fb3 = (top - f) * m\<rparr>)"
  using assms by (simp add: usb_layout_def fb_bytes_def Let_def)

text \<open>One port, with \<open>lo\<close> and \<open>top\<close> the bounds of its part of the memory.\<close>

lemma port_regions_eq:
  assumes "54 \<le> ramsize" "ramsize \<le> 255"
  obtains lo top f where "port_regions ramsize 2 d =
      [(lo, top - 3 * f), (top - 3 * f, top - 2 * f), (top - 2 * f, top - f), (top - f, top)]"
    "0 \<le> lo" "lo \<le> top - 3 * f" "0 < f" "top \<le> ramsize * 1048576"
    "is_dvo_port (dispcaps d) (disp_interface d) \<Longrightarrow> lo = 0 \<and> top = (ramsize - 18) * 1048576"
    "\<not> is_dvo_port (dispcaps d) (disp_interface d) \<Longrightarrow> lo = (ramsize - 18) * 1048576 \<and> top = ramsize * 1048576"
proof (cases "is_dvo_port (dispcaps d) (disp_interface d)")
  case dvo: True
  show ?thesis
  proof (cases "bRun4K30 d = 0")
    case True
    then show ?thesis
      by (intro that [of 0 "(ramsize - 18) * 1048576" 4194304])
         (use assms dvo in \<open>simp_all add: port_regions_def usb_layout_small fb_bytes_def Let_def algebra_simps\<close>)
  next
    case False
    then show ?thesis
      by (intro that [of 0 "(ramsize - 18) * 1048576" 12582912])
         (use assms dvo in \<open>simp_all add: port_regions_def usb_layout_small fb_bytes_def Let_def algebra_simps\<close>)
  qed
next
  case False
  then show ?thesis
    by (intro that [of "(ramsize - 18) * 1048576" "ramsize * 1048576" 4194304])
       (use assms in \<open>simp_all add: port_regions_def usb_layout_small fb_bytes_def Let_def algebra_simps\<close>)
qed

lemma port_regions_inside:
  assumes "54 \<le> ramsize" "ramsize \<le> 255"
  shows "\<forall>r \<in> set (port_regions ramsize 2 d). 0 \<le> fst r \<and> fst r \<le> snd r \<and> snd r \<le> ramsize * 1048576"
    and "\<forall>i < 3. snd (port_regions ramsize 2 d ! i) \<le> fst (port_regions ramsize 2 d ! Suc i)"
    and "r \<in> set (port_regions ramsize 2 d) \<Longrightarrow> is_dvo_port (dispcaps d) (disp_interface d) \<Longrightarrow> snd r \<le> (ramsize - 18) * 1048576"
    and "r \<in> set (port_regions ramsize 2 d) \<Longrightarrow> \<not> is_dvo_port (dispcaps d) (disp_interface d) \<Longrightarrow> (ramsize - 18) * 1048576 \<le> fst r"
  by (rule port_regions_eq [OF assms, of d]; force simp: less_Suc_eq numeral_eq_Suc)+

text \<open>
  C18: the two ports of a dongle share its memory without overlapping, exactly when one of them, and not both, is the
  external output: the regions of each port follow one another, inside the memory, and no region of one
  meets a region of the other. Two outputs of the same kind are given the same memory.
\<close>

theorem two_port_layout:
  assumes "54 \<le> ramsize" "ramsize \<le> 255" "disp_interface d0 = 0" "disp_interface d1 = 1" "dispcaps d1 = dispcaps d0"
  shows "(\<forall>d \<in> {d0, d1}. \<forall>r \<in> set (port_regions ramsize 2 d). 0 \<le> fst r \<and> fst r \<le> snd r \<and> snd r \<le> ramsize * 1048576) \<and>
    (\<forall>d \<in> {d0, d1}. (\<forall>i < 3. snd (port_regions ramsize 2 d ! i) \<le> fst (port_regions ramsize 2 d ! Suc i))) \<and>
    ((\<forall>r \<in> set (port_regions ramsize 2 d0). \<forall>s \<in> set (port_regions ramsize 2 d1). \<not> overlap r s) \<longleftrightarrow>
     is_dvo_port (dispcaps d0) 0 \<noteq> is_dvo_port (dispcaps d0) 1)"
proof -
  have "\<exists>r \<in> set (port_regions ramsize 2 d0). \<exists>s \<in> set (port_regions ramsize 2 d1). overlap r s"
    if "is_dvo_port (dispcaps d0) 0 = is_dvo_port (dispcaps d0) 1"
  proof -
    obtain lo top f where 0: "port_regions ramsize 2 d0 =
        [(lo, top - 3 * f), (top - 3 * f, top - 2 * f), (top - 2 * f, top - f), (top - f, top)]" "0 < f"
      "top = (if is_dvo_port (dispcaps d0) (disp_interface d0) then ramsize - 18 else ramsize) * 1048576"
      by (rule port_regions_eq [OF assms(1,2), of d0]) auto
    obtain lo' top' f' where 1: "port_regions ramsize 2 d1 =
        [(lo', top' - 3 * f'), (top' - 3 * f', top' - 2 * f'), (top' - 2 * f', top' - f'), (top' - f', top')]" "0 < f'"
      "top' = (if is_dvo_port (dispcaps d1) (disp_interface d1) then ramsize - 18 else ramsize) * 1048576"
      by (rule port_regions_eq [OF assms(1,2), of d1]) auto
    have "top = top'" using 0(3) 1(3) assms(3-5) that by simp
    then have "overlap (top - f, top) (top' - f', top')" using 0(2) 1(2) by (simp add: overlap_def)
    then show ?thesis using 0(1) 1(1) by (intro bexI [of _ "(top - f, top)"] bexI [of _ "(top' - f', top')"]) simp_all
  qed
  moreover have "\<not> overlap r s" if "is_dvo_port (dispcaps d0) 0 \<noteq> is_dvo_port (dispcaps d0) 1"
      "r \<in> set (port_regions ramsize 2 d0)" "s \<in> set (port_regions ramsize 2 d1)" for r s
    using port_regions_inside(3,4) [OF assms(1,2) that(2)] port_regions_inside(3,4) [OF assms(1,2) that(3)]
      that(1) assms(3-5) by (fastforce simp: overlap_def)
  ultimately show ?thesis
    using port_regions_inside(1,2) [OF assms(1,2)] by blast
qed

definition demo_dongle :: "u8 \<Rightarrow> t6evdi" where
  "demo_dongle i = \<lparr>t6usbdev = True, fbAddr = 0, cmdAddr = 0, jpg_rotate = 0, Width = 1920, Height = 1080,
     disp_interface = i, edid = replicate 512 0, bRun4K30 = 0, dispcaps = 0x82\<rparr>"

lemma two_port_layout_witness:
  "\<not> overlap (port_regions 58 2 (demo_dongle 0) ! 3) (port_regions 58 2 (demo_dongle 1) ! 0)"
proof -
  have "is_dvo_port (dispcaps (demo_dongle 0)) 0 \<noteq> is_dvo_port (dispcaps (demo_dongle 0)) 1"
    by (simp add: is_dvo_port_def demo_dongle_def Let_def)
  moreover have "port_regions 58 2 (demo_dongle i) ! 3 \<in> set (port_regions 58 2 (demo_dongle i))"
    "port_regions 58 2 (demo_dongle i) ! 0 \<in> set (port_regions 58 2 (demo_dongle i))" for i
    by (simp_all add: port_regions_def Let_def)
  ultimately show ?thesis
    using two_port_layout [of 58 "demo_dongle 0" "demo_dongle 1"] by (simp add: demo_dongle_def)
qed

section \<open>A sequence of frames\<close>

fun usb_run ::
    "usb_host \<Rightarrow> bool \<Rightarrow> fb_layout \<Rightarrow> t6evdi \<Rightarrow> daemon_frame list \<Rightarrow> usb_vars \<Rightarrow> trace \<Rightarrow> c_error + usb_vars \<times> trace" where
  "usb_run host mem l dev [] v tr = Inr (v, tr)"
| "usb_run host mem l dev (frame # frames) v tr =
    ebind (usb_send_frame host mem l dev frame v tr) (\<lambda>(go, v, tr).
      if go then usb_run host mem l dev frames v tr else Inr (v, tr))"

text \<open>The variables with which each frame is sent.\<close>

fun schedule :: "fb_layout \<Rightarrow> t6evdi \<Rightarrow> int list \<Rightarrow> usb_vars \<Rightarrow> usb_vars list" where
  "schedule l dev [] v = []"
| "schedule l dev (n # ns) v =
    (let v = frame_vars l dev n v in v # schedule l dev ns (v\<lparr>v_cmdAddr := c_int (v_cmdAddr v + v_cmdoffset v)\<rparr>))"

lemma length_schedule [simp]: "length (schedule l dev ns v) = length ns"
  by (induction ns arbitrary: v) (simp_all add: Let_def)

text \<open>A layout in which a JPEG frame of less than 3 MiB fits, far from the bounds of an \<^verbatim>\<open>int\<close>.\<close>

definition ring_ok :: "fb_layout \<Rightarrow> bool" where
  "ring_ok l \<longleftrightarrow> 0 \<le> cmd_base l \<and> cmd_base l + 0x300000 \<le> fb1 l \<and> fb1 l \<le> 0x20000000 \<and>
     fb1 l \<noteq> fb2 l \<and> fb1 l \<noteq> fb3 l \<and> fb2 l \<noteq> fb3 l"

lemma usb_layout_ring_ok:
  "54 \<le> ramsize \<Longrightarrow> ramsize \<le> 255 \<Longrightarrow> bRun4K30 dev = 0 \<Longrightarrow> ring_ok (usb_layout ramsize n dev)"
  by (simp add: usb_layout_small fb_bytes_def ring_ok_def Let_def)

definition jpeg_size_ok :: "int \<Rightarrow> bool" where
  "jpeg_size_ok n \<longleftrightarrow> 0 \<le> n \<and> n + 1072 \<le> 0x300000"

lemma cmd_offset_bounds:
  assumes "jpeg_size_ok n"
  shows "n + 1072 \<le> cmd_offset (n + 1072)" "0 < cmd_offset (n + 1072)" "cmd_offset (n + 1072) \<le> 0x300000"
  using assms by (auto simp: cmd_offset_def jpeg_size_ok_def)

lemma place_jpeg_ring:
  assumes "ring_ok l" "jpeg_size_ok n" "cmd_base l \<le> v_cmdAddr v" "v_cmdAddr v \<le> fb1 l"
  shows "cmd_base l \<le> v_cmdAddr (place_jpeg l n v)"
    and "v_cmdAddr (place_jpeg l n v) + v_cmdoffset (place_jpeg l n v) \<le> fb1 l"
    and "v_cmdoffset (place_jpeg l n v) = cmd_offset (n + 1072)"
    and "v_resetflag (place_jpeg l n v) = 0 \<Longrightarrow> v_cmdAddr (place_jpeg l n v) = v_cmdAddr v"
    and "v_fbAddr (place_jpeg l n v) = v_fbAddr v"
proof -
  have len: "c_int (n + 1024 + 48) = n + 1072" using assms(2) by (simp add: jpeg_size_ok_def)
  have sum: "c_int (v_cmdAddr v + cmd_offset (n + 1072)) = v_cmdAddr v + cmd_offset (n + 1072)"
    using assms(1,3,4) cmd_offset_bounds [OF assms(2)] by (intro c_int_id) (auto simp: ring_ok_def)
  have pj: "place_jpeg l n v = (case (if fb1 l < v_cmdAddr v + cmd_offset (n + 1072) then (cmd_base l, 0x80)
        else (v_cmdAddr v, 0)) of (cmd, reset) \<Rightarrow>
      v\<lparr>v_cmdAddr := cmd, v_cmdoffset := cmd_offset (n + 1072), v_count := c_int (v_count v + 1),
        v_resetflag := (if c_int (v_count v + 1) < 10 then 0x80 else reset)\<rparr>)"
    by (simp only: place_jpeg_def Let_def len sum)
  show "cmd_base l \<le> v_cmdAddr (place_jpeg l n v)"
    "v_cmdAddr (place_jpeg l n v) + v_cmdoffset (place_jpeg l n v) \<le> fb1 l"
    "v_cmdoffset (place_jpeg l n v) = cmd_offset (n + 1072)"
    "v_resetflag (place_jpeg l n v) = 0 \<Longrightarrow> v_cmdAddr (place_jpeg l n v) = v_cmdAddr v"
    "v_fbAddr (place_jpeg l n v) = v_fbAddr v"
    using assms cmd_offset_bounds [OF assms(2)]
    unfolding pj by (simp_all add: ring_ok_def split: if_splits)
qed

text \<open>One frame, from a ring position to the next.\<close>

lemma frame_vars_ring:
  assumes "ring_ok l" "jpeg_size_ok n" "cmd_base l \<le> v_cmdAddr v" "v_cmdAddr v \<le> fb1 l" "bRun4K30 dev = 0"
  defines "v' \<equiv> frame_vars l dev n v"
  shows "cmd_base l \<le> v_cmdAddr v'" "v_cmdAddr v' + n + 1072 \<le> fb1 l"
    "v_resetflag v' = 0 \<Longrightarrow> v_cmdAddr v' = v_cmdAddr v"
    "v_fbAddr v' = next_fb l (v_fbAddr v)"
    "c_int (v_cmdAddr v' + v_cmdoffset v') = v_cmdAddr v' + cmd_offset (n + 1072)"
    "v_cmdAddr v' + cmd_offset (n + 1072) \<le> fb1 l"
proof -
  have v': "v' = place_jpeg l n (v\<lparr>v_fbAddr := next_fb l (v_fbAddr v)\<rparr>)"
    using assms(5) by (simp add: v'_def frame_vars_def)
  note r = place_jpeg_ring [OF assms(1,2), of "v\<lparr>v_fbAddr := next_fb l (v_fbAddr v)\<rparr>"]
  note off = cmd_offset_bounds [OF assms(2)]
  show "cmd_base l \<le> v_cmdAddr v'" "v_resetflag v' = 0 \<Longrightarrow> v_cmdAddr v' = v_cmdAddr v"
    "v_fbAddr v' = next_fb l (v_fbAddr v)"
    using r assms(3,4) unfolding v' by simp_all
  show le: "v_cmdAddr v' + cmd_offset (n + 1072) \<le> fb1 l" using r(2,3) assms(3,4) unfolding v' by simp
  with off show "v_cmdAddr v' + n + 1072 \<le> fb1 l" by linarith
  have "v_cmdoffset v' = cmd_offset (n + 1072)" using r(3) assms(3,4) unfolding v' by simp
  moreover have "0 \<le> v_cmdAddr v'" using r(1) assms(1,3,4) unfolding v' ring_ok_def by simp
  ultimately show "c_int (v_cmdAddr v' + v_cmdoffset v') = v_cmdAddr v' + cmd_offset (n + 1072)"
    using le off assms(1) by (intro c_int_id [THEN trans]) (auto simp: ring_ok_def)
qed

text \<open>What goes out for a JPEG frame when the device takes it.\<close>

definition jpeg_payload :: "t6evdi \<Rightarrow> bytes \<Rightarrow> int \<Rightarrow> bytes" where
  "jpeg_payload dev img flag =
    write_bytes (write_bytes (replicate (nat (int (length img) + 1072)) 0) 0
      (flip_header_bytes (jpeg_flip dev (int (length img)) flag))) 48 img"

definition frame_payloads :: "t6evdi \<Rightarrow> usb_vars \<Rightarrow> daemon_frame \<Rightarrow> bytes list" where
  "frame_payloads dev v frame =
    [announce (word_of_int (v_cmdAddr v)) (snd frame + 1072),
     jpeg_payload (with_addrs v dev) (take (nat (snd frame)) (fst frame)) (v_resetflag v)]"

lemma send_jpeg:
  fixes l :: fb_layout and v :: usb_vars
  assumes "\<And>tr x. 0 \<le> fst (host tr x)" "0 \<le> snd frame" "nat (snd frame) \<le> length (fst frame)" "bRun4K30 dev = 0"
  defines "v' \<equiv> frame_vars l dev (snd frame) v"
  shows "\<exists>tr'. usb_send_frame host True l dev frame v tr =
      Inr (True, v'\<lparr>v_cmdAddr := c_int (v_cmdAddr v' + v_cmdoffset v')\<rparr>, tr') \<and>
    bulk_payloads EP_BLK_OUT_ADDR tr' = bulk_payloads EP_BLK_OUT_ADDR tr @ frame_payloads dev v' frame"
proof -
  let ?img = "take (nat (snd frame)) (fst frame)"
  let ?dev = "with_addrs v' dev"
  have n: "int (length ?img) = snd frame" using assms(2,3) by simp
  have neg: "fst (host tr x) < 0 \<longleftrightarrow> False" for tr x using assms(1) [of tr x] by simp
  let ?a = "BulkOut EP_BLK_OUT_ADDR (announce (cmdAddr ?dev) (snd frame + 48 + 1024))"
  let ?b = "BulkOut EP_BLK_OUT_ADDR (jpeg_payload ?dev ?img (v_resetflag v'))"
  have "t6_libusb_FilpJpegFrame host True ?dev ?img (v_resetflag v') tr = Inr (0, (tr @ [?a]) @ [?b])"
    unfolding t6_libusb_FilpJpegFrame_def n
    by (simp add: usb_send_def neg jpeg_payload_def Let_def n add.assoc del: length_take)
  then have "usb_send_frame host True l dev frame v tr =
      Inr (True, v'\<lparr>v_cmdAddr := c_int (v_cmdAddr v' + v_cmdoffset v')\<rparr>, (tr @ [?a]) @ [?b])"
    using assms(3,4) by (simp add: usb_send_frame_def v'_def [symmetric] Let_def with_addrs_def)
  then show ?thesis
    by (auto simp: frame_payloads_def with_addrs_def add.assoc)
qed

definition frame_ok :: "daemon_frame \<Rightarrow> bool" where
  "frame_ok frame \<longleftrightarrow> jpeg_size_ok (snd frame) \<and> nat (snd frame) \<le> length (fst frame)"

text \<open>The positions in the ring and the frame buffers of a schedule.\<close>

lemma schedule_ring:
  assumes "ring_ok l" "bRun4K30 dev = 0" "\<forall>frame \<in> set frames. frame_ok frame"
    and "cmd_base l \<le> v_cmdAddr v" "v_cmdAddr v \<le> fb1 l" "i < length frames"
    and vs: "vs = schedule l dev (map snd frames) v"
  shows "cmd_base l \<le> v_cmdAddr (vs ! i) \<and> v_cmdAddr (vs ! i) + snd (frames ! i) + 1072 \<le> fb1 l \<and>
    v_fbAddr (vs ! i) = (next_fb l ^^ Suc i) (v_fbAddr v) \<and>
    (Suc i < length frames \<longrightarrow> v_resetflag (vs ! Suc i) = 0 \<longrightarrow>
      v_cmdAddr (vs ! i) + snd (frames ! i) + 1072 \<le> v_cmdAddr (vs ! Suc i))"
  using assms(3-6) unfolding vs
proof (induction frames arbitrary: v i)
  case (Cons frame frames)
  let ?v = "frame_vars l dev (snd frame) v"
  let ?w = "?v\<lparr>v_cmdAddr := c_int (v_cmdAddr ?v + v_cmdoffset ?v)\<rparr>"
  have n: "jpeg_size_ok (snd frame)" using Cons.prems(1) by (simp add: frame_ok_def)
  note r = frame_vars_ring [OF assms(1) n Cons.prems(2,3) assms(2)]
  note off = cmd_offset_bounds [OF n]
  have w: "v_cmdAddr ?w = v_cmdAddr ?v + cmd_offset (snd frame + 1072)" using r(5) by simp
  then have w_ok: "cmd_base l \<le> v_cmdAddr ?w" "v_cmdAddr ?w \<le> fb1 l" using r(1,6) off by simp_all
  have frames: "\<forall>frame \<in> set frames. frame_ok frame" using Cons.prems by simp
  have sch: "schedule l dev (map snd (frame # frames)) v = ?v # schedule l dev (map snd frames) ?w"
    by (simp add: Let_def)
  note ih = Cons.IH [OF frames w_ok]
  show ?case
  proof (cases i)
    case (Suc j)
    then show ?thesis using ih [of j] r(4) Cons.prems(4) unfolding sch by (simp add: funpow_swap1)
  next
    case 0
    have "v_cmdAddr ?v + snd frame + 1072 \<le> v_cmdAddr (frame_vars l dev (snd g) ?w)"
      if "frames = g # gs" "v_resetflag (frame_vars l dev (snd g) ?w) = 0" for g gs
    proof -
      have "jpeg_size_ok (snd g)" using frames that(1) by (simp add: frame_ok_def)
      from frame_vars_ring(3) [OF assms(1) this w_ok assms(2) that(2)] show ?thesis using w off(1) by linarith
    qed
    then show ?thesis using r(1,2,4) 0 unfolding sch by (cases frames) (simp_all add: Let_def)
  qed
qed simp

lemma usb_run_jpeg:
  assumes "\<And>tr x. 0 \<le> fst (host tr x)" "bRun4K30 dev = 0" "\<forall>frame \<in> set frames. frame_ok frame"
  shows "\<exists>v' tr'. usb_run host True l dev frames v tr = Inr (v', tr') \<and>
    bulk_payloads EP_BLK_OUT_ADDR tr' = bulk_payloads EP_BLK_OUT_ADDR tr @
      concat (map2 (frame_payloads dev) (schedule l dev (map snd frames) v) frames)"
  using assms(3)
proof (induction frames arbitrary: v tr)
  case (Cons frame frames)
  have f: "0 \<le> snd frame" "nat (snd frame) \<le> length (fst frame)"
    using Cons.prems by (simp_all add: frame_ok_def jpeg_size_ok_def)
  obtain tr1 where s: "usb_send_frame host True l dev frame v tr =
      Inr (True, (frame_vars l dev (snd frame) v)\<lparr>v_cmdAddr := c_int (v_cmdAddr (frame_vars l dev (snd frame) v) +
        v_cmdoffset (frame_vars l dev (snd frame) v))\<rparr>, tr1)"
    and p: "bulk_payloads EP_BLK_OUT_ADDR tr1 = bulk_payloads EP_BLK_OUT_ADDR tr @
      frame_payloads dev (frame_vars l dev (snd frame) v) frame"
    using send_jpeg [of host, OF assms(1) f assms(2), of l v tr] by blast
  have "\<forall>frame \<in> set frames. frame_ok frame" using Cons.prems by simp
  from Cons.IH [OF this] show ?case by (fastforce simp: s p Let_def)
qed simp

lemma next_fb_cycle:
  assumes "ring_ok l"
  shows "(next_fb l ^^ Suc i) (fb2 l) = [fb3 l, fb1 l, fb2 l] ! (i mod 3)"
proof (induction i)
  case (Suc i)
  have "i mod 3 < 3" by simp
  then consider "i mod 3 = 0" | "i mod 3 = 1" | "i mod 3 = 2" by linarith
  then show ?case
    using Suc.IH assms by cases (simp_all add: next_fb_def ring_ok_def mod_Suc)
qed (use assms in \<open>simp add: next_fb_def ring_ok_def\<close>)

text \<open>
  C17: JPEG frames of less than 3 MiB, sent to a dongle of at least 54 MiB that takes them. What goes out on the bulk
  endpoint is, for each frame in order, the announcement of its address and its header with its image. Each frame
  lies inside the ring before the first frame buffer; unless the reset flag tells the device to start over, it lies
  behind the frame before it; and the three frame buffers are used in turn, so the one being shown, and the one
  before it, are never written.
\<close>

theorem jpeg_frames_scheduled:
  assumes "54 \<le> ramsize" "ramsize \<le> 255" "bRun4K30 dev = 0" "\<forall>frame \<in> set frames. frame_ok frame"
    and "\<And>tr x. 0 \<le> fst (host tr x)"
    and l: "l = usb_layout ramsize k dev" and vs: "vs = schedule l dev (map snd frames) (usb_start l)"
  shows "(\<exists>v tr. usb_run host True l dev frames (usb_start l) [] = Inr (v, tr) \<and>
      bulk_payloads EP_BLK_OUT_ADDR tr = concat (map2 (frame_payloads dev) vs frames)) \<and>
    (\<forall>i < length frames. cmd_base l \<le> v_cmdAddr (vs ! i) \<and> v_cmdAddr (vs ! i) + snd (frames ! i) + 1072 \<le> fb1 l \<and>
      v_fbAddr (vs ! i) = [fb3 l, fb1 l, fb2 l] ! (i mod 3)) \<and>
    (\<forall>i. Suc i < length frames \<longrightarrow> v_resetflag (vs ! Suc i) = 0 \<longrightarrow>
      v_cmdAddr (vs ! i) + snd (frames ! i) + 1072 \<le> v_cmdAddr (vs ! Suc i))"
proof -
  have ring: "ring_ok l" unfolding l by (rule usb_layout_ring_ok [OF assms(1-3)])
  have start: "cmd_base l \<le> v_cmdAddr (usb_start l)" "v_cmdAddr (usb_start l) \<le> fb1 l"
    using ring by (simp_all add: usb_start_def ring_ok_def)
  note sch = schedule_ring [OF ring assms(3,4) start _ vs]
  have fb: "v_fbAddr (usb_start l) = fb2 l" by (simp add: usb_start_def)
  show ?thesis
  proof (intro conjI allI impI)
    show "\<exists>v tr. usb_run host True l dev frames (usb_start l) [] = Inr (v, tr) \<and>
        bulk_payloads EP_BLK_OUT_ADDR tr = concat (map2 (frame_payloads dev) vs frames)"
      using usb_run_jpeg [OF assms(5,3,4)] unfolding vs by fastforce
  qed (use sch next_fb_cycle [OF ring] fb in \<open>simp_all del: funpow.simps\<close>)
qed

lemma jpeg_frames_scheduled_witness:
  "let l = usb_layout 58 1 (demo_dongle 0); fs = replicate 12 (replicate 3000 7, 3000); vs = schedule l (demo_dongle 0) (map snd fs) (usb_start l)
   in v_cmdAddr (vs ! 11) + 3000 + 1072 \<le> fb1 l \<and> v_fbAddr (vs ! 11) = fb2 l"
  using jpeg_frames_scheduled [of 58 "demo_dongle 0" "replicate 12 (replicate 3000 7, 3000)" "\<lambda>_ _. (0, [])" _ 1, OF _ _ _ _ _ refl refl]
  by (fastforce simp: demo_dongle_def frame_ok_def jpeg_size_ok_def Let_def)

end
