(* ===== verification/DaemonCapture.thy ===== *)
theory DaemonCapture
  imports DaemonMemory "HOL-Library.Signed_Division"
begin

text \<open>
  How \<^verbatim>\<open>evdi_process\<close> of \<^verbatim>\<open>evdi_t6_1/main.c\<close> turns the grabbed pixels into a frame of the queue, as it is compiled
  (without \<^verbatim>\<open>USE4KJPEG\<close>). The TurboJPEG library is not part of the repository, only its header is: its three
  calls are a parameter \<open>tj\<close>, which is only asked for its results. The block of \<^verbatim>\<open>allocate_video_frame2\<close> is taken
  to be as large as the structure stored in it, which \<open>FrameQueue\<close> shows it is not asked to be.
\<close>

section \<open>The encoders\<close>

text \<open>
  \<open>tj_compress\<close> and \<open>tj_transform\<close> give the JPEG image they allocate, or \<open>None\<close> when they fail and leave pointer and
  size as they are; \<open>tj_encode\<close> gives the bytes it writes to the caller's buffer. The flag is whether the pixels are RGBA.
\<close>

record tj_lib =
  tj_compress :: "bool \<Rightarrow> bytes \<Rightarrow> int \<Rightarrow> int \<Rightarrow> bytes option"
  tj_encode :: "bool \<Rightarrow> bytes \<Rightarrow> int \<Rightarrow> int \<Rightarrow> bytes"
  tj_transform :: "int \<Rightarrow> bytes \<Rightarrow> bytes option"

definition DRM_FORMAT_XBGR8888 :: u32 where "DRM_FORMAT_XBGR8888 = 0x34324258"
definition DRM_FORMAT_ABGR8888 :: u32 where "DRM_FORMAT_ABGR8888 = 0x34324241"

section \<open>One frame\<close>

text \<open>
  The size of a planar frame, computed in \<^verbatim>\<open>int\<close> and stored in an \<^verbatim>\<open>unsigned long\<close>.
\<close>

definition yuv_size :: "t6evdi \<Rightarrow> int" where
  "yuv_size dev = (c_int (c_int (uint (Width dev) * uint (Height dev)) * 3) sdiv 2) mod 2 ^ 64"

text \<open>
  The image with its size; the empty list with a size stands for a null pointer. \<open>mem\<close> is whether the buffer for a
  planar frame is allocated, \<open>junk\<close> what it holds. A planar frame switches the rotation off for good.
\<close>

definition encode_image ::
    "tj_lib \<Rightarrow> bool \<Rightarrow> (nat \<Rightarrow> u8) \<Rightarrow> u32 \<Rightarrow> bytes \<Rightarrow> t6evdi \<Rightarrow> c_error + bytes \<times> int \<times> t6evdi" where
  "encode_image tj mem junk fmt pixels dev =
    (let w = uint (Width dev); h = uint (Height dev);
         rgba = (fmt = DRM_FORMAT_XBGR8888 \<or> fmt = DRM_FORMAT_ABGR8888)
     in if bRun4K30 dev = 0 then
          case tj_compress tj rgba pixels w h of
            None \<Rightarrow> Inr ([], 0, dev)
          | Some img \<Rightarrow> Inr (img, int (length img), dev)
        else
          let n = yuv_size dev;
              room = nat ((n + 48 + 1024) mod 2 ^ 64);
              out = tj_encode tj rgba pixels w h;
              dev' = dev\<lparr>jpg_rotate := 0\<rparr>
          in if \<not> mem then Inr ([], n, dev')
             else if room < 48 + length out then Inl OutOfBounds
             else Inr (write_bytes (map junk [0..<room]) 48 out, n, dev'))"

text \<open>
  The frame that is queued, if any: \<open>fmem\<close> is whether \<^verbatim>\<open>allocate_video_frame2\<close> finds memory. A transformation that
  fails drops the frame.
\<close>

definition capture_frame ::
    "tj_lib \<Rightarrow> bool \<Rightarrow> (nat \<Rightarrow> u8) \<Rightarrow> bool \<Rightarrow> u32 \<Rightarrow> bytes \<Rightarrow> t6evdi \<Rightarrow> c_error + daemon_frame option \<times> t6evdi" where
  "capture_frame tj mem junk fmem fmt pixels dev =
    ebind (encode_image tj mem junk fmt pixels dev) (\<lambda>(img, n, dev).
      if 0 < jpg_rotate dev \<and> jpg_rotate dev < 4 then
        case tj_transform tj (jpg_rotate dev) img of
          None \<Rightarrow> Inr (None, dev)
        | Some t \<Rightarrow> Inr (if fmem then Some (t, c_int (int (length t))) else None, dev)
      else Inr (if fmem then Some (img, c_int n) else None, dev))"

section \<open>What is captured can be sent\<close>

text \<open>The results of the library fit an \<^verbatim>\<open>int\<close>.\<close>

definition tj_small :: "tj_lib \<Rightarrow> bool" where
  "tj_small tj \<longleftrightarrow>
    (\<forall>rgba px w h img. tj_compress tj rgba px w h = Some img \<longrightarrow> length img < 2 ^ 31) \<and>
    (\<forall>op img img'. tj_transform tj op img = Some img' \<longrightarrow> length img' < 2 ^ 31)"

lemma yuv_size_eq:
  assumes "uint (Width dev) * uint (Height dev) * 3 < 2 ^ 31"
  shows "yuv_size dev = uint (Width dev) * uint (Height dev) * 3 div 2"
    and "0 \<le> yuv_size dev" and "yuv_size dev < 2 ^ 30"
proof -
  let ?p = "uint (Width dev) * uint (Height dev)"
  have "0 \<le> ?p" by simp
  moreover have b: "?p * 3 < 2147483648" using assms by simp
  ultimately have "c_int ?p = ?p" by (intro c_int_id) linarith+
  moreover have "c_int (?p * 3) = ?p * 3" using b \<open>0 \<le> ?p\<close> by (intro c_int_id) linarith+
  ultimately have c: "c_int (c_int ?p * 3) = ?p * 3" by (simp only:)
  have d: "x sdiv 2 = x div 2" if "0 \<le> x" for x :: int
    using that by (cases "x = 0") (simp_all add: signed_divide_int_def sgn_if)
  show "yuv_size dev = ?p * 3 div 2" using assms \<open>0 \<le> ?p\<close> by (simp add: yuv_size_def c d [of "?p * 3"])
  then show "0 \<le> yuv_size dev" "yuv_size dev < 2 ^ 30" using assms \<open>0 \<le> ?p\<close> by simp_all
qed

lemma length_int_less: "length xs < 2 ^ 31 \<Longrightarrow> c_int (int (length xs)) = int (length xs)"
  by (rule c_int_id) simp_all

lemma jpeg_captured:
  assumes "tj_small tj" "bRun4K30 dev = 0" "capture_frame tj mem junk fmem fmt pixels dev = Inr (Some f, dev')"
  shows "dev' = dev \<and> snd f = int (length (fst f))"
proof -
  obtain img where e: "encode_image tj mem junk fmt pixels dev = Inr (img, int (length img), dev)" "length img < 2 ^ 31"
    using assms(1,2) by (fastforce simp: encode_image_def tj_small_def Let_def split: option.splits)
  show ?thesis
    using assms(1,3) e(2) by (auto simp: capture_frame_def e(1) tj_small_def length_int_less split: if_splits option.splits)
qed

lemma yuv_captured:
  assumes "bRun4K30 dev \<noteq> 0" "uint (Width dev) * uint (Height dev) * 3 < 2 ^ 31"
    "capture_frame tj True junk fmem fmt pixels dev = Inr (Some f, dev')"
  shows "dev' = dev\<lparr>jpg_rotate := 0\<rparr> \<and> snd f = yuv_size dev \<and> length (fst f) = nat (yuv_size dev) + 1072"
proof -
  note n = yuv_size_eq [OF assms(2)]
  have room: "nat ((1072 + yuv_size dev) mod 18446744073709551616) = nat (yuv_size dev) + 1072" using n(2,3) by simp
  have c: "c_int (yuv_size dev) = yuv_size dev" using n(2,3) by simp
  show ?thesis
    using assms(1,3)
    by (auto simp: capture_frame_def encode_image_def Let_def room c wire ebind_eq_Inr split: if_splits)
qed

lemma send_in_place_ok:
  "48 \<le> length img \<Longrightarrow> nat len \<le> length img \<Longrightarrow> \<exists>ret img' tr'. send_in_place host addr hdr img len tr = Inr (ret, img', tr')"
  by (auto simp: send_in_place_def Let_def split: prod.splits)

lemma flip_jpeg_ok: "\<exists>ret tr'. t6_libusb_FilpJpegFrame host True dev img flag tr = Inr (ret, tr')"
  by (auto simp: t6_libusb_FilpJpegFrame_def Let_def split: prod.splits)

text \<open>
  C19: whatever frame the capture thread queues, the USB thread can send: it is sent from inside its buffer, in the
  format its mode calls for, whatever the host answers and wherever the addresses stand. This takes every
  allocation to succeed, and for a planar frame a size that does not overflow.
\<close>

theorem captured_frame_can_be_sent:
  assumes "tj_small tj" "capture_frame tj True junk True fmt pixels dev = Inr (Some f, dev')"
    and "bRun4K30 dev \<noteq> 0 \<Longrightarrow> uint (Width dev) * uint (Height dev) * 3 < 2 ^ 31"
  shows "\<exists>r. usb_send_frame host True l dev' f v tr = Inr r"
proof (cases "bRun4K30 dev = 0")
  case True
  note j = jpeg_captured [OF assms(1) True assms(2)]
  let ?v = "frame_vars l dev (snd f) v"
  obtain ret tr' where "t6_libusb_FilpJpegFrame host True (with_addrs ?v dev) (fst f) (v_resetflag ?v) tr = Inr (ret, tr')"
    using flip_jpeg_ok by blast
  then show ?thesis using j True by (auto simp: usb_send_frame_def Let_def with_addrs_def)
next
  case False
  note y = yuv_captured [OF False assms(3) [OF False] assms(2)] and n = yuv_size_eq [OF assms(3) [OF False]]
  let ?v = "frame_vars l dev' (snd f) v"
  obtain ret img tr' where "send_in_place host (fbAddr (with_addrs ?v dev')) (yv12_flip (with_addrs ?v dev') (snd f) 0) (fst f)
      (snd f + 48 + 1024) tr = Inr (ret, img, tr')"
    using send_in_place_ok [of "fst f" "snd f + 48 + 1024"] y n(2) by fastforce
  then show ?thesis using False y
    by (auto simp: usb_send_frame_def Let_def with_addrs_def t6_libusb_FilpYV12Frame_def)
qed

definition demo_tj :: tj_lib where
  "demo_tj = \<lparr>tj_compress = (\<lambda>rgba px w h. Some [0xFF, 0xD8]), tj_encode = (\<lambda>rgba px w h. replicate 12 0x80), tj_transform = (\<lambda>op img. None)\<rparr>"

definition demo_4k :: t6evdi where
  "demo_4k = \<lparr>t6usbdev = True, fbAddr = 0, cmdAddr = 0, jpg_rotate = 0, Width = 4, Height = 2,
     disp_interface = 0, edid = replicate 512 0, bRun4K30 = 1, dispcaps = 0x82\<rparr>"

lemma captured_frame_can_be_sent_witness:
  "\<exists>f dev'. capture_frame demo_tj True (\<lambda>_. 0) True 0 [] demo_4k = Inr (Some f, dev') \<and> snd f = 12 \<and>
     (\<exists>r. usb_send_frame (\<lambda>_ _. (0, [])) True (usb_layout 64 1 demo_4k) dev' f (usb_start (usb_layout 64 1 demo_4k)) [] = Inr r)"
proof -
  have n: "yuv_size demo_4k = 12" using yuv_size_eq(1) [of demo_4k] by (simp add: demo_4k_def)
  have "\<exists>f. capture_frame demo_tj True (\<lambda>_. 0) True 0 [] demo_4k = Inr (Some f, demo_4k\<lparr>jpg_rotate := 0\<rparr>) \<and> snd f = 12"
    by (simp add: capture_frame_def encode_image_def n Let_def demo_tj_def) (simp add: demo_4k_def)
  then obtain f where f: "capture_frame demo_tj True (\<lambda>_. 0) True 0 [] demo_4k = Inr (Some f, demo_4k\<lparr>jpg_rotate := 0\<rparr>)"
    "snd f = 12" by blast
  have "tj_small demo_tj" by (simp add: tj_small_def demo_tj_def)
  moreover have "uint (Width demo_4k) * uint (Height demo_4k) * 3 < 2 ^ 31" by (simp add: demo_4k_def)
  ultimately have "\<exists>r. usb_send_frame (\<lambda>_ _. (0, [])) True (usb_layout 64 1 demo_4k) (demo_4k\<lparr>jpg_rotate := 0\<rparr>) f
      (usb_start (usb_layout 64 1 demo_4k)) [] = Inr r"
    by (intro captured_frame_can_be_sent [OF _ f(1)])
  with f show ?thesis by blast
qed

section \<open>The planes of a planar frame\<close>

lemma round_up_16:
  assumes "unat (x :: u16) \<le> 8192"
  shows "unat (round_up (ucast x) 16) = (unat x + 15) div 16 * 16"
  using assms by (subst unat_round_up) (simp_all add: unat_ucast_up)

lemma ceil16:
  obtains k where "((n :: nat) + 15) div 16 * 16 = n + k" "k < 16" "k = 0 \<longleftrightarrow> 16 dvd n"
proof -
  have "n + 15 = (n + 15) div 16 * 16 + (n + 15) mod 16" by simp
  moreover have "(n + 15) mod 16 < 16" by simp
  ultimately have "(n + 15) div 16 * 16 = n + (15 - (n + 15) mod 16)" by linarith
  moreover have "15 - (n + 15) mod 16 = 0 \<longleftrightarrow> 16 dvd n" by presburger
  ultimately show thesis by (intro that [of "15 - (n + 15) mod 16"]) simp_all
qed

text \<open>The pitches and offsets as numbers, for a size far from the bounds of the fields.\<close>

lemma yv12_planes:
  assumes "jpg_rotate dev = 0" "unat (Width dev) \<le> 8192" "unat (Height dev) \<le> 8192"
  defines "w \<equiv> unat (Width dev)" and "h \<equiv> unat (Height dev)"
  shows "unat (UV_Pitch (yv12_flip dev n flag)) = (w div 2 + 15) div 16 * 16"
    and "unat (V_Data_Offset (yv12_flip dev n flag) - Y_RGB_Data_FB_Offset (yv12_flip dev n flag)) =
      (w + 15) div 16 * 16 * h + (w div 2 + 15) div 16 * 16 * h div 2"
proof -
  let ?yp = "ucast (round_up (ucast (Width dev)) 16) :: u16" and ?up = "ucast (round_up (ucast (Width dev div 2)) 16) :: u16"
  have b: "(w + 15) div 16 * 16 \<le> 8192" "(w div 2 + 15) div 16 * 16 \<le> 4096" using assms(2) by (auto simp: w_def)
  have y: "unat ?yp = (w + 15) div 16 * 16"
    using round_up_16 [OF assms(2)] b(1) by (simp add: unsigned_ucast_eq take_bit_nat_eq_self w_def)
  have "unat (Width dev div 2) = w div 2" by (simp add: w_def unat_div)
  then have u: "unat ?up = (w div 2 + 15) div 16 * 16"
    using round_up_16 [of "Width dev div 2"] b assms(2) by (simp add: unsigned_ucast_eq take_bit_nat_eq_self w_def)
  show "unat (UV_Pitch (yv12_flip dev n flag)) = (w div 2 + 15) div 16 * 16"
    using u assms(1) by (simp add: yv12_flip_def rotated_size_def Let_def)
  have h: "h \<le> 8192" using assms(3) by (simp add: h_def)
  have hp: "(w + 15) div 16 * 16 * h \<le> 8192 * 8192" "(w div 2 + 15) div 16 * 16 * h \<le> 4096 * 8192"
    using b h by (intro mult_le_mono; simp)+
  then have "unat ((ucast ?yp :: u32) * ucast (Height dev)) = (w + 15) div 16 * 16 * h"
    "unat ((ucast ?up :: u32) * ucast (Height dev)) = (w div 2 + 15) div 16 * 16 * h"
    using y u by (simp_all add: unat_mult_no_wrap unat_ucast_up h_def)
  moreover have "(w + 15) div 16 * 16 * h + (w div 2 + 15) div 16 * 16 * h div 2 < 2 ^ 32"
  proof -
    have "x div 2 \<le> x" for x :: nat by simp
    from add_mono [OF hp(1) le_trans [OF this hp(2)]] show ?thesis by (rule le_less_trans) simp
  qed
  ultimately have "unat ((ucast ?yp :: u32) * ucast (Height dev) + ucast ?up * ucast (Height dev) div 2) =
      (w + 15) div 16 * 16 * h + (w div 2 + 15) div 16 * 16 * h div 2"
    by (subst unat_add_no_wrap) (simp_all add: unat_div)
  then show "unat (V_Data_Offset (yv12_flip dev n flag) - Y_RGB_Data_FB_Offset (yv12_flip dev n flag)) =
      (w + 15) div 16 * 16 * h + (w div 2 + 15) div 16 * 16 * h div 2"
    using assms(1) by (simp add: yv12_flip_def rotated_size_def Let_def)
qed

text \<open>
  C20: the header of a planar frame describes the three planes to the device with lines rounded up to 16 bytes, while
  the encoder packs them. The planes described are never smaller than the image sent, and they are the image, to
  the last byte, exactly when the width is a multiple of 32; for any other width (1680, 1360) the device is told of
  planes that reach beyond what was sent.
\<close>

theorem planar_header_matches_image:
  assumes "jpg_rotate dev = 0" "even (unat (Width dev))" "even (unat (Height dev))" "0 < unat (Height dev)"
    "unat (Width dev) \<le> 8192" "unat (Height dev) \<le> 8192"
  defines "hdr \<equiv> yv12_flip dev (yuv_size dev) 0"
  defines "described \<equiv> unat (V_Data_Offset hdr - Y_RGB_Data_FB_Offset hdr) + unat (UV_Pitch hdr) * (unat (Height dev) div 2)"
  shows "yuv_size dev \<le> int described \<and> (yuv_size dev = int described \<longleftrightarrow> 32 dvd unat (Width dev))"
proof -
  define w h where "w = unat (Width dev)" and "h = unat (Height dev)"
  obtain v where v: "w = 2 * v" using assms(2) unfolding w_def by (rule evenE)
  obtain g where g: "h = 2 * g" using assms(3) unfolding h_def by (rule evenE)
  obtain j where j: "(w + 15) div 16 * 16 = w + j" "j = 0 \<longleftrightarrow> 16 dvd w" by (rule ceil16 [of w])
  obtain k where k: "(w div 2 + 15) div 16 * 16 = w div 2 + k" "k = 0 \<longleftrightarrow> 16 dvd w div 2" by (rule ceil16 [of "w div 2"])
  have d: "described = 2 * g * (3 * v + (j + k))"
    unfolding described_def hdr_def yv12_planes [OF assms(1,5,6)]
    unfolding w_def [symmetric] h_def [symmetric] j(1) k(1) unfolding v g by (simp add: algebra_simps)
  have wh: "uint (Width dev) = int w" "uint (Height dev) = int h" by (simp_all add: w_def h_def)
  have "w * h \<le> 8192 * 8192" using assms(5,6) unfolding w_def h_def by (rule mult_le_mono)
  then have "int w * int h \<le> 8192 * 8192" by (metis of_nat_le_iff of_nat_mult of_nat_numeral)
  then have "yuv_size dev = int w * int h * 3 div 2"
    using yuv_size_eq(1) [of dev] unfolding wh by simp
  then have n: "yuv_size dev = int (2 * g * (3 * v))" unfolding v g by simp
  have "0 < g" using assms(4) g by (simp add: h_def)
  then have "2 * g * (3 * v) = 2 * g * (3 * v + (j + k)) \<longleftrightarrow> j = 0 \<and> k = 0" by simp
  moreover have "j = 0 \<and> k = 0 \<longleftrightarrow> 32 dvd w" using j(2) k(2) v by (auto simp: dvd_def)
  moreover have "2 * g * (3 * v) \<le> 2 * g * (3 * v + (j + k))" by simp
  ultimately show ?thesis unfolding n d of_nat_eq_iff of_nat_le_iff w_def by simp
qed

definition demo_size :: "u16 \<Rightarrow> t6evdi" where
  "demo_size w = \<lparr>t6usbdev = True, fbAddr = 0, cmdAddr = 0, jpg_rotate = 0, Width = w, Height = 1050,
     disp_interface = 0, edid = replicate 512 0, bRun4K30 = 1, dispcaps = 0x82\<rparr>"

lemma planar_header_matches_image_witness:
  "let dev = demo_size 1680; hdr = yv12_flip dev (yuv_size dev) 0
   in yuv_size dev \<noteq> int (unat (V_Data_Offset hdr - Y_RGB_Data_FB_Offset hdr) + unat (UV_Pitch hdr) * (unat (Height dev) div 2))"
  using planar_header_matches_image [of "demo_size 1680"] by (simp add: demo_size_def)

end
