(* ===== verification/EndToEnd.thy ===== *)
theory EndToEnd
  imports EvdiCommit DaemonCapture
begin

text \<open>
  The whole way of a picture through the vendor's package: the compositor's commit (\<open>EvdiModeset\<close>), the painter and the grab of the daemon through
  the library (\<open>EvdiCommit\<close>), the encoding (\<open>DaemonCapture\<close>), and the transfers to the adapter (\<open>DaemonMemory\<close>, \<open>UsbDongle\<close>), whose headers
  are those of the portable library (\<open>T6Proto\<close>).
\<close>

section \<open>The buffer as bytes\<close>

text \<open>What the daemon hands to the encoder: its buffer, from the first row to the last.\<close>

definition buffer_bytes :: "int \<Rightarrow> evdi_framebuffer \<Rightarrow> user_mem \<Rightarrow> bytes" where
  "buffer_bytes strd efb mem = map (\<lambda>i. mem (int i)) [0..<nat (strd * uint (fb_height efb))]"

definition pixel_bytes :: "int \<Rightarrow> bytes \<Rightarrow> u16 \<times> u16 \<Rightarrow> bytes" where
  "pixel_bytes strd b px = take 4 (drop (nat (strd * uint (snd px) + 4 * uint (fst px))) b)"

lemma buffer_pixel:
  assumes "px_copied efb vm strd mem px" "in_fb efb px" "user_buf_ok efb strd" "fb_mapped efb vm"
  shows "pixel_bytes strd (buffer_bytes strd efb mem) px = fb_pixel efb vm (uint (fst px)) (uint (snd px))"
proof -
  let ?x = "uint (fst px)" and ?y = "uint (snd px)" and ?h = "uint (fb_height efb)"
  have px: "?x < uint (fb_width efb)" "?y < ?h" using in_fb_frame [OF assms(2)] by (simp_all add: px_frame_def)
  have s: "4 * uint (fb_width efb) \<le> strd" using assms(3) by (simp add: user_buf_ok_def)
  have fits: "strd * ?y + 4 * ?x + 4 \<le> strd * ?h" by (rule row_offset_le [OF px(2,1) s]) simp_all
  have off: "0 \<le> strd * ?y + 4 * ?x" using s px by (simp add: order_trans [OF _ s])
  let ?o = "uint (fb_offset efb) + uint (fb_pitch efb) * ?y + 4 * ?x"
  have m: "4 * uint (fb_width efb) \<le> uint (fb_pitch efb)"
    "uint (fb_offset efb) + uint (fb_pitch efb) * ?h \<le> int (length vm)" using assms(4) by (simp_all add: fb_mapped_def)
  have "uint (fb_pitch efb) * ?y + 4 * ?x + 4 \<le> uint (fb_pitch efb) * ?h" by (rule row_offset_le [OF px(2,1) m(1)]) simp_all
  then have "?o + 4 \<le> int (length vm)" "0 \<le> ?o" using m(2) by (linarith, simp)
  then have "nat ?o + 4 \<le> length vm" by linarith
  then have len: "length (fb_pixel efb vm ?x ?y) = 4" by (simp add: fb_pixel_def)
  show ?thesis
  proof (rule nth_equalityI)
    show "length (pixel_bytes strd (buffer_bytes strd efb mem) px) = length (fb_pixel efb vm ?x ?y)"
      using fits off by (simp add: pixel_bytes_def buffer_bytes_def len)
  next
    fix i assume "i < length (pixel_bytes strd (buffer_bytes strd efb mem) px)"
    then have i: "i < 4" by (simp add: pixel_bytes_def)
    have "int (nat (strd * ?y + 4 * ?x) + i) = strd * ?y + 4 * ?x + int i" using off by simp
    then have "pixel_bytes strd (buffer_bytes strd efb mem) px ! i = mem (strd * ?y + 4 * ?x + int i)"
      using i fits off by (simp add: pixel_bytes_def buffer_bytes_def)
    then show "pixel_bytes strd (buffer_bytes strd efb mem) px ! i = fb_pixel efb vm ?x ?y ! i"
      using assms(1) i by (simp add: px_copied_def copied_def)
  qed
qed

section \<open>From the framebuffer to the wire\<close>

text \<open>The two transfers of a JPEG image: the announcement and the frame, with the headers of the portable library.\<close>

definition image_transfers :: "t6evdi \<Rightarrow> int \<Rightarrow> bytes \<Rightarrow> bytes list" where
  "image_transfers dev flag img =
    (let n = int (length img)
     in [t6_build_display_bulk_header (word_of_int (n + 1072)) (cmdAddr dev) (word_of_int (n + 1072)) 0 False,
         t6_write_video_flip_header (t6_make_jpeg_flip_header (disp_interface dev) (word_of_int (n + 1024)) (Width dev) (Height dev)
           (cmdAddr dev) (fbAddr dev) (word_of_int flag)) @ img @ replicate 1024 0])"

lemma payloads_of_image:
  assumes "disp_interface dev < 2" "unat (Width dev) \<le> 65504" "unat (Height dev) \<le> 65504" "jpg_rotate dev = 0"
  shows "frame_payloads dev u (img, int (length img)) = image_transfers (with_addrs u dev) (v_resetflag u) img"
proof -
  let ?d = "with_addrs u dev"
  have r: "rotated_size ?d = (Width dev, Height dev)" using assms(4) by (simp add: rotated_size_def with_addrs_def)
  have d: "disp_interface ?d = disp_interface dev" "Width ?d = Width dev" "Height ?d = Height dev" by (simp_all add: with_addrs_def)
  have h: "flip_header_bytes (jpeg_flip ?d (int (length img)) (v_resetflag u)) =
      t6_write_video_flip_header (t6_make_jpeg_flip_header (disp_interface dev) (word_of_int (int (length img) + 1024)) (Width dev) (Height dev)
        (cmdAddr ?d) (fbAddr ?d) (word_of_int (v_resetflag u)))"
    using jpeg_flip_lib [of ?d "int (length img)" "v_resetflag u"] assms(1-3) by (simp add: r d)
  have len: "nat (int (length img) + 1072) = 48 + (length img + 1024)" by simp
  have "jpeg_payload ?d img (v_resetflag u) = flip_header_bytes (jpeg_flip ?d (int (length img)) (v_resetflag u)) @ img @ replicate 1024 0"
    unfolding jpeg_payload_def len by (simp add: write_bytes_def h wire)
  then have "jpeg_payload ?d (take (nat (int (length img))) img) (v_resetflag u) =
      t6_write_video_flip_header (t6_make_jpeg_flip_header (disp_interface ?d) (word_of_int (int (length img) + 1024)) (Width ?d) (Height ?d)
        (cmdAddr ?d) (fbAddr ?d) (word_of_int (v_resetflag u))) @ img @ replicate 1024 0"
    unfolding h d by simp
  moreover have "announce (word_of_int (v_cmdAddr u)) (int (length img) + 1072) =
      t6_build_display_bulk_header (word_of_int (int (length img) + 1072)) (cmdAddr ?d) (word_of_int (int (length img) + 1072)) 0 False"
    unfolding announce_eq by (simp add: with_addrs_def)
  ultimately show ?thesis by (simp only: frame_payloads_def image_transfers_def Let_def fst_conv snd_conv)
qed

lemma jpeg_capture:
  assumes "tj_small tj" "bRun4K30 dev = 0" "jpg_rotate dev = 0"
    and "tj_compress tj (fmt = DRM_FORMAT_XBGR8888 \<or> fmt = DRM_FORMAT_ABGR8888) raw (uint (Width dev)) (uint (Height dev)) = Some img"
  shows "capture_frame tj mem junk True fmt raw dev = Inr (Some (img, int (length img)), dev)"
proof -
  have "length img < 2 ^ 31" using assms(1,4) unfolding tj_small_def by blast
  then show ?thesis using assms(2-4) by (simp add: capture_frame_def encode_image_def Let_def length_int_less)
qed



end
