(* ===== verification/EvdiPlatform.thy ===== *)
theory EvdiPlatform
  imports EvdiDrm
begin

text \<open>
  The table of \<^verbatim>\<open>evdi\<close> devices (\<^verbatim>\<open>evdi_platform_drv.c\<close>, \<^verbatim>\<open>evdi_platform_dev.c\<close>): additions, removals, and the links
  of devices to the USB devices they display on. A parent is the identity of a USB
  device. The mutex is held over the whole of an operation, except in the USB notifier, which takes it only to change the table;
  the notifier is one operation here.
\<close>

section \<open>Devices\<close>

text \<open>The driver data of a bound device: its DRM device, whether a daemon is connected to it, and its link.\<close>

record platform_data =
  pd_dev :: drm_dev
  pd_connected :: bool
  pd_parent :: "nat option"
  symlinked :: bool

record platform_dev =
  drvdata :: "platform_data option"
  bus_parent :: "nat option"

definition EVDI_DEVICE_COUNT_MAX :: nat where "EVDI_DEVICE_COUNT_MAX = 16"

record drv_context =
  devices :: "platform_dev option list"
  dev_count :: u32

text \<open>The answers of the kernel to one addition: the registration, the driver data, the set-up, and the link.\<close>

record add_env =
  env_reg :: bool
  env_data :: bool
  env_dev :: dev_env
  env_link :: int

definition get_data :: "platform_dev \<Rightarrow> c_error + platform_data" where
  "get_data pdev = (case drvdata pdev of None \<Rightarrow> Inl NullDeref | Some data \<Rightarrow> Inr data)"

definition evdi_platform_device_probe :: "add_env \<Rightarrow> c_error + (int \<times> platform_data option)" where
  "evdi_platform_device_probe env =
    (if \<not> env_data env then Inr (- ENOMEM, None)
     else ebind (evdi_drm_device_create (env_dev env)) (\<lambda>(ret, d).
       Inr (if ret \<noteq> 0 then (ret, None)
            else (0, Some \<lparr>pd_dev = d, pd_connected = False, pd_parent = None, symlinked = False\<rparr>))))"

definition evdi_platform_device_remove :: "platform_data \<Rightarrow> c_error + drm_dev" where
  "evdi_platform_device_remove data = evdi_drm_device_remove (pd_dev data)"

text \<open>
  Registration binds the driver: its probe is called, and a device whose probe fails stays registered without driver
  data. A registration that fails returns an error pointer, which is followed for the DMA mask.
\<close>

definition evdi_platform_dev_create :: "add_env \<Rightarrow> c_error + platform_dev" where
  "evdi_platform_dev_create env =
    (if \<not> env_reg env then Inl NullDeref
     else ebind (evdi_platform_device_probe env) (\<lambda>(_, data). Inr \<lparr>drvdata = data, bus_parent = None\<rparr>))"

text \<open>Unregistering removes the driver from a device that is bound.\<close>

definition evdi_platform_dev_destroy :: "platform_dev \<Rightarrow> c_error + unit" where
  "evdi_platform_dev_destroy pdev = (case drvdata pdev of None \<Rightarrow> Inr ()
     | Some data \<Rightarrow> ebind (evdi_platform_device_remove data) (\<lambda>_. Inr ()))"

definition evdi_platform_device_is_free :: "platform_dev \<Rightarrow> c_error + bool" where
  "evdi_platform_device_is_free pdev = ebind (get_data pdev) (\<lambda>data.
     Inr (dev_private (pd_dev data) \<and> \<not> pd_connected data \<and> \<not> symlinked data))"

definition evdi_platform_device_link :: "int \<Rightarrow> nat option \<Rightarrow> platform_dev \<Rightarrow> c_error + platform_dev" where
  "evdi_platform_device_link link parent pdev =
    (case parent of None \<Rightarrow> Inr pdev
     | Some usb \<Rightarrow>
        ebind (get_data pdev) (\<lambda>data. ebind (evdi_platform_device_is_free pdev) (\<lambda>free.
          Inr (if \<not> free \<or> link \<noteq> 0 then pdev
               else pdev\<lparr>drvdata := Some (data\<lparr>symlinked := True, pd_parent := Some usb\<rparr>)\<rparr>))))"

definition evdi_platform_device_unlink_if_linked_with :: "nat \<Rightarrow> platform_dev \<Rightarrow> c_error + platform_dev" where
  "evdi_platform_device_unlink_if_linked_with usb pdev = ebind (get_data pdev) (\<lambda>data.
     Inr (if pd_parent data = Some usb then pdev\<lparr>drvdata := Some (data\<lparr>symlinked := False, pd_parent := None\<rparr>)\<rparr> else pdev))"

section \<open>The table\<close>

definition evdi_platform_drv_get_free_idx :: "drv_context \<Rightarrow> nat option" where
  "evdi_platform_drv_get_free_idx ctx = find (\<lambda>i. devices ctx ! i = None) [0..<EVDI_DEVICE_COUNT_MAX]"

fun free_device :: "drv_context \<Rightarrow> nat list \<Rightarrow> c_error + nat option" where
  "free_device ctx [] = Inr None"
| "free_device ctx (i # is) =
    (case devices ctx ! i of None \<Rightarrow> free_device ctx is
     | Some pdev \<Rightarrow> ebind (evdi_platform_device_is_free pdev) (\<lambda>free. if free then Inr (Some i) else free_device ctx is))"

definition evdi_platform_drv_get_free_device :: "drv_context \<Rightarrow> c_error + nat option" where
  "evdi_platform_drv_get_free_device ctx = free_device ctx [0..<EVDI_DEVICE_COUNT_MAX]"

text \<open>The new device, named by its index; \<open>None\<close> is the error pointer.\<close>

definition evdi_platform_drv_create_new_device :: "add_env \<Rightarrow> drv_context \<Rightarrow> c_error + (nat option \<times> drv_context)" where
  "evdi_platform_drv_create_new_device env ctx =
    (case evdi_platform_drv_get_free_idx ctx of
       None \<Rightarrow> Inr (None, ctx)
     | Some i \<Rightarrow>
        if EVDI_DEVICE_COUNT_MAX \<le> unat (dev_count ctx) then Inr (None, ctx)
        else ebind (evdi_platform_dev_create env) (\<lambda>pdev.
          Inr (Some i, ctx\<lparr>devices := (devices ctx)[i := Some pdev], dev_count := dev_count ctx + 1\<rparr>)))"

definition evdi_platform_device_add :: "add_env \<Rightarrow> nat option \<Rightarrow> drv_context \<Rightarrow> c_error + (int \<times> drv_context)" where
  "evdi_platform_device_add env parent ctx =
    ebind (if parent \<noteq> None then evdi_platform_drv_get_free_device ctx else Inr None) (\<lambda>found.
    ebind (case found of Some i \<Rightarrow> Inr (Some i, ctx) | None \<Rightarrow> evdi_platform_drv_create_new_device env ctx) (\<lambda>(idx, ctx).
    case idx of None \<Rightarrow> Inr (- EINVAL, ctx)
     | Some i \<Rightarrow>
        (case devices ctx ! i of None \<Rightarrow> Inr (0, ctx)
         | Some pdev \<Rightarrow> ebind (evdi_platform_device_link (env_link env) parent pdev) (\<lambda>pdev.
            Inr (0, ctx\<lparr>devices := (devices ctx)[i := Some pdev]\<rparr>)))))"

definition evdi_platform_device_count :: "drv_context \<Rightarrow> u32" where
  "evdi_platform_device_count ctx = dev_count ctx"

fun add_loop :: "(nat \<Rightarrow> add_env) \<Rightarrow> nat \<Rightarrow> drv_context \<Rightarrow> c_error + drv_context" where
  "add_loop env 0 ctx = Inr ctx"
| "add_loop env (Suc n) ctx =
    ebind (evdi_platform_device_add (env n) None ctx) (\<lambda>(ret, ctx). if ret = 0 then add_loop env n ctx else Inr ctx)"

definition evdi_platform_add_devices :: "(nat \<Rightarrow> add_env) \<Rightarrow> u32 \<Rightarrow> drv_context \<Rightarrow> c_error + (int \<times> drv_context)" where
  "evdi_platform_add_devices env val ctx =
    (if val = 0 then Inr (0, ctx)
     else if of_nat EVDI_DEVICE_COUNT_MAX - evdi_platform_device_count ctx < val then Inr (- EINVAL, ctx)
     else ebind (add_loop env (unat val) ctx) (\<lambda>ctx. Inr (0, ctx)))"

fun remove_loop :: "nat list \<Rightarrow> drv_context \<Rightarrow> c_error + drv_context" where
  "remove_loop [] ctx = Inr ctx"
| "remove_loop (i # is) ctx =
    (case devices ctx ! i of None \<Rightarrow> remove_loop is ctx
     | Some pdev \<Rightarrow> ebind (evdi_platform_dev_destroy pdev) (\<lambda>_.
        remove_loop is (ctx\<lparr>devices := (devices ctx)[i := None], dev_count := dev_count ctx - 1\<rparr>)))"

definition evdi_platform_remove_all_devices :: "drv_context \<Rightarrow> c_error + drv_context" where
  "evdi_platform_remove_all_devices ctx =
    ebind (remove_loop [0..<EVDI_DEVICE_COUNT_MAX] ctx) (\<lambda>ctx. Inr (ctx\<lparr>dev_count := 0\<rparr>))"

fun usb_loop :: "nat \<Rightarrow> nat list \<Rightarrow> drv_context \<Rightarrow> c_error + drv_context" where
  "usb_loop usb [] ctx = Inr ctx"
| "usb_loop usb (i # is) ctx =
    (case devices ctx ! i of None \<Rightarrow> usb_loop usb is ctx
     | Some pdev \<Rightarrow>
        ebind (evdi_platform_device_unlink_if_linked_with usb pdev) (\<lambda>pdev.
        let ctx = ctx\<lparr>devices := (devices ctx)[i := Some pdev]\<rparr>
        in if bus_parent pdev = Some usb
           then ebind (evdi_platform_dev_destroy pdev) (\<lambda>_.
             usb_loop usb is (ctx\<lparr>dev_count := dev_count ctx - 1, devices := (devices ctx)[i := None]\<rparr>))
           else usb_loop usb is ctx))"

text \<open>\<open>del\<close>: the action is the one the notifier acts on.\<close>

definition evdi_platform_drv_usb :: "bool \<Rightarrow> nat option \<Rightarrow> drv_context \<Rightarrow> c_error + drv_context" where
  "evdi_platform_drv_usb del usb ctx =
    (case usb of None \<Rightarrow> Inr ctx | Some u \<Rightarrow> if \<not> del then Inr ctx else usb_loop u [0..<EVDI_DEVICE_COUNT_MAX] ctx)"

text \<open>Loading and unloading the module. \<open>reg\<close> is the code of registering the driver.\<close>

definition drv_context_zero :: drv_context where
  "drv_context_zero = \<lparr>devices = replicate EVDI_DEVICE_COUNT_MAX None, dev_count = 0\<rparr>"

definition evdi_init :: "int \<Rightarrow> u32 \<Rightarrow> (nat \<Rightarrow> add_env) \<Rightarrow> c_error + (int \<times> drv_context)" where
  "evdi_init reg initial_device_count env =
    (if reg \<noteq> 0 then Inr (reg, drv_context_zero)
     else if initial_device_count \<noteq> 0 then evdi_platform_add_devices env initial_device_count drv_context_zero
     else Inr (0, drv_context_zero))"

definition evdi_exit :: "drv_context \<Rightarrow> c_error + drv_context" where
  "evdi_exit = evdi_platform_remove_all_devices"

section \<open>The table is counted\<close>

definition used :: "drv_context \<Rightarrow> nat" where
  "used ctx = length (filter (\<lambda>s. s \<noteq> None) (devices ctx))"

definition slot_ok :: "platform_dev option \<Rightarrow> bool" where
  "slot_ok s \<longleftrightarrow> (\<forall>pdev. s = Some pdev \<longrightarrow> bus_parent pdev = None \<and>
     (\<forall>data. drvdata pdev = Some data \<longrightarrow> (symlinked data \<longleftrightarrow> pd_parent data \<noteq> None)))"

definition plat_inv :: "drv_context \<Rightarrow> bool" where
  "plat_inv ctx \<longleftrightarrow> length (devices ctx) = EVDI_DEVICE_COUNT_MAX \<and> unat (dev_count ctx) = used ctx \<and> (\<forall>s\<in>set (devices ctx). slot_ok s)"

lemma filter_update:
  "i < length xs \<Longrightarrow> length (filter P (xs[i := x])) + (if P (xs ! i) then 1 else 0) = length (filter P xs) + (if P x then 1 else 0)"
proof (induction xs arbitrary: i)
  case (Cons y ys)
  then show ?case by (cases i) auto
qed simp

lemma used_le: "plat_inv ctx \<Longrightarrow> used ctx \<le> EVDI_DEVICE_COUNT_MAX"
  unfolding used_def plat_inv_def by (metis length_filter_le)

text \<open>A slot is filled, emptied or changed.\<close>

lemma fill_slot:
  assumes "plat_inv ctx" "i < EVDI_DEVICE_COUNT_MAX" "devices ctx ! i = None" "slot_ok (Some pdev)"
  shows "plat_inv (ctx\<lparr>devices := (devices ctx)[i := Some pdev], dev_count := dev_count ctx + 1\<rparr>)"
    "used (ctx\<lparr>devices := (devices ctx)[i := Some pdev], dev_count := dev_count ctx + 1\<rparr>) = used ctx + 1"
proof -
  have u: "length (filter (\<lambda>s. s \<noteq> None) ((devices ctx)[i := Some pdev])) = used ctx + 1"
    using filter_update [of i "devices ctx" "\<lambda>s. s \<noteq> None" "Some pdev"] assms by (simp add: plat_inv_def used_def)
  then show "used (ctx\<lparr>devices := (devices ctx)[i := Some pdev], dev_count := dev_count ctx + 1\<rparr>) = used ctx + 1"
    by (simp add: used_def)
  have "unat (dev_count ctx + 1) = unat (dev_count ctx) + 1"
    using unat_add_no_wrap [of "dev_count ctx" 1] assms(1) used_le [OF assms(1)] by (simp add: plat_inv_def EVDI_DEVICE_COUNT_MAX_def)
  then show "plat_inv (ctx\<lparr>devices := (devices ctx)[i := Some pdev], dev_count := dev_count ctx + 1\<rparr>)"
    using assms u by (auto simp: plat_inv_def used_def dest!: set_update_subset_insert [THEN subsetD])
qed

lemma empty_slot:
  assumes "plat_inv ctx" "i < EVDI_DEVICE_COUNT_MAX" "devices ctx ! i \<noteq> None"
  shows "plat_inv (ctx\<lparr>devices := (devices ctx)[i := None], dev_count := dev_count ctx - 1\<rparr>)"
proof -
  have u: "length (filter (\<lambda>s. s \<noteq> None) ((devices ctx)[i := None])) + 1 = used ctx"
    using filter_update [of i "devices ctx" "\<lambda>s. s \<noteq> None" None] assms by (simp add: plat_inv_def used_def)
  then have "unat (dev_count ctx) \<noteq> 0" using assms(1) by (simp add: plat_inv_def)
  then have "unat (dev_count ctx - 1) = unat (dev_count ctx) - 1" by (simp add: unat_minus_one unat_eq_0)
  then show ?thesis
    using assms u by (auto simp: plat_inv_def used_def slot_ok_def dest!: set_update_subset_insert [THEN subsetD])
qed

lemma change_slot:
  assumes "plat_inv ctx" "i < EVDI_DEVICE_COUNT_MAX" "devices ctx ! i \<noteq> None" "slot_ok (Some pdev)"
  shows "plat_inv (ctx\<lparr>devices := (devices ctx)[i := Some pdev]\<rparr>)" "used (ctx\<lparr>devices := (devices ctx)[i := Some pdev]\<rparr>) = used ctx"
proof -
  have "length (filter (\<lambda>s. s \<noteq> None) ((devices ctx)[i := Some pdev])) = used ctx"
    using filter_update [of i "devices ctx" "\<lambda>s. s \<noteq> None" "Some pdev"] assms by (simp add: plat_inv_def used_def)
  then show "plat_inv (ctx\<lparr>devices := (devices ctx)[i := Some pdev]\<rparr>)" "used (ctx\<lparr>devices := (devices ctx)[i := Some pdev]\<rparr>) = used ctx"
    using assms by (auto simp: plat_inv_def used_def dest!: set_update_subset_insert [THEN subsetD])
qed

lemma slot_at: "plat_inv ctx \<Longrightarrow> i < EVDI_DEVICE_COUNT_MAX \<Longrightarrow> slot_ok (devices ctx ! i)"
  by (simp add: plat_inv_def)

lemma created_ok: "evdi_platform_dev_create env = Inr pdev \<Longrightarrow> slot_ok (Some pdev)"
  by (auto simp: evdi_platform_dev_create_def evdi_platform_device_probe_def slot_ok_def ebind_eq_Inr split: if_splits)

lemma link_ok: "slot_ok (Some pdev) \<Longrightarrow> evdi_platform_device_link l parent pdev = Inr pdev' \<Longrightarrow> slot_ok (Some pdev')"
  by (auto simp: evdi_platform_device_link_def slot_ok_def ebind_eq_Inr get_data_def split: option.splits if_splits)

lemma unlink_ok: "slot_ok (Some pdev) \<Longrightarrow> evdi_platform_device_unlink_if_linked_with usb pdev = Inr pdev' \<Longrightarrow> slot_ok (Some pdev')"
  by (auto simp: evdi_platform_device_unlink_if_linked_with_def slot_ok_def ebind_eq_Inr get_data_def split: option.splits if_splits)

lemma free_device_some:
  "free_device ctx is = Inr (Some i) \<Longrightarrow> i \<in> set is \<and> (\<exists>pdev. devices ctx ! i = Some pdev \<and> evdi_platform_device_is_free pdev = Inr True)"
  by (induction "is") (auto simp: ebind_eq_Inr split: option.splits if_splits)

lemma free_idx_some:
  "evdi_platform_drv_get_free_idx ctx = Some i \<Longrightarrow> i < EVDI_DEVICE_COUNT_MAX \<and> devices ctx ! i = None \<and> (\<forall>j<i. devices ctx ! j \<noteq> None)"
  by (auto simp: evdi_platform_drv_get_free_idx_def find_Some_iff)

lemma create_new_inv:
  assumes "plat_inv ctx" "evdi_platform_drv_create_new_device env ctx = Inr (idx, ctx1)"
  shows "plat_inv ctx1 \<and> (\<forall>i. idx = Some i \<longrightarrow> i < EVDI_DEVICE_COUNT_MAX \<and> devices ctx1 ! i \<noteq> None)"
proof (cases "evdi_platform_drv_get_free_idx ctx")
  case None
  then show ?thesis using assms by (simp add: evdi_platform_drv_create_new_device_def)
next
  case (Some i)
  note i = free_idx_some [OF Some]
  have len: "i < length (devices ctx)" using i assms(1) by (simp add: plat_inv_def)
  show ?thesis
    using assms(2) Some i len fill_slot(1) [OF assms(1)] created_ok assms(1)
    by (auto simp: evdi_platform_drv_create_new_device_def ebind_eq_Inr split: if_splits)
qed

lemma link_slot_inv:
  assumes "plat_inv ctx" "i < EVDI_DEVICE_COUNT_MAX" "devices ctx ! i = Some pdev"
    "ebind (evdi_platform_device_link l parent pdev) (\<lambda>pdev. Inr (0, ctx\<lparr>devices := (devices ctx)[i := Some pdev]\<rparr>)) = Inr (ret, ctx')"
  shows "plat_inv ctx'"
proof -
  obtain pdev' where l: "evdi_platform_device_link l parent pdev = Inr pdev'"
    "ctx' = ctx\<lparr>devices := (devices ctx)[i := Some pdev']\<rparr>" using assms(4) by (auto simp: ebind_eq_Inr)
  have "slot_ok (Some pdev')" using slot_at [OF assms(1,2)] assms(3) link_ok [OF _ l(1)] by simp
  then show ?thesis unfolding l(2) using change_slot(1) [OF assms(1,2)] assms(3) by simp
qed

lemma add_inv:
  assumes "plat_inv ctx" "evdi_platform_device_add env parent ctx = Inr (ret, ctx')"
  shows "plat_inv ctx'"
proof -
  obtain found idx ctx1 where f: "(if parent \<noteq> None then evdi_platform_drv_get_free_device ctx else Inr None) = Inr found"
    and c: "(case found of Some i \<Rightarrow> Inr (Some i, ctx) | None \<Rightarrow> evdi_platform_drv_create_new_device env ctx) = Inr (idx, ctx1)"
    and r: "(case idx of None \<Rightarrow> Inr (- EINVAL, ctx1)
     | Some i \<Rightarrow>
        (case devices ctx1 ! i of None \<Rightarrow> Inr (0, ctx1)
         | Some pdev \<Rightarrow> ebind (evdi_platform_device_link (env_link env) parent pdev) (\<lambda>pdev.
            Inr (0, ctx1\<lparr>devices := (devices ctx1)[i := Some pdev]\<rparr>)))) = Inr (ret, ctx')"
    using assms(2) unfolding evdi_platform_device_add_def ebind_eq_Inr by auto
  have "plat_inv ctx1 \<and> (\<forall>i. idx = Some i \<longrightarrow> i < EVDI_DEVICE_COUNT_MAX \<and> devices ctx1 ! i \<noteq> None)"
  proof (cases found)
    case None
    then show ?thesis using c create_new_inv [OF assms(1)] by simp
  next
    case (Some i)
    then have "free_device ctx [0..<EVDI_DEVICE_COUNT_MAX] = Inr (Some i)"
      using f by (auto simp: evdi_platform_drv_get_free_device_def split: if_splits)
    from free_device_some [OF this] show ?thesis using c Some assms(1) by auto
  qed
  then show ?thesis using r link_slot_inv [of ctx1 _ _ "env_link env" parent ret ctx'] by (cases idx) auto
qed

lemma add_loop_inv: "plat_inv ctx \<Longrightarrow> add_loop env n ctx = Inr ctx' \<Longrightarrow> plat_inv ctx'"
  by (induction n arbitrary: ctx) (auto simp: ebind_eq_Inr split: if_splits dest: add_inv)

lemma remove_loop_inv:
  "plat_inv ctx \<Longrightarrow> \<forall>i\<in>set is. i < EVDI_DEVICE_COUNT_MAX \<Longrightarrow> remove_loop is ctx = Inr ctx' \<Longrightarrow> plat_inv ctx'"
proof (induction "is" arbitrary: ctx)
  case (Cons i "is")
  then show ?case
  proof (cases "devices ctx ! i")
    case (Some pdev)
    then show ?thesis using Cons empty_slot [OF Cons.prems(1), of i] by (auto simp: ebind_eq_Inr simp del: fun_upd_apply)
  qed auto
qed simp

text \<open>After the loop over all slots the table is empty, and the counter that was counted down is 0 already.\<close>

lemma remove_loop_empties:
  "remove_loop is ctx = Inr ctx' \<Longrightarrow> length (devices ctx') = length (devices ctx) \<and>
    (\<forall>j<length (devices ctx). devices ctx' ! j = (if j \<in> set is then None else devices ctx ! j))"
proof (induction "is" arbitrary: ctx)
  case (Cons i "is")
  show ?case
  proof (cases "devices ctx ! i")
    case None
    then show ?thesis using Cons.IH [of ctx] Cons.prems by auto
  next
    case (Some pdev)
    let ?c = "ctx\<lparr>devices := (devices ctx)[i := None], dev_count := dev_count ctx - 1\<rparr>"
    have "remove_loop is ?c = Inr ctx'" using Cons.prems Some by (auto simp: ebind_eq_Inr)
    from Cons.IH [OF this] show ?thesis by (auto simp: nth_list_update)
  qed
qed simp

lemma usb_loop_inv:
  "plat_inv ctx \<Longrightarrow> \<forall>i\<in>set is. i < EVDI_DEVICE_COUNT_MAX \<Longrightarrow> usb_loop usb is ctx = Inr ctx' \<Longrightarrow> plat_inv ctx' \<and> dev_count ctx' = dev_count ctx"
proof (induction "is" arbitrary: ctx)
  case (Cons i "is")
  show ?case
  proof (cases "devices ctx ! i")
    case None
    then show ?thesis using Cons by auto
  next
    case (Some pdev)
    then obtain pdev' where u: "evdi_platform_device_unlink_if_linked_with usb pdev = Inr pdev'" using Cons.prems(3) by (auto simp: ebind_eq_Inr)
    have ok: "slot_ok (Some pdev')" using slot_at [OF Cons.prems(1), of i] Cons.prems(2) Some unlink_ok [OF _ u] by simp
    then have "bus_parent pdev' = None" by (simp add: slot_ok_def)
    then have "usb_loop usb is (ctx\<lparr>devices := (devices ctx)[i := Some pdev']\<rparr>) = Inr ctx'"
      using Cons.prems(3) Some u by simp
    from Cons.IH [OF _ _ this] show ?thesis using change_slot(1) [OF Cons.prems(1) _ _ ok, of i] Cons.prems(2) Some by simp
  qed
qed simp

text \<open>
  The operations on the table, as the files of the module, USB and the daemons bring them about; \<open>used_by\<close> is anything that happens
  to a device otherwise, such as a daemon connecting to it.
\<close>

inductive plat_step :: "drv_context \<Rightarrow> c_error + drv_context \<Rightarrow> bool" where
  add: "plat_step ctx (ebind (evdi_platform_device_add env parent ctx) (\<lambda>(ret, ctx). Inr ctx))"
| add_many: "plat_step ctx (ebind (evdi_platform_add_devices envs val ctx) (\<lambda>(ret, ctx). Inr ctx))"
| remove_all: "plat_step ctx (evdi_platform_remove_all_devices ctx)"
| usb: "plat_step ctx (evdi_platform_drv_usb del usb ctx)"
| used_by: "i < EVDI_DEVICE_COUNT_MAX \<Longrightarrow> devices ctx ! i = Some pdev \<Longrightarrow> drvdata pdev = Some data \<Longrightarrow>
    plat_step ctx (Inr (ctx\<lparr>devices := (devices ctx)[i := Some (pdev\<lparr>drvdata := Some (data\<lparr>pd_dev := d, pd_connected := b\<rparr>)\<rparr>)]\<rparr>))"

inductive plat_start :: "drv_context \<Rightarrow> bool" where
  init: "evdi_init reg n env = Inr (ret, ctx) \<Longrightarrow> plat_start ctx"

abbreviation plat_reach :: "drv_context \<Rightarrow> bool" where
  "plat_reach \<equiv> runs plat_start plat_step"

lemma add_devices_inv:
  "plat_inv ctx \<Longrightarrow> evdi_platform_add_devices envs val ctx = Inr (ret, ctx') \<Longrightarrow> plat_inv ctx'"
  using add_loop_inv by (auto simp: evdi_platform_add_devices_def ebind_eq_Inr split: if_splits)

lemma zero_inv: "plat_inv drv_context_zero"
  by (simp add: plat_inv_def drv_context_zero_def used_def slot_ok_def EVDI_DEVICE_COUNT_MAX_def)

lemma remove_all_inv:
  assumes "plat_inv ctx" "evdi_platform_remove_all_devices ctx = Inr ctx'"
  shows "plat_inv ctx' \<and> dev_count ctx' = 0 \<and> (\<forall>s\<in>set (devices ctx'). s = None)"
proof -
  obtain c where c: "remove_loop [0..<EVDI_DEVICE_COUNT_MAX] ctx = Inr c" "ctx' = c\<lparr>dev_count := 0\<rparr>"
    using assms(2) by (auto simp: evdi_platform_remove_all_devices_def ebind_eq_Inr)
  have inv: "plat_inv c" using remove_loop_inv [OF assms(1) _ c(1)] by simp
  have "\<forall>s\<in>set (devices c). s = None"
    using remove_loop_empties [OF c(1)] assms(1) by (auto simp: plat_inv_def in_set_conv_nth)
  then have "used c = 0" "\<forall>s\<in>set (devices c). s = None" by (simp_all add: used_def filter_False)
  then show ?thesis using inv c(2) by (simp add: plat_inv_def used_def)
qed

lemma usb_inv:
  assumes "plat_inv ctx" "evdi_platform_drv_usb del usb ctx = Inr ctx'"
  shows "plat_inv ctx' \<and> dev_count ctx' = dev_count ctx"
  using assms usb_loop_inv [OF assms(1), of "[0..<EVDI_DEVICE_COUNT_MAX]"]
  by (auto simp: evdi_platform_drv_usb_def split: option.splits if_splits)

lemma plat_step_inv:
  assumes "plat_step ctx r" "r = Inr ctx'" "plat_inv ctx"
  shows "plat_inv ctx'"
  using assms
proof (induction rule: plat_step.induct)
  case (used_by i ctx pdev data b d)
  have "slot_ok (Some (pdev\<lparr>drvdata := Some (data\<lparr>pd_dev := d, pd_connected := b\<rparr>)\<rparr>))"
    using slot_at [OF used_by(5,1)] used_by(2,3) by (simp add: slot_ok_def)
  then show ?case using used_by change_slot(1) [OF used_by(5,1)] by auto
qed (auto simp: ebind_eq_Inr dest: add_inv add_devices_inv remove_all_inv usb_inv)

lemma plat_start_inv: "plat_start ctx \<Longrightarrow> plat_inv ctx"
  using zero_inv add_devices_inv [OF zero_inv] by (auto elim!: plat_start.cases simp: evdi_init_def split: if_splits)

interpretation table: kept_invariant plat_start plat_step plat_inv
  by unfold_locales (blast intro: plat_start_inv plat_step_inv)+

text \<open>
  C24: The counter of devices, which the additions, the removal and the USB notifier keep separately, is the number of devices in the
  table in every reachable state, so that the check against the maximum of 16 is right and the count read from
  \<^verbatim>\<open>sysfs\<close> is true; no device ever has a USB device as its parent on the bus, so the notifier never removes one; and a
  device is linked exactly when its parent is known. Removing all devices leaves the table empty and the count 0.
\<close>

theorem platform_table_counts:
  assumes "plat_reach ctx"
  shows "unat (evdi_platform_device_count ctx) = length (filter (\<lambda>s. s \<noteq> None) (devices ctx)) \<and>
    unat (evdi_platform_device_count ctx) \<le> 16 \<and>
    (\<forall>pdev. Some pdev \<in> set (devices ctx) \<longrightarrow> bus_parent pdev = None \<and>
      (\<forall>data. drvdata pdev = Some data \<longrightarrow> (symlinked data \<longleftrightarrow> pd_parent data \<noteq> None))) \<and>
    (\<forall>ctx'. evdi_platform_drv_usb del usb ctx = Inr ctx' \<longrightarrow> dev_count ctx' = dev_count ctx) \<and>
    (\<forall>ctx'. evdi_exit ctx = Inr ctx' \<longrightarrow> dev_count ctx' = 0 \<and> (\<forall>s\<in>set (devices ctx'). s = None))"
proof -
  have inv: "plat_inv ctx" by (rule table.runs_inv [OF assms])
  show ?thesis
    using inv used_le [OF inv] remove_all_inv [OF inv] usb_inv [OF inv]
    by (auto simp: plat_inv_def evdi_platform_device_count_def evdi_exit_def used_def slot_ok_def EVDI_DEVICE_COUNT_MAX_def)
qed

definition good_add :: add_env where
  "good_add = \<lparr>env_reg = True, env_data = True, env_dev = good_env, env_link = 0\<rparr>"

lemma good_create: "\<exists>pdev data. evdi_platform_dev_create good_add = Inr pdev \<and> drvdata pdev = Some data \<and> dev_private (pd_dev data)"
  by (simp add: evdi_platform_dev_create_def evdi_platform_device_probe_def good_add_def evdi_drm_device_create_def
      evdi_drm_device_init_def good_env_def evdi_fbdev_init_def get_priv_def)

theorem platform_table_counts_witness:
  "\<exists>ctx. evdi_init 0 1 (\<lambda>_. good_add) = Inr (0, ctx) \<and> length (filter (\<lambda>s. s \<noteq> None) (devices ctx)) = 1 \<and>
    evdi_platform_device_count ctx = 1"
proof -
  obtain pdev where p: "evdi_platform_dev_create good_add = Inr pdev" using good_create by blast
  obtain ctx where i: "evdi_init 0 1 (\<lambda>_. good_add) = Inr (0, ctx)" "dev_count ctx = 1"
    using p by (simp add: evdi_init_def evdi_platform_add_devices_def evdi_platform_device_count_def drv_context_zero_def
        evdi_platform_device_add_def evdi_platform_drv_create_new_device_def evdi_platform_drv_get_free_idx_def
        EVDI_DEVICE_COUNT_MAX_def upt_rec evdi_platform_device_link_def)
  show ?thesis
    using platform_table_counts [OF runs.begins [of plat_start, OF plat_start.init, OF i(1)]] i by (auto simp: evdi_platform_device_count_def)
qed

section \<open>Adding several devices\<close>

lemma free_idx_exists:
  assumes "plat_inv ctx" "used ctx < EVDI_DEVICE_COUNT_MAX"
  shows "\<exists>i. evdi_platform_drv_get_free_idx ctx = Some i"
proof (rule ccontr)
  assume "\<nexists>i. evdi_platform_drv_get_free_idx ctx = Some i"
  then have "\<forall>i<EVDI_DEVICE_COUNT_MAX. devices ctx ! i \<noteq> None"
    by (auto simp: evdi_platform_drv_get_free_idx_def find_None_iff)
  then have "\<forall>s\<in>set (devices ctx). s \<noteq> None" using assms(1) by (auto simp: plat_inv_def in_set_conv_nth)
  then have "used ctx = EVDI_DEVICE_COUNT_MAX" using assms(1) by (simp add: used_def plat_inv_def filter_True)
  then show False using assms(2) by simp
qed

lemma add_one:
  assumes "plat_inv ctx" "used ctx < EVDI_DEVICE_COUNT_MAX" "evdi_platform_dev_create env = Inr pdev"
  shows "\<exists>i ctx'. evdi_platform_device_add env None ctx = Inr (0, ctx') \<and> plat_inv ctx' \<and> used ctx' = used ctx + 1 \<and>
    i < EVDI_DEVICE_COUNT_MAX \<and> devices ctx ! i = None \<and> devices ctx' = (devices ctx)[i := Some pdev]"
proof -
  obtain i where idx: "evdi_platform_drv_get_free_idx ctx = Some i" using free_idx_exists [OF assms(1,2)] by blast
  note i = free_idx_some [OF idx]
  let ?c = "ctx\<lparr>devices := (devices ctx)[i := Some pdev], dev_count := dev_count ctx + 1\<rparr>"
  have len: "i < length (devices ctx)" using i assms(1) by (simp add: plat_inv_def)
  have "unat (dev_count ctx) < EVDI_DEVICE_COUNT_MAX" using assms(1,2) by (simp add: plat_inv_def)
  then have "evdi_platform_device_add env None ctx = Inr (0, ?c)"
    using idx len assms(3) by (simp add: evdi_platform_device_add_def evdi_platform_drv_create_new_device_def
        evdi_platform_device_link_def)
  then show ?thesis using fill_slot [OF assms(1) _ _ created_ok [OF assms(3)], of i] i by auto
qed

lemma add_loop_adds:
  assumes "plat_inv ctx" "used ctx + n \<le> EVDI_DEVICE_COUNT_MAX" "\<And>k. k < n \<Longrightarrow> \<exists>pdev. evdi_platform_dev_create (env k) = Inr pdev"
  shows "\<exists>ctx'. add_loop env n ctx = Inr ctx' \<and> plat_inv ctx' \<and> used ctx' = used ctx + n \<and>
    (\<forall>j<EVDI_DEVICE_COUNT_MAX. devices ctx ! j \<noteq> None \<longrightarrow> devices ctx' ! j = devices ctx ! j)"
  using assms
proof (induction n arbitrary: ctx)
  case (Suc n)
  obtain pdev where p: "evdi_platform_dev_create (env n) = Inr pdev" using Suc.prems(3) by blast
  have lt: "used ctx < EVDI_DEVICE_COUNT_MAX" using Suc.prems(2) by simp
  obtain i ctx1 where c1: "evdi_platform_device_add (env n) None ctx = Inr (0, ctx1)" "plat_inv ctx1" "used ctx1 = used ctx + 1"
    "devices ctx ! i = None" "devices ctx1 = (devices ctx)[i := Some pdev]"
    using add_one [OF Suc.prems(1) lt p] by blast
  obtain ctx2 where c2: "add_loop env n ctx1 = Inr ctx2" "plat_inv ctx2" "used ctx2 = used ctx1 + n"
    "\<forall>j<EVDI_DEVICE_COUNT_MAX. devices ctx1 ! j \<noteq> None \<longrightarrow> devices ctx2 ! j = devices ctx1 ! j"
    using Suc.IH [OF c1(2)] Suc.prems(2,3) c1(3) by (metis add_Suc add_Suc_right less_SucI plus_1_eq_Suc add.commute)
  have "devices ctx2 ! j = devices ctx ! j" if "j < EVDI_DEVICE_COUNT_MAX" "devices ctx ! j \<noteq> None" for j
  proof -
    have "j \<noteq> i" using that c1(4) by auto
    then have "devices ctx1 ! j = devices ctx ! j" using c1(5) by simp
    then show ?thesis using c2(4) that by simp
  qed
  then show ?case using c1 c2 by auto
qed auto

text \<open>
  Adding devices through \<^verbatim>\<open>sysfs\<close>, in any reachable state with registrations that succeed: more than the free places of the
  table is refused and changes nothing, in unsigned arithmetic that does not wrap; otherwise exactly so many devices are
  added, the count grows by them, and every device that was there keeps its place.
\<close>

theorem add_devices_adds:
  assumes "plat_reach ctx" "\<And>k. \<exists>pdev. evdi_platform_dev_create (envs k) = Inr pdev"
  shows "if unat (dev_count ctx) + unat val \<le> 16
    then \<exists>ctx'. evdi_platform_add_devices envs val ctx = Inr (0, ctx') \<and> unat (dev_count ctx') = unat (dev_count ctx) + unat val \<and>
      (\<forall>j<16. devices ctx ! j \<noteq> None \<longrightarrow> devices ctx' ! j = devices ctx ! j)
    else evdi_platform_add_devices envs val ctx = Inr (- EINVAL, ctx)"
proof -
  have inv: "plat_inv ctx" by (rule table.runs_inv [OF assms(1)])
  have c: "unat (dev_count ctx) = used ctx" "used ctx \<le> 16"
    using inv used_le [OF inv] by (simp_all add: plat_inv_def EVDI_DEVICE_COUNT_MAX_def)
  have "dev_count ctx \<le> 16" using c by (simp add: word_le_nat_alt)
  then have "unat (16 - dev_count ctx) = 16 - used ctx" using c(1) by (simp add: unat_sub)
  then have big: "of_nat EVDI_DEVICE_COUNT_MAX - evdi_platform_device_count ctx < val \<longleftrightarrow> 16 < used ctx + unat val"
    using c(2) by (auto simp: word_less_nat_alt EVDI_DEVICE_COUNT_MAX_def evdi_platform_device_count_def)
  show ?thesis
  proof (cases "used ctx + unat val \<le> 16")
    case False
    then have "val \<noteq> 0" using c(2) by (auto simp: unat_eq_0)
    then show ?thesis using False big c(1) by (simp add: evdi_platform_add_devices_def)
  next
    case True
    then obtain ctx' where a: "add_loop envs (unat val) ctx = Inr ctx'" "plat_inv ctx'" "used ctx' = used ctx + unat val"
      "\<forall>j<EVDI_DEVICE_COUNT_MAX. devices ctx ! j \<noteq> None \<longrightarrow> devices ctx' ! j = devices ctx ! j"
      using add_loop_adds [OF inv, of "unat val" envs] assms(2) by (auto simp: EVDI_DEVICE_COUNT_MAX_def)
    have "evdi_platform_add_devices envs val ctx = Inr (0, ctx')"
      using True big a(1) by (auto simp: evdi_platform_add_devices_def)
    then show ?thesis using True a(2-4) c(1) by (simp add: plat_inv_def EVDI_DEVICE_COUNT_MAX_def)
  qed
qed

theorem add_devices_adds_witness:
  "\<exists>ctx. evdi_platform_add_devices (\<lambda>_. good_add) 16 drv_context_zero = Inr (0, ctx) \<and> unat (dev_count ctx) = 16"
proof -
  have r: "plat_reach drv_context_zero" by (rule runs.begins, rule plat_start.init [of 0 0]) (simp add: evdi_init_def)
  have "\<exists>pdev. evdi_platform_dev_create good_add = Inr pdev" using good_create by blast
  then show ?thesis using add_devices_adds [OF r, of "\<lambda>_. good_add" 16] by (auto simp: drv_context_zero_def)
qed

section \<open>Linking devices to USB parents\<close>

text \<open>All devices of the table are bound.\<close>

definition all_bound :: "drv_context \<Rightarrow> bool" where
  "all_bound ctx \<longleftrightarrow> (\<forall>pdev. Some pdev \<in> set (devices ctx) \<longrightarrow> drvdata pdev \<noteq> None)"

definition linked_to :: "nat \<Rightarrow> platform_dev option \<Rightarrow> bool" where
  "linked_to usb s \<longleftrightarrow> (\<exists>pdev data. s = Some pdev \<and> drvdata pdev = Some data \<and> pd_parent data = Some usb)"

text \<open>What the notifier does to a slot.\<close>

definition unlinked :: "nat \<Rightarrow> platform_dev option \<Rightarrow> platform_dev option" where
  "unlinked usb s = map_option (\<lambda>pdev. pdev\<lparr>drvdata := map_option (\<lambda>data.
     if pd_parent data = Some usb then data\<lparr>symlinked := False, pd_parent := None\<rparr> else data) (drvdata pdev)\<rparr>) s"

lemma unlink_slot:
  "drvdata pdev \<noteq> None \<Longrightarrow> \<exists>pdev'. evdi_platform_device_unlink_if_linked_with usb pdev = Inr pdev' \<and> unlinked usb (Some pdev) = Some pdev'"
  by (auto simp: evdi_platform_device_unlink_if_linked_with_def unlinked_def get_data_def)

lemma unlinked_bound: "unlinked usb (Some pdev) = Some pdev' \<Longrightarrow> drvdata pdev \<noteq> None \<Longrightarrow> drvdata pdev' \<noteq> None"
  by (auto simp: unlinked_def)

lemma unlinked_not_linked: "\<not> linked_to usb (unlinked usb s)"
proof
  assume l: "linked_to usb (unlinked usb s)"
  then obtain pdev data where s: "s = Some pdev" "drvdata pdev = Some data"
    by (auto simp: linked_to_def unlinked_def)
  then show False using l by (cases "pd_parent data = Some usb") (simp_all add: linked_to_def unlinked_def)
qed

lemma usb_loop_unlinks:
  assumes "\<forall>i\<in>set is. i < length (devices ctx)" "\<forall>s\<in>set (devices ctx). slot_ok s" "all_bound ctx" "distinct is"
  shows "\<exists>ctx'. usb_loop usb is ctx = Inr ctx' \<and> dev_count ctx' = dev_count ctx \<and> length (devices ctx') = length (devices ctx) \<and>
    (\<forall>j<length (devices ctx). devices ctx' ! j = (if j \<in> set is then unlinked usb (devices ctx ! j) else devices ctx ! j))"
  using assms
proof (induction "is" arbitrary: ctx)
  case (Cons i "is")
  show ?case
  proof (cases "devices ctx ! i")
    case None
    then have "unlinked usb (devices ctx ! i) = devices ctx ! i" by (simp add: unlinked_def)
    then show ?thesis using Cons.IH [of ctx] Cons.prems None by auto
  next
    case (Some pdev)
    have mem: "Some pdev \<in> set (devices ctx)" using Some Cons.prems(1) by (metis list.set_intros(1) nth_mem)
    then have b: "drvdata pdev \<noteq> None" "slot_ok (Some pdev)" using Cons.prems(2,3) by (auto simp: all_bound_def)
    obtain pdev' where u: "evdi_platform_device_unlink_if_linked_with usb pdev = Inr pdev'" "unlinked usb (Some pdev) = Some pdev'"
      using unlink_slot [OF b(1)] by blast
    have ok: "slot_ok (Some pdev')" "drvdata pdev' \<noteq> None"
      using unlink_ok [OF b(2) u(1)] unlinked_bound [OF u(2) b(1)] by blast+
    let ?c = "ctx\<lparr>devices := (devices ctx)[i := Some pdev']\<rparr>"
    have step: "usb_loop usb (i # is) ctx = usb_loop usb is ?c" using Some u(1) ok(1) by (simp add: slot_ok_def)
    have "\<forall>s\<in>set (devices ?c). slot_ok s" "all_bound ?c"
      using Cons.prems(2,3) ok by (auto simp: all_bound_def dest!: set_update_subset_insert [THEN subsetD])
    then obtain ctx' where c: "usb_loop usb is ?c = Inr ctx'" "dev_count ctx' = dev_count ctx" "length (devices ctx') = length (devices ctx)"
      "\<forall>j<length (devices ctx). devices ctx' ! j = (if j \<in> set is then unlinked usb (devices ?c ! j) else devices ?c ! j)"
      using Cons.IH [of ?c] Cons.prems(1,4) by auto
    have "devices ctx' ! j = (if j \<in> set (i # is) then unlinked usb (devices ctx ! j) else devices ctx ! j)"
      if "j < length (devices ctx)" for j
    proof (cases "j = i")
      case True
      then show ?thesis using c(4) that Cons.prems(4) Some u(2) by simp
    next
      case False
      then show ?thesis using c(4) that by simp
    qed
    then show ?thesis unfolding step using c(1-3) by blast
  qed
qed simp

lemma usb_loop_faults:
  assumes "\<exists>i\<in>set is. \<exists>pdev. devices ctx ! i = Some pdev \<and> drvdata pdev = None" "\<forall>i\<in>set is. slot_ok (devices ctx ! i)"
    "\<forall>i\<in>set is. i < length (devices ctx)" "distinct is"
  shows "usb_loop usb is ctx = Inl NullDeref"
  using assms
proof (induction "is" arbitrary: ctx)
  case (Cons i "is")
  show ?case
  proof (cases "devices ctx ! i")
    case None
    then show ?thesis using Cons by auto
  next
    case (Some pdev)
    show ?thesis
    proof (cases "drvdata pdev")
      case None
      then show ?thesis using Some by (simp add: evdi_platform_device_unlink_if_linked_with_def get_data_def)
    next
      case (Some data)
      obtain pdev' where u: "evdi_platform_device_unlink_if_linked_with usb pdev = Inr pdev'" using unlink_slot [of pdev usb] Some by auto
      have "slot_ok (Some pdev')" using Cons.prems(2) \<open>devices ctx ! i = Some pdev\<close> unlink_ok [OF _ u] by force
      then have step: "usb_loop usb (i # is) ctx = usb_loop usb is (ctx\<lparr>devices := (devices ctx)[i := Some pdev']\<rparr>)"
        using \<open>devices ctx ! i = Some pdev\<close> u by (simp add: slot_ok_def)
      have same: "(devices ctx)[i := Some pdev'] ! j = devices ctx ! j" if "j \<in> set is" for j
      proof -
        have "j \<noteq> i" using that Cons.prems(4) by auto
        then show ?thesis by simp
      qed
      show ?thesis
        unfolding step
        by (rule Cons.IH) (use Cons.prems Some \<open>devices ctx ! i = Some pdev\<close> same in auto)
    qed
  qed
qed simp

text \<open>
  When a USB device goes, the notifier detaches exactly the devices linked to it, in their places and with the count
  unchanged, provided that every device of the table is bound to the driver. But a device whose probe failed is in the table,
  although the addition reported success, and the notifier then follows its null driver data at the next removal of
  any USB device.
\<close>

theorem usb_removal:
  assumes "plat_reach ctx"
  shows "if all_bound ctx
    then \<exists>ctx'. evdi_platform_drv_usb True (Some usb) ctx = Inr ctx' \<and> dev_count ctx' = dev_count ctx \<and>
      (\<forall>j<16. devices ctx' ! j = unlinked usb (devices ctx ! j) \<and> \<not> linked_to usb (devices ctx' ! j))
    else evdi_platform_drv_usb True (Some usb) ctx = Inl NullDeref"
proof -
  have inv: "plat_inv ctx" by (rule table.runs_inv [OF assms])
  then have len: "length (devices ctx) = EVDI_DEVICE_COUNT_MAX" "\<forall>s\<in>set (devices ctx). slot_ok s" by (simp_all add: plat_inv_def)
  show ?thesis
  proof (cases "all_bound ctx")
    case True
    then show ?thesis
      using usb_loop_unlinks [OF _ len(2) True, of "[0..<EVDI_DEVICE_COUNT_MAX]" usb] len(1) unlinked_not_linked
      by (auto simp: evdi_platform_drv_usb_def EVDI_DEVICE_COUNT_MAX_def)
  next
    case False
    then obtain pdev i where "i < length (devices ctx)" "devices ctx ! i = Some pdev" "drvdata pdev = None"
      by (auto simp: all_bound_def in_set_conv_nth)
    then show ?thesis
      using False usb_loop_faults [of "[0..<EVDI_DEVICE_COUNT_MAX]" ctx usb] len by (force simp: evdi_platform_drv_usb_def)
  qed
qed

theorem usb_removal_witness:
  "\<exists>ctx. evdi_platform_device_add (good_add\<lparr>env_data := False\<rparr>) None drv_context_zero = Inr (0, ctx) \<and>
    evdi_platform_drv_usb True (Some 7) ctx = Inl NullDeref"
proof -
  have r0: "plat_reach drv_context_zero" by (rule runs.begins, rule plat_start.init [of 0 0]) (simp add: evdi_init_def)
  let ?env = "good_add\<lparr>env_data := False\<rparr>"
  obtain ctx where a: "evdi_platform_device_add ?env None drv_context_zero = Inr (0, ctx)"
    "devices ctx ! 0 = Some \<lparr>drvdata = None, bus_parent = None\<rparr>" "length (devices ctx) = 16"
    by (simp add: evdi_platform_device_add_def evdi_platform_drv_create_new_device_def evdi_platform_drv_get_free_idx_def
        EVDI_DEVICE_COUNT_MAX_def upt_rec drv_context_zero_def evdi_platform_dev_create_def evdi_platform_device_probe_def
        good_add_def evdi_platform_device_link_def)
  have "plat_step drv_context_zero (Inr ctx)" using plat_step.add [of drv_context_zero ?env None] a(1) by simp
  then have r: "plat_reach ctx" by (rule runs.goes [OF r0])
  have "Some \<lparr>drvdata = None, bus_parent = None\<rparr> \<in> set (devices ctx)" using a(2,3) by (metis nth_mem zero_less_numeral)
  then have "\<not> all_bound ctx" by (auto simp: all_bound_def)
  then show ?thesis using usb_removal [OF r, of 7] a(1) by auto
qed

section \<open>A device for a USB parent\<close>

lemma full_table:
  assumes "length (filter (\<lambda>s. s \<noteq> None) xs) = 16" "length xs = 16" "j < 16"
  shows "xs ! j \<noteq> None"
proof
  assume "xs ! j = None"
  then have "None \<in> set xs" using assms(2,3) by (metis nth_mem)
  then have "length (filter (\<lambda>s. s \<noteq> None) xs) < length xs" by (rule length_filter_less) simp
  then show False using assms by simp
qed

lemma free_device_none:
  "free_device ctx is = Inr None \<Longrightarrow> i \<in> set is \<Longrightarrow> devices ctx ! i = Some pdev \<Longrightarrow> evdi_platform_device_is_free pdev = Inr False"
  by (induction ctx "is" rule: free_device.induct) (auto simp: ebind_eq_Inr split: option.splits if_splits)

lemma fbdev_init_keeps: "evdi_fbdev_init env d = Inr (ret, d') \<Longrightarrow> dev_private d' = dev_private d"
  by (auto simp: evdi_fbdev_init_def free_fbdev_def fbdev_probe_def ebind_eq_Inr Let_def split: if_splits option.splits)

lemma init_private:
  assumes "evdi_drm_device_init env drm_dev_zero = Inr (0, d)"
  shows "dev_private d"
  using assms fbdev_init_keeps
  by (fastforce simp: evdi_drm_device_init_def err_init_def err_free_def ebind_eq_Inr Let_def ENOMEM_def split: if_splits)

lemma created_private:
  "evdi_platform_dev_create env = Inr pdev \<Longrightarrow> drvdata pdev = Some data \<Longrightarrow>
    dev_private (pd_dev data) \<and> \<not> pd_connected data \<and> \<not> symlinked data"
  using init_private
  by (fastforce simp: evdi_platform_dev_create_def evdi_platform_device_probe_def evdi_drm_device_create_def ebind_eq_Inr Let_def split: if_splits)

text \<open>Linking a free device succeeds unless the kernel refuses the link.\<close>

lemma link_free:
  assumes "evdi_platform_device_link l (Some usb) pdev = Inr pdev'" "evdi_platform_device_is_free pdev = Inr True"
  shows "if l = 0 then linked_to usb (Some pdev') else pdev' = pdev"
proof -
  obtain data where d: "get_data pdev = Inr data" using assms by (auto simp: evdi_platform_device_is_free_def ebind_eq_Inr)
  then have "pdev' = (if l \<noteq> 0 then pdev else pdev\<lparr>drvdata := Some (data\<lparr>symlinked := True, pd_parent := Some usb\<rparr>)\<rparr>)"
    using assms by (simp add: evdi_platform_device_link_def)
  then show ?thesis by (simp add: linked_to_def)
qed



end
