(* ===== verification/EvdiSysfs.thy ===== *)
theory EvdiSysfs
  imports EvdiPlatform
begin

text \<open>
  The files of \<^verbatim>\<open>/sys/devices/evdi\<close> (\<^verbatim>\<open>evdi_sysfs.c\<close>, with \<^verbatim>\<open>CONFIG_USB_SUPPORT\<close>): adding devices by number or at the path of a
  USB device, removing them, the count and the log level. The bytes written to a file are a string of their number; the kernel
  puts a zero after them. A string of C is its characters up to the first zero, its memory those and the zero. The string
  functions of the kernel are given as it documents them.
\<close>

section \<open>Strings of the kernel\<close>

abbreviation NUL :: char where "NUL \<equiv> CHR 0x00"

definition cstr :: "string \<Rightarrow> string" where
  "cstr mem = takeWhile (\<lambda>c. c \<noteq> NUL) mem"

text \<open>The copy that \<^verbatim>\<open>kstrdup\<close> makes.\<close>

definition kstrdup :: "string \<Rightarrow> string" where
  "kstrdup mem = cstr mem @ [NUL]"

text \<open>
  \<^verbatim>\<open>strnstr\<close> compares as many bytes as the pattern has, at every place of the first \<open>len\<close> bytes that leaves room for it, and does not stop
  at a zero. The result is the rest of the memory from the place found.
\<close>

function strnstr :: "string \<Rightarrow> nat \<Rightarrow> string \<Rightarrow> c_error + string option" where
  "strnstr pat len mem =
    (if len < length pat then Inr None
     else if length mem < length pat then Inl OutOfBounds
     else if take (length pat) mem = pat then Inr (Some mem)
     else strnstr pat (len - 1) (tl mem))"
  by auto
termination
  by (relation "measure (\<lambda>(pat, len, mem). len)") (simp, case_tac len, auto)

declare strnstr.simps [simp del]

definition isspace :: "char \<Rightarrow> bool" where
  "isspace c \<longleftrightarrow> c \<in> {CHR 0x09, CHR 0x0A, CHR 0x0B, CHR 0x0C, CHR 0x0D, CHR '' '', CHR 0xA0}"

definition strim :: "string \<Rightarrow> string" where
  "strim s = dropWhile isspace (rev (dropWhile isspace (rev s)))"

definition strsep :: "char \<Rightarrow> string option \<Rightarrow> string option \<times> string option" where
  "strsep c s = (case s of None \<Rightarrow> (None, None)
     | Some s \<Rightarrow> (Some (takeWhile (\<lambda>x. x \<noteq> c) s), if c \<in> set s then Some (tl (dropWhile (\<lambda>x. x \<noteq> c) s)) else None))"

definition isdigit :: "char \<Rightarrow> bool" where
  "isdigit c \<longleftrightarrow> 48 \<le> (of_char c :: nat) \<and> (of_char c :: nat) \<le> 57"

definition read_digits :: "string \<Rightarrow> nat" where
  "read_digits ds = foldl (\<lambda>v c. 10 * v + (of_char c - 48)) 0 ds"

text \<open>A plus sign, digits, a newline; nothing for anything else and for a number that does not fit.\<close>

definition kstrtouint :: "string \<Rightarrow> u32 option" where
  "kstrtouint s =
    (let s = (case s of [] \<Rightarrow> s | c # cs \<Rightarrow> if c = CHR ''+'' then cs else s);
         ds = takeWhile isdigit s; rest = dropWhile isdigit s
     in if ds \<noteq> [] \<and> (rest = [] \<or> rest = [CHR 0x0A]) \<and> read_digits ds < 2 ^ 32 then Some (of_nat (read_digits ds)) else None)"

text \<open>\<^verbatim>\<open>%u\<close>.\<close>

fun show_nat :: "nat \<Rightarrow> string" where
  "show_nat n = (if n < 10 then [char_of (48 + n)] else show_nat (n div 10) @ [char_of (48 + n mod 10)])"

declare show_nat.simps [simp del]

section \<open>Devices of USB\<close>

text \<open>
  A device of USB by its identity, and the way up from it to the root hub of its bus: the number of the port, which is 0 at the root
  hub, and of the bus.
\<close>

record usb_device =
  usb_id :: nat
  upward :: "(u32 \<times> u32) list"

definition MAX_EVDI_USB_ADDR :: nat where "MAX_EVDI_USB_ADDR = 10"

fun path_loop :: "u32 list \<Rightarrow> (u32 \<times> u32) list \<Rightarrow> int \<Rightarrow> bool" where
  "path_loop addr [] i = False"
| "path_loop addr ((portnum, busnum) # parents) i =
    (if \<not> (0 \<le> i \<and> i < int MAX_EVDI_USB_ADDR) then False
     else
       let port = (if portnum = 0 then busnum else portnum)
       in if port \<noteq> addr ! nat i then False
          else if parents = [] \<and> i = 0 then True
          else path_loop addr parents (i - 1))"

definition find_usb_device_at_path :: "u32 list \<Rightarrow> usb_device \<Rightarrow> bool" where
  "find_usb_device_at_path addr usb = path_loop addr (upward usb) (int (length addr) - 1)"

section \<open>The files\<close>

text \<open>
  The answers of the kernel to a write: its two allocations, the devices of USB in the order they are visited, and the
  additions of devices.
\<close>

record store_env =
  env_path :: bool
  env_token :: bool
  env_usb :: "usb_device list"
  env_add :: "nat \<Rightarrow> add_env"

definition evdi_platform_device_attach :: "store_env \<Rightarrow> u32 list \<Rightarrow> drv_context \<Rightarrow> c_error + (int \<times> drv_context)" where
  "evdi_platform_device_attach env addr ctx =
    (case find (find_usb_device_at_path addr) (env_usb env) of
       None \<Rightarrow> Inr (- EINVAL, ctx)
     | Some usb \<Rightarrow> evdi_platform_device_add (env_add env 0) (Some (usb_id usb)) ctx)"

text \<open>The loop over the ports; \<open>addr\<close> is the address so far.\<close>

function parse_ports :: "string option \<Rightarrow> u32 list \<Rightarrow> u32 list option" where
  "parse_ports token addr =
    (case strsep CHR ''.'' token of
       (None, token) \<Rightarrow> None
     | (Some port, token) \<Rightarrow>
        (case kstrtouint port of None \<Rightarrow> None
         | Some v \<Rightarrow>
            let addr = addr @ [v]
            in if token \<noteq> None \<and> length addr < MAX_EVDI_USB_ADDR then parse_ports token addr else Some addr))"
  by auto
termination
  by (relation "measure (\<lambda>(token, addr). MAX_EVDI_USB_ADDR - length addr)") auto

declare parse_ports.simps [simp del]

definition add_device_with_usb_path :: "store_env \<Rightarrow> string \<Rightarrow> drv_context \<Rightarrow> c_error + (int \<times> drv_context)" where
  "add_device_with_usb_path env buf ctx =
    (if \<not> env_path env then Inr (- ENOMEM, ctx)
     else ebind (strnstr ''usb:'' (length buf) (kstrdup buf)) (\<lambda>found.
       case found of None \<Rightarrow> Inr (- EINVAL, ctx)
       | Some temp \<Rightarrow>
          (let (bus_token, temp_path) = strsep CHR '':'' (Some (strim (cstr temp)));
               (usb_token, temp_path) = strsep CHR '':'' temp_path
           in case usb_token of None \<Rightarrow> Inr (- EINVAL, ctx)
           | Some usb_token \<Rightarrow>
              (let (bus, token) = strsep CHR ''-'' (if env_token env then Some usb_token else None)
               in case bus of None \<Rightarrow> Inr (- EINVAL, ctx)
               | Some bus \<Rightarrow>
                  (case kstrtouint bus of None \<Rightarrow> Inr (- EINVAL, ctx)
                   | Some busnum \<Rightarrow>
                      (case parse_ports token [busnum] of None \<Rightarrow> Inr (- EINVAL, ctx)
                       | Some addr \<Rightarrow>
                          ebind (evdi_platform_device_attach env addr ctx) (\<lambda>(ret, ctx).
                            Inr (if ret \<noteq> 0 then - EINVAL else int (length buf), ctx))))))))"

definition add_store :: "store_env \<Rightarrow> string \<Rightarrow> drv_context \<Rightarrow> c_error + (int \<times> drv_context)" where
  "add_store env buf ctx =
    ebind (strnstr ''usb:'' (length buf) (buf @ [NUL])) (\<lambda>found.
      if found \<noteq> None then add_device_with_usb_path env buf ctx
      else case kstrtouint (cstr buf) of None \<Rightarrow> Inr (- EINVAL, ctx)
       | Some val \<Rightarrow> ebind (evdi_platform_add_devices (env_add env) val ctx) (\<lambda>(ret, ctx).
           Inr (if ret \<noteq> 0 then ret else int (length buf), ctx)))"

definition remove_all_store :: "string \<Rightarrow> drv_context \<Rightarrow> c_error + (int \<times> drv_context)" where
  "remove_all_store buf ctx = ebind (evdi_platform_remove_all_devices ctx) (\<lambda>ctx. Inr (int (length buf), ctx))"

definition count_show :: "drv_context \<Rightarrow> string" where
  "count_show ctx = show_nat (unat (evdi_platform_device_count ctx)) @ [CHR 0x0A]"

definition EVDI_LOGLEVEL_VERBOSE :: u32 where "EVDI_LOGLEVEL_VERBOSE = 6"

definition loglevel_show :: "u32 \<Rightarrow> string" where
  "loglevel_show evdi_loglevel = show_nat (unat evdi_loglevel) @ [CHR 0x0A]"

text \<open>The result and the log level afterwards.\<close>

definition loglevel_store :: "string \<Rightarrow> u32 \<Rightarrow> int \<times> u32" where
  "loglevel_store buf evdi_loglevel =
    (case kstrtouint (cstr buf) of None \<Rightarrow> (- EINVAL, evdi_loglevel)
     | Some val \<Rightarrow> if EVDI_LOGLEVEL_VERBOSE < val then (- EINVAL, evdi_loglevel) else (int (length buf), val))"

section \<open>Numbers\<close>

lemma space_not_digit: "isspace c \<Longrightarrow> \<not> isdigit c"
  by (auto simp: isspace_def isdigit_def)

lemma digit_char:
  fixes n :: nat
  assumes "n < 10"
  shows "isdigit (char_of (48 + n))" "of_char (char_of (48 + n) :: char) = 48 + n"
  using assms by (auto simp: isdigit_def)

lemma show_nat_digits: "show_nat n \<noteq> [] \<and> (\<forall>c\<in>set (show_nat n). isdigit c)"
proof (induction n rule: show_nat.induct)
  case (1 n)
  then show ?case using digit_char [of n] digit_char [of "n mod 10"] by (subst (1 2) show_nat.simps) auto
qed

lemma read_show: "read_digits (show_nat n) = n"
proof (induction n rule: show_nat.induct)
  case (1 n)
  then show ?case
    using digit_char(2) [of n] digit_char(2) [of "n mod 10"] by (subst show_nat.simps) (auto simp: read_digits_def)
qed

lemma not_digit [simp]: "\<not> isdigit CHR ''+''" "\<not> isdigit CHR 0x0A" "\<not> isdigit NUL" "\<not> isdigit CHR ''.''" "\<not> isdigit CHR ''-''"
    "\<not> isdigit CHR '':''" "\<not> isdigit CHR ''u''"
  by (simp_all add: isdigit_def )

lemma show_nat_avoids: "\<not> isdigit c \<Longrightarrow> c \<notin> set (show_nat n)"
  using show_nat_digits by blast

lemma kstrtouint_show:
  assumes "n < 2 ^ 32" "nl = [] \<or> nl = [CHR 0x0A]"
  shows "kstrtouint (show_nat n @ nl) = Some (of_nat n)"
proof -
  have d: "\<forall>c\<in>set (show_nat n). isdigit c" "show_nat n \<noteq> []" using show_nat_digits by blast+
  then have "takeWhile isdigit (show_nat n @ nl) = show_nat n" "dropWhile isdigit (show_nat n @ nl) = nl"
    using assms(2) by (auto simp: takeWhile_append dropWhile_append)
  moreover have "(case show_nat n @ nl of [] \<Rightarrow> show_nat n @ nl | c # cs \<Rightarrow> if c = CHR ''+'' then cs else show_nat n @ nl) = show_nat n @ nl"
    using d by (cases "show_nat n") auto
  ultimately show ?thesis using assms d(2) by (simp add: kstrtouint_def Let_def read_show del: dropWhile_eq_Nil_conv)
qed

lemma kstrtouint_plain: "n < 2 ^ 32 \<Longrightarrow> kstrtouint (show_nat n) = Some (of_nat n)"
  using kstrtouint_show [of n "[]"] by simp

lemma cstr_plain: "NUL \<notin> set s \<Longrightarrow> cstr (s @ NUL # r) = s" "NUL \<notin> set s \<Longrightarrow> cstr s = s"
  by (auto simp: cstr_def takeWhile_append takeWhile_eq_all_conv)

section \<open>Searching\<close>

text \<open>A search in a buffer that holds its length, as every buffer written to a file is searched at first.\<close>

lemma strnstr_total: "len \<le> length mem \<Longrightarrow> \<exists>found. strnstr pat len mem = Inr found"
proof (induction pat len mem rule: strnstr.induct)
  case (1 pat len mem)
  show ?case
  proof (cases "len < length pat \<or> take (length pat) mem = pat")
    case True
    then show ?thesis using 1(2) by (auto simp: strnstr.simps [of pat len mem])
  next
    case False
    then have "\<not> len < length pat" "\<not> length mem < length pat" "take (length pat) mem \<noteq> pat" using 1(2) by auto
    then show ?thesis using 1(1) 1(2) by (subst strnstr.simps) auto
  qed
qed

text \<open>A place whose first character is not that of the pattern is passed over.\<close>

lemma strnstr_skip:
  assumes "p \<notin> set pre" "length pre + Suc (length ps) \<le> len" "length pre + Suc (length ps) \<le> length pre + length mem"
  shows "strnstr (p # ps) len (pre @ mem) = strnstr (p # ps) (len - length pre) mem"
  using assms
proof (induction pre arbitrary: len)
  case (Cons x pre)
  then have "strnstr (p # ps) len ((x # pre) @ mem) = strnstr (p # ps) (len - 1) (pre @ mem)"
    by (subst strnstr.simps) auto
  then show ?case using Cons.IH [of "len - 1"] Cons.prems by auto
qed simp

lemma strnstr_absent:
  assumes "p \<notin> set mem" "len \<le> length mem"
  shows "strnstr (p # ps) len mem = Inr None"
  using assms
proof (induction mem arbitrary: len)
  case Nil
  then show ?case by (subst strnstr.simps) auto
next
  case (Cons x mem)
  show ?case
  proof (cases "len < length (p # ps)")
    case True
    then show ?thesis by (subst strnstr.simps) simp
  next
    case False
    then have "strnstr (p # ps) len (x # mem) = strnstr (p # ps) (len - 1) mem"
      using Cons.prems by (subst strnstr.simps) auto
    then show ?thesis using Cons.IH [of "len - 1"] Cons.prems by auto
  qed
qed

text \<open>A search for more bytes than the memory has leaves it.\<close>

lemma strnstr_runs_out:
  assumes "p \<notin> set mem" "length mem < len" "length (p # ps) \<le> len"
  shows "strnstr (p # ps) len mem = Inl OutOfBounds"
  using assms
proof (induction mem arbitrary: len)
  case Nil
  then show ?case by (subst strnstr.simps) auto
next
  case (Cons x mem)
  show ?case
  proof (cases "length (x # mem) < length (p # ps)")
    case True
    then show ?thesis using Cons.prems by (subst strnstr.simps) simp
  next
    case False
    then have "strnstr (p # ps) len (x # mem) = strnstr (p # ps) (len - 1) mem"
      using Cons.prems by (subst strnstr.simps) auto
    then show ?thesis using Cons.IH [of "len - 1"] Cons.prems False by auto
  qed
qed

lemma strnstr_here: "length pat \<le> len \<Longrightarrow> strnstr pat len (pat @ r) = Inr (Some (pat @ r))"
  by (subst strnstr.simps) auto

section \<open>Paths\<close>

fun join :: "char \<Rightarrow> string list \<Rightarrow> string" where
  "join c [] = []"
| "join c [s] = s"
| "join c (s # ss) = s @ c # join c ss"

text \<open>The name of a USB device: its bus and the ports on the way to it.\<close>

definition show_path :: "nat \<Rightarrow> nat list \<Rightarrow> string" where
  "show_path bus ports = show_nat bus @ CHR ''-'' # join CHR ''.'' (map show_nat ports)"

lemma strsep_simps:
  "c \<notin> set s \<Longrightarrow> strsep c (Some (s @ c # r)) = (Some s, Some r)" "c \<notin> set s \<Longrightarrow> strsep c (Some s) = (Some s, None)"
  by (auto simp: strsep_def takeWhile_append dropWhile_append takeWhile_eq_all_conv)

lemma parse_ports_join:
  assumes "ports \<noteq> []" "\<forall>p\<in>set ports. p < 2 ^ 32" "length addr < 10"
  shows "parse_ports (Some (join CHR ''.'' (map show_nat ports))) addr = Some (take 10 (addr @ map of_nat ports))"
  using assms
proof (induction ports arbitrary: addr)
  case (Cons p ports)
  have p: "kstrtouint (show_nat p) = Some (of_nat p)" "CHR ''.'' \<notin> set (show_nat p)"
    using Cons.prems(2) by (simp_all add: kstrtouint_plain show_nat_avoids)
  show ?case
  proof (cases ports)
    case Nil
    then show ?thesis using p Cons.prems(3) by (simp add: parse_ports.simps strsep_simps)
  next
    case (Cons q qs)
    then have j: "join CHR ''.'' (map show_nat (p # ports)) = show_nat p @ CHR ''.'' # join CHR ''.'' (map show_nat ports)" by simp
    show ?thesis
    proof (cases "length (addr @ [of_nat p]) < 10")
      case True
      then show ?thesis
        using Cons.IH [of "addr @ [of_nat p]"] Cons.prems Cons p unfolding j
        by (subst parse_ports.simps) (simp add: strsep_simps MAX_EVDI_USB_ADDR_def)
    next
      case False
      then have "length addr = 9" using Cons.prems(3) by simp
      then show ?thesis
        using p unfolding j
        by (subst parse_ports.simps) (simp add: strsep_simps MAX_EVDI_USB_ADDR_def)
    qed
  qed
qed simp

text \<open>The numbers on the way up, as a path names them.\<close>

definition hop :: "u32 \<times> u32 \<Rightarrow> u32" where
  "hop up = (if fst up = 0 then snd up else fst up)"

lemma path_loop_iff:
  "i < int (length addr) \<Longrightarrow> length addr \<le> 10 \<Longrightarrow>
    path_loop addr ups i \<longleftrightarrow> 0 \<le> i \<and> map hop ups = rev (take (nat i + 1) addr)"
proof (induction addr ups i rule: path_loop.induct)
  case (2 addr portnum busnum parents i)
  show ?case
  proof (cases "0 \<le> i")
    case True
    then have i: "i < int MAX_EVDI_USB_ADDR" "nat i < length addr" using 2(2,3) by (simp_all add: MAX_EVDI_USB_ADDR_def)
    have r: "rev (take (nat i + 1) addr) = addr ! nat i # rev (take (nat i) addr)"
      using i(2) by (simp add: take_Suc_conv_app_nth)
    have h: "hop (portnum, busnum) = (if portnum = 0 then busnum else portnum)" by (simp add: hop_def)
    show ?thesis
    proof (cases "i = 0")
      case True
      then show ?thesis using i r h by (cases parents) (auto simp: MAX_EVDI_USB_ADDR_def)
    next
      case False
      then have "nat (i - 1) + 1 = nat i" "take (nat i) addr \<noteq> []" using True i(2) by auto
      then show ?thesis using 2(1) 2(2,3) False True i r h by (auto simp: Let_def)
    qed
  qed simp
qed (auto simp: take_Suc_conv_app_nth)

lemma find_path_iff:
  assumes "addr \<noteq> []" "length addr \<le> 10"
  shows "find_usb_device_at_path addr usb \<longleftrightarrow> map hop (upward usb) = rev addr"
proof -
  have "nat (int (length addr) - 1) + 1 = length addr" using assms(1) by (cases addr) auto
  then show ?thesis
    using path_loop_iff [of "int (length addr) - 1" addr "upward usb"] assms by (cases addr) (auto simp: find_usb_device_at_path_def)
qed

section \<open>Writing a path\<close>

lemma join_avoids: "\<not> isdigit c \<Longrightarrow> c \<noteq> d \<Longrightarrow> c \<notin> set (join d (map show_nat ns))"
proof (induction ns)
  case (Cons n ns)
  then show ?case by (cases ns) (auto simp: show_nat_avoids)
qed simp

lemma show_path_avoids: "\<not> isdigit c \<Longrightarrow> c \<noteq> CHR ''-'' \<Longrightarrow> c \<noteq> CHR ''.'' \<Longrightarrow> c \<notin> set (show_path bus ports)"
  by (auto simp: show_path_def show_nat_avoids join_avoids)

lemma strim_end:
  assumes "\<forall>c\<in>set w. isspace c" "\<not> isspace c" "\<not> isspace d"
  shows "strim (c # s @ d # w) = c # s @ [d]"
proof -
  have "dropWhile isspace (rev w @ d # rev s @ [c]) = d # rev s @ [c]"
    using assms by (subst dropWhile_append2) auto
  then show ?thesis using assms by (simp add: strim_def)
qed

lemma join_ends:
  "ns \<noteq> [] \<Longrightarrow> \<exists>s d. join c (map show_nat ns) = s @ [d] \<and> isdigit d"
proof (induction ns)
  case (Cons n ns)
  show ?case
  proof (cases ns)
    case Nil
    obtain s d where "show_nat n = s @ [d]" using show_nat_digits [of n] by (metis rev_exhaust)
    moreover from this have "isdigit d" using show_nat_digits [of n] by auto
    ultimately show ?thesis using Nil by auto
  next
    case (Cons m ms)
    then obtain s d where "join c (map show_nat ns) = s @ [d]" "isdigit d" using Cons.IH by auto
    then have "join c (map show_nat (n # ns)) = (show_nat n @ c # s) @ [d]" using Cons by simp
    then show ?thesis using \<open>isdigit d\<close> by blast
  qed
qed simp

text \<open>
  What is found and trimmed in a buffer: the path, with anything after a colon, without blanks at the end.
\<close>

lemma trimmed_path:
  assumes "ports \<noteq> []" "(\<forall>c\<in>set tail. isspace c) \<or> (\<exists>t. tail = CHR '':'' # t)"
  shows "\<exists>t. strim (''usb:'' @ show_path bus ports @ tail) = ''usb:'' @ show_path bus ports @ t \<and> (t = [] \<or> (\<exists>u. t = CHR '':'' # u))"
proof -
  obtain s d where d: "join CHR ''.'' (map show_nat ports) = s @ [d]" "isdigit d" using join_ends [OF assms(1)] by blast
  have nd: "\<not> isspace d" "\<not> isspace CHR ''u''" "\<not> isspace CHR '':''" using d(2) space_not_digit by (auto simp: isspace_def)
  show ?thesis
  proof (cases "\<forall>c\<in>set tail. isspace c")
    case True
    have "''usb:'' @ show_path bus ports @ tail = CHR ''u'' # (''sb:'' @ show_nat bus @ CHR ''-'' # s) @ d # tail"
      by (simp add: show_path_def d(1))
    then have "strim (''usb:'' @ show_path bus ports @ tail) = ''usb:'' @ show_path bus ports @ []"
      using strim_end [OF True nd(2,1), of "''sb:'' @ show_nat bus @ CHR ''-'' # s"] by (simp add: show_path_def d(1))
    then show ?thesis by blast
  next
    case False
    then obtain t where t: "tail = CHR '':'' # t" using assms(2) by blast
    define t' where "t' = rev (dropWhile isspace (rev t))"
    define w where "w = rev (takeWhile isspace (rev t))"
    have split: "t = t' @ w" "\<forall>c\<in>set w. isspace c"
      by (simp_all add: t'_def w_def rev_append [symmetric] del: rev_append) (auto dest: set_takeWhileD)
    have "strim (''usb:'' @ show_path bus ports @ tail) = ''usb:'' @ show_path bus ports @ CHR '':'' # t'"
    proof (cases t' rule: rev_cases)
      case Nil
      then show ?thesis
        using strim_end [OF split(2) nd(2,3), of "''sb:'' @ show_path bus ports"] t split(1) by simp
    next
      case (snoc u e)
      then have "\<not> isspace e"
        unfolding t'_def by (metis hd_dropWhile list.sel(1) list.distinct(1) rev.simps(1) rev_eq_append_conv rev_rev_ident rev_singleton_conv append_Cons append_Nil)
      then show ?thesis
        using strim_end [OF split(2) nd(2), of e "''sb:'' @ show_path bus ports @ CHR '':'' # u"] t split(1) snoc by simp
    qed
    then show ?thesis by blast
  qed
qed

text \<open>
  C26: Writing the path of a USB device to \<^verbatim>\<open>add\<close>, with anything without a \<^verbatim>\<open>u\<close> before it and blanks or a colon and anything
  after it, adds a device for exactly the first USB device at this path: the one whose way up to its root hub spells the
  ports and the bus backwards. The whole write is consumed; if there is no such device it is refused and nothing
  changes. Only the first ten numbers of a path count.
\<close>

theorem usb_path_attaches:
  assumes "env_path env" "env_token env" "CHR ''u'' \<notin> set pre" "NUL \<notin> set pre" "NUL \<notin> set tail"
    "bus < 2 ^ 32" "ports \<noteq> []" "\<forall>p\<in>set ports. p < 2 ^ 32"
    "(\<forall>c\<in>set tail. isspace c) \<or> (\<exists>t. tail = CHR '':'' # t)"
    "buf = pre @ ''usb:'' @ show_path bus ports @ tail"
  shows "add_store env buf ctx =
    (case find (\<lambda>usb. map hop (upward usb) = rev (take 10 (map of_nat (bus # ports)))) (env_usb env) of
       None \<Rightarrow> Inr (- EINVAL, ctx)
     | Some usb \<Rightarrow> ebind (evdi_platform_device_add (env_add env 0) (Some (usb_id usb)) ctx) (\<lambda>(ret, ctx).
         Inr (if ret \<noteq> 0 then - EINVAL else int (length buf), ctx)))"
proof -
  let ?path = "show_path bus ports" and ?addr = "take 10 (map of_nat (bus # ports)) :: u32 list"
  have nonul: "NUL \<notin> set buf" using assms(4,5,10) by (simp add: show_path_avoids)
  have found: "strnstr ''usb:'' (length buf) (buf @ [NUL]) = Inr (Some (''usb:'' @ ?path @ tail @ [NUL]))"
    using strnstr_skip [OF assms(3), of "''sb:''" "length buf" "''usb:'' @ ?path @ tail @ [NUL]"]
      strnstr_here [of "''usb:''" "length buf - length pre" "?path @ tail @ [NUL]"] assms(10) by simp
  have c: "cstr (''usb:'' @ ?path @ tail @ [NUL]) = ''usb:'' @ ?path @ tail"
    using cstr_plain(1) [of "''usb:'' @ ?path @ tail" "[]"] assms(5) by (simp add: show_path_avoids)
  obtain t where t: "strim (''usb:'' @ ?path @ tail) = ''usb:'' @ ?path @ t" "t = [] \<or> (\<exists>u. t = CHR '':'' # u)"
    using trimmed_path [OF assms(7,9), of bus] by blast
  have s1: "strsep CHR '':'' (Some (''usb:'' @ ?path @ t)) = (Some ''usb'', Some (?path @ t))"
    using strsep_simps(1) [of "CHR '':''" "''usb''" "?path @ t"] by simp
  have s2: "fst (strsep CHR '':'' (Some (?path @ t))) = Some ?path"
    using t(2) strsep_simps [of "CHR '':''" ?path] by (auto simp: show_path_avoids)
  have s3: "strsep CHR ''-'' (Some ?path) = (Some (show_nat bus), Some (join CHR ''.'' (map show_nat ports)))"
    unfolding show_path_def by (rule strsep_simps(1)) (simp add: show_nat_avoids)
  have p: "parse_ports (Some (join CHR ''.'' (map show_nat ports))) [of_nat bus] = Some ?addr"
    using parse_ports_join [OF assms(7,8), of "[of_nat bus]"] by simp
  have a: "find_usb_device_at_path ?addr = (\<lambda>usb. map hop (upward usb) = rev ?addr)"
    by (rule ext, rule find_path_iff) simp_all
  have "add_store env buf ctx = ebind (evdi_platform_device_attach env ?addr ctx) (\<lambda>(ret, ctx).
      Inr (if ret \<noteq> 0 then - EINVAL else int (length buf), ctx))"
    using assms(1,2,6) found nonul s2
    by (simp add: add_store_def add_device_with_usb_path_def kstrdup_def cstr_plain c t(1) s1 s3 p kstrtouint_plain Let_def case_prod_beta
        del: append.simps)
  then show ?thesis
    unfolding evdi_platform_device_attach_def a
    by (cases "find (\<lambda>usb. map hop (upward usb) = rev ?addr) (env_usb env)") (simp_all add: EINVAL_def)
qed

definition demo_usb :: store_env where
  "demo_usb = \<lparr>env_path = True, env_token = True,
     env_usb = [\<lparr>usb_id = 3, upward = [(0, 1)]\<rparr>, \<lparr>usb_id = 7, upward = [(2, 1), (1, 1), (0, 1)]\<rparr>], env_add = \<lambda>_. good_add\<rparr>"

lemma show_nat_small: "n < 10 \<Longrightarrow> show_nat n = [char_of (48 + n)]"
  by (simp add: show_nat.simps)

theorem usb_path_attaches_witness:
  "\<exists>ctx pdev data. add_store demo_usb ''usb:1-1.2:1.0'' drv_context_zero = Inr (13, ctx) \<and>
    devices ctx ! 0 = Some pdev \<and> drvdata pdev = Some data \<and> pd_parent data = Some 7"
proof -
  have buf: "''usb:1-1.2:1.0'' = [] @ ''usb:'' @ show_path 1 [1, 2] @ '':1.0''"
    by (simp add: show_path_def show_nat_small char_of_def bit_Suc_0_iff)
  have found: "find (\<lambda>usb. map hop (upward usb) = rev (take 10 (map of_nat (1 # [1, 2])))) (env_usb demo_usb) =
      Some \<lparr>usb_id = 7, upward = [(2, 1), (1, 1), (0, 1)]\<rparr>"
    by (simp add: demo_usb_def hop_def)
  obtain ctx pdev data where a: "evdi_platform_device_add good_add (Some 7) drv_context_zero = Inr (0, ctx)"
    "devices ctx ! 0 = Some pdev" "drvdata pdev = Some data" "pd_parent data = Some 7"
    by (simp add: evdi_platform_device_add_def evdi_platform_drv_create_new_device_def evdi_platform_drv_get_free_idx_def
        evdi_platform_drv_get_free_device_def EVDI_DEVICE_COUNT_MAX_def upt_rec drv_context_zero_def evdi_platform_dev_create_def
        evdi_platform_device_probe_def good_add_def evdi_platform_device_link_def evdi_platform_device_is_free_def get_data_def
        evdi_drm_device_create_def evdi_drm_device_init_def good_env_def evdi_fbdev_init_def get_priv_def)
  have "add_store demo_usb ''usb:1-1.2:1.0'' drv_context_zero = Inr (13, ctx)"
    by (subst usb_path_attaches [of demo_usb "[]" "'':1.0''" 1 "[1, 2]" "''usb:1-1.2:1.0''", OF _ _ _ _ _ _ _ _ _ buf])
       (use found a(1) in \<open>simp_all add: demo_usb_def\<close>)
  then show ?thesis using a by blast
qed

text \<open>
  A write that holds a zero before the place where \<^verbatim>\<open>usb:\<close> stands reads beyond the copy made of it. The first search sees the whole
  write, the copy ends at the zero, and the second search goes through as many bytes as were written. Without a zero in it no
  write makes either search leave its memory.
\<close>

theorem add_overreads_after_zero:
  "(NUL \<notin> set buf \<longrightarrow> (\<exists>r. strnstr ''usb:'' (length buf) (kstrdup buf) = Inr r)) \<and>
   (env_path env \<and> NUL \<notin> set pre \<and> CHR ''u'' \<notin> set pre \<and> CHR ''u'' \<notin> set mid \<longrightarrow>
    add_store env (pre @ NUL # mid @ ''usb:'' @ rest) ctx = Inl OutOfBounds)"
proof (intro conjI impI)
  assume "NUL \<notin> set buf"
  then show "\<exists>r. strnstr ''usb:'' (length buf) (kstrdup buf) = Inr r"
    by (intro strnstr_total) (simp add: kstrdup_def cstr_plain)
next
  assume a: "env_path env \<and> NUL \<notin> set pre \<and> CHR ''u'' \<notin> set pre \<and> CHR ''u'' \<notin> set mid"
  let ?buf = "pre @ NUL # mid @ ''usb:'' @ rest"
  have "strnstr ''usb:'' (length ?buf) ((pre @ NUL # mid) @ ''usb:'' @ rest @ [NUL]) = Inr (Some (''usb:'' @ rest @ [NUL]))"
    using a strnstr_skip [of "CHR ''u''" "pre @ NUL # mid" "''sb:''" "length ?buf" "''usb:'' @ rest @ [NUL]"]
      strnstr_here [of "''usb:''" "4 + length rest" "rest @ [NUL]"] by simp
  then have f: "strnstr ''usb:'' (length ?buf) (?buf @ [NUL]) = Inr (Some (''usb:'' @ rest @ [NUL]))" by simp
  have k: "kstrdup ?buf = pre @ [NUL]" using a by (simp add: kstrdup_def cstr_plain)
  have "strnstr ''usb:'' (length ?buf) (kstrdup ?buf) = Inl OutOfBounds"
    unfolding k by (rule strnstr_runs_out) (use a in auto)
  then show "add_store env ?buf ctx = Inl OutOfBounds" using a f by (simp add: add_store_def add_device_with_usb_path_def)
qed

theorem add_overreads_after_zero_witness:
  "add_store demo_usb (CHR ''1'' # NUL # ''usb:1-1'') drv_context_zero = Inl OutOfBounds"
  using add_overreads_after_zero [of "[]" demo_usb "''1''" "[]" "''1-1''" drv_context_zero] by (simp add: demo_usb_def)

text \<open>
  Numbers go through the files unchanged. What \<^verbatim>\<open>count\<close> and \<^verbatim>\<open>loglevel\<close> show is read back as the number it was; a log level
  written is taken over if it is at most 6 and refused otherwise; and a number written to \<^verbatim>\<open>add\<close>, with or without a
  newline, asks for exactly that many devices.
\<close>

theorem numbers_read_back:
  assumes "n < 2 ^ 32" "nl = [] \<or> nl = [CHR 0x0A]"
  shows "kstrtouint (cstr (count_show ctx)) = Some (evdi_platform_device_count ctx) \<and>
    loglevel_store (loglevel_show lvl) old = (if lvl \<le> 6 then (int (length (loglevel_show lvl)), lvl) else (- EINVAL, old)) \<and>
    add_store env (show_nat n @ nl) ctx = ebind (evdi_platform_add_devices (env_add env) (of_nat n) ctx) (\<lambda>(ret, ctx).
      Inr (if ret \<noteq> 0 then ret else int (length (show_nat n @ nl)), ctx))"
proof (intro conjI)
  have c: "cstr (show_nat m @ e) = show_nat m @ e" if "e = [] \<or> e = [CHR 0x0A]" for m e
    using that by (intro cstr_plain) (auto simp: show_nat_avoids)
  have w: "unat (v :: u32) < 2 ^ 32" for v using unat_lt_2_32 [of v] by simp
  show "kstrtouint (cstr (count_show ctx)) = Some (evdi_platform_device_count ctx)"
    by (simp add: count_show_def c kstrtouint_show [OF w])
  show "loglevel_store (loglevel_show lvl) old = (if lvl \<le> 6 then (int (length (loglevel_show lvl)), lvl) else (- EINVAL, old))"
    by (auto simp: loglevel_store_def loglevel_show_def c kstrtouint_show [OF w] EVDI_LOGLEVEL_VERBOSE_def)
  let ?buf = "show_nat n @ nl"
  have "strnstr ''usb:'' (length ?buf) (?buf @ [NUL]) = Inr None"
    by (rule strnstr_absent) (use assms(2) in \<open>auto simp: show_nat_avoids\<close>)
  then show "add_store env ?buf ctx = ebind (evdi_platform_add_devices (env_add env) (of_nat n) ctx) (\<lambda>(ret, ctx).
      Inr (if ret \<noteq> 0 then ret else int (length ?buf), ctx))"
    by (simp add: add_store_def c [OF assms(2)] kstrtouint_show [OF assms])
qed

theorem numbers_read_back_witness:
  "loglevel_store ''6'' 4 = (1, 6) \<and> add_store demo_usb (show_nat 17 @ [CHR 0x0A]) drv_context_zero = Inr (- EINVAL, drv_context_zero)"
proof -
  have "add_store demo_usb (show_nat 17 @ [CHR 0x0A]) drv_context_zero = Inr (- EINVAL, drv_context_zero)"
    using numbers_read_back [of 17 "[CHR 0x0A]" drv_context_zero 0 0 demo_usb]
    by (simp add: evdi_platform_add_devices_def evdi_platform_device_count_def drv_context_zero_def EVDI_DEVICE_COUNT_MAX_def EINVAL_def)
  moreover have "loglevel_store ''6'' 4 = (1, 6)"
    by (simp add: loglevel_store_def kstrtouint_def cstr_def isdigit_def read_digits_def EVDI_LOGLEVEL_VERBOSE_def)
  ultimately show ?thesis by blast
qed

end
