(* ===== verification/EvdiConnector.thy ===== *)
theory EvdiConnector
  imports EvdiDrm
begin

text \<open>
  The connector of an \<^verbatim>\<open>evdi\<close> card (\<^verbatim>\<open>evdi_connector.c\<close>): what it reports to the DRM core about its monitor and which modes it
  accepts; and its I2C bus (\<^verbatim>\<open>evdi_i2c.c\<close>). What the core answers when it is given the EDID is an argument.
\<close>

section \<open>The monitor\<close>

definition evdi_detect :: "evdi_device \<Rightarrow> drm_connector_status" where
  "evdi_detect evdi = (if evdi_painter_is_connected (painter evdi) then connector_status_connected else connector_status_disconnected)"

text \<open>
  \<open>update\<close> and \<open>add_modes\<close> are \<^verbatim>\<open>drm_connector_update_edid_property\<close> and \<^verbatim>\<open>drm_add_edid_modes\<close>. The result is the number of
  modes, or the error, and the EDID that the property was given.
\<close>

definition evdi_get_modes ::
    "bool \<Rightarrow> (bytes option \<Rightarrow> int) \<Rightarrow> (bytes \<Rightarrow> int) \<Rightarrow> evdi_device \<Rightarrow> c_error + (int \<times> bytes option)" where
  "evdi_get_modes alloc update add_modes evdi =
    ebind (evdi_painter_get_edid_copy alloc evdi) (\<lambda>edid.
      case edid of None \<Rightarrow> Inr (0, None)
       | Some e \<Rightarrow> let ret = update (Some e) in if ret \<noteq> 0 then Inr (ret, Some e) else Inr (add_modes e, Some e))"

section \<open>Modes\<close>

definition same_resolution :: "drm_display_mode \<Rightarrow> drm_display_mode \<Rightarrow> bool" where
  "same_resolution modeptr mode \<longleftrightarrow> hdisplay modeptr = hdisplay mode \<and> vdisplay modeptr = vdisplay mode"

fun is_lowest_frequency_mode_of_given_resolution :: "drm_display_mode list \<Rightarrow> drm_display_mode \<Rightarrow> bool" where
  "is_lowest_frequency_mode_of_given_resolution [] mode = True"
| "is_lowest_frequency_mode_of_given_resolution (modeptr # modes) mode =
    (if same_resolution modeptr mode \<and> vrefresh modeptr < vrefresh mode then False
     else is_lowest_frequency_mode_of_given_resolution modes mode)"

definition mode_area :: "drm_display_mode \<Rightarrow> u32" where
  "mode_area mode = of_int (uint (hdisplay mode) * uint (vdisplay mode))"

definition evdi_mode_valid :: "evdi_device \<Rightarrow> drm_display_mode list \<Rightarrow> drm_display_mode \<Rightarrow> drm_mode_status" where
  "evdi_mode_valid evdi modes mode =
    (let area_limit = mode_area mode; mode_limit = area_limit * of_int (vrefresh mode)
     in if pixel_per_second_limit evdi = 0 then MODE_OK
        else if pixel_area_limit evdi < area_limit then MODE_BAD
        else if mode_limit \<le> pixel_per_second_limit evdi then MODE_OK
        else if is_lowest_frequency_mode_of_given_resolution modes mode then MODE_OK
        else MODE_BAD)"

section \<open>The I2C bus\<close>

text \<open>
  One message at a time; \<open>reserve\<close>, \<open>alloc\<close> and \<open>wait\<close> answer for the message of the index \<open>i\<close>. The result is the number of messages
  handled, and the messages with what was read into them.
\<close>

fun access_loop ::
    "(nat \<Rightarrow> reserve) \<Rightarrow> (nat \<Rightarrow> bool) \<Rightarrow> (nat \<Rightarrow> pw \<Rightarrow> bool \<times> pw) \<Rightarrow> nat \<Rightarrow> i2c_msg list \<Rightarrow> int \<Rightarrow> evdi_painter option \<times> drm_world \<Rightarrow>
     int \<times> i2c_msg list \<times> evdi_painter option \<times> drm_world" where
  "access_loop reserve alloc wait i [] result s = (result, [], s)"
| "access_loop reserve alloc wait i (msg # msgs) result s =
    (case evdi_painter_i2c_data_notify (reserve i) (alloc i) (wait i) (Some msg) s of
       (ok, msg', s) \<Rightarrow>
        (case access_loop reserve alloc wait (i + 1) msgs (if ok then result + 1 else result) s of
          (result, msgs, s) \<Rightarrow> (result, (case msg' of Some m \<Rightarrow> m | None \<Rightarrow> msg) # msgs, s)))"

definition dli2c_access_master ::
    "(nat \<Rightarrow> reserve) \<Rightarrow> (nat \<Rightarrow> bool) \<Rightarrow> (nat \<Rightarrow> pw \<Rightarrow> bool \<times> pw) \<Rightarrow> i2c_msg list \<Rightarrow> evdi_device \<Rightarrow>
     int \<times> i2c_msg list \<times> evdi_device" where
  "dli2c_access_master reserve alloc wait msgs evdi =
    (case access_loop reserve alloc wait 0 msgs 0 (painter evdi, drm evdi) of
       (result, msgs, p, w) \<Rightarrow> (result, msgs, evdi\<lparr>painter := p, drm := w\<rparr>))"

section \<open>What the monitor is\<close>

text \<open>
  The connector shows the monitor that the daemon connected. After a successful connection it is detected as connected and the core is
  given exactly the EDID of the daemon, so that its modes are the modes of that EDID; after the disconnection, or when the
  daemon's file is closed, it is detected as disconnected, the property is emptied and there are no modes.
\<close>

theorem connector_shows_daemon_edid:
  assumes "painter evdi = Some p" "connected cmd" "cmd_edid cmd = Some e" "length e = cmd_edid_length cmd"
    "evdi_painter_connect_ioctl alloc add_i2c cmd file evdi = (0, evdi')"
  shows "evdi_detect evdi' = connector_status_connected \<and>
    evdi_get_modes True update add_modes evdi' = Inr (if update (Some e) \<noteq> 0 then update (Some e) else add_modes e, Some e) \<and>
    evdi_detect (evdi_painter_close file evdi') = connector_status_disconnected \<and>
    evdi_get_modes alloc' update add_modes (evdi_painter_close file evdi') = Inr (0, None)"
proof -
  have len: "sizeof_edid \<le> cmd_edid_length cmd" "alloc" "cmd_edid_length cmd \<le> MAX_EDID_SIZE"
    using assms by (auto simp: evdi_painter_connect_ioctl_def evdi_painter_connect_def EINVAL_def ENOMEM_def split: if_splits)
  then have e: "e \<noteq> []" using assms(4) by (auto simp: sizeof_edid_def)
  obtain p' where p': "painter evdi' = Some p'" "is_connected p'" "painter_edid p' = Some e" "edid_length p' = length e"
    "drm_filp p' = Some file"
    using assms len by (auto simp: evdi_painter_connect_ioctl_def evdi_painter_connect_def drm_helper_hpd_irq_event_def Let_def not_less)
  have d: "evdi_detect evdi' = connector_status_connected" by (simp add: evdi_detect_def evdi_painter_is_connected_def p')
  have g: "evdi_get_modes True update add_modes evdi' = Inr (if update (Some e) \<noteq> 0 then update (Some e) else add_modes e, Some e)"
    using e by (simp add: evdi_get_modes_def evdi_painter_get_edid_copy_def p' evdi_painter_is_connected_def Let_def)
  obtain p2 where "painter (evdi_painter_close file evdi') = Some p2" "\<not> is_connected p2"
    by (auto simp: evdi_painter_close_def p' evdi_painter_disconnect_def evdi_painter_events_cleanup_def
        evdi_painter_send_vblank_def drm_helper_hpd_irq_event_def Let_def split_beta)
  then show ?thesis
    using d g by (auto simp: evdi_detect_def evdi_get_modes_def evdi_painter_get_edid_copy_def evdi_painter_is_connected_def split: option.splits)
qed

text \<open>A device with a daemon's file 5 closed again, and the command that connects it.\<close>

definition demo_monitor :: drm_evdi_connect where
  "demo_monitor = \<lparr>connected = True, cmd_edid = Some (replicate 128 7), cmd_edid_length = 128, cmd_area_limit = 1000, cmd_second_limit = 60000\<rparr>"

theorem connector_shows_daemon_edid_witness:
  "\<exists>evdi. evdi_painter_connect_ioctl True True demo_monitor 5 (demo_device []) = (0, evdi) \<and>
    evdi_get_modes True (\<lambda>_. 0) (\<lambda>e. int (length e)) evdi = Inr (128, Some (replicate 128 7)) \<and>
    evdi_detect (evdi_painter_close 5 evdi) = connector_status_disconnected"
proof -
  obtain p evdi where c: "painter (demo_device []) = Some p" "evdi_painter_connect_ioctl True True demo_monitor 5 (demo_device []) = (0, evdi)"
    by (simp add: demo_device_def demo_monitor_def evdi_painter_connect_ioctl_def evdi_painter_connect_def sizeof_edid_def MAX_EDID_SIZE_def)
  have d: "connected demo_monitor" "cmd_edid demo_monitor = Some (replicate 128 7)" "length (replicate 128 7 :: bytes) = cmd_edid_length demo_monitor"
    by (simp_all add: demo_monitor_def)
  show ?thesis using connector_shows_daemon_edid [OF c(1) d c(2), of "\<lambda>_. 0" "\<lambda>e. int (length e)" True] c(2) by simp
qed

section \<open>Which modes are accepted\<close>

lemma lowest_iff:
  "is_lowest_frequency_mode_of_given_resolution modes mode \<longleftrightarrow> (\<forall>m\<in>set modes. same_resolution m mode \<longrightarrow> vrefresh mode \<le> vrefresh m)"
  by (induction modes mode rule: is_lowest_frequency_mode_of_given_resolution.induct) auto

lemma lowest_exists:
  "m \<in> set modes \<Longrightarrow> \<exists>m'\<in>set modes. same_resolution m' m \<and> is_lowest_frequency_mode_of_given_resolution modes m' \<and> vrefresh m' \<le> vrefresh m"
proof -
  assume m: "m \<in> set modes"
  let ?S = "{x \<in> set modes. same_resolution x m}"
  have "finite (vrefresh ` ?S)" "m \<in> ?S" using m by (simp_all add: same_resolution_def)
  then have "Min (vrefresh ` ?S) \<in> vrefresh ` ?S" "\<forall>x\<in>?S. Min (vrefresh ` ?S) \<le> vrefresh x" by (auto intro: Min_in)
  then obtain m' where "m' \<in> ?S" "\<forall>x\<in>?S. vrefresh m' \<le> vrefresh x" by (metis (no_types, lifting) imageE)
  then show ?thesis using \<open>m \<in> ?S\<close> by (auto simp: lowest_iff same_resolution_def)
qed

text \<open>
  The limits never take a resolution away that fits the area: of the modes of a monitor with an area within the limit there is always
  one of the same resolution, with a refresh rate that is not higher, that is accepted. A mode of too large an area is
  never accepted, and without a limit all modes are.
\<close>

theorem resolution_kept:
  assumes "mode \<in> set modes" "pixel_per_second_limit evdi \<noteq> 0"
  shows "(mode_area mode \<le> pixel_area_limit evdi \<longrightarrow>
      (\<exists>m\<in>set modes. same_resolution m mode \<and> vrefresh m \<le> vrefresh mode \<and> evdi_mode_valid evdi modes m = MODE_OK)) \<and>
    (pixel_area_limit evdi < mode_area mode \<longrightarrow> evdi_mode_valid evdi modes mode = MODE_BAD)"
proof -
  obtain m where m: "m \<in> set modes" "same_resolution m mode" "is_lowest_frequency_mode_of_given_resolution modes m" "vrefresh m \<le> vrefresh mode"
    using lowest_exists [OF assms(1)] by blast
  then have "mode_area m = mode_area mode" by (simp add: mode_area_def same_resolution_def)
  then have "mode_area mode \<le> pixel_area_limit evdi \<Longrightarrow> evdi_mode_valid evdi modes m = MODE_OK"
    using m(3) by (auto simp: evdi_mode_valid_def Let_def not_less)
  moreover have "pixel_area_limit evdi < mode_area mode \<Longrightarrow> evdi_mode_valid evdi modes mode = MODE_BAD"
    using assms(2) by (simp add: evdi_mode_valid_def Let_def)
  ultimately show ?thesis using m(1,2,4) by blast
qed

theorem resolution_kept_witness:
  "\<exists>m\<in>set [\<lparr>hdisplay = 20, vdisplay = 10, vrefresh = 500\<rparr>, \<lparr>hdisplay = 20, vdisplay = 10, vrefresh = 400\<rparr>].
    evdi_mode_valid (demo_device []\<lparr>pixel_area_limit := 1000, pixel_per_second_limit := 60000\<rparr>)
      [\<lparr>hdisplay = 20, vdisplay = 10, vrefresh = 500\<rparr>, \<lparr>hdisplay = 20, vdisplay = 10, vrefresh = 400\<rparr>] m = MODE_OK"
  using resolution_kept [of "\<lparr>hdisplay = 20, vdisplay = 10, vrefresh = 500\<rparr>"
      "[\<lparr>hdisplay = 20, vdisplay = 10, vrefresh = 500\<rparr>, \<lparr>hdisplay = 20, vdisplay = 10, vrefresh = 400\<rparr>]"
      "demo_device []\<lparr>pixel_area_limit := 1000, pixel_per_second_limit := 60000\<rparr>"]
  by (auto simp: mode_area_def)

text \<open>
  A mode is refused exactly when its area, or its pixels per second while a mode of the same resolution with a lower rate exists, are beyond
  the limits, as long as its pixels per second fit 32 bits. From there on they wrap: 7680 by 4320 at 130 Hz passes for 18
  million pixels per second.
\<close>

theorem mode_limits_exact:
  assumes "0 \<le> vrefresh mode" "uint (hdisplay mode) * uint (vdisplay mode) * vrefresh mode < 2 ^ 32" "pixel_per_second_limit evdi \<noteq> 0"
  shows "evdi_mode_valid evdi modes mode = MODE_BAD \<longleftrightarrow>
    uint (pixel_area_limit evdi) < uint (hdisplay mode) * uint (vdisplay mode) \<or>
    uint (pixel_per_second_limit evdi) < uint (hdisplay mode) * uint (vdisplay mode) * vrefresh mode \<and>
      (\<exists>m\<in>set modes. same_resolution m mode \<and> vrefresh m < vrefresh mode)"
proof -
  let ?a = "uint (hdisplay mode) * uint (vdisplay mode)"
  have "?a \<le> 65535 * 65535"
    using uint_bounded [of "hdisplay mode"] uint_bounded [of "vdisplay mode"] by (intro mult_mono) auto
  then have a: "uint (mode_area mode) = ?a"
    by (simp add: mode_area_def uint_word_of_int take_bit_int_eq_self del: of_int_mult)
  have "mode_area mode * of_int (vrefresh mode) = (of_int (?a * vrefresh mode) :: u32)" by (simp add: mode_area_def)
  then have l: "uint (mode_area mode * of_int (vrefresh mode)) = ?a * vrefresh mode"
    using assms(1,2) by (simp add: uint_word_of_int take_bit_int_eq_self del: of_int_mult)
  show ?thesis
    using assms(3) by (auto simp: evdi_mode_valid_def Let_def word_less_def word_le_def a l lowest_iff not_le not_less)
qed

theorem mode_limits_exact_witness:
  "evdi_mode_valid (demo_device []\<lparr>pixel_area_limit := 40000000, pixel_per_second_limit := 600000000\<rparr>)
     [\<lparr>hdisplay = 3840, vdisplay = 2160, vrefresh = 60\<rparr>] \<lparr>hdisplay = 3840, vdisplay = 2160, vrefresh = 120\<rparr> = MODE_BAD \<and>
   evdi_mode_valid (demo_device []\<lparr>pixel_area_limit := 40000000, pixel_per_second_limit := 600000000\<rparr>)
     [\<lparr>hdisplay = 7680, vdisplay = 4320, vrefresh = 60\<rparr>] \<lparr>hdisplay = 7680, vdisplay = 4320, vrefresh = 130\<rparr> = MODE_OK"
  using mode_limits_exact [of "\<lparr>hdisplay = 3840, vdisplay = 2160, vrefresh = 120\<rparr>"
      "demo_device []\<lparr>pixel_area_limit := 40000000, pixel_per_second_limit := 600000000\<rparr>" "[\<lparr>hdisplay = 3840, vdisplay = 2160, vrefresh = 60\<rparr>]"]
  by (simp add: evdi_mode_valid_def mode_area_def same_resolution_def)

section \<open>The bus\<close>

lemma send_event_connected: "evdi_painter_send_event reserve e (p, w) = (p', w') \<Longrightarrow> is_connected p' = is_connected p"
  by (auto simp: evdi_painter_send_event_def evdi_painter_add_event_to_pending_list_def evdi_painter_flush_pending_events_def Let_def
      split: option.splits prod.splits if_splits)

lemma notified:
  assumes "evdi_painter_i2c_data_notify reserve alloc wait (Some msg) (p, w) = (ok, m', p1, w1)" "p = Some q" "is_connected q"
    "\<And>q v. is_connected q \<Longrightarrow> is_connected (fst (snd (wait (q, v))))"
  shows "(ok \<longleftrightarrow> msg_addr msg = I2C_ADDRESS_DDCCI) \<and> (\<exists>m. m' = Some m \<and> msg_addr m = msg_addr msg \<and> msg_len m = msg_len msg) \<and>
      evdi_painter_is_connected p1"
proof (cases "msg_addr msg = I2C_ADDRESS_DDCCI")
  case False
  then show ?thesis using assms by (auto simp: evdi_painter_i2c_data_notify_def evdi_painter_is_connected_def)
next
  case True
  obtain q1 v1 where s: "evdi_painter_send_event reserve (create_ddcci_data_event alloc msg) (q\<lparr>ddcci_response_received := 0\<rparr>, w) = (q1, v1)"
    by (cases "evdi_painter_send_event reserve (create_ddcci_data_event alloc msg) (q\<lparr>ddcci_response_received := 0\<rparr>, w)") auto
  have c1: "is_connected q1"
    using send_event_connected [OF s] assms(3) by simp
  obtain b q2 v2 where wt: "wait (q1, v1) = (b, q2, v2)" by (cases "wait (q1, v1)") auto
  then have c2: "is_connected q2" using assms(4) [OF c1, of v1] by simp
  show ?thesis
    using assms(1-3) True s wt c2
    by (auto simp: evdi_painter_i2c_data_notify_def evdi_painter_ddcci_data_def evdi_painter_is_connected_def Let_def split: if_splits option.splits)
qed

lemma access_loop_counts:
  assumes "evdi_painter_is_connected p" "\<And>i q v. is_connected q \<Longrightarrow> is_connected (fst (snd (wait i (q, v))))"
  shows "case access_loop reserve alloc wait i msgs result (p, w) of (n, msgs', p', w') \<Rightarrow>
    n = result + int (length (filter (\<lambda>m. msg_addr m = I2C_ADDRESS_DDCCI) msgs)) \<and>
    map msg_addr msgs' = map msg_addr msgs \<and> map msg_len msgs' = map msg_len msgs \<and> evdi_painter_is_connected p'"
  using assms(1)
proof (induction msgs arbitrary: i result p w)
  case (Cons msg msgs)
  obtain q where q: "p = Some q" "is_connected q" using Cons.prems by (auto simp: evdi_painter_is_connected_def split: option.splits)
  obtain ok m' p1 w1 where n: "evdi_painter_i2c_data_notify (reserve i) (alloc i) (wait i) (Some msg) (p, w) = (ok, m', p1, w1)"
    by (cases "evdi_painter_i2c_data_notify (reserve i) (alloc i) (wait i) (Some msg) (p, w)") auto
  have k: "(ok \<longleftrightarrow> msg_addr msg = I2C_ADDRESS_DDCCI) \<and> (\<exists>m. m' = Some m \<and> msg_addr m = msg_addr msg \<and> msg_len m = msg_len msg) \<and>
      evdi_painter_is_connected p1"
    using notified [OF n q assms(2)] .
  then show ?case using Cons.IH [where p = p1 and i = "i + 1" and result = "if ok then result + 1 else result" and w = w1] n by (auto split: prod.splits)
qed simp

lemma unconnected_bus: "\<not> evdi_painter_is_connected p \<Longrightarrow> access_loop reserve alloc wait i msgs result (p, w) = (result, msgs, p, w)"
  by (induction msgs arbitrary: i) (auto simp: evdi_painter_i2c_data_notify_def split: option.splits)

text \<open>
  A transfer on the bus of a card reports as done exactly the messages for the DDC/CI address, in any order with others, also those that the
  daemon did not answer in time; and it keeps the addresses and the lengths of the messages. Without a daemon connected
  it does none and changes nothing.
\<close>

theorem bus_transfer_counts:
  assumes "\<And>i q v. is_connected q \<Longrightarrow> is_connected (fst (snd (wait i (q, v))))"
  shows "case dli2c_access_master reserve alloc wait msgs evdi of (n, msgs', evdi') \<Rightarrow>
    map msg_addr msgs' = map msg_addr msgs \<and> map msg_len msgs' = map msg_len msgs \<and>
    (if evdi_painter_is_connected (painter evdi)
     then n = int (length (filter (\<lambda>m. msg_addr m = I2C_ADDRESS_DDCCI) msgs)) \<and> evdi_painter_is_connected (painter evdi')
     else n = 0 \<and> msgs' = msgs \<and> evdi' = evdi)"
proof (cases "evdi_painter_is_connected (painter evdi)")
  case True
  then show ?thesis
    using access_loop_counts [OF True, where wait = wait and reserve = reserve and alloc = alloc and i = 0 and msgs = msgs and result = 0 and w = "drm evdi", OF assms]
    by (auto simp: dli2c_access_master_def split: prod.splits)
next
  case False
  then show ?thesis by (simp add: dli2c_access_master_def unconnected_bus)
qed

theorem bus_transfer_counts_witness:
  "fst (dli2c_access_master (\<lambda>_ _ _ _. True) (\<lambda>_. True) (\<lambda>_ s. (False, s))
     [\<lparr>msg_addr = 0x37, msg_flags = 0, msg_len = 2, msg_buf = [1, 2]\<rparr>, \<lparr>msg_addr = 0x50, msg_flags = 0, msg_len = 1, msg_buf = [0]\<rparr>]
     (demo_device [])) = 1"
  using bus_transfer_counts [where wait = "\<lambda>_ s. (False, s)" and alloc = "\<lambda>_. True" and reserve = "\<lambda>_ _ _ _. True"
      and msgs = "[\<lparr>msg_addr = 0x37, msg_flags = 0, msg_len = 2, msg_buf = [1, 2]\<rparr>, \<lparr>msg_addr = 0x50, msg_flags = 0, msg_len = 1, msg_buf = [0]\<rparr>]"
      and evdi = "demo_device []"]
  by (simp add: evdi_painter_is_connected_def demo_device_def I2C_ADDRESS_DDCCI_def split: prod.splits)

end
