(* ===== verification/EvdiCompat.thy ===== *)
theory EvdiCompat
  imports LibEvents PainterEvents
begin

text \<open>
  Requests of 32-bit processes (\<^verbatim>\<open>module/evdi_ioc32.c\<close>). In a 32-bit process the structures of two requests are smaller,
  because pointers are; the module reads the small structure from the memory of the process, widens it and calls the
  painter. Every other request goes to \<^verbatim>\<open>drm_ioctl\<close> as it is. The DRM core is a parameter (\<open>drm_core\<close>); what
  it is documented to do with a request is stated by \<open>drm_ioctl_calls\<close> and \<open>kernel_calls_connect\<close>.
  Shown: a connection asked for by a 32-bit process is the one a 64-bit process gets; a grab hands back the count
  and changes nothing else of the request; and the answer to a DDC/CI request, whose structure holds a pointer too
  but is not translated, never reaches the painter.
\<close>

section \<open>Memory of a process\<close>

record user_space =
  content :: "u64 \<Rightarrow> u8 option"
  writable :: "u64 \<Rightarrow> bool"

definition copy_in :: "user_space \<Rightarrow> u64 \<Rightarrow> nat \<Rightarrow> bytes option" where
  "copy_in m a n =
    (let cells = map (\<lambda>i. content m (a + word_of_nat i)) [0..<n]
     in if None \<in> set cells then None else Some (map the cells))"

text \<open>Bytes are written up to the first that cannot be; the answer says whether all were.\<close>

fun copy_out :: "user_space \<Rightarrow> u64 \<Rightarrow> bytes \<Rightarrow> bool \<times> user_space" where
  "copy_out m a [] = (True, m)"
| "copy_out m a (b # bs) =
    (if content m a = None \<or> \<not> writable m a then (False, m)
     else copy_out (m\<lparr>content := (content m)(a \<mapsto> b)\<rparr>) (a + 1) bs)"

definition words_bytes :: "u32 list \<Rightarrow> bytes" where
  "words_bytes ws = concat (map bytes_le32 ws)"

definition read_le64 :: "bytes \<Rightarrow> nat \<Rightarrow> u64" where
  "read_le64 b k = ucast (read_le32 b k) OR push_bit 32 (ucast (read_le32 b (k + 4)))"

text \<open>\<^verbatim>\<open>compat_ptr\<close> extends the pointer of a 32-bit process with zeros.\<close>

definition compat_ptr :: "u32 \<Rightarrow> u64" where "compat_ptr p = ucast p"

section \<open>The structures\<close>

record drm_evdi_connect32 =
  connected32 :: u32
  dev_index32 :: u32
  edid_ptr32 :: u32
  edid_length32 :: u32
  area_limit32 :: u32
  second_limit32 :: u32

record drm_evdi_grabpix32 =
  mode32 :: u32
  buf_width32 :: u32
  buf_height32 :: u32
  buf_byte_stride32 :: u32
  buffer_ptr32 :: u32
  num_rects32 :: u32
  rects_ptr32 :: u32

text \<open>What the kernel's own structures hold: the same with pointers of 64 bits.\<close>

record connect_request =
  k_connected :: u32
  k_dev_index :: u32
  k_edid :: u64
  k_edid_length :: u32
  k_area_limit :: u32
  k_second_limit :: u32

record grabpix_request =
  k_mode :: u32
  k_buf_width :: u32
  k_buf_height :: u32
  k_buf_byte_stride :: u32
  k_buffer :: u64
  k_num_rects :: u32
  k_rects :: u64

definition read_connect32 :: "bytes \<Rightarrow> drm_evdi_connect32" where
  "read_connect32 b = \<lparr>connected32 = read_le32 b 0, dev_index32 = read_le32 b 4, edid_ptr32 = read_le32 b 8,
     edid_length32 = read_le32 b 12, area_limit32 = read_le32 b 16, second_limit32 = read_le32 b 20\<rparr>"

definition read_grabpix32 :: "bytes \<Rightarrow> drm_evdi_grabpix32" where
  "read_grabpix32 b = \<lparr>mode32 = read_le32 b 0, buf_width32 = read_le32 b 4, buf_height32 = read_le32 b 8,
     buf_byte_stride32 = read_le32 b 12, buffer_ptr32 = read_le32 b 16, num_rects32 = read_le32 b 20,
     rects_ptr32 = read_le32 b 24\<rparr>"

definition connect32_bytes :: "drm_evdi_connect32 \<Rightarrow> bytes" where
  "connect32_bytes r = words_bytes [connected32 r, dev_index32 r, edid_ptr32 r, edid_length32 r, area_limit32 r, second_limit32 r]"

definition grabpix32_bytes :: "drm_evdi_grabpix32 \<Rightarrow> bytes" where
  "grabpix32_bytes r = words_bytes [mode32 r, buf_width32 r, buf_height32 r, buf_byte_stride32 r, buffer_ptr32 r,
     num_rects32 r, rects_ptr32 r]"

text \<open>
  The layout of \<^verbatim>\<open>struct drm_evdi_connect\<close> with 64-bit pointers, four bytes of padding at its end included.
\<close>

definition read_connect :: "bytes \<Rightarrow> connect_request" where
  "read_connect b = \<lparr>k_connected = read_le32 b 0, k_dev_index = read_le32 b 4, k_edid = read_le64 b 8,
     k_edid_length = read_le32 b 16, k_area_limit = read_le32 b 20, k_second_limit = read_le32 b 24\<rparr>"

definition connect_bytes :: "connect_request \<Rightarrow> bytes" where
  "connect_bytes k = words_bytes [k_connected k, k_dev_index k, ucast (k_edid k), ucast (drop_bit 32 (k_edid k)),
     k_edid_length k, k_area_limit k, k_second_limit k, 0]"

section \<open>The requests\<close>

text \<open>
  The DRM core: \<^verbatim>\<open>drm_ioctl_kernel\<close> on the two handlers, \<^verbatim>\<open>drm_ioctl\<close> and \<^verbatim>\<open>drm_compat_ioctl\<close>. Each
  may change the memory of the process and the state of the driver.
\<close>

record 'd drm_core =
  kernel_connect :: "connect_request \<Rightarrow> user_space \<times> 'd \<Rightarrow> int \<times> connect_request \<times> user_space \<times> 'd"
  kernel_grabpix :: "grabpix_request \<Rightarrow> user_space \<times> 'd \<Rightarrow> int \<times> grabpix_request \<times> user_space \<times> 'd"
  core_ioctl :: "u32 \<Rightarrow> u64 \<Rightarrow> user_space \<times> 'd \<Rightarrow> int \<times> user_space \<times> 'd"
  core_compat_ioctl :: "u32 \<Rightarrow> u64 \<Rightarrow> user_space \<times> 'd \<Rightarrow> int \<times> user_space \<times> 'd"

definition compat_evdi_connect :: "'d drm_core \<Rightarrow> u64 \<Rightarrow> user_space \<times> 'd \<Rightarrow> int \<times> user_space \<times> 'd" where
  "compat_evdi_connect core arg s =
    (case copy_in (fst s) arg 24 of None \<Rightarrow> (- EFAULT, s)
     | Some b \<Rightarrow>
        let req32 = read_connect32 b;
            krequest = \<lparr>k_connected = connected32 req32, k_dev_index = dev_index32 req32, k_edid = compat_ptr (edid_ptr32 req32),
              k_edid_length = edid_length32 req32, k_area_limit = area_limit32 req32, k_second_limit = second_limit32 req32\<rparr>;
            (ret, _, s) = kernel_connect core krequest s
        in (ret, s))"

definition compat_evdi_grabpix :: "'d drm_core \<Rightarrow> u64 \<Rightarrow> user_space \<times> 'd \<Rightarrow> int \<times> user_space \<times> 'd" where
  "compat_evdi_grabpix core arg s =
    (case copy_in (fst s) arg 28 of None \<Rightarrow> (- EFAULT, s)
     | Some b \<Rightarrow>
        let req32 = read_grabpix32 b;
            krequest = \<lparr>k_mode = mode32 req32, k_buf_width = buf_width32 req32, k_buf_height = buf_height32 req32,
              k_buf_byte_stride = buf_byte_stride32 req32, k_buffer = compat_ptr (buffer_ptr32 req32),
              k_num_rects = num_rects32 req32, k_rects = compat_ptr (rects_ptr32 req32)\<rparr>;
            (ret, krequest, m, d) = kernel_grabpix core krequest s
        in if ret \<noteq> 0 then (ret, m, d)
           else let req32 = req32\<lparr>num_rects32 := k_num_rects krequest\<rparr>;
                    (written, m) = copy_out m arg (grabpix32_bytes req32)
                in (if written then 0 else - EFAULT, m, d))"

definition DRM_COMMAND_BASE :: nat where "DRM_COMMAND_BASE = 0x40"
definition DRM_COMMAND_END :: nat where "DRM_COMMAND_END = 0xA0"
definition DRM_EVDI_CONNECT :: nat where "DRM_EVDI_CONNECT = 0"
definition DRM_EVDI_GRABPIX :: nat where "DRM_EVDI_GRABPIX = 2"
definition DRM_EVDI_DDCCI_RESPONSE :: nat where "DRM_EVDI_DDCCI_RESPONSE = 3"

text \<open>The number of a command is its low byte, the size of its argument the 14 bits from bit 16 on.\<close>

definition DRM_IOCTL_NR :: "u32 \<Rightarrow> nat" where "DRM_IOCTL_NR cmd = unat (cmd AND 0xff)"
definition IOC_SIZE :: "u32 \<Rightarrow> nat" where "IOC_SIZE cmd = unat (drop_bit 16 cmd AND 0x3fff)"

text \<open>An array with a hole where no function is named.\<close>

definition evdi_compat_ioctls :: "('d drm_core \<Rightarrow> u64 \<Rightarrow> user_space \<times> 'd \<Rightarrow> int \<times> user_space \<times> 'd) option list" where
  "evdi_compat_ioctls =
    (replicate 3 None)[DRM_EVDI_CONNECT := Some compat_evdi_connect, DRM_EVDI_GRABPIX := Some compat_evdi_grabpix]"

definition evdi_compat_ioctl :: "'d drm_core \<Rightarrow> u32 \<Rightarrow> u64 \<Rightarrow> user_space \<times> 'd \<Rightarrow> int \<times> user_space \<times> 'd" where
  "evdi_compat_ioctl core cmd arg s =
    (let nr = DRM_IOCTL_NR cmd
     in if nr < DRM_COMMAND_BASE \<or> DRM_COMMAND_END \<le> nr then core_compat_ioctl core cmd arg s
        else let fn = (if nr < DRM_COMMAND_BASE + length (evdi_compat_ioctls :: ('d drm_core \<Rightarrow> _) option list)
                       then evdi_compat_ioctls ! (nr - DRM_COMMAND_BASE) else None)
             in case fn of Some f \<Rightarrow> f core arg s | None \<Rightarrow> core_ioctl core cmd arg s)"

section \<open>Reading and writing\<close>

lemma copy_in_0 [simp]: "copy_in m a 0 = Some []"
  by (simp add: copy_in_def)

lemma copy_in_Suc: "copy_in m a (Suc n) =
  (case content m a of None \<Rightarrow> None | Some b \<Rightarrow> map_option ((#) b) (copy_in m (a + 1) n))"
proof -
  have "map (\<lambda>i. content m (a + word_of_nat i)) [0..<Suc n] = content m a # map (\<lambda>i. content m (a + 1 + word_of_nat i)) [0..<n]"
    by (simp add: upt_conv_Cons map_Suc_upt [symmetric] add.assoc del: upt_Suc)
  then show ?thesis by (auto simp: copy_in_def Let_def split: option.splits)
qed

lemma copy_in_length: "copy_in m a n = Some b \<Longrightarrow> length b = n"
  by (auto simp: copy_in_def Let_def split: if_splits)

lemma copy_in_cong: "(\<And>i. i < n \<Longrightarrow> content m' (a + word_of_nat i) = content m (a + word_of_nat i)) \<Longrightarrow> copy_in m' a n = copy_in m a n"
proof -
  assume "\<And>i. i < n \<Longrightarrow> content m' (a + word_of_nat i) = content m (a + word_of_nat i)"
  then have "map (\<lambda>i. content m' (a + word_of_nat i)) [0..<n] = map (\<lambda>i. content m (a + word_of_nat i)) [0..<n]" by simp
  then show ?thesis by (simp only: copy_in_def Let_def)
qed

lemma cell_shift: "(a :: u64) + 1 + word_of_nat i = a + word_of_nat (Suc i)"
  by (simp add: add.assoc)

lemma copy_out_same:
  "copy_in m a (length b) = Some b \<Longrightarrow> (\<And>i. i < length b \<Longrightarrow> writable m (a + word_of_nat i)) \<Longrightarrow> copy_out m a b = (True, m)"
proof (induction b arbitrary: a)
  case (Cons x xs)
  have c: "content m a = Some x" "copy_in m (a + 1) (length xs) = Some xs"
    using Cons.prems(1) by (auto simp: copy_in_Suc split: option.splits)
  have w: "writable m a" using Cons.prems(2) [of 0] by simp
  have same: "m\<lparr>content := (content m)(a \<mapsto> x)\<rparr> = m" using c(1) by (simp add: fun_upd_idem)
  have "copy_out m (a + 1) xs = (True, m)"
    using Cons.prems(2) by (intro Cons.IH [OF c(2)]) (simp only: cell_shift, simp only: list.size add_0_right Suc_less_eq add_Suc_right)
  then show ?case using c(1) w by (simp add: same)
qed simp

lemma copy_out_frame:
  "copy_out m a b = (ok, m') \<Longrightarrow> (\<And>i. i < length b \<Longrightarrow> x \<noteq> a + word_of_nat i) \<Longrightarrow> content m' x = content m x"
proof (induction b arbitrary: a m)
  case (Cons y ys)
  have x: "x \<noteq> a" "\<And>i. i < length ys \<Longrightarrow> x \<noteq> a + 1 + word_of_nat i"
    using Cons.prems(2) [of 0] Cons.prems(2) [of "Suc i" for i] by (auto simp: add.assoc)
  show ?case
  proof (cases "content m a = None \<or> \<not> writable m a")
    case True
    then show ?thesis using Cons.prems(1) by auto
  next
    case False
    then show ?thesis using Cons.IH [OF _ x(2)] Cons.prems(1) x(1) by fastforce
  qed
qed simp

lemma copy_out_ok:
  "copy_in m a (length b) \<noteq> None \<Longrightarrow> (\<And>i. i < length b \<Longrightarrow> writable m (a + word_of_nat i)) \<Longrightarrow> length b < 2 ^ 64 \<Longrightarrow>
   \<exists>m'. copy_out m a b = (True, m') \<and> copy_in m' a (length b) = Some b"
proof (induction b arbitrary: a m)
  case (Cons x xs)
  obtain y where c: "content m a = Some y" "copy_in m (a + 1) (length xs) \<noteq> None"
    using Cons.prems(1) by (auto simp: copy_in_Suc split: option.splits)
  have w: "writable m a" using Cons.prems(2) [of 0] by simp
  let ?m = "m\<lparr>content := (content m)(a \<mapsto> x)\<rparr>"
  have away: "a \<noteq> a + 1 + word_of_nat i" if "i < length xs" for i
  proof
    assume "a = a + 1 + word_of_nat i"
    then have "(word_of_nat (Suc i) :: u64) = 0" by (simp only: cell_shift) simp
    then show False using that Cons.prems(3) by (simp only: word_of_nat_eq_0_iff) (auto dest!: dvd_imp_le)
  qed
  have "copy_in ?m (a + 1) (length xs) = copy_in m (a + 1) (length xs)"
    using away by (intro copy_in_cong) (auto simp: fun_upd_def dest: sym)
  then obtain m' where m': "copy_out ?m (a + 1) xs = (True, m')" "copy_in m' (a + 1) (length xs) = Some xs"
    using Cons.IH [of ?m "a + 1"] Cons.prems(2) [of "Suc i" for i] Cons.prems(3) c(2) by (auto simp: add.assoc)
  have "content m' a = Some x" using copy_out_frame [OF m'(1), of a] away by simp
  then show ?case using m' c(1) w by (simp add: copy_in_Suc)
qed simp

lemma length_words [simp]: "length (words_bytes ws) = 4 * length ws"
  by (induction ws) (simp_all add: words_bytes_def)

lemma read_shift: "length a = n \<Longrightarrow> read_le32 (a @ b) (n + j) = read_le32 b j"
  by (auto simp: read_le32_def nth_append add.assoc)

lemma read_words:
  "k mod 4 = 0 \<Longrightarrow> k div 4 < length ws \<Longrightarrow> read_le32 (words_bytes ws @ zs) k = ws ! (k div 4)"
proof (induction ws arbitrary: k)
  case (Cons w ws)
  show ?case
  proof (cases "k < 4")
    case True
    then have "k = 0" using Cons.prems(1) by (metis mod_less)
    then show ?thesis
      by (simp add: words_bytes_def) (rule read_le32_byte_of, simp_all add: nth_append le32_nth numeral_eq_Suc)
  next
    case False
    then obtain j where j: "k = 4 + j" using le_Suc_ex by (metis not_less)
    have "read_le32 (words_bytes (w # ws) @ zs) k = read_le32 (words_bytes ws @ zs) j"
      using read_shift [of "bytes_le32 w" 4 "words_bytes ws @ zs" j] by (simp add: j words_bytes_def)
    moreover have "(4 + j) div 4 = Suc (j div 4)" by (simp add: div_add_self1)
    ultimately show ?thesis using Cons.IH [of j] Cons.prems j by simp
  qed
qed simp

lemmas read_words' = read_words [where zs = "[]", simplified]

lemma two_words: "(ucast (ucast (p :: u64) :: u32) :: u64) OR push_bit 32 (ucast (ucast (drop_bit 32 p) :: u32)) = p"
  by (rule bit_word_eqI) (auto simp: bit_simps)

lemma read_connect32_bytes: "read_connect32 (connect32_bytes r) = r"
  by (simp add: read_connect32_def connect32_bytes_def read_words')

lemma read_grabpix32_bytes: "read_grabpix32 (grabpix32_bytes r) = r"
  by (simp add: read_grabpix32_def grabpix32_bytes_def read_words')

lemma read_connect_bytes: "read_connect (connect_bytes k) = k"
  by (simp add: read_connect_def connect_bytes_def read_le64_def read_words' two_words)

section \<open>What the core does\<close>

text \<open>
  \<^verbatim>\<open>drm_ioctl\<close> on a command of the driver: it reads as many bytes as the command says, fills the kernel's structure up with zeros, calls the
  handler and copies as many bytes back, whatever the handler answers. The device is present and the caller permitted.
\<close>

type_synonym 'd handler = "bytes \<Rightarrow> user_space \<times> 'd \<Rightarrow> int \<times> bytes \<times> user_space \<times> 'd"

definition drm_ioctl_with :: "nat \<Rightarrow> 'd handler \<Rightarrow> u32 \<Rightarrow> u64 \<Rightarrow> user_space \<times> 'd \<Rightarrow> int \<times> user_space \<times> 'd" where
  "drm_ioctl_with ksize handler cmd arg s =
    (case copy_in (fst s) arg (IOC_SIZE cmd) of None \<Rightarrow> (- EFAULT, s)
     | Some b \<Rightarrow>
        let (ret, b', m, d) = handler (b @ replicate (ksize - IOC_SIZE cmd) 0) s;
            (written, m) = copy_out m arg (take (IOC_SIZE cmd) b')
        in (if written then ret else - EFAULT, m, d))"

definition drm_ioctl_calls :: "'d drm_core \<Rightarrow> nat \<Rightarrow> nat \<Rightarrow> 'd handler \<Rightarrow> bool" where
  "drm_ioctl_calls core nr ksize handler \<longleftrightarrow>
    (\<forall>cmd arg s. DRM_IOCTL_NR cmd = nr \<longrightarrow> core_ioctl core cmd arg s = drm_ioctl_with ksize handler cmd arg s)"

text \<open>The painter's handlers on the kernel's structures. The EDID is in the memory of the process.\<close>

definition connect_command :: "user_space \<Rightarrow> connect_request \<Rightarrow> drm_evdi_connect" where
  "connect_command m k = \<lparr>connected = k_connected k \<noteq> 0, cmd_edid = copy_in m (k_edid k) (unat (k_edid_length k)),
     cmd_edid_length = unat (k_edid_length k), cmd_area_limit = k_area_limit k, cmd_second_limit = k_second_limit k\<rparr>"

definition painter_connect ::
    "bool \<Rightarrow> bool \<Rightarrow> nat \<Rightarrow> connect_request \<Rightarrow> user_space \<times> evdi_device \<Rightarrow> int \<times> connect_request \<times> user_space \<times> evdi_device" where
  "painter_connect alloc add_i2c file k s =
    (let (ret, d) = evdi_painter_connect_ioctl alloc add_i2c (connect_command (fst s) k) file (snd s) in (ret, k, fst s, d))"

definition connect_handler :: "bool \<Rightarrow> bool \<Rightarrow> nat \<Rightarrow> evdi_device handler" where
  "connect_handler alloc add_i2c file b s =
    (let (ret, _, s) = painter_connect alloc add_i2c file (read_connect b) s in (ret, b, s))"

definition kernel_calls_connect :: "evdi_device drm_core \<Rightarrow> bool \<Rightarrow> bool \<Rightarrow> nat \<Rightarrow> bool" where
  "kernel_calls_connect core alloc add_i2c file \<longleftrightarrow> (\<forall>k s. kernel_connect core k s = painter_connect alloc add_i2c file k s)"

text \<open>
  \<^verbatim>\<open>struct drm_evdi_ddcci_response\<close> with 64-bit pointers: pointer, length, result, 16 bytes. A painter that is null stops the
  kernel; the theorem has one.
\<close>

definition ddcci_handler :: "bool \<Rightarrow> evdi_device handler" where
  "ddcci_handler alloc b s =
    (case evdi_painter_ddcci_response_ioctl alloc (copy_in (fst s) (read_le64 b 0)) (read_le32 b 8) (snd s) of
       Inr (ret, d) \<Rightarrow> (ret, b, fst s, d) | Inl _ \<Rightarrow> (0, b, s))"

section \<open>Connecting\<close>

text \<open>The request a 64-bit process would make with the values of a 32-bit one.\<close>

definition widened :: "drm_evdi_connect32 \<Rightarrow> connect_request" where
  "widened r = \<lparr>k_connected = connected32 r, k_dev_index = dev_index32 r, k_edid = ucast (edid_ptr32 r),
     k_edid_length = edid_length32 r, k_area_limit = area_limit32 r, k_second_limit = second_limit32 r\<rparr>"

lemma evdi_compat_ioctl_cases:
  "DRM_IOCTL_NR cmd = 0x40 \<Longrightarrow> evdi_compat_ioctl core cmd arg s = compat_evdi_connect core arg s"
  "DRM_IOCTL_NR cmd = 0x42 \<Longrightarrow> evdi_compat_ioctl core cmd arg s = compat_evdi_grabpix core arg s"
  "DRM_IOCTL_NR cmd = 0x41 \<or> 0x43 \<le> DRM_IOCTL_NR cmd \<and> DRM_IOCTL_NR cmd < 0xA0 \<Longrightarrow>
     evdi_compat_ioctl core cmd arg s = core_ioctl core cmd arg s"
  "DRM_IOCTL_NR cmd < 0x40 \<or> 0xA0 \<le> DRM_IOCTL_NR cmd \<Longrightarrow> evdi_compat_ioctl core cmd arg s = core_compat_ioctl core cmd arg s"
  by (auto simp: evdi_compat_ioctl_def evdi_compat_ioctls_def DRM_COMMAND_BASE_def DRM_COMMAND_END_def DRM_EVDI_CONNECT_def
      DRM_EVDI_GRABPIX_def Let_def numeral_eq_Suc)

text \<open>
  C29: A 32-bit process connects as a 64-bit process does. Whatever the painter answers to the request with these values, a
  32-bit process gets from the module's compatibility path and a 64-bit process from \<^verbatim>\<open>drm_ioctl\<close>: the same code, the same device
  afterwards, and their memory unchanged.
\<close>

theorem compat_connect_as_native:
  assumes "kernel_calls_connect core alloc add_i2c file" "drm_ioctl_calls core 0x40 32 (connect_handler alloc add_i2c file)"
    and "DRM_IOCTL_NR cmd32 = 0x40" "copy_in m arg32 24 = Some (connect32_bytes r)"
    and "DRM_IOCTL_NR cmd = 0x40" "IOC_SIZE cmd = 32" "copy_in m arg 32 = Some (connect_bytes (widened r))"
    and "\<And>i. i < 32 \<Longrightarrow> writable m (arg + word_of_nat i)"
    and "evdi_painter_connect_ioctl alloc add_i2c (connect_command m (widened r)) file d = (ret, d')"
  shows "evdi_compat_ioctl core cmd32 arg32 (m, d) = (ret, m, d') \<and> core_ioctl core cmd arg (m, d) = (ret, m, d')"
proof
  show "evdi_compat_ioctl core cmd32 arg32 (m, d) = (ret, m, d')"
    using assms(1,4,9)
    by (simp add: evdi_compat_ioctl_cases(1) [OF assms(3)] compat_evdi_connect_def read_connect32_bytes Let_def compat_ptr_def
        kernel_calls_connect_def painter_connect_def widened_def [symmetric])
  have b: "length (connect_bytes (widened r)) = 32" by (rule copy_in_length [OF assms(7)])
  have w: "copy_out m arg (connect_bytes (widened r)) = (True, m)"
    using assms(7,8) b by (intro copy_out_same) auto
  show "core_ioctl core cmd arg (m, d) = (ret, m, d')"
    using assms(2,5,7,9) b w
    by (simp add: drm_ioctl_calls_def drm_ioctl_with_def assms(6) connect_handler_def painter_connect_def read_connect_bytes)
qed

section \<open>Grabbing\<close>

text \<open>
  A 32-bit process that grabs is told the number of rectangles: when the grab succeeds, its request holds the painter's count, every other
  field is as it was, and no byte outside the request differs from what the painter left. When the grab fails, the request is not written at all.
\<close>

theorem compat_grabpix_count:
  assumes "DRM_IOCTL_NR cmd = 0x42" "copy_in m arg 28 = Some (grabpix32_bytes r)"
    and "kernel_grabpix core \<lparr>k_mode = mode32 r, k_buf_width = buf_width32 r, k_buf_height = buf_height32 r,
           k_buf_byte_stride = buf_byte_stride32 r, k_buffer = ucast (buffer_ptr32 r), k_num_rects = num_rects32 r,
           k_rects = ucast (rects_ptr32 r)\<rparr> (m, d) = (ret, k, m', d')"
    and "copy_in m' arg 28 \<noteq> None" "\<And>i. i < 28 \<Longrightarrow> writable m' (arg + word_of_nat i)"
  shows "\<exists>m''. evdi_compat_ioctl core cmd arg (m, d) = (ret, m'', d') \<and>
    (if ret = 0 then copy_in m'' arg 28 = Some (grabpix32_bytes (r\<lparr>num_rects32 := k_num_rects k\<rparr>)) \<and>
       (\<forall>x. (\<forall>i<28. x \<noteq> arg + word_of_nat i) \<longrightarrow> content m'' x = content m' x)
     else m'' = m')"
proof -
  let ?b = "grabpix32_bytes (r\<lparr>num_rects32 := k_num_rects k\<rparr>)"
  have l: "length ?b = 28" by (simp add: grabpix32_bytes_def)
  obtain m'' where o: "copy_out m' arg ?b = (True, m'')" "copy_in m'' arg 28 = Some ?b"
    using copy_out_ok [of m' arg ?b] assms(4,5) l by auto
  have f: "(\<forall>i<28. x \<noteq> arg + word_of_nat i) \<Longrightarrow> content m'' x = content m' x" for x
    using copy_out_frame [OF o(1), of x] l by simp
  show ?thesis
    using assms(2,3) o f
    by (cases "ret = 0")
       (auto simp: evdi_compat_ioctl_cases(2) [OF assms(1)] compat_evdi_grabpix_def read_grabpix32_bytes Let_def compat_ptr_def)
qed

section \<open>The answer to a DDC/CI request\<close>

lemma pointer_above:
  assumes "len \<noteq> (0 :: u32)"
  shows "2 ^ 32 \<le> unat ((ucast (p :: u32) :: u64) OR push_bit 32 (ucast len))"
proof (rule ccontr)
  let ?x = "(ucast p :: u64) OR push_bit 32 (ucast len)"
  assume "\<not> 2 ^ 32 \<le> unat ?x"
  then have "unat ?x div 2 ^ 32 = 0" by (intro div_less) simp
  then have "unat (drop_bit 32 ?x) = 0" by (subst unat_drop_bit_eq) (simp only: drop_bit_eq_div)
  then have "drop_bit 32 ?x = 0" by (simp only: unat_eq_0)
  moreover have "drop_bit 32 ?x = ucast len" by (rule bit_word_eqI) (auto simp: bit_simps dest: bit_imp_le_length)
  ultimately have "(ucast len :: u64) = 0" by simp
  then have "(ucast (ucast len :: u64) :: u32) = 0" by simp
  moreover have "(ucast (ucast len :: u64) :: u32) = len" by (rule bit_word_eqI) (auto simp: bit_simps)
  ultimately have "len = 0" by simp
  then show False using assms by simp
qed

lemma copy_in_unmapped: "content m a = None \<Longrightarrow> 0 < n \<Longrightarrow> copy_in m a n = None"
  by (cases n) (simp_all add: copy_in_Suc)

text \<open>
  The answer of a 32-bit process to a DDC/CI request is lost. Its structure holds a pointer, but the request is not in the table of the
  compatibility path, so the kernel reads the pointer and the length as one pointer, to where no 32-bit process has memory, and the result as the length.
  An answer of positive length is either refused, and then the painter holds no answer and whoever waits for it is not woken, or taken for an empty one.
\<close>

theorem ddcci_response32_lost:
  assumes "drm_ioctl_calls core 0x43 16 (ddcci_handler alloc)" "painter d = Some p"
    and "DRM_IOCTL_NR cmd = 0x43" "IOC_SIZE cmd = 12" "copy_in m arg 12 = Some (words_bytes [buf, len, res])" "len \<noteq> 0"
    and "\<And>a. 2 ^ 32 \<le> unat a \<Longrightarrow> content m a = None" "\<And>i. i < 12 \<Longrightarrow> writable m (arg + word_of_nat i)"
  shows "\<exists>ret d' p'. evdi_compat_ioctl core cmd arg (m, d) = (ret, m, d') \<and> painter d' = Some p' \<and>
    (if ret = 0 then res = 0 \<and> ddcci_buffer p' = Some [] \<and> ddcci_buffer_length p' = 0
     else (ret = - EFAULT \<or> ret = - ENOMEM) \<and> ddcci_buffer p' = None \<and> ddcci_response_received p' = ddcci_response_received p)"
proof -
  let ?w = "words_bytes [buf, len, res]"
  let ?b = "?w @ replicate 4 0"
  have addr: "read_le64 ?b 0 = ucast buf OR push_bit 32 (ucast len)" by (simp add: read_le64_def read_words)
  have l: "read_le32 ?b 8 = res" by (simp add: read_words)
  have none: "content m (read_le64 ?b 0) = None" unfolding addr by (rule assms(7) [OF pointer_above [OF assms(6)]])
  have wb: "copy_out m arg ?w = (True, m)" using assms(5,8) by (intro copy_out_same) auto
  have r: "\<exists>ret d' p'. evdi_painter_ddcci_response_ioctl alloc (copy_in m (read_le64 ?b 0)) res d = Inr (ret, d') \<and> painter d' = Some p' \<and>
    (if ret = 0 then res = 0 \<and> ddcci_buffer p' = Some [] \<and> ddcci_buffer_length p' = 0
     else (ret = - EFAULT \<or> ret = - ENOMEM) \<and> ddcci_buffer p' = None \<and> ddcci_response_received p' = ddcci_response_received p)"
  proof (cases "res = 0")
    case True
    then show ?thesis
      using assms(2) by (cases alloc) (simp_all add: evdi_painter_ddcci_response_ioctl_def Let_def errno_defs)
  next
    case False
    then have "0 < unat (min res (word_of_nat DDCCI_BUFFER_SIZE))"
      by (auto simp: min_def DDCCI_BUFFER_SIZE_def unat_gt_0)
    then show ?thesis
      using assms(2) copy_in_unmapped [OF none]
      by (cases alloc) (simp_all add: evdi_painter_ddcci_response_ioctl_def Let_def errno_defs)
  qed
  then obtain ret d' p' where p': "evdi_painter_ddcci_response_ioctl alloc (copy_in m (read_le64 ?b 0)) res d = Inr (ret, d')"
    "painter d' = Some p'"
    "if ret = 0 then res = 0 \<and> ddcci_buffer p' = Some [] \<and> ddcci_buffer_length p' = 0
     else (ret = - EFAULT \<or> ret = - ENOMEM) \<and> ddcci_buffer p' = None \<and> ddcci_response_received p' = ddcci_response_received p"
    by blast
  have "core_ioctl core cmd arg (m, d) = (ret, m, d')"
    using assms(1,3,5) p'(1) l wb by (simp add: drm_ioctl_calls_def drm_ioctl_with_def assms(4) ddcci_handler_def)
  then show ?thesis using p'(2,3) assms(3) by (auto simp: evdi_compat_ioctl_cases(3))
qed

section \<open>Three requests\<close>

text \<open>A process whose memory is a list of bytes from address 0 on, and a core that does what it is documented to do.\<close>

definition space_of :: "bytes \<Rightarrow> user_space" where
  "space_of l = \<lparr>content = (\<lambda>a. if unat a < length l then Some (l ! unat a) else None), writable = (\<lambda>_. True)\<rparr>"

lemma copy_in_space:
  assumes "k + n \<le> length l" "length l < 2 ^ 64"
  shows "copy_in (space_of l) (word_of_nat k) n = Some (take n (drop k l))"
proof -
  have "content (space_of l) (word_of_nat k + word_of_nat i) = Some (l ! (k + i))" if "i < n" for i
  proof -
    have "unat (word_of_nat k + word_of_nat i :: u64) = k + i"
      using that assms by (simp only: of_nat_add [symmetric] unsigned_of_nat) (simp add: take_bit_nat_eq_self)
    then show ?thesis using that assms(1) by (simp add: space_of_def)
  qed
  note cell = this
  have "map (\<lambda>i. the (content (space_of l) (word_of_nat k + word_of_nat i))) [0..<n] = take n (drop k l)"
    using assms(1) cell by (intro nth_equalityI) auto
  then show ?thesis using cell by (auto simp: copy_in_def Let_def o_def)
qed

definition demo_core :: "evdi_device drm_core" where
  "demo_core = \<lparr>kernel_connect = painter_connect True True 5, kernel_grabpix = (\<lambda>k s. (0, k\<lparr>k_num_rects := 2\<rparr>, s)),
     core_ioctl = (\<lambda>cmd. if DRM_IOCTL_NR cmd = 0x40 then drm_ioctl_with 32 (connect_handler True True 5) cmd
                         else drm_ioctl_with 16 (ddcci_handler True) cmd),
     core_compat_ioctl = (\<lambda>_ _ s. (- EINVAL, s))\<rparr>"

lemma demo_core_documented:
  "kernel_calls_connect demo_core True True 5" "drm_ioctl_calls demo_core 0x40 32 (connect_handler True True 5)"
  "drm_ioctl_calls demo_core 0x43 16 (ddcci_handler True)"
  by (simp_all add: demo_core_def kernel_calls_connect_def drm_ioctl_calls_def)

definition demo_connect32 :: drm_evdi_connect32 where
  "demo_connect32 = \<lparr>connected32 = 1, dev_index32 = 0, edid_ptr32 = 64, edid_length32 = 128, area_limit32 = 100, second_limit32 = 200\<rparr>"

definition demo_space :: user_space where
  "demo_space = space_of (connect32_bytes demo_connect32 @ replicate 8 0 @ connect_bytes (widened demo_connect32) @ replicate 128 7)"

lemma demo_space_reads:
  "copy_in demo_space 0 24 = Some (connect32_bytes demo_connect32)"
  "copy_in demo_space 32 32 = Some (connect_bytes (widened demo_connect32))"
  "copy_in demo_space 64 128 = Some (replicate 128 7)"
  using copy_in_space [of 0 24 "connect32_bytes demo_connect32 @ replicate 8 0 @ connect_bytes (widened demo_connect32) @ replicate 128 7"]
    copy_in_space [of 32 32 "connect32_bytes demo_connect32 @ replicate 8 0 @ connect_bytes (widened demo_connect32) @ replicate 128 7"]
    copy_in_space [of 64 128 "connect32_bytes demo_connect32 @ replicate 8 0 @ connect_bytes (widened demo_connect32) @ replicate 128 7"]
  by (simp_all add: demo_space_def connect32_bytes_def connect_bytes_def)

theorem compat_connect_as_native_witness:
  "\<exists>d'. evdi_compat_ioctl demo_core 0xC0186440 0 (demo_space, demo_start) = (0, demo_space, d') \<and>
    core_ioctl demo_core 0xC0206440 32 (demo_space, demo_start) = (0, demo_space, d') \<and>
    map_option painter_edid (painter d') = Some (Some (replicate 128 7))"
proof -
  have n: "DRM_IOCTL_NR 0xC0186440 = 0x40" "DRM_IOCTL_NR 0xC0206440 = 0x40" "IOC_SIZE 0xC0206440 = 32"
    by (simp_all add: DRM_IOCTL_NR_def IOC_SIZE_def)
  have cmd: "connect_command demo_space (widened demo_connect32) =
      \<lparr>connected = True, cmd_edid = Some (replicate 128 7), cmd_edid_length = 128, cmd_area_limit = 100, cmd_second_limit = 200\<rparr>"
    using demo_space_reads(3) by (simp add: connect_command_def widened_def demo_connect32_def)
  obtain ret d' where r: "evdi_painter_connect_ioctl True True (connect_command demo_space (widened demo_connect32)) 5 demo_start = (ret, d')"
    by (metis surj_pair)
  then have "ret = 0" "map_option painter_edid (painter d') = Some (Some (replicate 128 7))"
    unfolding cmd
    by (auto simp: evdi_painter_connect_ioctl_def evdi_painter_connect_def demo_start_def evdi_painter_init_def Let_def
        sizeof_edid_def MAX_EDID_SIZE_def drm_helper_hpd_irq_event_def)
  then show ?thesis
    using compat_connect_as_native [OF demo_core_documented(1,2) n(1) demo_space_reads(1) n(2,3) demo_space_reads(2) _ r]
    by (auto simp: demo_space_def space_of_def)
qed

theorem compat_grabpix_count_witness:
  "\<exists>m''. evdi_compat_ioctl demo_core 0xC01C6442 0 (space_of (words_bytes [1, 3, 2, 16, 100, 16, 200]), demo_start) = (0, m'', demo_start) \<and>
    copy_in m'' 0 28 = Some (words_bytes [1, 3, 2, 16, 100, 2, 200])"
proof -
  let ?r = "\<lparr>mode32 = 1, buf_width32 = 3, buf_height32 = 2, buf_byte_stride32 = 16, buffer_ptr32 = 100, num_rects32 = 16, rects_ptr32 = 200\<rparr>"
  let ?m = "space_of (words_bytes [1, 3, 2, 16, 100, 16, 200])"
  have n: "DRM_IOCTL_NR 0xC01C6442 = 0x42" by (simp add: DRM_IOCTL_NR_def)
  have m: "copy_in ?m 0 28 = Some (grabpix32_bytes ?r)"
    using copy_in_space [of 0 28 "words_bytes [1, 3, 2, 16, 100, 16, 200]"] by (simp add: grabpix32_bytes_def)
  show ?thesis
    using compat_grabpix_count [OF n m, of demo_core demo_start 0 _ ?m demo_start] m
    by (fastforce simp: demo_core_def grabpix32_bytes_def space_of_def)
qed

theorem ddcci_response32_lost_witness:
  "\<exists>ret d'. evdi_compat_ioctl demo_core 0xC00C6443 0 (space_of (words_bytes [12, 8, 1]), demo_start) =
      (ret, space_of (words_bytes [12, 8, 1]), d') \<and> ret < 0"
proof -
  let ?m = "space_of (words_bytes [12, 8, 1])"
  have n: "DRM_IOCTL_NR 0xC00C6443 = 0x43" "IOC_SIZE 0xC00C6443 = 12" by (simp_all add: DRM_IOCTL_NR_def IOC_SIZE_def)
  have m: "copy_in ?m 0 12 = Some (words_bytes [12, 8, 1])"
    using copy_in_space [of 0 12 "words_bytes [12, 8, 1]"] by simp
  obtain p where p: "painter demo_start = Some p" by (simp add: demo_start_def evdi_painter_init_def)
  have high: "2 ^ 32 \<le> unat a \<Longrightarrow> content ?m a = None" for a by (simp add: space_of_def)
  have w: "writable ?m a" for a by (simp add: space_of_def)
  have nz: "(8 :: u32) \<noteq> 0" by simp
  have "\<exists>ret d' p'. evdi_compat_ioctl demo_core 0xC00C6443 0 (?m, demo_start) = (ret, ?m, d') \<and> painter d' = Some p' \<and>
    (if ret = 0 then (1 :: u32) = 0 \<and> ddcci_buffer p' = Some [] \<and> ddcci_buffer_length p' = 0
     else (ret = - EFAULT \<or> ret = - ENOMEM) \<and> ddcci_buffer p' = None \<and> ddcci_response_received p' = ddcci_response_received p)"
    by (rule ddcci_response32_lost [OF demo_core_documented(3) p n m nz]) (simp_all add: high w)
  then show ?thesis by (fastforce simp: errno_defs split: if_splits)
qed

end
