(* ===== verification/DaemonDevice.thy ===== *)
theory DaemonDevice
  imports UsbDongle FrameQueue EvdiLib
begin

text \<open>
  Finding devices: \<^verbatim>\<open>is_T6dev\<close>, \<^verbatim>\<open>EnumT6Device\<close>, the search of \<^verbatim>\<open>create_wording_thread\<close>, \<^verbatim>\<open>GetEvdi_id\<close>,
  \<^verbatim>\<open>Dev_destroy\<close>, the hotplug thread \<^verbatim>\<open>int_process2\<close> and the start of \<^verbatim>\<open>evdi_process\<close> of \<^verbatim>\<open>evdi_t6_1/main.c\<close>,
  and \<^verbatim>\<open>GetT6Device\<close> of \<^verbatim>\<open>T6contrl.c\<close>.

  \<open>libusb\<close> is a parameter: what it answers for each device of the list. A handle variable is null, open, or
  dangling after its device was closed.
\<close>

section \<open>Which devices\<close>

record lu_env =
  lu_descriptor :: "nat \<Rightarrow> int \<times> u16 \<times> u16"
  lu_bus :: "nat \<Rightarrow> int"
  lu_address :: "nat \<Rightarrow> int"
  lu_open :: "nat \<Rightarrow> int"
  lu_set_configuration :: "nat \<Rightarrow> int"
  lu_claim_interface :: "nat \<Rightarrow> int"

definition is_T6dev :: "lu_env \<Rightarrow> nat \<Rightarrow> bool" where
  "is_T6dev env dev =
    (case lu_descriptor env dev of (rc, idVendor, idProduct) \<Rightarrow>
       if rc = 0 \<and> idVendor = 0x0711 \<and> idProduct AND 0xff00 = 0x5600 then True
       else rc = 0 \<and> idVendor = 0x03f0 \<and> idProduct = 0x0182)"

definition is_T6dev_contrl :: "lu_env \<Rightarrow> nat \<Rightarrow> bool" where
  "is_T6dev_contrl env dev =
    (case lu_descriptor env dev of (rc, idVendor, idProduct) \<Rightarrow>
       if rc = 0 \<and> idVendor = 0x0711 \<and> (idProduct = 0x5600 \<or> idProduct = 0x5601 \<or> idProduct = 0x5621) then True
       else rc = 0 \<and> idVendor = 0x03f0 \<and> idProduct = 0x0182)"

section \<open>Opening\<close>

datatype usb_handle = NullHandle | OpenHandle nat | ClosedHandle nat

text \<open>
  The search of \<^verbatim>\<open>EnumT6Device\<close>: bus and address of the first device that can be opened and claimed, and the
  handles left open.
\<close>

fun enum_loop :: "lu_env \<Rightarrow> nat list \<Rightarrow> nat list \<Rightarrow> (int \<times> int) option \<times> nat list" where
  "enum_loop env [] opn = (None, opn)"
| "enum_loop env (device # devices) opn =
    (if is_T6dev env device then
       if lu_open env device \<noteq> 0 then enum_loop env devices opn
       else
         let opn = device # opn
         in if lu_claim_interface env device \<noteq> 0 then enum_loop env devices (remove1 device opn)
            else (Some (lu_bus env device, lu_address env device), remove1 device opn)
     else enum_loop env devices opn)"

definition EnumT6Device :: "lu_env \<Rightarrow> nat list \<Rightarrow> (int \<times> int) option \<times> nat list" where
  "EnumT6Device env devices = enum_loop env devices []"

text \<open>The search of \<^verbatim>\<open>create_wording_thread\<close>, in the child process, by bus and address.\<close>

fun open_loop :: "lu_env \<Rightarrow> int \<Rightarrow> int \<Rightarrow> nat list \<Rightarrow> usb_handle \<Rightarrow> usb_handle" where
  "open_loop env busid devid [] h = h"
| "open_loop env busid devid (device # devices) h =
    (if lu_bus env device = busid \<and> lu_address env device = devid then
       if lu_open env device \<noteq> 0 then open_loop env busid devid devices h
       else if lu_set_configuration env device \<noteq> 0 then open_loop env busid devid devices (ClosedHandle device)
       else if lu_claim_interface env device \<noteq> 0 then open_loop env busid devid devices (ClosedHandle device)
       else OpenHandle device
     else open_loop env busid devid devices h)"

fun GetT6Device :: "lu_env \<Rightarrow> nat list \<Rightarrow> usb_handle" where
  "GetT6Device env [] = NullHandle"
| "GetT6Device env (device # devices) =
    (if is_T6dev_contrl env device \<and> lu_open env device = 0 then OpenHandle device else GetT6Device env devices)"

text \<open>The signal handler: it turns the first usable device off and clears the table of cards; the flag ends the program.\<close>

fun SearchT6DeviceReset :: "usb_host \<Rightarrow> lu_env \<Rightarrow> nat list \<Rightarrow> trace \<Rightarrow> trace" where
  "SearchT6DeviceReset host env [] tr = tr"
| "SearchT6DeviceReset host env (device # devices) tr =
    (if is_T6dev env device \<and> lu_open env device = 0 then snd (t6_libusb_set_monitor_power2 host 0 tr)
     else SearchT6DeviceReset host env devices tr)"

definition intHandler :: "usb_host \<Rightarrow> lu_env \<Rightarrow> nat list \<Rightarrow> u8 list \<Rightarrow> trace \<Rightarrow> bool \<times> u8 list \<times> trace" where
  "intHandler host env devices box tr =
    (True, replicate 128 0 @ drop 128 box, SearchT6DeviceReset host env devices tr)"

section \<open>The table of cards\<close>

text \<open>
  \<^verbatim>\<open>evdi_list->box\<close> is shared memory of 128 bytes. \<open>check\<close> is \<^verbatim>\<open>evdi_check_device\<close> and \<open>add\<close> is
  \<^verbatim>\<open>evdi_add_device\<close>, over a state \<open>'k\<close> of the system. The loop is repeated until a card is found.
\<close>

definition MAX_T6_DEVICES :: nat where "MAX_T6_DEVICES = 16"

definition free_card :: "('k \<Rightarrow> nat \<Rightarrow> evdi_device_status) \<Rightarrow> 'k \<Rightarrow> u8 list \<Rightarrow> nat option" where
  "free_card check k box = find (\<lambda>i. check k i = AVAILABLE \<and> box ! i = 0) [0..<MAX_T6_DEVICES]"

partial_function (option) GetEvdi_id ::
    "('k \<Rightarrow> nat \<Rightarrow> evdi_device_status) \<Rightarrow> ('k \<Rightarrow> 'k) \<Rightarrow> 'k \<Rightarrow> u8 list \<Rightarrow> (nat \<times> 'k \<times> u8 list) option" where
  "GetEvdi_id check add k box =
    (case free_card check k box of
       Some i \<Rightarrow> Some (i, k, box[i := 1])
     | None \<Rightarrow> GetEvdi_id check add (add k) box)"

section \<open>Taking a device down\<close>

text \<open>
  What \<^verbatim>\<open>Dev_destroy\<close> looks at: the structure comes from \<^verbatim>\<open>malloc\<close> and is not cleared, so a field that was never
  written is \<open>None\<close>, and reading it is an error. A queue is its pointer, null or not, and its contents.
\<close>

record daemon_dev =
  d_id :: int
  d_video :: "ptr option"
  d_jpg_queue :: "(bool \<times> qstate) option"
  d_cursor_queue :: "(bool \<times> qstate) option"
  d_cursor_queue_pos :: "(bool \<times> qstate) option"

definition destroy_queue :: "(bool \<times> qstate) option \<Rightarrow> (c_error + qstate) option" where
  "destroy_queue q =
    (case q of None \<Rightarrow> Some (Inl Uninitialised)
     | Some (present, q) \<Rightarrow>
        (case releses_queue present q of None \<Rightarrow> None
         | Some (Inl e) \<Rightarrow> Some (Inl e)
         | Some (Inr q) \<Rightarrow> Some (Inr (queue_destroy present q))))"

text \<open>The table of cards, the buffer freed and the three queues as they are left.\<close>

definition Dev_destroy :: "daemon_dev \<Rightarrow> u8 list \<Rightarrow> (c_error + u8 list \<times> ptr \<times> qstate list) option" where
  "Dev_destroy g box =
    (if d_id g < 0 \<or> int (length box) \<le> d_id g then Some (Inl OutOfBounds)
     else
       let box = box[nat (d_id g) := 0]
       in case d_video g of None \<Rightarrow> Some (Inl Uninitialised)
        | Some p \<Rightarrow>
            Option.bind (destroy_queue (d_jpg_queue g)) (\<lambda>q1. case q1 of Inl e \<Rightarrow> Some (Inl e) | Inr q1 \<Rightarrow>
            Option.bind (destroy_queue (d_cursor_queue g)) (\<lambda>q2. case q2 of Inl e \<Rightarrow> Some (Inl e) | Inr q2 \<Rightarrow>
            Option.bind (destroy_queue (d_cursor_queue_pos g)) (\<lambda>q3. case q3 of Inl e \<Rightarrow> Some (Inl e) | Inr q3 \<Rightarrow>
            Some (Inr (box, p, [q1, q2, q3]))))))"

section \<open>Hotplug\<close>

text \<open>
  What \<^verbatim>\<open>int_process2\<close> does with the interrupts it reads: each with the answer of the transfer, byte \<open>0x13\<close> of the
  buffer and the states of the two monitors asked for after it. \<open>Waiting\<close> when the list is used up.
\<close>

datatype hotplug = Waiting | NoDevice | DetachAll

fun int_process2 :: "int \<Rightarrow> int \<Rightarrow> (int \<times> u8 \<times> int \<times> int) list \<Rightarrow> hotplug" where
  "int_process2 pre_state0 pre_state1 [] = Waiting"
| "int_process2 pre_state0 pre_state1 ((ret, b, state0, state1) # events) =
    (if ret = - 4 then NoDevice
     else if ret = 0 \<and> b \<noteq> 0x04 then
       if pre_state0 = state0 \<and> pre_state1 = state1 then int_process2 pre_state0 pre_state1 events
       else if state0 = 0 \<or> state1 = 0 then DetachAll
       else int_process2 pre_state0 pre_state1 events
     else int_process2 pre_state0 pre_state1 events)"

section \<open>Starting a display\<close>

text \<open>
  Polling for a monitor: \<open>stops\<close> are the values of the loop's condition (the program ends, or all displays are
  detached) at the end of each round. The size of the EDID is kept from one round to the next.
\<close>

fun poll_monitor :: "usb_host \<Rightarrow> t6evdi \<Rightarrow> int \<Rightarrow> bool list \<Rightarrow> trace \<Rightarrow> (int \<times> t6evdi \<times> trace) option" where
  "poll_monitor host dev edid_size [] tr = None"
| "poll_monitor host dev edid_size (stop # stops) tr =
    (let (state, tr) = t6_libusb_get_monitorstatus host dev tr;
         (edid_size, dev, tr) = (if 0 \<le> state then t6_libusb_get_edid host dev tr else (edid_size, dev, tr))
     in if state = - 1 then Some (- 1, dev, tr)
        else if edid_size \<noteq> 0 then Some (edid_size, dev, tr)
        else if stop then Some (edid_size, dev, tr)
        else poll_monitor host dev edid_size stops tr)"

text \<open>
  The choices of the environment: uninitialised bytes, the link speed, the rounds of polling, whether the program
  is ending, the cards and how they are added, the context \<^verbatim>\<open>evdi_open\<close> allocates, and the threads, in the order
  of the code: events, USB and, for a rotated display, interrupts.
\<close>

record 'k start_env =
  st_junk4 :: bytes
  st_junk :: bytes
  st_run :: u8
  st_ram :: u8
  st_speed :: int
  st_stops :: "bool list"
  st_exit :: bool
  st_check :: "'k \<Rightarrow> nat \<Rightarrow> evdi_device_status"
  st_add :: "'k \<Rightarrow> 'k"
  st_new :: nat
  st_malloc :: "nat \<Rightarrow> ptr"
  st_threads :: "bool list"

datatype 'k started = Quit | Destroyed | Running daemon_dev nat "'k lib_state"

definition quit_destroyed :: "daemon_dev \<Rightarrow> u8 list \<Rightarrow> (c_error + 'k started) option" where
  "quit_destroyed g box = map_option (\<lambda>r. ebind r (\<lambda>_. Inr Destroyed)) (Dev_destroy g box)"

definition new_queue :: "ptr \<Rightarrow> (bool \<times> qstate) option" where
  "new_queue m = (case queue_create m of
     None \<Rightarrow> Some (False, \<lparr>nodes = Map.empty, queue = \<lparr>first = NULL, last = NULL, qlength = 0, locked = False\<rparr>,
               destroyed = False, buf_of = (\<lambda>_. NULL), freed = []\<rparr>)
   | Some q \<Rightarrow> Some (True, \<lparr>nodes = Map.empty, queue = q, destroyed = False, buf_of = (\<lambda>_. NULL), freed = []\<rparr>))"

text \<open>
  \<^verbatim>\<open>evdi_process\<close> up to its loop. \<open>g\<close> is the structure as \<^verbatim>\<open>create_wording_thread\<close> left it.
\<close>

definition evdi_process_start ::
    "usb_host \<Rightarrow> 'k sys_calls \<Rightarrow> (int \<Rightarrow> string) \<Rightarrow> 'k start_env \<Rightarrow> t6evdi \<Rightarrow> daemon_dev \<Rightarrow> u8 list \<Rightarrow> 'k lib_state \<Rightarrow>
     trace \<Rightarrow> (c_error + 'k started) option" where
  "evdi_process_start host sys dec env dev g box s tr =
    (let (ramsize, tr) = t6_libusb_get_ram_size host (st_ram env) tr
     in Option.bind (poll_monitor host dev 0 (st_stops env) tr) (\<lambda>(edid_size, dev, tr).
        if st_exit env then Some (Inr Quit)
        else if edid_size < 0 then quit_destroyed g box
        else case t6_revise_edid host (st_junk4 env) (st_junk env) (st_speed env) dev edid_size (st_run env) tr of
          Inl e \<Rightarrow> Some (Inl e)
        | Inr (edid_size, run, dev, tr) \<Rightarrow>
            Option.bind (GetEvdi_id (st_check env) (st_add env) (kern s) box) (\<lambda>(i, k, box).
              let g = g\<lparr>d_id := int i\<rparr>
              in Option.bind (evdi_open sys (dec (int i)) (int i) (st_new env) (s\<lparr>kern := k\<rparr>)) (\<lambda>r.
                 case r of Inl e \<Rightarrow> Some (Inl e)
                 | Inr (handle, s) \<Rightarrow>
                    if handle = 0 then quit_destroyed g box
                    else case contexts s handle of None \<Rightarrow> Some (Inl UseAfterFree)
                    | Some c \<Rightarrow>
                       Option.bind (evdi_connect2 (sys_ioctl sys) c (Some (edid dev)) (nat edid_size) 0 0 (kern s)) (\<lambda>k.
                         let g = g\<lparr>d_jpg_queue := new_queue (st_malloc env 0), d_cursor_queue := new_queue (st_malloc env 1),
                                   d_cursor_queue_pos := new_queue (st_malloc env 2)\<rparr>;
                             wanted = (if jpg_rotate dev \<noteq> 0 then 3 else 2)
                         in if list_all (\<lambda>ok. ok) (take wanted (st_threads env))
                            then Some (Inr (Running g handle (s\<lparr>kern := k\<rparr>)))
                            else quit_destroyed g box)))))"

section \<open>The worker process\<close>

text \<open>
  Starting a thread for each display: \<open>alloc\<close> and \<open>ok\<close> say whether \<^verbatim>\<open>malloc\<close> and \<^verbatim>\<open>pthread_create\<close> succeed for
  display \<open>i\<close>. \<open>thr\<close> is the array of thread handles, \<open>None\<close> where it was not written.
\<close>

definition fresh_dev :: daemon_dev where
  "fresh_dev = \<lparr>d_id = 0, d_video = None, d_jpg_queue = None, d_cursor_queue = None, d_cursor_queue_pos = None\<rparr>"

fun spawn_loop ::
    "(nat \<Rightarrow> bool) \<Rightarrow> (nat \<Rightarrow> bool) \<Rightarrow> nat list \<Rightarrow> nat option list \<Rightarrow> u8 list \<Rightarrow> (c_error + nat option list \<times> u8 list) option" where
  "spawn_loop alloc ok [] thr box = Some (Inr (thr, box))"
| "spawn_loop alloc ok (i # is) thr box =
    (if \<not> alloc i then spawn_loop alloc ok is thr box
     else if length thr \<le> i then Some (Inl OutOfBounds)
     else if ok i then spawn_loop alloc ok is (thr[i := Some i]) box
     else Option.bind (Dev_destroy fresh_dev box) (\<lambda>r. case r of Inl e \<Rightarrow> Some (Inl e)
          | Inr (box, _) \<Rightarrow> spawn_loop alloc ok is thr box))"

text \<open>The joins, in order: the first display, the second unless there is one only, the hotplug thread.\<close>

definition join_thread :: "nat option \<Rightarrow> c_error + unit" where
  "join_thread t = (if t = None then Inl Uninitialised else Inr ())"

definition join_threads :: "int \<Rightarrow> nat option list \<Rightarrow> nat option \<Rightarrow> c_error + unit" where
  "join_threads number thr pthr_int =
    ebind (join_thread (thr ! 0)) (\<lambda>_. ebind (if number = 1 then Inr () else join_thread (thr ! 1)) (\<lambda>_. join_thread pthr_int))"

text \<open>
  \<^verbatim>\<open>create_wording_thread\<close> after its search: \<open>mem\<close> is what the three reads of the display section get from
  \<^verbatim>\<open>malloc\<close>, \<open>caps\<close> the uninitialised capabilities, \<open>int_ok\<close> whether the hotplug thread starts, \<open>shm\<close> whether the
  shared table can be attached. The result is the threads joined.
\<close>

definition create_wording_thread ::
    "usb_host \<Rightarrow> usb_handle \<Rightarrow> bool \<Rightarrow> (nat \<Rightarrow> bytes option) \<Rightarrow> u8 \<Rightarrow> bool \<Rightarrow> (nat \<Rightarrow> bool) \<Rightarrow> (nat \<Rightarrow> bool) \<Rightarrow> u8 list \<Rightarrow>
     trace \<Rightarrow> (c_error + nat option list \<times> trace) option" where
  "create_wording_thread host h shm mem caps int_ok alloc ok box tr =
    (case h of NullHandle \<Rightarrow> Some (Inr ([], tr))
     | ClosedHandle d \<Rightarrow> if shm then Some (Inl UseAfterFree) else Some (Inr ([], tr))
     | OpenHandle d \<Rightarrow>
        if \<not> shm then Some (Inr ([], tr))
        else case ebind (t6_libusb_get_displaysectionheader host (mem 0) caps tr) (\<lambda>(number, dcaps, tr).
               ebind (t6_libusb_get_jpegreset host (mem 1) tr) (\<lambda>(jpgrst, tr).
               ebind (t6_libusb_get_rotate host (mem 2) tr) (\<lambda>(rot, tr). Inr (number, dcaps, tr)))) of
             Inl e \<Rightarrow> Some (Inl e)
           | Inr (number, dcaps, tr) \<Rightarrow>
              let vga = dcaps AND 0x01 \<noteq> 0 \<or> drop_bit 4 dcaps AND 0x01 \<noteq> 0;
                  pthr_int = (if \<not> vga \<and> int_ok then Some 9 else None)
              in Option.bind (spawn_loop alloc ok [0..<nat number] [None, None] box) (\<lambda>r.
                 case r of Inl e \<Rightarrow> Some (Inl e)
                 | Inr (thr, box) \<Rightarrow>
                    Some (ebind (join_threads number thr pthr_int) (\<lambda>_. Inr (thr, tr)))))"

section \<open>What they do\<close>

lemma GetEvdi_id_iff:
  "GetEvdi_id check add k box = Some (i, k', box') \<longleftrightarrow>
   (\<exists>n. k' = (add ^^ n) k \<and> box' = box[i := 1] \<and> free_card check k' box = Some i \<and>
        (\<forall>m<n. free_card check ((add ^^ m) k) box = None))"
proof
  have "\<exists>n. fst (snd r) = (add ^^ n) k \<and> snd (snd r) = box[fst r := 1] \<and>
      free_card check (fst (snd r)) box = Some (fst r) \<and> (\<forall>m<n. free_card check ((add ^^ m) k) box = None)"
    if "GetEvdi_id check add k box = Some r" for r
    using that
  proof (rule GetEvdi_id.raw_induct [where P = "\<lambda>check add k box r. \<exists>n. fst (snd r) = (add ^^ n) k \<and>
      snd (snd r) = box[fst r := 1] \<and> free_card check (fst (snd r)) box = Some (fst r) \<and>
      (\<forall>m<n. free_card check ((add ^^ m) k) box = None)", rotated])
    fix loop :: "('b \<Rightarrow> nat \<Rightarrow> evdi_device_status) \<Rightarrow> ('b \<Rightarrow> 'b) \<Rightarrow> 'b \<Rightarrow> u8 list \<Rightarrow> (nat \<times> 'b \<times> u8 list) option"
      and check add k box r
    assume ih: "\<And>check add k box r. loop check add k box = Some r \<Longrightarrow> \<exists>n. fst (snd r) = (add ^^ n) k \<and>
        snd (snd r) = box[fst r := 1] \<and> free_card check (fst (snd r)) box = Some (fst r) \<and>
        (\<forall>m<n. free_card check ((add ^^ m) k) box = None)"
      and step: "(case free_card check k box of None \<Rightarrow> loop check add (add k) box | Some i \<Rightarrow> Some (i, k, box[i := 1])) = Some r"
    show "\<exists>n. fst (snd r) = (add ^^ n) k \<and> snd (snd r) = box[fst r := 1] \<and>
        free_card check (fst (snd r)) box = Some (fst r) \<and> (\<forall>m<n. free_card check ((add ^^ m) k) box = None)"
    proof (cases "free_card check k box")
      case (Some j)
      with step show ?thesis by (intro exI [of _ 0]) auto
    next
      case None
      with step ih obtain n where n: "fst (snd r) = (add ^^ n) (add k)" "snd (snd r) = box[fst r := 1]"
          "free_card check (fst (snd r)) box = Some (fst r)" "\<forall>m<n. free_card check ((add ^^ m) (add k)) box = None"
        by fastforce
      have "free_card check ((add ^^ m) k) box = None" if "m < Suc n" for m
        using that n(4) None by (cases m) (auto simp: funpow_swap1)
      with n(1-3) show ?thesis by (intro exI [of _ "Suc n"]) (simp add: funpow_swap1)
    qed
  qed
  then show "GetEvdi_id check add k box = Some (i, k', box') \<Longrightarrow> \<exists>n. k' = (add ^^ n) k \<and> box' = box[i := 1] \<and>
      free_card check k' box = Some i \<and> (\<forall>m<n. free_card check ((add ^^ m) k) box = None)"
    by fastforce
next
  assume "\<exists>n. k' = (add ^^ n) k \<and> box' = box[i := 1] \<and> free_card check k' box = Some i \<and>
      (\<forall>m<n. free_card check ((add ^^ m) k) box = None)"
  then obtain n where "k' = (add ^^ n) k" "box' = box[i := 1]" "free_card check k' box = Some i"
      "\<forall>m<n. free_card check ((add ^^ m) k) box = None" by blast
  then show "GetEvdi_id check add k box = Some (i, k', box')"
  proof (induction n arbitrary: k)
    case 0
    then show ?case by (subst GetEvdi_id.simps) simp
  next
    case (Suc n)
    from Suc.prems(4) have "free_card check k box = None" by (metis funpow_0 zero_less_Suc)
    moreover have sw: "(add ^^ m) (add k) = (add ^^ Suc m) k" for m by (simp add: funpow_swap1)
    have "GetEvdi_id check add (add k) box = Some (i, k', box')"
    proof (rule Suc.IH)
      show "\<forall>m<n. free_card check ((add ^^ m) (add k)) box = None"
        unfolding sw using Suc.prems(4) Suc_less_eq by blast
    qed (use Suc.prems in \<open>simp_all only: sw\<close>)
    ultimately show ?case by (subst GetEvdi_id.simps) simp
  qed
qed

text \<open>
  the daemon takes the first card that is present and not taken, of the sixteen it looks at, marks it and
  changes nothing else; it returns exactly when asking for another card, again and again, makes such a card appear.
\<close>

theorem GetEvdi_id_takes_first_free:
  "GetEvdi_id check add k box = Some (i, k', box') \<longleftrightarrow>
   (\<exists>n. k' = (add ^^ n) k \<and> box' = box[i := 1] \<and> free_card check k' box = Some i \<and>
        list_all (\<lambda>m. free_card check ((add ^^ m) k) box = None) [0..<n])"
  unfolding GetEvdi_id_iff by (simp add: list_all_iff Ball_def)

lemma free_card_bound: "free_card check k box = Some i \<Longrightarrow> i < MAX_T6_DEVICES \<and> check k i = AVAILABLE \<and> box ! i = 0"
  by (auto simp: free_card_def find_Some_iff)

lemma card_taken:
  "GetEvdi_id check add k box = Some (i, k', box') \<Longrightarrow> i < MAX_T6_DEVICES \<and> box ! i = 0 \<and> box' = box[i := 1]"
  using free_card_bound by (fastforce simp: GetEvdi_id_iff)

text \<open>
  The environment in which the theorems below are applied: two devices, the first of which cannot be configured.
\<close>

definition demo_lu :: lu_env where
  "demo_lu = \<lparr>lu_descriptor = (\<lambda>d. (0, 0x0711, 0x5621)), lu_bus = (\<lambda>d. 1), lu_address = int, lu_open = (\<lambda>d. 0),
     lu_set_configuration = (\<lambda>d. if d = 4 then - 6 else 0), lu_claim_interface = (\<lambda>d. 0)\<rparr>"

definition usable :: "lu_env \<Rightarrow> nat \<Rightarrow> bool" where
  "usable env d \<longleftrightarrow> lu_open env d = 0 \<and> lu_set_configuration env d = 0 \<and> lu_claim_interface env d = 0"

definition at_address :: "lu_env \<Rightarrow> int \<Rightarrow> int \<Rightarrow> nat \<Rightarrow> bool" where
  "at_address env busid devid d \<longleftrightarrow> lu_bus env d = busid \<and> lu_address env d = devid"

lemma open_loop_eq:
  "open_loop env busid devid devices h =
    (case find (\<lambda>d. at_address env busid devid d \<and> usable env d) devices of
       Some d \<Rightarrow> OpenHandle d
     | None \<Rightarrow> (case filter (\<lambda>d. at_address env busid devid d \<and> lu_open env d = 0) devices of
                 [] \<Rightarrow> h | ds \<Rightarrow> ClosedHandle (List.last ds)))"
  by (induction devices arbitrary: h) (auto simp: usable_def at_address_def split: list.splits option.splits)

text \<open>
  the parent finds the first device of the vendor that it can open and claim, and leaves nothing open; the worker
  opens the first device at that address that it can open, configure and claim. Where it finds none but could open
  one, it goes on with a handle that is closed.
\<close>

theorem device_search:
  "EnumT6Device env devices =
     (map_option (\<lambda>d. (lu_bus env d, lu_address env d))
        (find (\<lambda>d. is_T6dev env d \<and> lu_open env d = 0 \<and> lu_claim_interface env d = 0) devices), []) \<and>
   open_loop env busid devid devices NullHandle =
     (case find (\<lambda>d. at_address env busid devid d \<and> usable env d) devices of
        Some d \<Rightarrow> OpenHandle d
      | None \<Rightarrow> (case filter (\<lambda>d. at_address env busid devid d \<and> lu_open env d = 0) devices of
                  [] \<Rightarrow> NullHandle | ds \<Rightarrow> ClosedHandle (List.last ds)))"
proof -
  have "enum_loop env devices [] =
     (map_option (\<lambda>d. (lu_bus env d, lu_address env d))
        (find (\<lambda>d. is_T6dev env d \<and> lu_open env d = 0 \<and> lu_claim_interface env d = 0) devices), [])"
    by (induction devices) auto
  then show ?thesis by (simp add: EnumT6Device_def open_loop_eq)
qed

text \<open>
  when the worker ends without touching a closed handle, an uninitialised thread or an uninitialised structure, it
  had a device, one or two displays, no VGA output and every thread started; in particular a failed read of the
  display section, after which it counts no displays, ends in joining threads that were never created.
\<close>

theorem worker_ends_well:
  assumes "create_wording_thread host (OpenHandle d) True mem caps int_ok alloc ok box tr = Some (Inr (thr, tr'))"
  shows "int_ok \<and> (thr = [Some 0, None] \<or> thr = [Some 0, Some 1]) \<and> alloc 0 \<and> ok 0 \<and>
    (\<exists>number dcaps tr1. t6_libusb_get_displaysectionheader host (mem 0) caps tr = Inr (number, dcaps, tr1) \<and>
       dcaps AND 0x01 = 0 \<and> drop_bit 4 dcaps AND 0x01 = 0 \<and>
       (number = 1 \<and> thr = [Some 0, None] \<or> number = 2 \<and> thr = [Some 0, Some 1] \<and> alloc 1 \<and> ok 1))"
proof -
  have destroy: "Dev_destroy fresh_dev box = Some (Inl (if length box = 0 then OutOfBounds else Uninitialised))" for box
    by (simp add: Dev_destroy_def fresh_dev_def Let_def)
  obtain number dcaps tr1 where n: "t6_libusb_get_displaysectionheader host (mem 0) caps tr = Inr (number, dcaps, tr1)"
    using assms by (auto simp: create_wording_thread_def ebind_def split: sum.splits)
  then have num: "number = 0 \<or> number = 1 \<or> number = 2"
    by (auto simp: t6_libusb_get_displaysectionheader_def ebind_def Let_def split: sum.splits option.splits if_splits)
  let ?hdr = "ebind (t6_libusb_get_displaysectionheader host (mem 0) caps tr) (\<lambda>(number, dcaps, tr).
      ebind (t6_libusb_get_jpegreset host (mem 1) tr) (\<lambda>(jpgrst, tr).
      ebind (t6_libusb_get_rotate host (mem 2) tr) (\<lambda>(rot, tr). Inr (number, dcaps, tr))))"
  obtain tr2 where hdr: "?hdr = Inr (number, dcaps, tr2)"
  proof (cases ?hdr)
    case (Inr x)
    then show thesis using that n by (auto simp: ebind_eq_Inr)
  qed (use assms in \<open>simp add: create_wording_thread_def\<close>)
  define pthr where "pthr = (if \<not> (dcaps AND 0x01 \<noteq> 0 \<or> drop_bit 4 dcaps AND 0x01 \<noteq> 0) \<and> int_ok then Some 9 else None :: nat option)"
  have "Option.bind (spawn_loop alloc ok [0..<nat number] [None, None] box) (\<lambda>r. case r of Inl e \<Rightarrow> Some (Inl e)
      | Inr (thr, box) \<Rightarrow> Some (ebind (join_threads number thr pthr) (\<lambda>_. Inr (thr, tr2)))) = Some (Inr (thr, tr'))"
    using assms unfolding create_wording_thread_def usb_handle.case hdr sum.case prod.case Let_def pthr_def [symmetric] by simp
  then obtain box' where sp: "spawn_loop alloc ok [0..<nat number] [None, None] box = Some (Inr (thr, box'))"
    and "join_threads number thr pthr = Inr ()"
    by (cases "spawn_loop alloc ok [0..<nat number] [None, None] box") (auto simp: ebind_eq_Inr split: sum.splits prod.splits)
  then have j: "thr ! 0 \<noteq> None" "number \<noteq> 1 \<longrightarrow> thr ! 1 \<noteq> None" "int_ok" "dcaps AND 0x01 = 0" "drop_bit 4 dcaps AND 0x01 = 0"
    by (auto simp: join_threads_def join_thread_def ebind_eq_Inr pthr_def split: if_splits)
  from num show ?thesis
  proof (elim disjE)
    assume "number = 0"
    then show ?thesis using sp j by auto
  next
    assume 1: "number = 1"
    then show ?thesis
      using sp j n by (auto simp: upt_rec destroy split: if_splits)
  next
    assume 2: "number = 2"
    then show ?thesis
      using sp j n by (auto simp: upt_rec numeral_2_eq_2 destroy split: if_splits)
  qed
qed

definition demo_section :: bytes where
  "demo_section = (replicate 0x70 0)[0x58 := 4]"

lemma worker_ends_well_witness:
  "\<exists>number dcaps tr1. t6_libusb_get_displaysectionheader (\<lambda>_ _. (0, [])) (Some demo_section) 0 [] = Inr (number, dcaps, tr1) \<and>
     number = 1"
proof -
  have sec: "section_header (\<lambda>_ _. (0, [])) (Some demo_section) tr =
      Inr (Some demo_section, tr @ [Control 0xC0 VENDOR_REQ_QUERY_SECTION_DATA 0 0 [] 0x70])" for tr
    by (simp add: section_header_def vendor_get_def usb_recv_def sizeof_section_header_def Let_def)
  have link: "LinkInterfaces1 demo_section = 4" "LinkInterfaces2 demo_section = 0"
    by (simp_all add: LinkInterfaces1_def LinkInterfaces2_def demo_section_def)
  have "\<exists>tr'. create_wording_thread (\<lambda>_ _. (0, [])) (OpenHandle 3) True (\<lambda>_. Some demo_section) 0 True (\<lambda>_. True)
      (\<lambda>_. True) (replicate 128 0) [] = Some (Inr ([Some 0, None], tr'))"
    by (simp add: create_wording_thread_def t6_libusb_get_displaysectionheader_def t6_libusb_get_jpegreset_def
        t6_libusb_get_rotate_def sec link Let_def join_threads_def join_thread_def upt_rec)
  then obtain tr' where "create_wording_thread (\<lambda>_ _. (0, [])) (OpenHandle 3) True (\<lambda>_. Some demo_section) 0 True (\<lambda>_. True)
      (\<lambda>_. True) (replicate 128 0) [] = Some (Inr ([Some 0, None], tr'))" by blast
  from worker_ends_well [OF this] show ?thesis by auto
qed

section \<open>Starting\<close>

lemma destroy_fresh:
  "0 \<le> d_id g \<Longrightarrow> d_id g < int (length box) \<Longrightarrow> d_video g = None \<Longrightarrow> quit_destroyed g box = Some (Inl Uninitialised)"
  by (simp add: quit_destroyed_def Dev_destroy_def Let_def)

text \<open>
  how the thread of a display starts, from the structure the worker fills in. It never ends in an orderly
  \<^verbatim>\<open>Dev_destroy\<close>: a monitor that cannot be read, a card that cannot be opened and a thread that cannot be
  created all make it free a buffer pointer that was never written. When it runs, it has a card
  that was free and a handle that is open.
\<close>

theorem display_starts_or_faults:
  assumes "evdi_process_start host sys dec env dev fresh_dev box s tr = Some (Inr r)" "length box = 128"
  shows "r = Quit \<and> st_exit env \<or>
    (\<exists>g h s'. r = Running g h s' \<and> \<not> st_exit env \<and> h \<noteq> 0 \<and> contexts s' h \<noteq> None \<and> 0 \<le> d_id g \<and> d_id g < 16 \<and>
       box ! nat (d_id g) = 0 \<and> d_video g = None)"
proof -
  have fresh: "d_id (fresh_dev\<lparr>d_id := i\<rparr>) = i" "d_video (fresh_dev\<lparr>d_id := i\<rparr>) = None" "d_id fresh_dev = 0" "d_video fresh_dev = None" for i
    by (simp_all add: fresh_dev_def)
  have destroyed: "quit_destroyed fresh_dev b \<noteq> Some (Inr r)" if "length b = 128" for b
    using that by (simp add: destroy_fresh fresh)
  obtain ramsize tr1 where ram: "t6_libusb_get_ram_size host (st_ram env) tr = (ramsize, tr1)" by fastforce
  with assms(1) obtain edid_size dev' tr2 where poll: "poll_monitor host dev 0 (st_stops env) tr1 = Some (edid_size, dev', tr2)"
    by (auto simp: evdi_process_start_def Let_def bind_eq_Some_conv)
  show ?thesis
  proof (cases "st_exit env")
    case True
    then show ?thesis using assms(1) by (simp add: evdi_process_start_def Let_def ram poll)
  next
    case False
    with assms(1) destroyed [OF assms(2)] have size: "\<not> edid_size < 0"
      by (auto simp: evdi_process_start_def Let_def ram poll)
    obtain edid_size' run dev2 tr3 where revise: "t6_revise_edid host (st_junk4 env) (st_junk env) (st_speed env) dev'
        edid_size (st_run env) tr2 = Inr (edid_size', run, dev2, tr3)"
      using assms(1) False size
      by (cases "t6_revise_edid host (st_junk4 env) (st_junk env) (st_speed env) dev' edid_size (st_run env) tr2")
         (auto simp: evdi_process_start_def Let_def ram poll)
    obtain i k box' where card: "GetEvdi_id (st_check env) (st_add env) (kern s) box = Some (i, k, box')"
      using assms(1) False size by (auto simp: evdi_process_start_def Let_def ram poll revise bind_eq_Some_conv)
    then have i: "i < 16" "box ! i = 0" "box' = box[i := 1]"
      using card_taken [OF card] by (simp_all add: MAX_T6_DEVICES_def)
    let ?g = "fresh_dev\<lparr>d_id := int i\<rparr>"
    have destroyed': "quit_destroyed (?g\<lparr>d_jpg_queue := a, d_cursor_queue := b, d_cursor_queue_pos := c\<rparr>) box' \<noteq> Some (Inr r)"
      "quit_destroyed ?g box' \<noteq> Some (Inr r)" for a b c
      using i assms(2) by (simp_all add: destroy_fresh fresh)
    obtain ro where ro: "evdi_open sys (dec (int i)) (int i) (st_new env) (s\<lparr>kern := k\<rparr>) = Some ro"
      using assms(1) False size
      by (auto simp: evdi_process_start_def Let_def ram poll revise card bind_eq_Some_conv)
    with assms(1) False size obtain h s1
      where opened: "evdi_open sys (dec (int i)) (int i) (st_new env) (s\<lparr>kern := k\<rparr>) = Some (Inr (h, s1))"
      by (cases ro) (auto simp: evdi_process_start_def Let_def ram poll revise card)
    have h: "h \<noteq> 0"
    proof
      assume "h = 0"
      with assms(1) False size destroyed'(2) show False
        by (simp add: evdi_process_start_def Let_def ram poll revise card opened)
    qed
    obtain c where c: "contexts s1 h = Some c"
      by (cases "contexts s1 h")
         (use assms(1) False size h in \<open>auto simp: evdi_process_start_def Let_def ram poll revise card opened\<close>)
    from assms(1) False size h show ?thesis
      using destroyed'(1) i
      by (auto simp: evdi_process_start_def Let_def ram poll revise card opened c bind_eq_Some_conv fresh
          split: if_splits)
  qed
qed

definition demo_ending :: "unit start_env" where
  "demo_ending = \<lparr>st_junk4 = [], st_junk = [], st_run = 0, st_ram = 0, st_speed = 3, st_stops = [True], st_exit = True,
     st_check = (\<lambda>_ _. AVAILABLE), st_add = (\<lambda>k. k), st_new = 1, st_malloc = (\<lambda>n. n + 1), st_threads = []\<rparr>"

definition demo_refused :: "unit sys_calls" where
  "demo_refused = \<lparr>sys_ioctl = (\<lambda>fdn req k. (- 1, EINVAL, NoReply, k)), sys_open = (\<lambda>path k. (- 1, k)),
     sys_close = (\<lambda>fdn k. k), sys_mmap = (\<lambda>fdn n off k. None)\<rparr>"

definition demo_display :: t6evdi where
  "demo_display = \<lparr>t6usbdev = True, fbAddr = 0, cmdAddr = 0, jpg_rotate = 0, Width = 0, Height = 0,
     disp_interface = 0, edid = replicate 512 0, bRun4K30 = 0, dispcaps = 4\<rparr>"

lemma display_starts_or_faults_witness:
  "evdi_process_start (\<lambda>_ _. (0, [])) demo_refused (\<lambda>_. ''d'') demo_ending demo_display fresh_dev (replicate 128 0)
     \<lparr>kern = (), contexts = Map.empty, card_usage = []\<rparr> [] = Some (Inr Quit) \<and> st_exit demo_ending"
proof -
  obtain ramsize tr1 where ram: "t6_libusb_get_ram_size (\<lambda>_ _. (0, [])) 0 [] = (ramsize, tr1)" by fastforce
  obtain x where "poll_monitor (\<lambda>_ _. (0, [])) demo_display 0 [True] tr1 = Some x"
    by (cases "poll_monitor (\<lambda>_ _. (0, [])) demo_display 0 [True] tr1") (auto simp: Let_def case_prod_beta split: if_splits)
  then have run: "evdi_process_start (\<lambda>_ _. (0, [])) demo_refused (\<lambda>_. ''d'') demo_ending demo_display fresh_dev (replicate 128 0)
      \<lparr>kern = (), contexts = Map.empty, card_usage = []\<rparr> [] = Some (Inr Quit)"
    using ram by (simp add: evdi_process_start_def demo_ending_def Let_def del: poll_monitor.simps split: prod.splits)
  show ?thesis using display_starts_or_faults [OF run] run by simp
qed

text \<open>The event of the hotplug thread that ends it.\<close>

definition unplugged :: "int \<Rightarrow> int \<Rightarrow> int \<times> u8 \<times> int \<times> int \<Rightarrow> bool" where
  "unplugged pre0 pre1 = (\<lambda>(ret, b, s0, s1). ret = 0 \<and> b \<noteq> 0x04 \<and> (s0 \<noteq> pre0 \<or> s1 \<noteq> pre1) \<and> (s0 = 0 \<or> s1 = 0))"

text \<open>
  the hotplug thread ends at the first interrupt that says the device is gone or that finds the
  monitors in another state than the one at its start, with one of them absent; it then detaches all displays.
  Whatever returns to the state at its start goes unnoticed, an unplugged monitor included.
\<close>

theorem hotplug_detaches:
  "int_process2 pre0 pre1 events =
    (case find (\<lambda>e. fst e = - 4 \<or> unplugged pre0 pre1 e) events of
       None \<Rightarrow> Waiting
     | Some e \<Rightarrow> if fst e = - 4 then NoDevice else DetachAll)"
  by (induction pre0 pre1 events rule: int_process2.induct) (auto simp: unplugged_def)

end
