(* ===== verification/DaemonThreads.thy ===== *)
theory DaemonThreads
  imports DaemonCapture DaemonDevice LibState Machines
begin

text \<open>
  The threads of one display in \<^verbatim>\<open>evdi_t6_1/main.c\<close>: \<^verbatim>\<open>evdi_process\<close> after its start (capture),
  \<^verbatim>\<open>usb_process\<close>, \<^verbatim>\<open>events_process\<close> with its handler of mode changes, and the hotplug flag. They share
  the structure \<^verbatim>\<open>T6EVDI\<close>, the frame queue, which is a list by \<open>FrameQueue.queue_fifo\<close>, and the context of
  the library, which is that of \<open>EvdiLib\<close>. A step is what a thread does between two points where another can
  come in; a fault is the outcome \<open>Inl\<close>.
\<close>

section \<open>State\<close>

text \<open>
  \<open>p_video\<close> is \<open>None\<close> until it is first written; \<open>p_live\<close> are the video buffers allocated. The last
  fields are a record of what happened: the frames queued, and those taken from the queue with whether they were sent.
\<close>

datatype events_pc = EvIdle | EvMode evdi_mode | EvClosing | EvDone
datatype capture_pc = CapLoop | CapEncode | CapDone

record display =
  p_id :: int
  p_set_mode :: bool
  p_image_work :: bool
  p_event :: bool
  p_usb :: bool
  p_box :: bool
  p_detach :: bool
  p_dev :: t6evdi
  p_layout :: fb_layout
  p_vars :: usb_vars
  p_trace :: trace
  p_queue :: "daemon_frame list"
  p_video :: "ptr option"
  p_format :: u32
  p_live :: "ptr set"
  p_lib :: evdi_device_context
  p_gone :: bool
  p_events_pc :: events_pc
  p_capture_pc :: capture_pc
  p_usb_run :: bool
  p_captured :: "daemon_frame list"
  p_removed :: "(daemon_frame \<times> bool) list"

definition display_start :: "int \<Rightarrow> t6evdi \<Rightarrow> fb_layout \<Rightarrow> evdi_device_context \<Rightarrow> display" where
  "display_start i dev l c =
    \<lparr>p_id = i, p_set_mode = False, p_image_work = True, p_event = True, p_usb = True, p_box = True, p_detach = False,
     p_dev = dev, p_layout = l, p_vars = usb_start l, p_trace = [], p_queue = [], p_video = None, p_format = 0, p_live = {},
     p_lib = c, p_gone = False, p_events_pc = EvIdle, p_capture_pc = CapLoop, p_usb_run = True, p_captured = [],
     p_removed = []\<rparr>"

text \<open>\<^verbatim>\<open>free\<close> of a pointer that may be null.\<close>

definition free_ptr :: "ptr \<Rightarrow> ptr set \<Rightarrow> c_error + ptr set" where
  "free_ptr p live = (if p = NULL then Inr live else if p \<in> live then Inr (live - {p}) else Inl UseAfterFree)"

definition read_video :: "display \<Rightarrow> c_error + ptr" where
  "read_video s = (case p_video s of None \<Rightarrow> Inl Uninitialised | Some p \<Rightarrow> Inr p)"

section \<open>Mode changes\<close>

text \<open>
  \<^verbatim>\<open>mct_mode_changed_handler\<close> in two parts: up to the release of the old buffer, and from the new resolution on,
  which takes the time of several transfers. \<open>m\<close> is what \<^verbatim>\<open>malloc\<close> returns, \<open>alloc\<close> whether the library gets
  memory for its node.
\<close>

definition mode_release :: "usb_host \<Rightarrow> display \<Rightarrow> c_error + display" where
  "mode_release host s =
    (if \<not> p_set_mode s then Inr s
     else ebind (evdi_unregister_buffer (p_id s) (Some (p_lib s))) (\<lambda>c.
       let tr = snd (t6_libusb_set_monitor_power host (p_dev s) 0 (p_trace s))
       in ebind (read_video s) (\<lambda>p. ebind (free_ptr p (p_live s)) (\<lambda>live.
          Inr (s\<lparr>p_lib := c, p_set_mode := False, p_trace := tr, p_live := live\<rparr>)))))"

definition mode_set ::
    "usb_host \<Rightarrow> pll \<Rightarrow> bytes \<Rightarrow> bytes \<Rightarrow> ptr \<Rightarrow> bool \<Rightarrow> evdi_mode \<Rightarrow> display \<Rightarrow> c_error + display" where
  "mode_set host pll junk4 junk m alloc mode s =
    ebind (t6_libusb_set_resolution host pll junk4 junk (p_dev s) (sint (em_width mode)) (sint (em_height mode))
             (sint (em_refresh_rate mode)) (p_trace s)) (\<lambda>(ret, tr).
      let tr = snd (t6_libusb_set_monitor_power host (p_dev s) 1 tr);
          dev = (p_dev s)\<lparr>Width := ucast (em_width mode), Height := ucast (em_height mode)\<rparr>;
          s = s\<lparr>p_trace := tr, p_dev := dev, p_video := Some m\<rparr>
      in if m = NULL then Inr s
         else
           let s = s\<lparr>p_live := insert m (p_live s), p_set_mode := True\<rparr>;
               b = \<lparr>buffer_id = p_id s, buffer_addr = m, buffer_width = uint (Width dev), buffer_height = uint (Height dev),
                    buffer_stride = uint (Width dev) * 4\<rparr>
           in ebind (evdi_register_buffer alloc b (Some (p_lib s))) (\<lambda>c. Inr (s\<lparr>p_lib := c\<rparr>)))"

section \<open>The threads\<close>

text \<open>What \<^verbatim>\<open>usb_process\<close> does after its loop.\<close>

definition usb_leave :: "display \<Rightarrow> display" where
  "usb_leave s = s\<lparr>p_set_mode := False, p_image_work := False, p_usb := False, p_usb_run := False\<rparr>"

definition usb_goes_on :: "display \<Rightarrow> bool" where
  "usb_goes_on s \<longleftrightarrow> p_usb s \<and> p_box s \<and> \<not> p_detach s"

text \<open>One frame of \<^verbatim>\<open>usb_process\<close>.\<close>

definition usb_frame :: "usb_host \<Rightarrow> bool \<Rightarrow> daemon_frame \<Rightarrow> display \<Rightarrow> c_error + display" where
  "usb_frame host mem f s =
    (if \<not> p_set_mode s then Inr (s\<lparr>p_removed := p_removed s @ [(f, False)]\<rparr>)
     else ebind (usb_send_frame host mem (p_layout s) (p_dev s) f (p_vars s) (p_trace s)) (\<lambda>(go, v, tr).
       let s = s\<lparr>p_vars := v, p_trace := tr, p_removed := p_removed s @ [(f, True)]\<rparr>
       in Inr (if go then s else usb_leave s)))"

text \<open>
  The end of \<^verbatim>\<open>events_process\<close>: the flags, the removal of the buffer, and after two pauses the destruction of
  the structure and all it holds.
\<close>

definition events_flag :: "display \<Rightarrow> c_error + display" where
  "events_flag s =
    (let s = s\<lparr>p_event := False, p_usb := False, p_box := False\<rparr>
     in ebind (evdi_unregister_buffer (p_id s) (Some (p_lib s))) (\<lambda>c.
        Inr (s\<lparr>p_lib := c, p_events_pc := EvClosing\<rparr>)))"

definition events_destroy :: "display \<Rightarrow> c_error + display" where
  "events_destroy s =
    ebind (read_video s) (\<lambda>p. ebind (free_ptr p (p_live s)) (\<lambda>live.
      Inr (s\<lparr>p_live := live, p_removed := p_removed s @ map (\<lambda>f. (f, False)) (p_queue s), p_queue := [], p_gone := True,
             p_events_pc := EvDone\<rparr>)))"

text \<open>The frames one capture adds.\<close>

definition opt_list :: "'a option \<Rightarrow> 'a list" where
  "opt_list r = (case r of None \<Rightarrow> [] | Some x \<Rightarrow> [x])"

lemma opt_list_simps [simp]: "opt_list None = []" "opt_list (Some x) = [x]"
  by (simp_all add: opt_list_def)

text \<open>
  The steps. Everything a thread does with the structure after it was freed is a fault. A grab finds something
  only while the buffer is registered.
\<close>

inductive daemon_step :: "display \<Rightarrow> c_error + display \<Rightarrow> bool" where
  cap_wait: "p_capture_pc s = CapLoop \<Longrightarrow> \<not> p_gone s \<Longrightarrow> p_image_work s \<Longrightarrow> \<not> p_detach s \<Longrightarrow> 5 < length (p_queue s) \<Longrightarrow>
    daemon_step s (Inr s)"
| cap_nothing: "p_capture_pc s = CapLoop \<Longrightarrow> \<not> p_gone s \<Longrightarrow> p_image_work s \<Longrightarrow> \<not> p_detach s \<Longrightarrow> length (p_queue s) \<le> 5 \<Longrightarrow>
    daemon_step s (Inr (s\<lparr>p_lib := (p_lib s)\<lparr>bufferToUpdate := p_id s\<rparr>\<rparr>))"
| cap_grab: "p_capture_pc s = CapLoop \<Longrightarrow> \<not> p_gone s \<Longrightarrow> p_image_work s \<Longrightarrow> \<not> p_detach s \<Longrightarrow> length (p_queue s) \<le> 5 \<Longrightarrow>
    buffers (p_lib s) (p_id s) = Some b \<Longrightarrow> buffer_addr b \<in> p_live s \<Longrightarrow> length (p_queue s) < 5 \<Longrightarrow>
    daemon_step s (Inr (s\<lparr>p_lib := (p_lib s)\<lparr>bufferToUpdate := p_id s\<rparr>, p_capture_pc := CapEncode\<rparr>))"
| cap_grab_freed: "p_capture_pc s = CapLoop \<Longrightarrow> \<not> p_gone s \<Longrightarrow> p_image_work s \<Longrightarrow> \<not> p_detach s \<Longrightarrow> length (p_queue s) \<le> 5 \<Longrightarrow>
    buffers (p_lib s) (p_id s) = Some b \<Longrightarrow> buffer_addr b \<notin> p_live s \<Longrightarrow> daemon_step s (Inl UseAfterFree)"
| cap_encode: "p_capture_pc s = CapEncode \<Longrightarrow> \<not> p_gone s \<Longrightarrow> p_video s = Some p \<Longrightarrow> p \<in> p_live s \<Longrightarrow>
    capture_frame tj mem junk fmem (p_format s) px (p_dev s) = Inr (r, dev) \<Longrightarrow>
    daemon_step s (Inr (s\<lparr>p_dev := dev, p_queue := p_queue s @ opt_list r, p_captured := p_captured s @ opt_list r,
      p_capture_pc := CapLoop\<rparr>))"
| cap_encode_fault: "p_capture_pc s = CapEncode \<Longrightarrow> \<not> p_gone s \<Longrightarrow> p_video s = Some p \<Longrightarrow> p \<in> p_live s \<Longrightarrow>
    capture_frame tj mem junk fmem (p_format s) px (p_dev s) = Inl e \<Longrightarrow> daemon_step s (Inl e)"
| cap_encode_freed: "p_capture_pc s = CapEncode \<Longrightarrow> \<not> p_gone s \<Longrightarrow> p_video s = Some p \<Longrightarrow> p \<notin> p_live s \<Longrightarrow>
    daemon_step s (Inl UseAfterFree)"
| cap_leave: "p_capture_pc s = CapLoop \<Longrightarrow> \<not> p_gone s \<Longrightarrow> \<not> (p_image_work s \<and> \<not> p_detach s) \<Longrightarrow>
    daemon_step s (Inr (s\<lparr>p_event := False, p_capture_pc := CapDone\<rparr>))"
| cap_gone: "p_capture_pc s \<noteq> CapDone \<Longrightarrow> p_gone s \<Longrightarrow> daemon_step s (Inl UseAfterFree)"
| usb_wait: "p_usb_run s \<Longrightarrow> \<not> p_gone s \<Longrightarrow> usb_goes_on s \<Longrightarrow> p_queue s = [] \<Longrightarrow> daemon_step s (Inr s)"
| usb_take: "p_usb_run s \<Longrightarrow> \<not> p_gone s \<Longrightarrow> usb_goes_on s \<Longrightarrow> p_queue s = f # q \<Longrightarrow>
    usb_frame host mem f (s\<lparr>p_queue := q\<rparr>) = r \<Longrightarrow> daemon_step s r"
| usb_stop: "p_usb_run s \<Longrightarrow> \<not> p_gone s \<Longrightarrow> \<not> usb_goes_on s \<Longrightarrow> daemon_step s (Inr (usb_leave s))"
| usb_gone: "p_usb_run s \<Longrightarrow> p_gone s \<Longrightarrow> daemon_step s (Inl UseAfterFree)"
| ev_mode: "p_events_pc s = EvIdle \<Longrightarrow> p_event s \<Longrightarrow> mode_release host s = Inr s' \<Longrightarrow>
    daemon_step s (Inr (s'\<lparr>p_format := em_pixel_format mode, p_events_pc := EvMode mode\<rparr>))"
| ev_mode_fault: "p_events_pc s = EvIdle \<Longrightarrow> p_event s \<Longrightarrow> mode_release host s = Inl e \<Longrightarrow> daemon_step s (Inl e)"
| ev_mode_set: "p_events_pc s = EvMode mode \<Longrightarrow> m \<notin> p_live s \<Longrightarrow>
    mode_set host pll junk4 junk m alloc mode s = Inr s' \<Longrightarrow> daemon_step s (Inr (s'\<lparr>p_events_pc := EvIdle\<rparr>))"
| ev_mode_set_fault: "p_events_pc s = EvMode mode \<Longrightarrow> m \<notin> p_live s \<Longrightarrow>
    mode_set host pll junk4 junk m alloc mode s = Inl e \<Longrightarrow> daemon_step s (Inl e)"
| ev_flag: "p_events_pc s = EvIdle \<Longrightarrow> events_flag s = r \<Longrightarrow> daemon_step s r"
| ev_destroy: "p_events_pc s = EvClosing \<Longrightarrow> events_destroy s = r \<Longrightarrow> daemon_step s r"
| hotplug: "daemon_step s (Inr (s\<lparr>p_detach := True\<rparr>))"

inductive daemon_start :: "display \<Rightarrow> bool" where
  start: "frameBuffersList c = [] \<Longrightarrow> daemon_start (display_start i dev l c)"

abbreviation daemon_reach :: "display \<Rightarrow> bool" where
  "daemon_reach \<equiv> runs daemon_start daemon_step"

section \<open>What each part leaves alone\<close>

lemma mode_release_frame:
  assumes "mode_release host s = Inr s'"
  shows "p_queue s' = p_queue s" "p_captured s' = p_captured s" "p_removed s' = p_removed s"
    "p_capture_pc s' = p_capture_pc s" "p_gone s' = p_gone s" "p_usb_run s' = p_usb_run s" "p_event s' = p_event s"
  using assms by (auto simp: mode_release_def ebind_eq_Inr Let_def split: if_splits)

lemma mode_set_frame:
  assumes "mode_set host pll junk4 junk m alloc mode s = Inr s'"
  shows "p_queue s' = p_queue s" "p_captured s' = p_captured s" "p_removed s' = p_removed s"
    "p_capture_pc s' = p_capture_pc s" "p_gone s' = p_gone s" "p_usb_run s' = p_usb_run s"
  using assms by (auto simp: mode_set_def ebind_eq_Inr Let_def split: if_splits)

lemma usb_frame_frame:
  assumes "usb_frame host mem f s = Inr s'"
  shows "p_queue s' = p_queue s" "p_captured s' = p_captured s" "\<exists>sent. p_removed s' = p_removed s @ [(f, sent)]"
    "p_capture_pc s' = p_capture_pc s" "p_gone s' = p_gone s" "p_events_pc s' = p_events_pc s" "p_event s' = p_event s"
    "p_lib s' = p_lib s" "p_live s' = p_live s" "p_video s' = p_video s" "p_id s' = p_id s"
  using assms by (auto simp: usb_frame_def ebind_eq_Inr Let_def usb_leave_def split: if_splits prod.splits)

lemma events_flag_frame:
  assumes "events_flag s = Inr s'"
  shows "p_queue s' = p_queue s" "p_captured s' = p_captured s" "p_removed s' = p_removed s"
    "p_capture_pc s' = p_capture_pc s" "p_gone s' = p_gone s" "p_usb_run s' = p_usb_run s"
  using assms by (auto simp: events_flag_def ebind_eq_Inr Let_def)

lemma events_destroy_frame:
  assumes "events_destroy s = Inr s'"
  shows "p_queue s' = []" "p_captured s' = p_captured s" "p_removed s' = p_removed s @ map (\<lambda>f. (f, False)) (p_queue s)"
    "p_capture_pc s' = p_capture_pc s" "p_gone s'"
  using assms by (auto simp: events_destroy_def ebind_eq_Inr)

section \<open>The frame queue\<close>

definition frames_ok :: "display \<Rightarrow> bool" where
  "frames_ok s \<longleftrightarrow> length (p_queue s) \<le> 5 \<and> (p_capture_pc s = CapEncode \<longrightarrow> length (p_queue s) < 5) \<and>
     map fst (p_removed s) @ p_queue s = p_captured s"

lemma frames_ok_step:
  assumes "daemon_step s (Inr s')" "frames_ok s"
  shows "frames_ok s'"
  using assms(1)
proof (cases rule: daemon_step.cases)
  case (usb_take f q host mem)
  then have "usb_frame host mem f (s\<lparr>p_queue := q\<rparr>) = Inr s'" by simp
  note fr = usb_frame_frame [OF this]
  then show ?thesis using usb_take(4) assms(2) by (auto simp: frames_ok_def)
next
  case (cap_encode p tj mem junk fmem px r dev)
  then show ?thesis using assms(2) by (cases r) (auto simp: frames_ok_def)
next
  case (ev_mode host s1 mode)
  then show ?thesis using mode_release_frame [OF ev_mode(4)] assms(2) by (simp add: frames_ok_def)
next
  case (ev_mode_set mode m host pll junk4 junk alloc s1)
  then show ?thesis using mode_set_frame [OF ev_mode_set(4)] assms(2) by (simp add: frames_ok_def)
next
  case ev_flag
  then show ?thesis using events_flag_frame [of s s'] assms(2) by (simp add: frames_ok_def)
next
  case ev_destroy
  then show ?thesis using events_destroy_frame [of s s'] assms(2) by (simp add: frames_ok_def comp_def)
qed (use assms(2) in \<open>auto simp: frames_ok_def usb_leave_def\<close>)

lemma frames_start: "daemon_start s \<Longrightarrow> frames_ok s"
  by (auto elim!: daemon_start.cases simp: frames_ok_def display_start_def)

interpretation frames: kept_invariant daemon_start daemon_step frames_ok
  by unfold_locales (blast intro: frames_start frames_ok_step)+

text \<open>
  C9: however the threads of a display are interleaved, the frames taken from the queue, followed by those still in it,
  are exactly those captured, in their order, none twice; there are never more than five in the queue. In
  particular the capture thread, which waits for a queue of more than five, never waits, and what it grabs while
  the queue holds five is thrown away.
\<close>

theorem frames_in_order:
  assumes "daemon_reach s"
  shows "map fst (p_removed s) @ p_queue s = p_captured s \<and> length (p_queue s) \<le> 5 \<and>
    (p_capture_pc s = CapLoop \<longrightarrow> length (p_queue s) = 5 \<longrightarrow>
       (\<forall>s'. daemon_step s (Inr s') \<longrightarrow> p_capture_pc s' \<noteq> CapEncode))"
proof (intro conjI impI allI)
  show "map fst (p_removed s) @ p_queue s = p_captured s" "length (p_queue s) \<le> 5"
    using frames.runs_inv [OF assms] by (simp_all add: frames_ok_def)
next
  fix s' assume pc: "p_capture_pc s = CapLoop" and full: "length (p_queue s) = 5" and step: "daemon_step s (Inr s')"
  from step show "p_capture_pc s' \<noteq> CapEncode"
  proof (cases rule: daemon_step.cases)
    case (usb_take f q host mem)
    then show ?thesis using pc usb_frame_frame(4) [of host mem f "s\<lparr>p_queue := q\<rparr>" s'] by simp
  qed (use pc full in \<open>auto simp: usb_leave_def dest: mode_release_frame mode_set_frame events_flag_frame events_destroy_frame\<close>)
qed

section \<open>The video buffer\<close>

definition buffer_ok :: "display \<Rightarrow> evdi_buffer \<Rightarrow> bool" where
  "buffer_ok s b \<longleftrightarrow> buffer_id b = p_id s \<and> buffer_addr b \<noteq> NULL \<and> buffer_addr b \<in> p_live s \<and>
     buffer_stride b = 4 * buffer_width b \<and> (p_video s = Some (buffer_addr b) \<or> p_video s = Some NULL) \<and>
     (p_set_mode s \<longrightarrow> p_video s = Some (buffer_addr b))"

definition registered_ok :: "display \<Rightarrow> bool" where
  "registered_ok s \<longleftrightarrow> frameBuffersList (p_lib s) = [] \<and> \<not> p_set_mode s \<or>
     (\<exists>b. frameBuffersList (p_lib s) = [b] \<and> buffer_ok s b)"

definition video_ok :: "display \<Rightarrow> bool" where
  "video_ok s \<longleftrightarrow>
    (case p_events_pc s of
       EvIdle \<Rightarrow> \<not> p_gone s \<and> registered_ok s
     | EvMode _ \<Rightarrow> \<not> p_gone s \<and> \<not> p_set_mode s \<and> registered_ok s
     | EvClosing \<Rightarrow> \<not> p_gone s \<and> frameBuffersList (p_lib s) = [] \<and> (\<exists>p. p_video s = Some p \<and> (p = NULL \<or> p \<in> p_live s))
     | EvDone \<Rightarrow> p_gone s \<and> frameBuffersList (p_lib s) = [])"

lemma unregister_one:
  assumes "frameBuffersList c = [b]"
  shows "evdi_unregister_buffer (buffer_id b) (Some c) = Inr (c\<lparr>frameBuffersList := []\<rparr>)"
  using assms by (simp add: evdi_unregister_buffer_def findBuffer_def removeFrameBuffer_def)

lemma register_first:
  assumes "frameBuffersList c = []"
  shows "evdi_register_buffer alloc b (Some c) = (if alloc then Inr (c\<lparr>frameBuffersList := [b]\<rparr>) else Inl NullDeref)"
  using assms by (simp add: evdi_register_buffer_def findBuffer_def addFrameBuffer_def)

lemma register_again:
  assumes "frameBuffersList c = [b]" "buffer_id b' = buffer_id b"
  shows "evdi_register_buffer alloc b' (Some c) = Inl AssertFailed"
  using assms by (simp add: evdi_register_buffer_def findBuffer_def)

lemma mode_release_registered:
  assumes "p_set_mode s" "frameBuffersList (p_lib s) = [b]" "buffer_ok s b"
  shows "mode_release host s = Inr (s\<lparr>p_lib := (p_lib s)\<lparr>frameBuffersList := []\<rparr>, p_set_mode := False,
     p_trace := snd (t6_libusb_set_monitor_power host (p_dev s) 0 (p_trace s)), p_live := p_live s - {buffer_addr b}\<rparr>)"
proof -
  have "p_video s = Some (buffer_addr b)" "buffer_addr b \<noteq> NULL" "buffer_addr b \<in> p_live s" "p_id s = buffer_id b"
    using assms by (simp_all add: buffer_ok_def)
  then show ?thesis
    using assms(1) unregister_one [OF assms(2)] by (simp add: mode_release_def read_video_def free_ptr_def Let_def)
qed

lemma mode_release_ok:
  assumes "registered_ok s"
  shows "\<exists>s'. mode_release host s = Inr s' \<and> registered_ok s' \<and> \<not> p_set_mode s' \<and> p_gone s' = p_gone s"
proof (cases "p_set_mode s")
  case False
  with assms show ?thesis by (simp add: mode_release_def)
next
  case True
  with assms obtain b where b: "frameBuffersList (p_lib s) = [b]" "buffer_ok s b" by (auto simp: registered_ok_def)
  show ?thesis using mode_release_registered [OF True b] by (simp add: registered_ok_def)
qed

lemma mode_set_cases:
  assumes "mode_set host pll junk4 junk m alloc mode s = Inr s'"
  obtains (failed) tr dev where "m = NULL" "s' = s\<lparr>p_trace := tr, p_dev := dev, p_video := Some NULL\<rparr>"
  | (registered) tr dev b c where "m \<noteq> NULL" "bRun4K30 dev = bRun4K30 (p_dev s)" "jpg_rotate dev = jpg_rotate (p_dev s)" "buffer_id b = p_id s" "buffer_addr b = m" "buffer_stride b = 4 * buffer_width b"
      "evdi_register_buffer alloc b (Some (p_lib s)) = Inr c"
      "s' = s\<lparr>p_trace := tr, p_dev := dev, p_video := Some m, p_live := insert m (p_live s), p_set_mode := True, p_lib := c\<rparr>"
proof -
  obtain ret tr where r: "t6_libusb_set_resolution host pll junk4 junk (p_dev s) (sint (em_width mode)) (sint (em_height mode))
      (sint (em_refresh_rate mode)) (p_trace s) = Inr (ret, tr)"
    using assms by (auto simp: mode_set_def ebind_eq_Inr)
  let ?tr = "snd (t6_libusb_set_monitor_power host (p_dev s) 1 tr)"
  let ?dev = "(p_dev s)\<lparr>Width := ucast (em_width mode), Height := ucast (em_height mode)\<rparr>"
  let ?b = "\<lparr>buffer_id = p_id s, buffer_addr = m, buffer_width = uint (Width ?dev), buffer_height = uint (Height ?dev),
      buffer_stride = uint (Width ?dev) * 4\<rparr>"
  show thesis
  proof (cases "m = NULL")
    case True
    then show thesis using assms by (intro failed [where tr = ?tr and dev = ?dev]) (simp_all add: mode_set_def r Let_def)
  next
    case False
    then have "mode_set host pll junk4 junk m alloc mode s =
        ebind (evdi_register_buffer alloc ?b (Some (p_lib s)))
          (\<lambda>c. Inr (s\<lparr>p_trace := ?tr, p_dev := ?dev, p_video := Some m, p_live := insert m (p_live s), p_set_mode := True, p_lib := c\<rparr>))"
      by (simp add: mode_set_def r Let_def)
    with assms obtain c where "evdi_register_buffer alloc ?b (Some (p_lib s)) = Inr c"
      "s' = s\<lparr>p_trace := ?tr, p_dev := ?dev, p_video := Some m, p_live := insert m (p_live s), p_set_mode := True, p_lib := c\<rparr>"
      by (auto simp: ebind_eq_Inr)
    with False show thesis by (intro registered [where tr = ?tr and dev = ?dev and b = ?b and c = c]) simp_all
  qed
qed

lemma mode_set_ok:
  assumes "mode_set host pll junk4 junk m alloc mode s = Inr s'" "registered_ok s" "\<not> p_set_mode s" "m \<notin> p_live s"
  shows "registered_ok s'"
  using assms(1)
proof (cases rule: mode_set_cases)
  case (failed tr dev)
  then show ?thesis using assms(2,3) by (auto simp: registered_ok_def buffer_ok_def)
next
  case (registered tr dev b c)
  have "frameBuffersList (p_lib s) = []"
  proof (rule ccontr)
    assume "frameBuffersList (p_lib s) \<noteq> []"
    with assms(2) obtain b' where "frameBuffersList (p_lib s) = [b']" "buffer_id b = buffer_id b'"
      using registered(4) by (auto simp: registered_ok_def buffer_ok_def)
    from register_again [OF this] registered(7) show False by simp
  qed
  with registered show ?thesis
    by (auto simp: register_first registered_ok_def buffer_ok_def split: if_splits)
qed

lemma events_flag_ok:
  assumes "events_flag s = Inr s'" "registered_ok s" "\<not> p_gone s"
  shows "video_ok s'"
proof -
  obtain c where c: "evdi_unregister_buffer (p_id s) (Some (p_lib s)) = Inr c"
    "s' = s\<lparr>p_event := False, p_usb := False, p_box := False, p_lib := c, p_events_pc := EvClosing\<rparr>"
    using assms(1) by (auto simp: events_flag_def ebind_eq_Inr Let_def)
  have "frameBuffersList (p_lib s) \<noteq> []"
    using c(1) by (auto simp: evdi_unregister_buffer_def findBuffer_def)
  then obtain b where b: "frameBuffersList (p_lib s) = [b]" "buffer_ok s b"
    using assms(2) by (auto simp: registered_ok_def)
  then have "c = (p_lib s)\<lparr>frameBuffersList := []\<rparr>"
    using c(1) unregister_one [OF b(1)] by (simp add: buffer_ok_def)
  with c(2) b assms(3) show ?thesis by (auto simp: video_ok_def buffer_ok_def)
qed

lemma video_ok_step:
  assumes "daemon_step s (Inr s')" "video_ok s"
  shows "video_ok s'"
  using assms(1)
proof (cases rule: daemon_step.cases)
  case (usb_take f q host mem)
  then have r: "usb_frame host mem f (s\<lparr>p_queue := q\<rparr>) = Inr s'" by simp
  then have "p_set_mode s' \<Longrightarrow> p_set_mode s" by (auto simp: usb_frame_def split: if_splits)
  then show ?thesis using assms(2) usb_frame_frame(5-) [OF r]
    by (auto simp: video_ok_def registered_ok_def buffer_ok_def split: events_pc.splits)
next
  case (ev_mode host s1 mode)
  then show ?thesis using mode_release_ok [of s host] mode_release_frame(5) [of host s s1] assms(2)
    by (auto simp: video_ok_def registered_ok_def buffer_ok_def)
next
  case (ev_mode_set mode m host pll junk4 junk alloc s1)
  then show ?thesis using mode_set_ok [OF ev_mode_set(4) _ _ ev_mode_set(3)] mode_set_frame(5) [OF ev_mode_set(4)] assms(2)
    by (auto simp: video_ok_def registered_ok_def buffer_ok_def)
next
  case ev_flag
  then show ?thesis using events_flag_ok [of s s'] assms(2) by (simp add: video_ok_def)
next
  case ev_destroy
  then show ?thesis using assms(2)
    by (auto simp: events_destroy_def video_ok_def ebind_eq_Inr)
qed (use assms(2) in \<open>auto simp: video_ok_def registered_ok_def buffer_ok_def usb_leave_def split: events_pc.splits\<close>)

lemma video_start: "daemon_start s \<Longrightarrow> video_ok s"
  by (auto elim!: daemon_start.cases simp: video_ok_def registered_ok_def display_start_def)

interpretation video: kept_invariant daemon_start daemon_step video_ok
  by unfold_locales (blast intro: video_start video_ok_step)+

lemma destroy_ok: "video_ok s \<Longrightarrow> p_events_pc s = EvClosing \<Longrightarrow> \<exists>s'. events_destroy s = Inr s'"
  by (auto simp: video_ok_def events_destroy_def read_video_def free_ptr_def)


section \<open>A first mode, and what can follow\<close>

text \<open>A display as it starts, and a device that answers nothing, which does not stop a mode change.\<close>

definition first_display :: display where
  "first_display = display_start 0 sample_t6 (usb_layout 64 1 sample_t6)
     \<lparr>fd = 3, bufferToUpdate = 0, frameBuffersList = [], device_index = 0\<rparr>"

definition demo_mode :: evdi_mode where
  "demo_mode = \<lparr>em_width = 1280, em_height = 720, em_refresh_rate = 60, em_bits_per_pixel = 32, em_pixel_format = 0\<rparr>"

definition dead_host :: usb_host where "dead_host tr x = (- 1, [])"

lemma dead_resolution: "\<exists>tr'. t6_libusb_set_resolution dead_host pll j4 j dev w h fps tr = Inr (- 1, tr')"
  by (simp add: t6_libusb_set_resolution_def t6_libusb_get_resolution_timing_def read_resolutions_def
      t6_libusb_get_resolution_num_def vendor_get_def usb_recv_def dead_host_def Let_def)

lemma mode_step:
  assumes "daemon_reach s" "p_events_pc s = EvIdle" "p_event s"
  shows "\<exists>s'. mode_release dead_host s = Inr s' \<and> daemon_reach (s'\<lparr>p_format := em_pixel_format mode, p_events_pc := EvMode mode\<rparr>)"
proof -
  obtain s' where r: "mode_release dead_host s = Inr s'"
    using video.runs_inv [OF assms(1)] assms(2) mode_release_ok [of s dead_host] by (auto simp: video_ok_def)
  have "daemon_step s (Inr (s'\<lparr>p_format := em_pixel_format mode, p_events_pc := EvMode mode\<rparr>))" by (rule daemon_step.ev_mode [OF assms(2,3) r])
  from r runs.goes [OF assms(1) this] show ?thesis by blast
qed

lemma demo_reach: "daemon_reach first_display"
  unfolding first_display_def by (rule runs.begins, rule daemon_start.start) simp

lemma first_mode:
  obtains s b where "daemon_reach s" "p_events_pc s = EvIdle" "p_event s" "p_set_mode s" "p_video s = Some 1" "p_live s = {1}"
    "frameBuffersList (p_lib s) = [b]" "buffer_id b = 0" "buffer_addr b = 1" "p_id s = 0" "p_queue s = []"
    "p_capture_pc s = CapLoop" "p_usb_run s" "\<not> p_gone s" "p_image_work s" "\<not> p_detach s" "bRun4K30 (p_dev s) = 0" "jpg_rotate (p_dev s) = 0"
proof -
  have demo: "p_events_pc first_display = EvIdle" "p_event first_display" "\<not> p_set_mode first_display"
    by (simp_all add: first_display_def display_start_def)
  obtain s0 where s0: "mode_release dead_host first_display = Inr s0" "daemon_reach (s0\<lparr>p_format := em_pixel_format demo_mode, p_events_pc := EvMode demo_mode\<rparr>)"
    using mode_step [OF demo_reach demo(1,2)] by blast
  then have s0_eq: "s0 = first_display" using demo(3) by (simp add: mode_release_def)
  let ?s = "first_display\<lparr>p_format := em_pixel_format demo_mode, p_events_pc := EvMode demo_mode\<rparr>"
  obtain tr where tr: "t6_libusb_set_resolution dead_host (\<lambda>_ _. None) [] [] (p_dev ?s) (sint (em_width demo_mode))
      (sint (em_height demo_mode)) (sint (em_refresh_rate demo_mode)) (p_trace ?s) = Inr (- 1, tr)"
    using dead_resolution by blast
  have "\<exists>s1. mode_set dead_host (\<lambda>_ _. None) [] [] 1 True demo_mode ?s = Inr s1"
    using tr by (simp add: mode_set_def Let_def evdi_register_buffer_def findBuffer_def addFrameBuffer_def
      first_display_def display_start_def)
  then obtain s1 where s1: "mode_set dead_host (\<lambda>_ _. None) [] [] 1 True demo_mode ?s = Inr s1" by blast
  have "daemon_step ?s (Inr (s1\<lparr>p_events_pc := EvIdle\<rparr>))"
    by (rule daemon_step.ev_mode_set [OF _ _ s1]) (simp_all add: first_display_def display_start_def)
  then have reach: "daemon_reach (s1\<lparr>p_events_pc := EvIdle\<rparr>)"
    by (rule runs.goes [OF s0(2) [unfolded s0_eq]])
  from s1 show thesis
  proof (cases rule: mode_set_cases)
    case failed
    then show thesis by simp
  next
    case (registered tr dev b c)
    then have "c = (p_lib first_display)\<lparr>frameBuffersList := [b]\<rparr>"
      using register_first [of "p_lib first_display" True b] by (simp add: first_display_def display_start_def)
    with registered show thesis
      by (intro that [OF reach, of b]) (simp_all add: first_display_def display_start_def sample_t6_def)
  qed
qed


lemma frames_in_order_witness:
  "\<exists>s. daemon_reach s \<and> p_queue s = [([0xFF, 0xD8], 2)] \<and> p_captured s = map fst (p_removed s) @ [([0xFF, 0xD8], 2)]"
proof -
  obtain s b where s: "daemon_reach s" "p_video s = Some 1" "p_live s = {1}" "frameBuffersList (p_lib s) = [b]"
    "buffer_id b = 0" "buffer_addr b = 1" "p_id s = 0" "p_queue s = []" "p_capture_pc s = CapLoop" "\<not> p_gone s"
    "p_image_work s" "\<not> p_detach s" and b: "bRun4K30 (p_dev s) = 0" "jpg_rotate (p_dev s) = 0"
    by (rule first_mode) blast
  let ?s1 = "s\<lparr>p_lib := (p_lib s)\<lparr>bufferToUpdate := p_id s\<rparr>, p_capture_pc := CapEncode\<rparr>"
  have "daemon_step s (Inr ?s1)" by (rule daemon_step.cap_grab [of s b]) (use s in \<open>simp_all add: buffers_def\<close>)
  then have r1: "daemon_reach ?s1" by (rule runs.goes [OF s(1)])
  have cap: "capture_frame demo_tj True (\<lambda>_. 0) True (p_format ?s1) [] (p_dev ?s1) = Inr (Some ([0xFF, 0xD8], 2), p_dev s)"
    using b by (simp add: capture_frame_def encode_image_def demo_tj_def)
  let ?f = "[([0xFF, 0xD8], 2)] :: daemon_frame list"
  let ?s2 = "?s1\<lparr>p_dev := p_dev s, p_queue := p_queue ?s1 @ ?f, p_captured := p_captured ?s1 @ ?f, p_capture_pc := CapLoop\<rparr>"
  have "daemon_step ?s1 (Inr ?s2)"
    using daemon_step.cap_encode [of ?s1 1, OF _ _ _ _ cap] s by simp
  then have r2: "daemon_reach ?s2" by (rule runs.goes [OF r1])
  have "p_queue ?s2 = ?f" using s(8) by simp
  with frames_in_order [OF r2] r2 show ?thesis by (intro exI [of _ ?s2]) simp
qed

lemma hang_up_aborts:
  "\<exists>s. daemon_reach s \<and> p_events_pc s = EvIdle \<and> daemon_step s (Inl AssertFailed) \<and> events_flag s = Inl AssertFailed"
proof -
  let ?s = first_display
  have "events_flag ?s = Inl AssertFailed"
    by (simp add: events_flag_def evdi_unregister_buffer_def findBuffer_def first_display_def display_start_def)
  moreover have idle: "p_events_pc ?s = EvIdle" by (simp add: first_display_def display_start_def)
  ultimately show ?thesis
    using daemon_step.ev_flag demo_reach by metis
qed

lemma destroyed_under_usb:
  "\<exists>s. daemon_reach s \<and> p_gone s \<and> p_usb_run s \<and> daemon_step s (Inl UseAfterFree)"
proof -
  obtain s b where s: "daemon_reach s" "p_events_pc s = EvIdle" "p_video s = Some 1" "p_live s = {1}"
    "frameBuffersList (p_lib s) = [b]" "buffer_id b = 0" "p_id s = 0" "p_usb_run s"
    by (rule first_mode) blast
  obtain s1 where s1: "events_flag s = Inr s1" "p_usb_run s1"
    using unregister_one [OF s(5)] s(6-8) by (simp add: events_flag_def Let_def)
  have r1: "daemon_reach s1" by (rule runs.goes [OF s(1) daemon_step.ev_flag [OF s(2) s1(1)]])
  have pc1: "p_events_pc s1 = EvClosing" using s1(1) by (auto simp: events_flag_def ebind_eq_Inr Let_def)
  obtain s2 where s2: "events_destroy s1 = Inr s2"
    using destroy_ok [OF video.runs_inv [OF r1] pc1] by blast
  have "daemon_reach s2" by (rule runs.goes [OF r1 daemon_step.ev_destroy [OF pc1 s2]])
  moreover have "p_gone s2" "p_usb_run s2" using s2 s1(2) by (auto simp: events_destroy_def ebind_eq_Inr)
  ultimately show ?thesis
    using daemon_step.usb_gone by blast
qed

lemma freed_under_capture:
  "\<exists>s. daemon_reach s \<and> p_capture_pc s = CapEncode \<and> \<not> p_gone s \<and> daemon_step s (Inl UseAfterFree)"
proof -
  obtain s b where s: "daemon_reach s" "p_events_pc s = EvIdle" "p_event s" "p_set_mode s" "p_video s = Some 1"
    "p_live s = {1}" "frameBuffersList (p_lib s) = [b]" "buffer_id b = 0" "buffer_addr b = 1" "p_id s = 0"
    "p_queue s = []" "p_capture_pc s = CapLoop" "\<not> p_gone s" "p_image_work s" "\<not> p_detach s"
    by (rule first_mode) blast
  let ?s1 = "s\<lparr>p_lib := (p_lib s)\<lparr>bufferToUpdate := p_id s\<rparr>, p_capture_pc := CapEncode\<rparr>"
  have "daemon_step s (Inr ?s1)"
    by (rule daemon_step.cap_grab [of s b]) (use s in \<open>simp_all add: buffers_def\<close>)
  then have r1: "daemon_reach ?s1" by (rule runs.goes [OF s(1)])
  obtain s2 where s2: "mode_release dead_host ?s1 = Inr s2" "daemon_reach (s2\<lparr>p_format := em_pixel_format demo_mode, p_events_pc := EvMode demo_mode\<rparr>)"
    using mode_step [OF r1] s(2,3) by auto
  let ?s2 = "s2\<lparr>p_format := em_pixel_format demo_mode, p_events_pc := EvMode demo_mode\<rparr>"
  have ok: "buffer_ok ?s1 b" using video.runs_inv [OF r1] s by (auto simp: video_ok_def registered_ok_def)
  have "s2 = ?s1\<lparr>p_lib := (p_lib ?s1)\<lparr>frameBuffersList := []\<rparr>, p_set_mode := False,
      p_trace := snd (t6_libusb_set_monitor_power dead_host (p_dev ?s1) 0 (p_trace ?s1)), p_live := p_live ?s1 - {buffer_addr b}\<rparr>"
    using mode_release_registered [of ?s1 b dead_host] s(4,7) ok s2(1) by simp
  then have "p_capture_pc ?s2 = CapEncode" "\<not> p_gone ?s2" "p_video ?s2 = Some 1" "1 \<notin> p_live ?s2"
    using s(5,6,9,13) by simp_all
  then have "daemon_step ?s2 (Inl UseAfterFree)" by (rule daemon_step.cap_encode_freed)
  then show ?thesis
    using s2(2) \<open>p_capture_pc ?s2 = CapEncode\<close> \<open>\<not> p_gone ?s2\<close> by blast
qed

lemma registered_twice:
  "\<exists>s mode host pll j4 j m alloc. daemon_reach s \<and> p_events_pc s = EvMode mode \<and> m \<notin> p_live s \<and> \<not> p_usb_run s \<and>
     mode_set host pll j4 j m alloc mode s = Inl AssertFailed"
proof -
  obtain s b where s: "daemon_reach s" "p_events_pc s = EvIdle" "p_event s" "p_live s = {1}"
    "frameBuffersList (p_lib s) = [b]" "buffer_id b = 0" "p_id s = 0" "p_usb_run s" "\<not> p_gone s"
    by (rule first_mode) blast
  have r1: "daemon_reach (s\<lparr>p_detach := True\<rparr>)" by (rule runs.goes [OF s(1) daemon_step.hotplug])
  let ?s1 = "usb_leave (s\<lparr>p_detach := True\<rparr>)"
  have "daemon_step (s\<lparr>p_detach := True\<rparr>) (Inr ?s1)"
    by (rule daemon_step.usb_stop) (use s in \<open>simp_all add: usb_goes_on_def\<close>)
  then have r2: "daemon_reach ?s1" by (rule runs.goes [OF r1])
  obtain s2 where s2: "mode_release dead_host ?s1 = Inr s2" "daemon_reach (s2\<lparr>p_format := em_pixel_format demo_mode, p_events_pc := EvMode demo_mode\<rparr>)"
    using mode_step [OF r2] s(2,3) by (auto simp: usb_leave_def)
  let ?s2 = "s2\<lparr>p_format := em_pixel_format demo_mode, p_events_pc := EvMode demo_mode\<rparr>"
  have eq: "s2 = ?s1" using s2(1) by (simp add: mode_release_def usb_leave_def)
  obtain tr where tr: "t6_libusb_set_resolution dead_host (\<lambda>_ _. None) [] [] (p_dev ?s2) (sint (em_width demo_mode))
      (sint (em_height demo_mode)) (sint (em_refresh_rate demo_mode)) (p_trace ?s2) = Inr (- 1, tr)"
    using dead_resolution by blast
  have "mode_set dead_host (\<lambda>_ _. None) [] [] 2 True demo_mode ?s2 = Inl AssertFailed"
    using tr s eq by (simp add: mode_set_def Let_def register_again usb_leave_def)
  moreover have "2 \<notin> p_live ?s2" "\<not> p_usb_run ?s2" "p_events_pc ?s2 = EvMode demo_mode"
    using eq s by (simp_all add: usb_leave_def)
  ultimately show ?thesis
    using s2(2) by blast
qed

text \<open>
  C11: what the threads can still do to each other. A hang-up before the first mode change aborts the daemon on the
  assertion of the library; the structure is freed while the USB thread still runs, which then uses it; a mode
  change between the grab and the compression of a frame frees the pixels being compressed; and once the USB
  thread has left its loop, the next mode change registers a second buffer under the same number, which the library
  answers with an abort.
\<close>

theorem display_faults_reached:
  "(\<exists>s. daemon_reach s \<and> p_events_pc s = EvIdle \<and> daemon_step s (Inl AssertFailed) \<and> events_flag s = Inl AssertFailed) \<and>
   (\<exists>s. daemon_reach s \<and> p_gone s \<and> p_usb_run s \<and> daemon_step s (Inl UseAfterFree)) \<and>
   (\<exists>s. daemon_reach s \<and> p_capture_pc s = CapEncode \<and> \<not> p_gone s \<and> daemon_step s (Inl UseAfterFree)) \<and>
   (\<exists>s mode host pll j4 j m alloc. daemon_reach s \<and> p_events_pc s = EvMode mode \<and> m \<notin> p_live s \<and> \<not> p_usb_run s \<and>
      mode_set host pll j4 j m alloc mode s = Inl AssertFailed)"
  by (intro conjI hang_up_aborts destroyed_under_usb freed_under_capture registered_twice)

end
