(* ===== verification/DaemonCursor.thy ===== *)
theory DaemonCursor
  imports UsbDongle EvdiLib
begin

text \<open>
  The handlers of \<^verbatim>\<open>evdi_t6_1/main.c\<close> for power and cursor events, and its two cursor threads. The threads and the
  handlers that feed them are compiled but not started (\<^verbatim>\<open>HW_CURSOR\<close> is 0). The mutexes are not modelled, and the block
  of \<^verbatim>\<open>allocate_video_frame\<close> is taken to be as large as the structure.
\<close>

section \<open>Handlers\<close>

definition mct_dpms_handler :: "usb_host \<Rightarrow> t6evdi \<Rightarrow> int \<Rightarrow> trace \<Rightarrow> trace" where
  "mct_dpms_handler host dev dpms tr =
    (let tr = (if dpms = 3 then snd (t6_libusb_set_monitor_power host dev 0 tr) else tr)
     in if dpms = 0 then snd (t6_libusb_set_monitor_power host dev 1 tr) else tr)"

text \<open>The image has the \<^verbatim>\<open>buffer_length\<close> bytes of the buffer; \<open>mem\<close> is whether the sender finds memory.\<close>

definition mct_cursor_set_handler :: "usb_host \<Rightarrow> bool \<Rightarrow> t6evdi \<Rightarrow> evdi_cursor_set_event \<Rightarrow> trace \<Rightarrow> c_error + trace" where
  "mct_cursor_set_handler host mem dev cs tr =
    (let disp = uint (disp_interface dev)
     in if cs_width cs \<noteq> 0 \<and> cs_height cs \<noteq> 0 then
          case cs_buffer cs of
            None \<Rightarrow> if mem \<and> 0 < cs_buffer_length cs then Inl NullDeref
                    else Inr (snd (t6_libusb_set_cursor_state host 0 disp 1
                          (snd (t6_libusb_set_cursor_shape host mem 0 disp (uint (cs_width cs)) (uint (cs_height cs)) [] tr))))
          | Some b \<Rightarrow>
              if length b < unat (cs_buffer_length cs) then Inl OutOfBounds
              else Inr (snd (t6_libusb_set_cursor_state host 0 disp 1
                     (snd (t6_libusb_set_cursor_shape host mem 0 disp (uint (cs_width cs)) (uint (cs_height cs))
                        (take (unat (cs_buffer_length cs)) b) tr))))
        else Inr (snd (t6_libusb_set_cursor_state host 0 disp 0 tr)))"

definition mct_cursor_move_handler :: "usb_host \<Rightarrow> t6evdi \<Rightarrow> int \<Rightarrow> int \<Rightarrow> trace \<Rightarrow> trace" where
  "mct_cursor_move_handler host dev x y tr = snd (t6_libusb_set_cursor_postion host x y (uint (disp_interface dev)) tr)"

text \<open>
  The handler that queues an image for the cursor thread: a frame of 8 bytes of header and the image, sized by stride
  times \<^emph>\<open>width\<close>. A null frame is used without a check.
\<close>

definition mct_cursor_set_handler_hw :: "bool \<Rightarrow> evdi_cursor_set_event \<Rightarrow> c_error + bytes" where
  "mct_cursor_set_handler_hw mem cs =
    (let len = (if cs_enabled cs then sint (cs_stride cs * cs_width cs + 8 :: 32 word) else 8)
     in if \<not> mem \<or> len < 0 then Inl NullDeref
        else if len < 8 then Inl OutOfBounds
        else
          let buf = replicate (nat len) 0;
              buf = write_le16 buf 2 (ucast (cs_width cs));
              buf = write_le16 buf 4 (ucast (cs_height cs));
              buf = write_le16 buf 0 (if cs_enabled cs then 1 else 0);
              buf = write_le16 buf 6 (ucast (cs_stride cs))
          in if \<not> cs_enabled cs then Inr buf
             else case cs_buffer cs of
               None \<Rightarrow> Inl NullDeref
             | Some b \<Rightarrow>
                 if length b < unat (cs_buffer_length cs) \<or> nat len < 8 + unat (cs_buffer_length cs) then Inl OutOfBounds
                 else Inr (write_bytes buf 8 (take (unat (cs_buffer_length cs)) b)))"

text \<open>At most ten positions are queued.\<close>

definition mct_cursor_move_handler_hw :: "int \<times> int \<Rightarrow> (int \<times> int) list \<Rightarrow> (int \<times> int) list" where
  "mct_cursor_move_handler_hw pos queued = (if length queued < 10 then queued @ [pos] else queued)"

section \<open>The cursor threads\<close>

text \<open>One position, if a mode is set; the result of the transfer is ignored.\<close>

definition cursor_process_pos :: "usb_host \<Rightarrow> bool \<Rightarrow> t6evdi \<Rightarrow> int \<times> int \<Rightarrow> trace \<Rightarrow> trace" where
  "cursor_process_pos host set_mode dev pos tr =
    (if \<not> set_mode then tr
     else if jpg_rotate dev = 1 then snd (t6_set_cousor_pos host (uint (Height dev) - snd pos - 64) (fst pos) tr)
     else snd (t6_set_cousor_pos host (fst pos) (snd pos) tr))"

text \<open>The rotation of an image of \<open>w\<close> times \<open>h\<close> pixels of four bytes, in place.\<close>

definition ro90 :: "bytes \<Rightarrow> nat \<Rightarrow> nat \<Rightarrow> c_error + bytes" where
  "ro90 buffer w h =
    (let tmp = concat [take 4 (drop ((x + y * w) * 4) buffer). x \<leftarrow> [0..<w], y \<leftarrow> rev [0..<h]]
     in if length buffer < w * h * 4 then Inl OutOfBounds
        else Inr (tmp @ drop (w * h * 4) buffer))"

text \<open>
  The thread of images keeps ten slots on the device: \<open>used\<close> are their marks, \<open>oldest\<close> the next to be taken over
  when all are. Of the images it keeps copies which are never read.
\<close>

record cursor_slots =
  used :: "bool list"
  oldest :: int

definition cursor_slots_start :: cursor_slots where
  "cursor_slots_start = \<lparr>used = replicate 10 False, oldest = 0\<rparr>"

definition take_slot :: "cursor_slots \<Rightarrow> int \<times> cursor_slots" where
  "take_slot st =
    (case filter (\<lambda>i. \<not> used st ! i) [0..<10] of
       i # _ \<Rightarrow> (int i, st\<lparr>used := (used st)[i := True]\<rparr>)
     | [] \<Rightarrow> (oldest st, st\<lparr>oldest := (if 9 < oldest st + 1 then 0 else oldest st + 1)\<rparr>))"

definition CURSOR_DATA_SIZE :: nat where "CURSOR_DATA_SIZE = 168385"

text \<open>
  One frame taken from the queue, \<open>behind\<close> being whether others follow it, in which case it is dropped. The cursor is
  switched on even if its image was not taken.
\<close>

definition cursor_process ::
    "usb_host \<Rightarrow> bool \<Rightarrow> t6evdi \<Rightarrow> bool \<Rightarrow> bytes \<Rightarrow> cursor_slots \<Rightarrow> trace \<Rightarrow> c_error + cursor_slots \<times> trace" where
  "cursor_process host set_mode dev behind buf st tr =
    (if behind \<or> \<not> set_mode then Inr (st, tr)
     else if length buf < 8 then Inl OutOfBounds
     else if read_le16 buf 0 = 1 then
       if CURSOR_DATA_SIZE < 1 + (length buf - 8) then Inl OutOfBounds
       else
         let (i, st) = take_slot st
         in ebind (if jpg_rotate dev = 1 then ebind (ro90 (drop 8 buf) 64 64) (\<lambda>img. Inr (take 8 buf @ img)) else Inr buf) (\<lambda>buf.
            ebind (t6_set_cousor_image host buf i tr) (\<lambda>(ret, tr). Inr (st, snd (t6_set_cousor_onoff host 1 i tr))))
     else Inr (st, snd (t6_set_cousor_onoff host 0 0 tr)))"

section \<open>The slots in turn\<close>

fun slots_taken :: "nat \<Rightarrow> cursor_slots \<Rightarrow> int list" where
  "slots_taken 0 st = []"
| "slots_taken (Suc n) st = (let (i, st) = take_slot st in i # slots_taken n st)"

text \<open>The state after \<open>k\<close> images.\<close>

definition slots_after :: "nat \<Rightarrow> cursor_slots" where
  "slots_after k = \<lparr>used = replicate (min k 10) True @ replicate (10 - k) False, oldest = (if k < 10 then 0 else int (k mod 10))\<rparr>"

lemma filter_first_unused:
  "k < n \<Longrightarrow> \<exists>ks. filter (\<lambda>i. \<not> (replicate k True @ replicate (n - k) False) ! i) [0..<n] = k # ks"
proof -
  assume k: "k < n"
  then have "[0..<n] = [0..<k] @ k # [Suc k..<n]" using upt_add_eq_append [of 0 k "n - k"] by (simp add: upt_conv_Cons)
  then show ?thesis using k by (auto simp: nth_append filter_empty_conv)
qed

lemma take_slot_after: "take_slot (slots_after k) = (int (k mod 10), slots_after (Suc k))"
proof (cases "k < 10")
  case True
  then obtain ks where "filter (\<lambda>i. \<not> used (slots_after k) ! i) [0..<10] = k # ks"
    using filter_first_unused [OF True] by (auto simp: slots_after_def)
  moreover have "(replicate k True @ replicate (10 - k) False)[k := True] = replicate (Suc k) True @ replicate (10 - Suc k) False"
  proof -
    have "10 - k = Suc (9 - k)" using True by simp
    then have "replicate (10 - k) False = False # replicate (9 - k) False" by simp
    then show ?thesis by (simp add: list_update_append replicate_app_Cons_same)
  qed
  ultimately show ?thesis using True by (simp add: take_slot_def slots_after_def mod_Suc)
next
  case False
  then have none: "filter (\<lambda>i. \<not> used (slots_after k) ! i) [0..<10] = []"
    by (simp add: filter_empty_conv slots_after_def)
  have "k mod 10 < 10" by simp
  then consider "k mod 10 = 9" | "k mod 10 < 9" by linarith
  then show ?thesis using False none by cases (simp_all add: take_slot_def slots_after_def mod_Suc)
qed

text \<open>
  the images of the cursor take the ten slots of the device in turn, whatever came before: the \<open>n\<close>-th goes to
  slot \<open>n\<close> modulo 10, so the nine images before the one shown stay on the device.
\<close>

theorem cursor_slots_in_turn:
  "slots_taken n cursor_slots_start = map (\<lambda>k. int (k mod 10)) [0..<n]"
proof -
  have "slots_taken n (slots_after k) = map (\<lambda>k. int (k mod 10)) [k..<k + n]" for k
    by (induction n arbitrary: k) (simp_all add: take_slot_after upt_conv_Cons del: upt_Suc)
  from this [of 0] show ?thesis by (simp add: slots_after_def cursor_slots_start_def)
qed

section \<open>Rotation\<close>

text \<open>On a list of pixels.\<close>

definition rot90 :: "nat \<Rightarrow> nat \<Rightarrow> 'a list \<Rightarrow> 'a list" where
  "rot90 w h ps = concat (map (\<lambda>x. map (\<lambda>y. ps ! (x + y * w)) (rev [0..<h])) [0..<w])"

lemma nth_pixel:
  "\<forall>p \<in> set ps. length p = 4 \<Longrightarrow> i < length ps \<Longrightarrow> take 4 (drop (i * 4) (concat ps @ r)) = ps ! i"
proof (induction ps arbitrary: i)
  case (Cons p ps)
  then show ?case by (cases i) simp_all
qed simp

lemma index_in_image: "x < w \<Longrightarrow> y < h \<Longrightarrow> x + y * w < w * (h :: nat)"
proof -
  assume "x < w" "y < h"
  then have "x + y * w < Suc y * w" by simp
  also have "\<dots> \<le> h * w" using \<open>y < h\<close> by (intro mult_le_mono1) simp
  finally show ?thesis by (simp add: mult.commute)
qed

lemma ro90_pixels:
  assumes "\<forall>p \<in> set ps. length p = 4" "length ps = w * h"
  shows "ro90 (concat ps @ r) w h = Inr (concat (rot90 w h ps) @ r)"
proof -
  have len: "length (concat ps) = w * h * 4" using assms by (simp add: length_concat sum_list_triv map_cong [of ps ps length "\<lambda>_. 4"])
  have "map (\<lambda>y. take 4 (drop ((x + y * w) * 4) (concat ps @ r))) (rev [0..<h]) = map (\<lambda>y. ps ! (x + y * w)) (rev [0..<h])"
    if "x < w" for x
  proof (rule map_cong [OF refl])
    fix y assume "y \<in> set (rev [0..<h])"
    then have "x + y * w < length ps" using index_in_image [OF that, of y h] assms(2) by simp
    then show "take 4 (drop ((x + y * w) * 4) (concat ps @ r)) = ps ! (x + y * w)" by (rule nth_pixel [OF assms(1)])
  qed
  then have "concat (map (\<lambda>x. map (\<lambda>y. take 4 (drop ((x + y * w) * 4) (concat ps @ r))) (rev [0..<h])) [0..<w]) = rot90 w h ps"
    unfolding rot90_def by (intro arg_cong [where f = concat] map_cong) auto
  then show ?thesis unfolding ro90_def Let_def by (simp only:) (simp add: len)
qed

lemma nth_concat_map:
  "j < w * length ys \<Longrightarrow> concat (map (\<lambda>x. map (f x) ys) [0..<w]) ! j = f (j div length ys) (ys ! (j mod length ys))"
proof (induction w)
  case (Suc w)
  have len: "length (concat (map (\<lambda>x. map (f x) ys) [0..<w])) = w * length ys"
    by (simp add: length_concat comp_def sum_list_triv)
  show ?case
  proof (cases "j < w * length ys")
    case True
    then show ?thesis using Suc.IH by (simp add: nth_append len)
  next
    case False
    then obtain k where k: "j = w * length ys + k" "k < length ys"
      using Suc.prems by (metis add.commute add_less_cancel_left le_iff_add mult_Suc not_less)
    moreover have "ys \<noteq> []" using k(2) by auto
    ultimately show ?thesis by (simp add: nth_append len)
  qed
qed simp

lemma length_rot90 [simp]: "length (rot90 w h ps) = w * h"
  by (simp add: rot90_def length_concat comp_def sum_list_triv)

lemma rot90_nth:
  assumes "j < w * h"
  shows "rot90 w h ps ! j = ps ! (j div h + (h - Suc (j mod h)) * w)"
proof -
  have "j mod h < h" using assms by (intro mod_less_divisor) (cases h; simp)
  then show ?thesis
    using nth_concat_map [of j w "rev [0..<h]" "\<lambda>x y. ps ! (x + y * w)"] assms by (simp add: rot90_def rev_nth)
qed

lemma rot90_twice:
  assumes "length ps = w * h"
  shows "rot90 h w (rot90 w h ps) = rev ps"
proof (rule nth_equalityI)
  fix j assume "j < length (rot90 h w (rot90 w h ps))"
  then have j: "j < h * w" by simp
  then have w: "0 < w" "0 < h" by (cases w; simp; cases h; simp)+
  define a b where "a = j div w" and "b = j mod w"
  have ab: "j = b + a * w" "b < w" "a < h"
    using w j by (simp_all add: a_def b_def less_mult_imp_div_less)
  have i: "a + (w - Suc b) * h < w * h" using index_in_image [of a h "w - Suc b" w] ab by (simp add: mult.commute)
  have "rot90 h w (rot90 w h ps) ! j = rot90 w h ps ! (a + (w - Suc b) * h)"
    using rot90_nth [OF j] by (simp add: a_def b_def)
  also have "\<dots> = ps ! ((w - Suc b) + (h - Suc a) * w)"
    using rot90_nth [OF i] ab w by simp
  also have "(w - Suc b) + (h - Suc a) * w = w * h - Suc j"
  proof -
    obtain c d where "w = Suc b + c" "h = Suc a + d" using ab(2,3) by (metis Suc_leI le_iff_add)
    then show ?thesis using ab(1) by (simp add: algebra_simps)
  qed
  finally show "rot90 h w (rot90 w h ps) ! j = rev ps ! j" using j assms by (simp add: rev_nth mult.commute)
qed (use assms in simp)

text \<open>
  \<^verbatim>\<open>ro90\<close> rotates an image inside the buffer and leaves what follows it: the bytes of each pixel stay together,
  two rotations turn the image upside down, four give it back.
\<close>

theorem ro90_four_times:
  assumes "\<forall>p \<in> set ps. length p = 4" "length ps = w * h"
  shows "ebind (ro90 (concat ps @ r) w h) (\<lambda>b. ro90 b h w) = Inr (concat (rev ps) @ r) \<and>
    ebind (ro90 (concat ps @ r) w h) (\<lambda>b. ebind (ro90 b h w) (\<lambda>b. ebind (ro90 b w h) (\<lambda>b. ro90 b h w))) = Inr (concat ps @ r)"
proof -
  have set: "set (rot90 w h qs) \<subseteq> set qs" if "length qs = w * h" for qs :: "bytes list" and w h
    using that index_in_image [of _ w _ h] by (fastforce simp: rot90_def)
  have two: "ebind (ro90 (concat qs @ r) w h) (\<lambda>b. ro90 b h w) = Inr (concat (rev qs) @ r)"
    if "\<forall>p \<in> set qs. length p = 4" "length qs = w * h" for qs
  proof -
    have "\<forall>p \<in> set (rot90 w h qs). length p = 4" using that(1) set [OF that(2)] by blast
    from ro90_pixels [OF this, of h w r] show ?thesis
      using ro90_pixels [OF that] rot90_twice [OF that(2)] by (simp add: mult.commute)
  qed
  have "ebind (ro90 (concat ps @ r) w h) (\<lambda>b. ebind (ro90 b h w) (\<lambda>b. ebind (ro90 b w h) (\<lambda>b. ro90 b h w))) =
      ebind (ebind (ro90 (concat ps @ r) w h) (\<lambda>b. ro90 b h w)) (\<lambda>b. ebind (ro90 b w h) (\<lambda>b. ro90 b h w))"
    by (simp add: ebind_def split: sum.splits)
  then show ?thesis using two [OF assms] two [of "rev ps"] assms by simp
qed

lemma ro90_four_times_witness:
  "ebind (ro90 (concat [[1, 2, 3, 4], [5, 6, 7, 8]] @ [9]) 2 1) (\<lambda>b. ro90 b 1 2) = Inr (concat (rev [[1, 2, 3, 4], [5, 6, 7, 8]]) @ [9])"
  using ro90_four_times [of "[[1, 2, 3, 4], [5, 6, 7, 8]]" 2 1 "[9]"] by simp

section \<open>The size of a queued image\<close>

text \<open>
  the frame for a new cursor image is sized with the stride times the width. An image of as many lines as it is
  high fits exactly when it is not higher than wide; a higher one is copied past the end of the frame.
\<close>

theorem hw_cursor_image_fits:
  assumes "cs_enabled cs" "cs_buffer cs = Some b" "length b = unat (cs_stride cs) * unat (cs_height cs)"
    and "cs_buffer_length cs = cs_stride cs * cs_height cs" "0 < unat (cs_stride cs)"
    and "unat (cs_stride cs) * unat (cs_height cs) < 2 ^ 31" "unat (cs_stride cs) * unat (cs_width cs) + 8 < 2 ^ 31"
  shows "mct_cursor_set_handler_hw True cs =
    (if cs_height cs \<le> cs_width cs
     then Inr (write_bytes (write_le16 (write_le16 (write_le16 (write_le16
            (replicate (unat (cs_stride cs) * unat (cs_width cs) + 8) 0) 2 (ucast (cs_width cs))) 4 (ucast (cs_height cs))) 0 1)
            6 (ucast (cs_stride cs))) 8 b)
     else Inl OutOfBounds)"
proof -
  have "unat (cs_stride cs * cs_width cs + 8 :: 32 word) = unat (cs_stride cs) * unat (cs_width cs) + 8"
    using assms(7) by (simp add: unat_add_no_wrap unat_mult_no_wrap)
  then have u: "uint (cs_stride cs * cs_width cs + 8 :: 32 word) = int (unat (cs_stride cs) * unat (cs_width cs) + 8)"
    by (metis uint_nat)
  have len: "sint (cs_stride cs * cs_width cs + 8 :: 32 word) = int (unat (cs_stride cs) * unat (cs_width cs) + 8)"
  proof -
    have "n < 2 ^ 31 \<Longrightarrow> signed_take_bit (LENGTH(32) - Suc 0) (int n) = int n" for n
      by (rule signed_take_bit_int_eq_self) simp_all
    from this [OF assms(7)] show ?thesis by (simp only: sint_uint u One_nat_def)
  qed
  have l: "unat (cs_buffer_length cs) = unat (cs_stride cs) * unat (cs_height cs)"
    using assms(4,6) by (simp add: unat_mult_no_wrap)
  define N M where "N = unat (cs_stride cs) * unat (cs_width cs)" and "M = unat (cs_stride cs) * unat (cs_height cs)"
  have c: "cs_height cs \<le> cs_width cs \<longleftrightarrow> M \<le> N"
    using assms(5) by (simp add: N_def M_def word_le_nat_alt)
  note facts = len [folded N_def] l [folded M_def] assms(3) [folded M_def]
  show ?thesis unfolding N_def [symmetric] c
    using assms(1,2) by (simp add: mct_cursor_set_handler_hw_def facts Let_def nat_add_distrib not_le)
qed

definition demo_cursor :: evdi_cursor_set_event where
  "demo_cursor = \<lparr>cs_hot = (0, 0), cs_width = 1, cs_height = 2, cs_enabled = True, cs_buffer_length = 8,
     cs_buffer = Some [1, 2, 3, 4, 5, 6, 7, 8], cs_pixel_format = 0, cs_stride = 4\<rparr>"

lemma hw_cursor_image_fits_witness: "mct_cursor_set_handler_hw True demo_cursor = Inl OutOfBounds"
  using hw_cursor_image_fits [of demo_cursor "[1, 2, 3, 4, 5, 6, 7, 8]"] by (simp add: demo_cursor_def word_le_nat_alt)

end
