(* ===== verification/T6Contrl.thy ===== *)
theory T6Contrl
  imports DaemonDevice
begin

text \<open>
  The command line tool \<^verbatim>\<open>evdi_t6_1/T6contrl.c\<close>. The options are the answers of \<^verbatim>\<open>getopt_long\<close>, in order, each with its
  argument; what is printed is a list of lines, each with the values of its format. The variables that
  live across options are kept: the return value, and the two arrays of the serial number.
\<close>

section \<open>Options and output\<close>

datatype contrl_opt =
    Touch string | Brightness string | UsageTime string | Rotate string | Update string | Down string
  | Firmware | Custom | Help | SerialNo | UnknownOpt

datatype contrl_line =
    Active string | TouchSet bool | TouchState int | CustomSet | BrightnessIs int | BrightnessSet int
  | UsageTimeIs int | UsageTimeSet int | RotateSet int | HpVersion "int list" | DisplayVersion "int list"
  | SerialNumber bytes | FileName string | DeviceNotFound | ReadFileFailed | RomSize int | WriteRomFailed | Usage

record contrl =
  c_handle :: usb_handle
  c_ret :: int
  c_sn :: bytes
  c_rsn :: "u8 option list"
  c_trace :: trace
  c_out :: "contrl_line list"

text \<open>
  The environment: the devices of the first search and of the one after the reset, the files that can be opened
  with their contents, the bytes that \<^verbatim>\<open>t6_write_rom_date\<close> leaves unset with the amounts its transfers carry, and the
  answers of the interrupt endpoint.
\<close>

record contrl_env =
  ce_lu :: lu_env
  ce_devices :: "nat list"
  ce_devices2 :: "nat list"
  ce_files :: "string \<Rightarrow> bytes option"
  ce_rsvd :: bytes
  ce_xfer :: "trace \<Rightarrow> usb_xfer \<Rightarrow> int"
  ce_answers :: "(int \<times> bytes) list"

text \<open>How the program goes on after an option.\<close>

datatype contrl_next = NextOption | ExitCode int | WaitsForRom

definition say :: "contrl_line list \<Rightarrow> contrl \<Rightarrow> contrl" where
  "say ls s = s\<lparr>c_out := c_out s @ ls\<rparr>"

text \<open>A command needs the handle, which is null after an update that found no device.\<close>

definition with_handle :: "(trace \<Rightarrow> int \<times> trace) \<Rightarrow> contrl \<Rightarrow> c_error + contrl" where
  "with_handle cmd s =
    (case c_handle s of
       NullHandle \<Rightarrow> Inl NullDeref
     | ClosedHandle _ \<Rightarrow> Inl UseAfterFree
     | OpenHandle _ \<Rightarrow> (let (ret, tr) = cmd (c_trace s) in Inr (s\<lparr>c_ret := ret, c_trace := tr\<rparr>)))"

section \<open>Numbers and strings\<close>

definition digit_of :: "char \<Rightarrow> int" where
  "digit_of c =
    (let n = of_char c :: int
     in if 48 \<le> n \<and> n \<le> 57 then n - 48 else if 97 \<le> n \<and> n \<le> 122 then n - 87 else if 65 \<le> n \<and> n \<le> 90 then n - 55 else 99)"

fun digits :: "int \<Rightarrow> int \<Rightarrow> string \<Rightarrow> int" where
  "digits base acc [] = acc"
| "digits base acc (c # cs) = (if digit_of c < base then digits base (acc * base + digit_of c) cs else acc)"

text \<open>\<^verbatim>\<open>strtol(s, NULL, 0)\<close>: octal after a zero, hexadecimal after \<^verbatim>\<open>0x\<close> and a digit; the value saturates in a \<^verbatim>\<open>long\<close>.\<close>

definition magnitude :: "string \<Rightarrow> int" where
  "magnitude s =
    (case s of
       z # x # d # cs \<Rightarrow>
         if z = CHR ''0'' \<and> (x = CHR ''x'' \<or> x = CHR ''X'') \<and> digit_of d < 16 then digits 16 0 (d # cs)
         else digits (if z = CHR ''0'' then 8 else 10) 0 s
     | z # cs \<Rightarrow> digits (if z = CHR ''0'' then 8 else 10) 0 s
     | [] \<Rightarrow> 0)"

definition strtol0 :: "string \<Rightarrow> int" where
  "strtol0 s =
    (let s = dropWhile (\<lambda>c. c \<in> {CHR '' '', CHR 0x09, CHR 0x0A, CHR 0x0B, CHR 0x0C, CHR 0x0D}) s;
         v = (case s of [] \<Rightarrow> 0
              | c # cs \<Rightarrow> if c = CHR ''-'' then - magnitude cs else if c = CHR ''+'' then magnitude cs else magnitude s)
     in max (- 9223372036854775808) (min 9223372036854775807 v))"

text \<open>The conversion to a \<^verbatim>\<open>char\<close>, which is signed.\<close>

definition c_char :: "int \<Rightarrow> int" where "c_char x = signed_take_bit 7 x"

text \<open>The characters of the four bytes of \<^verbatim>\<open>ret\<close>, as \<^verbatim>\<open>printf\<close> gets them.\<close>

definition ver_chars :: "int \<Rightarrow> int list" where
  "ver_chars ret = map (\<lambda>i. c_char (drop_bit (8 * i) ret)) [0, 1, 2, 3]"

text \<open>\<^verbatim>\<open>strlen\<close> of an array, and printing one with \<^verbatim>\<open>%s\<close>, whose elements may never have been written.\<close>

definition array_strlen :: "bytes \<Rightarrow> c_error + nat" where
  "array_strlen b = (if 0 \<in> set b then Inr (length (takeWhile (\<lambda>x. x \<noteq> 0) b)) else Inl OutOfBounds)"

fun print_array :: "u8 option list \<Rightarrow> c_error + bytes" where
  "print_array [] = Inl OutOfBounds"
| "print_array (None # xs) = Inl Uninitialised"
| "print_array (Some c # xs) = (if c = 0 then Inr [] else ebind (print_array xs) (\<lambda>cs. Inr (c # cs)))"

section \<open>The options\<close>

definition contrl_touch :: "usb_host \<Rightarrow> string \<Rightarrow> contrl \<Rightarrow> c_error + contrl" where
  "contrl_touch host arg s =
    (let s = say [Active arg] s
     in if arg = ''on'' then
          ebind (with_handle (t6_libusb_set_touch host 1) s) (\<lambda>s. Inr (if c_ret s = 0 then say [TouchSet True] s else s))
        else if arg = ''off'' then
          ebind (with_handle (t6_libusb_set_touch host 0) s) (\<lambda>s. Inr (if c_ret s = 0 then say [TouchSet False] s else s))
        else if arg = ''get'' then
          ebind (with_handle (t6_libusb_get_touch host) s) (\<lambda>s. Inr (if c_ret s < 0 then s else say [TouchState (c_ret s)] s))
        else Inr s)"

definition contrl_custom :: "usb_host \<Rightarrow> contrl \<Rightarrow> c_error + contrl" where
  "contrl_custom host s =
    ebind (with_handle (t6_libusb_set_custom host) s) (\<lambda>s. Inr (if c_ret s = 0 then say [CustomSet] s else s))"

definition contrl_brightness :: "usb_host \<Rightarrow> string \<Rightarrow> contrl \<Rightarrow> c_error + contrl" where
  "contrl_brightness host arg s =
    (let s = say [Active arg] s
     in if arg = ''get'' then
          ebind (with_handle (t6_libusb_get_brightness host) s) (\<lambda>s. Inr (if c_ret s < 0 then s else say [BrightnessIs (c_ret s)] s))
        else
          let bvalue = c_char (strtol0 arg)
          in ebind (with_handle (t6_libusb_set_brightness host bvalue) s)
               (\<lambda>s. Inr (if c_ret s = 0 then say [BrightnessSet bvalue] s else s)))"

definition contrl_usagetime :: "usb_host \<Rightarrow> string \<Rightarrow> contrl \<Rightarrow> c_error + contrl" where
  "contrl_usagetime host arg s =
    (let s = say [Active arg] s
     in if arg = ''get'' then
          ebind (with_handle (t6_libusb_get_usagetime host) s) (\<lambda>s. Inr (if c_ret s < 0 then s else say [UsageTimeIs (c_ret s)] s))
        else
          let ustime = c_int (strtol0 arg)
          in ebind (with_handle (t6_libusb_set_usagetime host (word_of_int ustime)) s)
               (\<lambda>s. Inr (if c_ret s = 0 then say [UsageTimeSet ustime] s else s)))"

definition contrl_firmware :: "usb_host \<Rightarrow> contrl \<Rightarrow> c_error + contrl" where
  "contrl_firmware host s =
    ebind (with_handle (t6_libusb_get_version host 6) s) (\<lambda>s.
      if c_ret s < 0 then Inr s
      else
        let v = ver_chars (c_ret s);
            s = say [HpVersion (if v ! 0 = 0 then [v ! 3, v ! 2, v ! 1] else [v ! 3, v ! 2, v ! 1, v ! 0])] s
        in ebind (with_handle (t6_libusb_get_version host 2) s) (\<lambda>s.
             if c_ret s < 0 then Inr s
             else let v = ver_chars (c_ret s) in Inr (say [DisplayVersion [v ! 3, v ! 2, v ! 1, v ! 0]] s)))"

text \<open>The case of the rotation has no \<^verbatim>\<open>break\<close>, and for any other angle it tests an old \<^verbatim>\<open>ret\<close>.\<close>

definition contrl_rotate :: "usb_host \<Rightarrow> string \<Rightarrow> contrl \<Rightarrow> c_error + contrl" where
  "contrl_rotate host arg s =
    (let s = say [Active arg] s; on = c_int (strtol0 arg)
     in ebind (if on = 0 then with_handle (t6_libusb_set_rotate host 0) s
               else if on = 90 then with_handle (t6_libusb_set_rotate host 1) s
               else if on = 180 then with_handle (t6_libusb_set_rotate host 2) s
               else if on = 270 then with_handle (t6_libusb_set_rotate host 3) s
               else Inr s)
          (\<lambda>s. contrl_firmware host (if c_ret s = 0 then say [RotateSet on] s else s)))"

definition contrl_sn :: "usb_host \<Rightarrow> contrl \<Rightarrow> c_error + contrl" where
  "contrl_sn host s =
    (case c_handle s of
       NullHandle \<Rightarrow> Inl NullDeref
     | ClosedHandle _ \<Rightarrow> Inl UseAfterFree
     | OpenHandle _ \<Rightarrow>
         let (ret, sn, tr) = t6_libusb_get_sn host (c_sn s) (c_trace s);
             s = s\<lparr>c_ret := ret, c_sn := sn, c_trace := tr\<rparr>
         in if ret < 0 then Inr s
            else ebind (array_strlen sn) (\<lambda>slen.
              let rsn = map Some (rev (take slen sn)) @ drop slen (c_rsn s)
              in ebind (print_array rsn) (\<lambda>chars. Inr (say [SerialNumber chars] (s\<lparr>c_rsn := rsn\<rparr>)))))"

definition contrl_down :: "usb_host \<Rightarrow> string \<Rightarrow> contrl \<Rightarrow> c_error + contrl" where
  "contrl_down host arg s =
    (let bvalue = c_char (strtol0 arg); bvalue = (if bvalue < 0 \<or> 1 < bvalue then 1 else bvalue)
     in with_handle (t6_libusb_set_monitor_power2 host bvalue) s)"

text \<open>\<^verbatim>\<open>libusb_close\<close> accepts a null handle.\<close>

definition close_handle :: "contrl \<Rightarrow> c_error + contrl" where
  "close_handle s =
    (case c_handle s of
       NullHandle \<Rightarrow> Inr s
     | ClosedHandle _ \<Rightarrow> Inl UseAfterFree
     | OpenHandle d \<Rightarrow> Inr (s\<lparr>c_handle := ClosedHandle d\<rparr>))"

text \<open>What \<^verbatim>\<open>FileRead\<close> returns, with what it stores: not more than the 8 MiB it asks for.\<close>

definition FileRead :: "(string \<Rightarrow> bytes option) \<Rightarrow> string \<Rightarrow> int \<times> bytes" where
  "FileRead files filename =
    (case files filename of None \<Rightarrow> (- 1, [])
     | Some f \<Rightarrow> (int (length (take 8388608 f)), take 8388608 f))"

definition contrl_update :: "usb_host \<Rightarrow> contrl_env \<Rightarrow> string \<Rightarrow> contrl \<Rightarrow> c_error + contrl \<times> contrl_next" where
  "contrl_update host env arg s =
    ebind (with_handle (\<lambda>tr. (c_ret s, t6_libusb_donglereset2 host tr)) (say [FileName arg] s)) (\<lambda>s.
    ebind (close_handle s) (\<lambda>s.
      let s = s\<lparr>c_handle := GetT6Device (ce_lu env) (ce_devices2 env)\<rparr>
      in if c_handle s = NullHandle then Inr (say [DeviceNotFound] s, NextOption)
         else
           let (rom_size, rom) = FileRead (ce_files env) arg
           in if rom_size < 0 then Inr (say [ReadFileFailed] s, NextOption)
              else
                let s = say [RomSize rom_size] s;
                    (ret, tr) = t6_write_rom_date host (ce_xfer env) (ce_rsvd env) (take (nat rom_size) rom) (c_trace s);
                    s = s\<lparr>c_trace := tr\<rparr>
                in if ret < 0 then Inr (say [WriteRomFailed] s, NextOption)
                   else case ShowRomMsg (ce_answers env) of
                     None \<Rightarrow> Inr (s, WaitsForRom)
                   | Some _ \<Rightarrow>
                       ebind (close_handle (s\<lparr>c_trace := t6_libusb_donglereset2 host (c_trace s)\<rparr>)) (\<lambda>s.
                         Inr (s, ExitCode 0))))"

definition contrl_option :: "usb_host \<Rightarrow> contrl_env \<Rightarrow> contrl_opt \<Rightarrow> contrl \<Rightarrow> c_error + contrl \<times> contrl_next" where
  "contrl_option host env opt s =
    (let again = (\<lambda>r. ebind r (\<lambda>s. Inr (s, NextOption)));
         leave = (\<lambda>code. ebind (close_handle (say [Usage] s)) (\<lambda>s. Inr (s, ExitCode code)))
     in case opt of
          Touch arg \<Rightarrow> again (contrl_touch host arg s)
        | Help \<Rightarrow> leave 0
        | Custom \<Rightarrow> again (contrl_custom host s)
        | Brightness arg \<Rightarrow> again (contrl_brightness host arg s)
        | UsageTime arg \<Rightarrow> again (contrl_usagetime host arg s)
        | Rotate arg \<Rightarrow> again (contrl_rotate host arg s)
        | Firmware \<Rightarrow> again (contrl_firmware host s)
        | SerialNo \<Rightarrow> again (contrl_sn host s)
        | Down arg \<Rightarrow> again (contrl_down host arg s)
        | Update arg \<Rightarrow> contrl_update host env arg s
        | UnknownOpt \<Rightarrow> leave 1)"

fun contrl_loop :: "usb_host \<Rightarrow> contrl_env \<Rightarrow> contrl_opt list \<Rightarrow> contrl \<Rightarrow> c_error + contrl \<times> contrl_next" where
  "contrl_loop host env [] s = ebind (close_handle s) (\<lambda>s. Inr (s, ExitCode 0))"
| "contrl_loop host env (opt # opts) s =
    ebind (contrl_option host env opt s) (\<lambda>(s, k). if k = NextOption then contrl_loop host env opts s else Inr (s, k))"

text \<open>The program: \<open>junk\<close> is what the array \<^verbatim>\<open>sn\<close> holds at the start.\<close>

definition contrl_main :: "usb_host \<Rightarrow> contrl_env \<Rightarrow> bytes \<Rightarrow> contrl_opt list \<Rightarrow> c_error + contrl \<times> contrl_next" where
  "contrl_main host env junk opts =
    (let s = \<lparr>c_handle = GetT6Device (ce_lu env) (ce_devices env), c_ret = 0, c_sn = junk, c_rsn = replicate 8 None,
              c_trace = [], c_out = []\<rparr>
     in if c_handle s = NullHandle then Inr (say [DeviceNotFound] s, ExitCode 0) else contrl_loop host env opts s)"

section \<open>Strings that stay within their numbers\<close>

definition no_serial :: "contrl \<Rightarrow> bool" where
  "no_serial s \<longleftrightarrow> Some 0 \<notin> set (c_rsn s) \<and> (\<forall>chars. SerialNumber chars \<notin> set (c_out s))"

lemma print_array_no_nul: "Some 0 \<notin> set xs \<Longrightarrow> print_array xs \<noteq> Inr chars"
  by (induction xs arbitrary: chars rule: print_array.induct) (auto simp: ebind_eq_Inr)

lemma with_handle_frame:
  "with_handle cmd s = Inr s' \<Longrightarrow> c_rsn s' = c_rsn s \<and> c_out s' = c_out s \<and> c_handle s' = c_handle s"
  by (auto simp: with_handle_def split: usb_handle.splits prod.splits)

lemma close_handle_frame: "close_handle s = Inr s' \<Longrightarrow> c_rsn s' = c_rsn s \<and> c_out s' = c_out s"
  by (auto simp: close_handle_def split: usb_handle.splits)

lemma no_serial_with_handle: "with_handle cmd s = Inr s' \<Longrightarrow> no_serial s \<Longrightarrow> no_serial s'"
  using with_handle_frame [of cmd s s'] by (simp add: no_serial_def)

lemma no_serial_close: "close_handle s = Inr s' \<Longrightarrow> no_serial s \<Longrightarrow> no_serial s'"
  using close_handle_frame [of s s'] by (simp add: no_serial_def)

lemma no_serial_say [simp]: "no_serial (say ls s) \<longleftrightarrow> no_serial s \<and> (\<forall>chars. SerialNumber chars \<notin> set ls)"
  by (auto simp: no_serial_def say_def)

lemma no_serial_update [simp]:
  "no_serial (s\<lparr>c_handle := h\<rparr>) = no_serial s" "no_serial (s\<lparr>c_trace := tr\<rparr>) = no_serial s"
  by (simp_all add: no_serial_def)

lemma no_serial_firmware: "contrl_firmware host s = Inr s' \<Longrightarrow> no_serial s \<Longrightarrow> no_serial s'"
  by (auto simp: contrl_firmware_def ebind_eq_Inr Let_def split: if_splits dest!: no_serial_with_handle)

lemma contrl_sn_silent:
  assumes "contrl_sn host s = Inr s'" "no_serial s"
  shows "no_serial s' \<and> c_ret s' < 0"
proof -
  obtain ret sn tr where g: "t6_libusb_get_sn host (c_sn s) (c_trace s) = (ret, sn, tr)" by (metis surj_pair)
  show ?thesis
  proof (cases "ret < 0")
    case True
    with assms g show ?thesis by (auto simp: contrl_sn_def no_serial_def split: usb_handle.splits)
  next
    case False
    have "array_strlen sn \<noteq> Inr slen \<or> print_array (map Some (rev (take slen sn)) @ drop slen (c_rsn s)) \<noteq> Inr chars" for slen chars
    proof (cases "array_strlen sn = Inr slen")
      case True
      then have "0 \<notin> set (take slen sn)"
        by (auto simp: array_strlen_def takeWhile_eq_take [symmetric] dest: set_takeWhileD split: if_splits)
      then have "Some 0 \<notin> set (map Some (rev (take slen sn)) @ drop slen (c_rsn s))"
        using assms(2) by (auto simp: no_serial_def dest: in_set_dropD)
      then show ?thesis using print_array_no_nul by blast
    qed simp
    with assms(1) False g show ?thesis
      by (auto simp: contrl_sn_def ebind_eq_Inr Let_def split: usb_handle.splits)
  qed
qed

lemma no_serial_option:
  assumes "contrl_option host env opt s = Inr (s', k)" "no_serial s"
  shows "no_serial s'"
  using assms
  by (cases opt)
     (auto simp: contrl_option_def contrl_touch_def contrl_custom_def contrl_brightness_def contrl_usagetime_def contrl_rotate_def
       contrl_down_def contrl_update_def ebind_eq_Inr Let_def split: if_splits prod.splits option.splits
       dest!: no_serial_with_handle no_serial_firmware no_serial_close contrl_sn_silent)

lemma no_serial_loop: "contrl_loop host env opts s = Inr (s', k) \<Longrightarrow> no_serial s \<Longrightarrow> no_serial s'"
proof (induction opts arbitrary: s)
  case (Cons opt opts)
  then show ?case by (auto simp: ebind_eq_Inr split: if_splits dest: no_serial_option)
qed (auto simp: ebind_eq_Inr dest: no_serial_close)

text \<open>
  the tool never prints a serial number within the bounds of its arrays: the reversed copy is not terminated, so
  whatever options are given and whatever the device answers, a run that reads and writes only what it may has
  printed none.
\<close>

theorem serial_number_never_printed:
  assumes "contrl_main host env junk opts = Inr (s, k)"
  shows "SerialNumber chars \<notin> set (c_out s)"
proof -
  have "no_serial s"
    using assms no_serial_loop [of host env opts _ s k]
    by (auto simp: contrl_main_def Let_def no_serial_def say_def split: if_splits)
  then show ?thesis by (simp add: no_serial_def)
qed

definition demo_contrl :: contrl_env where
  "demo_contrl = \<lparr>ce_lu = demo_lu, ce_devices = [1], ce_devices2 = [1], ce_files = (\<lambda>_. Some [7, 8, 9]), ce_rsvd = [0, 0, 0],
     ce_xfer = (\<lambda>tr x. int (length (xfer_payload x))), ce_answers = [(0, replicate 64 0)]\<rparr>"

section \<open>The firmware update\<close>

text \<open>
  a firmware update in which nothing fails resets the dongle, sends exactly the header with the length and then
  the file, or its first 8 MiB, waits for the dongle to report, resets it again and leaves with its handle closed; everything before
  in the bulk stream is untouched.
\<close>

theorem firmware_update_sends_file:
  assumes "c_handle s = OpenHandle d" "GetT6Device (ce_lu env) (ce_devices2 env) = OpenHandle d'"
    and "ce_files env arg = Some content" "\<And>tr x. 0 \<le> fst (host tr x)"
    and "\<And>tr x. ce_xfer env tr x = int (length (xfer_payload x))" "ShowRomMsg (ce_answers env) = Some r"
  defines "rom \<equiv> take 8388608 content"
  shows "\<exists>s'. contrl_update host env arg s = Inr (s', ExitCode 0) \<and> c_handle s' = ClosedHandle d' \<and>
    bulk_payloads EP_BLK_OUT_ADDR (c_trace s') =
      bulk_payloads EP_BLK_OUT_ADDR (c_trace s) @ [rom_header (ce_rsvd env) (int (length rom)), rom] \<and>
    c_out s' = c_out s @ [FileName arg, RomSize (int (length rom))]"
proof -
  have neg: "fst (host tr x) < 0 \<longleftrightarrow> False" for tr x using assms(4) [of tr x] by simp
  have len: "length (rom_header rsvd n) = 32" for rsvd n by (simp add: rom_header_def wire)
  have read: "FileRead (ce_files env) arg = (int (length rom), rom)" by (simp add: FileRead_def assms(3) rom_def)
  show ?thesis
    using assms(1,2,5,6)
    by (simp add: contrl_update_def read with_handle_def close_handle_def say_def t6_write_rom_date_def usb_send_def neg len Let_def
      t6_libusb_donglereset2_def)
qed

definition demo_handle :: contrl where
  "demo_handle = \<lparr>c_handle = OpenHandle 1, c_ret = 0, c_sn = replicate 8 0, c_rsn = replicate 8 None, c_trace = [], c_out = []\<rparr>"

lemma firmware_update_sends_file_witness:
  "\<exists>s'. contrl_update (\<lambda>tr x. (0, [])) demo_contrl ''rom.bin'' demo_handle = Inr (s', ExitCode 0) \<and>
     bulk_payloads EP_BLK_OUT_ADDR (c_trace s') = [rom_header [0, 0, 0] 3, [7, 8, 9]]"
proof -
  have "ShowRomMsg (ce_answers demo_contrl) = Some NoFunction" by (simp add: demo_contrl_def)
  moreover have "GetT6Device (ce_lu demo_contrl) (ce_devices2 demo_contrl) = OpenHandle 1"
    by (simp add: demo_contrl_def demo_lu_def is_T6dev_contrl_def)
  ultimately show ?thesis
    using firmware_update_sends_file [of demo_handle 1 demo_contrl 1 "''rom.bin''" "[7, 8, 9]" "\<lambda>tr x. (0, [])" NoFunction]
    by (auto simp: demo_contrl_def demo_handle_def)
qed

lemma serial_number_never_printed_witness:
  "case contrl_main (\<lambda>tr x. (1, [65, 66, 67, 68])) demo_contrl (replicate 8 0) [Firmware] of
     Inl e \<Rightarrow> False | Inr (s, k) \<Rightarrow> k = ExitCode 0 \<and> length (c_out s) = 2 \<and> SerialNumber [65] \<notin> set (c_out s)"
proof -
  obtain s k where m: "contrl_main (\<lambda>tr x. (1, [65, 66, 67, 68])) demo_contrl (replicate 8 0) [Firmware] = Inr (s, k)"
    "k = ExitCode 0" "length (c_out s) = 2"
    by (simp add: contrl_main_def contrl_option_def contrl_firmware_def with_handle_def close_handle_def say_def demo_contrl_def demo_lu_def
      is_T6dev_contrl_def t6_libusb_get_version_def vendor_get_def usb_recv_def sint32_def read_le32_def Let_def)
  with serial_number_never_printed [OF m(1)] show ?thesis by simp
qed

end
