(* ===== verification/Spec2Isabelle.thy ===== *)
theory Spec2Isabelle
  imports T6Proto FrameQueue Trigger6 UrbPool CeaEdid UsbDongle PainterEvents LibEvents LibState EvdiCommit EvdiFbUser EvdiLegacy EvdiPipe PixelClock RectLattice EndToEnd EvdiSysfs EvdiConnector EvdiCompat
    DaemonMemory DaemonCapture DaemonDevice DaemonThreads DaemonCursor T6Contrl
begin

text \<open>
  Verification development of the \<^verbatim>\<open>trigger6\<close> repository: drivers for USB display adapters with the MCT Trigger 6
  chip. It models the C code of its three implementations and proves what makes them correct, and where they are
  not, what exactly goes wrong.

  \<^bold>\<open>The program.\<close> There are two ways from a picture to the adapter.

  \<^item> The Linux DRM driver at the root of the repository (\<^verbatim>\<open>trigger6_drv.c\<close>, \<^verbatim>\<open>trigger6_connector.c\<close>,
    \<^verbatim>\<open>trigger6_commands.c\<close>, \<^verbatim>\<open>trigger6_transfer.c\<close>, \<^verbatim>\<open>trigger6.h\<close>) sends the frames of a pipe itself. The
    library \<^verbatim>\<open>mac/t6proto\<close> holds the same protocol in portable C, for an implementation on macOS.
  \<^item> The vendor's package under \<^verbatim>\<open>extracted/ubuntu_T6_260223\<close> has three layers. The kernel module \<^verbatim>\<open>evdi\<close>
    (\<^verbatim>\<open>evdi/evdi/module\<close>) is a graphics card without hardware: a compositor draws into its framebuffers, a
    commit marks what has changed, and a daemon that has opened the card grabs the changed pixels. The library
    (\<^verbatim>\<open>evdi/evdi/library\<close>) wraps the ioctls and events of the module. The daemon (\<^verbatim>\<open>evdi_t6/evdi_t6_1\<close>)
    connects one card per display of an adapter with the EDID of its monitor; one thread grabs and compresses frames into a queue,
    another sends them over USB, a third dispatches the events of the card.

  Below, E is \<^verbatim>\<open>extracted/ubuntu_T6_260223/evdi_t6/evdi_t6_1\<close>, K is \<^verbatim>\<open>extracted/ubuntu_T6_260223/evdi/evdi/module\<close>
  and L is \<^verbatim>\<open>extracted/ubuntu_T6_260223/evdi/evdi/library\<close>.

  \<^bold>\<open>Shared ground.\<close>

  \<^item> \<open>Prelude\<close>: the machine integers, undefined behaviour as error values, the sequencing \<open>ebind\<close>, lemmas
    on words and lists. \<open>Machines\<close>: step relations that may fault, with the contracts \<open>kept_invariant\<close> and \<open>never_faults\<close>
    that the painter, the buffer objects, the framebuffers, the table of devices and the threads of the daemon interpret. \<open>WireBytes\<close>: little-endian fields, with the contract \<open>field_codec\<close> of one field and \<open>two_fields\<close> of two.
    \<open>Fragments\<close>: the contract \<open>fragmenter\<close> of code that cuts a payload into packets; the library, the DRM driver
    and the daemon each interpret it. \<open>UsbTransport\<close>: the USB stacks, which are parameters.

  \<^bold>\<open>Protocol library and DRM driver.\<close>

  \<^item> \<open>T6Proto\<close>: \<^verbatim>\<open>t6proto.c\<close>, complete. What is written is what is read back, headers have their layout, and the
    fragments of a payload concatenate to it.
  \<^item> \<open>Trigger6\<close>: commands, connector, pipe and probe. An update of the pipe sends the whole frame in blocks, with the headers of the
    library; every failure of an answer is followed. \<open>UrbPool\<close>: the pool of USB request blocks as a step relation, in which no block is ever handed
    out twice, its tear-down, and the sender of rectangles.

  \<^bold>\<open>Daemon.\<close>

  \<^item> \<open>FrameQueue\<close> (E/\<^verbatim>\<open>queue.c\<close>): the linked queue over a heap of nodes refines a list; draining it ends and frees everything.
  \<^item> \<open>CeaEdid\<close> (E/\<^verbatim>\<open>cea_edid.c\<close>): the walk over an EDID with every read checked; it stays inside its buffer, ends, and
    detects exactly the codes it looks for.
  \<^item> \<open>UsbDongle\<close> (E/\<^verbatim>\<open>t6usbdongle.c\<close>, E/\<^verbatim>\<open>t6.h\<close>): commands, resolution tables, EDID, cursor, firmware; a frame goes out
    with exactly the headers of the protocol library. \<open>PixelClock\<close>: its computation with doubles of the divider of a pixel clock, in rationals
    with the roundings of IEEE 754, exact up to a step of the fraction.
  \<^item> \<open>DaemonMemory\<close>, \<open>DaemonCapture\<close>, \<open>DaemonDevice\<close>, \<open>DaemonThreads\<close>, \<open>DaemonCursor\<close> (E/\<^verbatim>\<open>main.c\<close>): the layout of the memory of the adapter
    and where frames go in it; encoding; the search for devices and the start and end of displays; the three threads of a
    display as an interleaving step relation, with the order of frames and the ownership of the video buffer as invariants and
    the reachable faults; handlers and threads of the cursor. \<open>T6Contrl\<close> (E/\<^verbatim>\<open>T6contrl.c\<close>): the command line tool.

  \<^bold>\<open>Kernel module.\<close>

  \<^item> \<open>EvdiFb\<close>, \<open>EvdiRects\<close>, \<open>EvdiCursor\<close>: framebuffers (K/\<^verbatim>\<open>evdi_fb.c\<close>), dirty rectangles, with the contract \<open>rect_compactor\<close> of
    the two ways to reduce them, and the software cursor (K/\<^verbatim>\<open>evdi_cursor.c\<close>). \<open>RectLattice\<close>: the
    rectangles as a lattice of the library, whose suprema collapsing computes. \<open>EvdiFbUser\<close> (K/\<^verbatim>\<open>evdi_fb.c\<close>): the framebuffers of the
    compositor and the references on their objects as a state machine.
  \<^item> \<open>EvdiPainter\<close> (K/\<^verbatim>\<open>evdi_painter.c\<close>): all of the painter. \<open>PainterDirty\<close>: no marked pixel is lost and a grab
    copies exactly the dirty pixels. \<open>PainterSteps\<close>: the painter as a state machine; no reachable state faults.
    \<open>PainterEvents\<close>: order of events, vertical blanks, references, updates, DDC/CI.
  \<^item> \<open>EvdiModeset\<close> (K/\<^verbatim>\<open>evdi_modeset.c\<close>): what a commit does to the painter. \<open>EvdiLegacy\<close>: the entry points of older kernels, the cursor of
    K/\<^verbatim>\<open>evdi_modeset.c\<close> and the drawn framebuffer of K/\<^verbatim>\<open>evdi_fb.c\<close>. \<open>EvdiConnector\<close> (K/\<^verbatim>\<open>evdi_connector.c\<close>,
    K/\<^verbatim>\<open>evdi_i2c.c\<close>): the monitor, the modes accepted, the bus. \<open>EvdiGem\<close> (K/\<^verbatim>\<open>evdi_gem.c\<close>): the pages, pins and
    mappings of buffer objects as a state machine with its accounts. \<open>EvdiMapping\<close>: the two ways to map a foreign buffer, and the measured
    copy of the debugging file system.
  \<^item> \<open>EvdiDrm\<close> (K/\<^verbatim>\<open>evdi_drm_drv.c\<close>, K/\<^verbatim>\<open>evdi_fb.c\<close>): what a device and its console allocate and free, over pointers that are null, live or
    freed. \<open>EvdiPipe\<close> (K/\<^verbatim>\<open>evdi_modeset.c\<close>, K/\<^verbatim>\<open>evdi_encoder.c\<close>, K/\<^verbatim>\<open>evdi_connector.c\<close>): the objects of the pipeline and the adapter of the
    bus, with what their failures leave. \<open>EvdiPlatform\<close> (K/\<^verbatim>\<open>evdi_platform_drv.c\<close>, K/\<^verbatim>\<open>evdi_platform_dev.c\<close>): the table of devices as a state machine.
    \<open>EvdiSysfs\<close> (K/\<^verbatim>\<open>evdi_sysfs.c\<close>): the files through which devices are added.
    \<open>EvdiCompat\<close> (K/\<^verbatim>\<open>evdi_ioc32.c\<close>): the requests of 32-bit processes, over the memory of the process.

  \<^bold>\<open>Library.\<close>

  \<^item> \<open>EvdiLib\<close> (L/\<^verbatim>\<open>evdi_lib.c\<close>, L/\<^verbatim>\<open>evdi_procfs.c\<close>): ioctls, search for cards, handles, buffers, grabbing, events.
    \<open>LibState\<close>: the registry of buffers refines a finite map (contract \<open>keyed_store\<close>), the table of cards names open handles.
    \<open>LibEvents\<close>: the events of the module, as bytes, reach the handlers. \<open>EvdiStack\<close>: library and painter together.
    \<open>EvdiCommit\<close>: the way of a commit from the plane and the crtc through the painter into the daemon's buffer.
    \<open>EndToEnd\<close>: from there through the encoder and the transfers of the daemon to the adapter.

  \<^bold>\<open>How the code is modelled.\<close> A structure is a record, a w-bit integer a \<open>w word\<close> wherever it can wrap, a C \<^verbatim>\<open>int\<close> that stays far from its bounds an
  \<open>int\<close>. Undefined behaviour is an error value (\<open>Inl\<close>), a return code an \<open>int\<close>; where an operation may fail for lack of memory or
  by the answer of the kernel, the answer is an argument. An operation under a lock is one step. Code that
  is not in the repository is a parameter: USB stacks, TurboJPEG, the DRM core, the file system; what a theorem needs of
  it is a hypothesis of the theorem.

  \<^bold>\<open>Loops.\<close> Loops over data are structural recursions or functions with a measure, so that they return. The loops that may not are
  \<open>partial_function (option)\<close>: the retries of an interrupted ioctl and the dispatch of events in \<open>EvdiLib\<close>, the drain of the queue in
  \<open>FrameQueue\<close>, the wait for a free card in \<open>DaemonDevice\<close> and the commit of a drawn framebuffer in \<open>EvdiLegacy\<close>; their theorems say when they return. There is no fuel. The threads of the daemon are step relations, which need none.

  \<^bold>\<open>Not modelled.\<close> Tables of operations and callbacks that do nothing; logging and debugging; the branches for kernels before 5.8 and, in \<^verbatim>\<open>evdi_modeset.c\<close>, before 5.13, but for the entry points of \<open>EvdiLegacy\<close>; the disabled code of the daemon
  (audio, \<^verbatim>\<open>USE4KJPEG\<close>) with \<^verbatim>\<open>pulseaudio_list.c\<close>; \<^verbatim>\<open>simclist\<close> and \<^verbatim>\<open>turbojpeg.h\<close>, which are third-party; the Python
  binding, which is C++; the test programs. The manifest lists every part with its status.
\<close>

end
